(* ===== verification/NVM_Prelude.thy ===== *)
theory NVM_Prelude
  imports Complex_Main "HOL-Library.Word" "HOL-Library.Monad_Syntax"
begin

text \<open>
  Shared vocabulary of the development: the machine integer types of
  \<^verbatim>\<open>src/NVmain/include/NVMTypes.h\<close>, the bit shifts of C++ with the undefined case made
  explicit, the fragment of \<^verbatim>\<open>std::map\<close> that the components use (a key-sorted association
  list), and the generic lemmas on lists, options and words that the component proofs share.

  Conventions used everywhere:
  \<^item> an unsigned 64-bit integer is a \<open>64 word\<close>, so additions and subtractions wrap around
    exactly as \<^verbatim>\<open>uint64_t\<close> does; a signed \<^verbatim>\<open>int64_t\<close> is the same word read with \<open>sint\<close>;
  \<^item> a C++ \<^verbatim>\<open>int\<close> is an \<open>int\<close> (signed overflow is undefined in C++ and no modelled code relies
    on it);
  \<^item> a \<^verbatim>\<open>double\<close> is a \<open>real\<close>: rounding is not modelled;
  \<^item> a computation that may abort (a failed \<^verbatim>\<open>assert\<close>, a null or dangling pointer, an index out
    of bounds, an undefined shift) has an \<open>option\<close> result and \<open>None\<close> is the abort.
\<close>

section \<open>Types\<close>

type_synonym u8 = "8 word"
type_synonym u32 = "32 word"
type_synonym u64 = "64 word"

type_synonym ncycle_t = u64
type_synonym ncycles_t = u64
type_synonym ncounter_t = u64

type_synonym req_ptr = nat
type_synonym obj_id = nat

named_theorems nvm_post "rules that establish a postcondition"
named_theorems nvm_returns "rules that establish that a computation returns"
named_theorems nvm_frame \<open>fields an operation leaves unchanged\<close>
named_theorems nvm_mono \<open>timing counters that never move backwards\<close>
named_theorems nvm_wf \<open>operations that preserve the well-formedness invariant\<close>

section \<open>Undefined behaviour of shifts\<close>

text \<open>A shift by at least the width of the left operand is undefined in C++.\<close>

definition shl64 :: "u64 \<Rightarrow> nat \<Rightarrow> u64 option" where
  "shl64 x n = (if n < 64 then Some (push_bit n x) else None)"

definition shr64 :: "u64 \<Rightarrow> nat \<Rightarrow> u64 option" where
  "shr64 x n = (if n < 64 then Some (drop_bit n x) else None)"

lemma shl64_Some [simp]: "n < 64 \<Longrightarrow> shl64 x n = Some (push_bit n x)"
  by (simp add: shl64_def)

lemma shr64_Some [simp]: "n < 64 \<Longrightarrow> shr64 x n = Some (drop_bit n x)"
  by (simp add: shr64_def)

lemma shl64_None [simp]: "64 \<le> n \<Longrightarrow> shl64 x n = None"
  by (simp add: shl64_def)

lemma shr64_None [simp]: "64 \<le> n \<Longrightarrow> shr64 x n = None"
  by (simp add: shr64_def)

text \<open>The same with a signed shift count: a negative count is undefined as well.\<close>

definition shl64i :: "u64 \<Rightarrow> int \<Rightarrow> u64 option" where
  "shl64i x k = (if 0 \<le> k then shl64 x (nat k) else None)"

definition shr64i :: "u64 \<Rightarrow> int \<Rightarrow> u64 option" where
  "shr64i x k = (if 0 \<le> k then shr64 x (nat k) else None)"

section \<open>Guards\<close>

text \<open>A C++ \<^verbatim>\<open>assert\<close>: the program continues only when the condition holds.\<close>

definition cpp_assert :: "bool \<Rightarrow> unit option" where
  "cpp_assert b = (if b then Some () else None)"

lemma cpp_assert_simps [simp]:
  "cpp_assert True = Some ()" "cpp_assert False = None"
  "(cpp_assert b = Some u) = b" "(cpp_assert b = None) = (\<not> b)"
  by (auto simp: cpp_assert_def)

section \<open>Postconditions\<close>

text \<open>
  \<open>post m Q\<close>: if the computation \<open>m\<close> returns, its result satisfies \<open>Q\<close>. The rules of
  \<open>nvm_post\<close> push a postcondition through a program one construct at a time, keeping the value of
  each \<open>let\<close> as a named fact; a component adds a rule for each of its operations.
\<close>

definition post :: "'a option \<Rightarrow> ('a \<Rightarrow> bool) \<Rightarrow> bool" where
  "post m Q \<longleftrightarrow> (\<forall>x. m = Some x \<longrightarrow> Q x)"

lemma post_any: "(\<And>x. m = Some x \<Longrightarrow> Q x) \<Longrightarrow> post m Q"
  by (simp add: post_def)

lemma postD: "post m Q \<Longrightarrow> m = Some x \<Longrightarrow> Q x"
  by (simp add: post_def)

lemma post_weaken: "post m Q \<Longrightarrow> (\<And>x. Q x \<Longrightarrow> Q' x) \<Longrightarrow> post m Q'"
  by (simp add: post_def)

lemma post_Some [nvm_post]: "Q x \<Longrightarrow> post (Some x) Q"
  by (simp add: post_def)

lemma post_None [nvm_post]: "post None Q"
  by (simp add: post_def)

lemma post_bind [nvm_post]: "post m (\<lambda>x. post (f x) Q) \<Longrightarrow> post (Option.bind m f) Q"
  by (auto simp: post_def bind_eq_Some_conv)

lemma post_if [nvm_post]: "(b \<Longrightarrow> post m Q) \<Longrightarrow> (\<not> b \<Longrightarrow> post n Q) \<Longrightarrow> post (if b then m else n) Q"
  by simp

lemma post_Let [nvm_post]: "(\<And>x. x = e \<Longrightarrow> post (f x) Q) \<Longrightarrow> post (Let e f) Q"
  by (simp add: Let_def)

lemma post_pair [nvm_post]: "post (f a b) Q \<Longrightarrow> post (case_prod f (a, b)) Q"
  by simp

lemma post_case_option [nvm_post]:
  "(x = None \<Longrightarrow> post m Q) \<Longrightarrow> (\<And>y. x = Some y \<Longrightarrow> post (f y) Q) \<Longrightarrow> post (case_option m f x) Q"
  by (cases x) simp_all

lemma post_cpp_assert [nvm_post]: "(b \<Longrightarrow> Q ()) \<Longrightarrow> post (cpp_assert b) Q"
  by (simp add: post_def cpp_assert_def)

text \<open>
  \<open>returns m Q\<close>: the computation \<open>m\<close> returns and its result satisfies \<open>Q\<close>; the rules are collected
  in \<open>nvm_returns\<close>.
\<close>

definition returns :: "'a option \<Rightarrow> ('a \<Rightarrow> bool) \<Rightarrow> bool" where
  "returns m Q \<longleftrightarrow> (\<exists>x. m = Some x \<and> Q x)"

lemma returnsI: "m = Some x \<Longrightarrow> Q x \<Longrightarrow> returns m Q"
  by (simp add: returns_def)

lemma returnsD: "returns m Q \<Longrightarrow> \<exists>x. m = Some x \<and> Q x"
  by (simp add: returns_def)

lemma returns_Some [nvm_returns]: "Q x \<Longrightarrow> returns (Some x) Q"
  by (simp add: returns_def)

lemma returns_bind [nvm_returns]: "returns m (\<lambda>x. returns (f x) Q) \<Longrightarrow> returns (Option.bind m f) Q"
  by (auto simp: returns_def)

lemma returns_if [nvm_returns]:
  "(b \<Longrightarrow> returns m Q) \<Longrightarrow> (\<not> b \<Longrightarrow> returns n Q) \<Longrightarrow> returns (if b then m else n) Q"
  by simp

lemma returns_Let [nvm_returns]: "(\<And>x. x = e \<Longrightarrow> returns (f x) Q) \<Longrightarrow> returns (Let e f) Q"
  by (simp add: Let_def)

lemma returns_pair [nvm_returns]: "returns (f a b) Q \<Longrightarrow> returns (case_prod f (a, b)) Q"
  by simp

lemma returns_case_option [nvm_returns]:
  "(x = None \<Longrightarrow> returns m Q) \<Longrightarrow> (\<And>y. x = Some y \<Longrightarrow> returns (f y) Q) \<Longrightarrow> returns (case_option m f x) Q"
  by (cases x) simp_all

lemma returns_cpp_assert [nvm_returns]: "b \<Longrightarrow> Q () \<Longrightarrow> returns (cpp_assert b) Q"
  by (simp add: returns_def cpp_assert_def)

section \<open>Ordered maps\<close>

text \<open>
  \<^verbatim>\<open>std::map\<close> keeps its entries sorted by key, with \<^verbatim>\<open>begin()\<close> at the least key. The model is
  an association list whose keys strictly increase.
\<close>

type_synonym ('k, 'v) omap = "('k \<times> 'v) list"

fun omap_set :: "'k::linorder \<Rightarrow> 'v \<Rightarrow> ('k, 'v) omap \<Rightarrow> ('k, 'v) omap" where
  "omap_set k v [] = [(k, v)]"
| "omap_set k v ((k', v') # m) =
     (if k < k' then (k, v) # (k', v') # m
      else if k = k' then (k, v) # m
      else (k', v') # omap_set k v m)"

fun omap_erase :: "'k \<Rightarrow> ('k, 'v) omap \<Rightarrow> ('k, 'v) omap" where
  "omap_erase k [] = []"
| "omap_erase k ((k', v') # m) = (if k = k' then m else (k', v') # omap_erase k m)"

definition omap_count :: "'k \<Rightarrow> ('k, 'v) omap \<Rightarrow> bool" where
  "omap_count k m \<longleftrightarrow> map_of m k \<noteq> None"

definition omap_wf :: "('k::linorder, 'v) omap \<Rightarrow> bool" where
  "omap_wf m \<longleftrightarrow> sorted_wrt (<) (map fst m)"

lemma omap_wf_Nil [simp]: "omap_wf []"
  by (simp add: omap_wf_def)

lemma omap_wf_Cons: "omap_wf ((k, v) # m) \<longleftrightarrow> (\<forall>k' \<in> fst ` set m. k < k') \<and> omap_wf m"
  by (auto simp: omap_wf_def)

lemma omap_wf_tl: "omap_wf (x # m) \<Longrightarrow> omap_wf m"
  by (cases x) (simp add: omap_wf_Cons)

lemma fst_omap_set: "fst ` set (omap_set k v m) = insert k (fst ` set m)"
  by (induction k v m rule: omap_set.induct) auto

lemma omap_wf_set: "omap_wf m \<Longrightarrow> omap_wf (omap_set k v m)"
  by (induction k v m rule: omap_set.induct) (auto simp: omap_wf_Cons fst_omap_set)

lemma set_omap_erase: "set (omap_erase k m) \<subseteq> set m"
  by (induction k m rule: omap_erase.induct) auto

lemma omap_wf_erase: "omap_wf m \<Longrightarrow> omap_wf (omap_erase k m)"
proof (induction k m rule: omap_erase.induct)
  case (2 k k' v' m)
  then show ?case using set_omap_erase [of k m] by (auto simp: omap_wf_Cons)
qed simp

lemma omap_lookup_None: "omap_wf m \<Longrightarrow> \<forall>k' \<in> fst ` set m. k < k' \<Longrightarrow> map_of m k = None"
  by (auto simp: map_of_eq_None_iff)

lemma omap_lookup_set: "omap_wf m \<Longrightarrow> map_of (omap_set k v m) = (map_of m)(k \<mapsto> v)"
proof (induction k v m rule: omap_set.induct)
  case (2 k v k' v' m)
  then show ?case by (auto simp: omap_wf_Cons fun_eq_iff map_of_eq_None_iff)
qed auto

lemma omap_lookup_erase: "omap_wf m \<Longrightarrow> map_of (omap_erase k m) = (map_of m)(k := None)"
proof (induction k m rule: omap_erase.induct)
  case (2 k k' v' m)
  moreover have "map_of m k' = None"
    using "2.prems" by (auto simp: omap_wf_Cons map_of_eq_None_iff)
  ultimately show ?case by (auto simp: omap_wf_Cons fun_eq_iff)
qed auto

lemma omap_begin_least: "omap_wf m \<Longrightarrow> m \<noteq> [] \<Longrightarrow> k \<in> fst ` set m \<Longrightarrow> fst (hd m) \<le> k"
  by (cases m) (auto simp: omap_wf_def)

lemma omap_alist: "omap_wf m \<Longrightarrow> m = map (\<lambda>k. (k, the (map_of m k))) (map fst m)"
proof (induction m)
  case (Cons x m)
  obtain k v where x: "x = (k, v)" by (cases x)
  with Cons.prems have "\<forall>y \<in> set m. fst y \<noteq> k" and wf: "omap_wf m" by (auto simp: omap_wf_Cons)
  then have "map (\<lambda>k'. (k', the (map_of (x # m) k'))) (map fst m)
      = map (\<lambda>k'. (k', the (map_of m k'))) (map fst m)" using x by auto
  moreover have "m = map (\<lambda>k'. (k', the (map_of m k'))) (map fst m)" by (rule Cons.IH [OF wf])
  ultimately have "m = map (\<lambda>k'. (k', the (map_of (x # m) k'))) (map fst m)" by (rule trans [rotated, OF sym])
  moreover have "x = (fst x, the (map_of (x # m) (fst x)))" using x by simp
  ultimately show ?case unfolding list.map by (rule arg_cong2 [where f = "(#)", rotated])
qed simp

lemma omap_eqI:
  assumes "omap_wf m" "omap_wf m'" "map_of m = map_of m'"
  shows "m = m'"
proof -
  have "fst ` set m = fst ` set m'" using assms(3) by (metis dom_map_of_conv_image_fst)
  then have "map fst m = map fst m'"
    using assms(1,2) by (intro strict_sorted_equal) (simp_all add: omap_wf_def)
  then show ?thesis using omap_alist [OF assms(1)] omap_alist [OF assms(2)] assms(3) by metis
qed

text \<open>A well-formed map splits at a key into the entries below and above it.\<close>

lemma omap_split:
  assumes "omap_wf m"
  shows "\<exists>m1 m2. (\<forall>x \<in> fst ` set m1. x < k) \<and> (\<forall>x \<in> fst ` set m2. k < x)
    \<and> m = m1 @ (case map_of m k of None \<Rightarrow> [] | Some v \<Rightarrow> [(k, v)]) @ m2
    \<and> (\<forall>v'. omap_set k v' m = m1 @ (k, v') # m2) \<and> omap_erase k m = m1 @ m2"
  using assms
proof (induction m)
  case Nil
  show ?case by (intro exI [of _ "[]"]) simp
next
  case (Cons x m)
  obtain k' v where x: "x = (k', v)" by (cases x)
  from Cons.prems x have wf: "\<forall>y \<in> fst ` set m. k' < y" "omap_wf m" by (simp_all add: omap_wf_Cons)
  consider "k < k'" | "k = k'" | "k' < k" by fastforce
  then show ?case
  proof cases
    case 1
    with wf have none: "map_of m k = None" "k \<notin> fst ` set m" by (auto simp: map_of_eq_None_iff)
    moreover have "omap_erase k m = m" using none(2) by (induction m) auto
    ultimately show ?thesis
      using 1 wf x by (intro exI [of _ "[]"] exI [of _ "x # m"]) auto
  next
    case 2
    then show ?thesis using wf x by (intro exI [of _ "[]"] exI [of _ m]) auto
  next
    case 3
    from Cons.IH [OF wf(2)] obtain m1 m2 where m: "\<forall>x \<in> fst ` set m1. x < k"
      "\<forall>x \<in> fst ` set m2. k < x"
      "m = m1 @ (case map_of m k of None \<Rightarrow> [] | Some v \<Rightarrow> [(k, v)]) @ m2"
      "\<forall>v'. omap_set k v' m = m1 @ (k, v') # m2" "omap_erase k m = m1 @ m2" by blast
    have "x # m = (x # m1) @ (case map_of (x # m) k of None \<Rightarrow> [] | Some v \<Rightarrow> [(k, v)]) @ m2"
      using m(3) 3 x by auto
    moreover have "\<forall>y \<in> fst ` set (x # m1). y < k" using m(1) 3 x by simp
    moreover have "\<forall>v'. omap_set k v' (x # m) = (x # m1) @ (k, v') # m2"
      "omap_erase k (x # m) = (x # m1) @ m2"
      using m(4,5) 3 x by auto
    ultimately show ?thesis using m(2) by blast
  qed
qed

text \<open>The contract of \<^verbatim>\<open>std::map\<close> as its clients use it.\<close>

locale ordered_map =
  fixes insert_at :: "'k::linorder \<Rightarrow> 'v \<Rightarrow> 'm \<Rightarrow> 'm"
    and erase :: "'k \<Rightarrow> 'm \<Rightarrow> 'm"
    and find :: "'m \<Rightarrow> 'k \<Rightarrow> 'v option"
    and first :: "'m \<Rightarrow> 'k option"
    and ok :: "'m \<Rightarrow> bool"
  assumes ok_insert: "ok m \<Longrightarrow> ok (insert_at k v m)"
    and ok_erase: "ok m \<Longrightarrow> ok (erase k m)"
    and find_insert: "ok m \<Longrightarrow> find (insert_at k v m) = (find m)(k \<mapsto> v)"
    and find_erase: "ok m \<Longrightarrow> find (erase k m) = (find m)(k := None)"
    and first_None: "ok m \<Longrightarrow> first m = None \<longleftrightarrow> dom (find m) = {}"
    and first_mem: "ok m \<Longrightarrow> first m = Some k \<Longrightarrow> k \<in> dom (find m)"
    and first_le: "ok m \<Longrightarrow> first m = Some k \<Longrightarrow> k' \<in> dom (find m) \<Longrightarrow> k \<le> k'"
begin

lemma first_insert:
  assumes "ok m"
  shows "first (insert_at k v m) = Some (case first m of None \<Rightarrow> k | Some k' \<Rightarrow> min k k')"
proof -
  have dom: "dom (find (insert_at k v m)) = insert k (dom (find m))"
    using assms by (simp add: find_insert)
  obtain f where f: "first (insert_at k v m) = Some f"
    using dom first_None [OF ok_insert [OF assms]] by (cases "first (insert_at k v m)") auto
  have f_in: "f \<in> insert k (dom (find m))"
    using first_mem [OF ok_insert [OF assms] f] dom by simp
  have f_le: "f \<le> k'" if "k' \<in> insert k (dom (find m))" for k'
    using first_le [OF ok_insert [OF assms] f] dom that by simp
  show ?thesis
  proof (cases "first m")
    case None
    then have "dom (find m) = {}" using first_None [OF assms] by simp
    then show ?thesis using None f f_in by simp
  next
    case (Some g)
    have "min k g \<le> f"
      using f_in first_le [OF assms Some, of f] by (auto simp: min_le_iff_disj)
    moreover have "f \<le> min k g"
      using f_le [of k] f_le [of g] first_mem [OF assms Some] by simp
    ultimately show ?thesis using Some f by simp
  qed
qed

lemma erase_least:
  assumes "ok m" "first m = Some k" "k' \<in> dom (find (erase k m))"
  shows "k < k'"
  using assms first_le [of m k k'] by (auto simp: find_erase split: if_splits)

end

definition omap_first :: "('k, 'v) omap \<Rightarrow> 'k option" where
  "omap_first m = (case m of [] \<Rightarrow> None | (k, _) # _ \<Rightarrow> Some k)"

interpretation om: ordered_map omap_set omap_erase map_of omap_first omap_wf
proof (unfold_locales, goal_cases)
  case (1 m k v) then show ?case by (rule omap_wf_set)
next
  case (2 m k) then show ?case by (rule omap_wf_erase)
next
  case (3 m k v) then show ?case by (rule omap_lookup_set)
next
  case (4 m k) then show ?case by (rule omap_lookup_erase)
next
  case (5 m) then show ?case by (cases m) (auto simp: omap_first_def)
next
  case (6 m k) then show ?case by (cases m) (auto simp: omap_first_def)
next
  case (7 m k k')
  then show ?case
    using omap_begin_least [of m k']
    by (cases m) (auto simp: omap_first_def dom_map_of_conv_image_fst)
qed

section \<open>Words\<close>

lemma unat_less_2_64: "unat (x :: u64) < 2 ^ 64"
  by (rule order.strict_trans2 [OF unsigned_less]) simp

lemma unat_add_u64: "unat (a :: u64) + unat b < 2 ^ 64 \<Longrightarrow> unat (a + b) = unat a + unat b"
  by (simp add: unat_word_ariths)

lemma unat_mult_u64: "unat (a :: u64) * unat b < 2 ^ 64 \<Longrightarrow> unat (a * b) = unat a * unat b"
  by (simp add: unat_word_ariths)

lemma unat_sub_u64: "b \<le> a \<Longrightarrow> unat ((a :: u64) - b) = unat a - unat b"
  by (rule unat_sub)

lemma unat_drop_bit: "unat (drop_bit n (x :: 'a::len word)) = unat x div 2 ^ n"
  unfolding unat_drop_bit_eq by (rule drop_bit_eq_div)

lemma unat_take_bit: "unat (take_bit n (x :: 'a::len word)) = unat x mod 2 ^ n"
  unfolding unsigned_take_bit_eq by (rule take_bit_eq_mod)

lemma unat_push_bit: "unat x * 2 ^ n < 2 ^ 64 \<Longrightarrow> unat (push_bit n (x :: u64)) = unat x * 2 ^ n"
  unfolding unsigned_push_bit_eq by (simp add: take_bit_eq_mod push_bit_eq_mult)

section \<open>Lists\<close>

lemma foldl_induct_inv:
  assumes "P a" and "\<And>a x. P a \<Longrightarrow> x \<in> set xs \<Longrightarrow> P (f a x)"
  shows "P (foldl f a xs)"
  using assms by (induction xs arbitrary: a) auto

lemma filter_below:
  fixes f :: "'a \<Rightarrow> 'k::linorder"
  assumes "\<forall>x \<in> set xs. f x < k"
  shows "[x \<leftarrow> xs. f x < k] = xs" "[x \<leftarrow> xs. f x = k] = []" "[x \<leftarrow> xs. k < f x] = []"
  using assms by (induction xs) auto

lemma filter_above:
  fixes f :: "'a \<Rightarrow> 'k::linorder"
  assumes "\<forall>x \<in> set xs. k < f x"
  shows "[x \<leftarrow> xs. k < f x] = xs" "[x \<leftarrow> xs. f x = k] = []" "[x \<leftarrow> xs. f x < k] = []"
  using assms by (induction xs) auto

lemma filter_at:
  fixes f :: "'a \<Rightarrow> 'k::linorder"
  assumes "\<forall>x \<in> set xs. f x = k"
  shows "[x \<leftarrow> xs. f x = k] = xs" "[x \<leftarrow> xs. f x < k] = []" "[x \<leftarrow> xs. k < f x] = []"
  using assms by (induction xs) auto

lemma list_update_same_length [simp]: "length (xs[i := v]) = length xs"
  by simp

end
