(* ===== verification/NVM_Request.thy ===== *)
theory NVM_Request
  imports NVM_Prelude
begin

unbundle bit_operations_syntax

text \<open>
  The data that travels through the simulator, from \<^verbatim>\<open>src/NVmain/include\<close>: \<^verbatim>\<open>NVMAddress\<close>
  (physical and decoded address), \<^verbatim>\<open>NVMDataBlock\<close> (a heap-allocated byte buffer),
  \<^verbatim>\<open>NVMainRequest\<close> (command, address, data, flags and time stamps) and the helper
  \<^verbatim>\<open>mlog2\<close>. Reads and writes outside a buffer and through a null buffer are the result
  \<open>None\<close>.
\<close>

section \<open>NVMAddress\<close>

record NVMAddress =
  translated :: bool
  hasPhysicalAddress :: bool
  physicalAddress :: u64
  subarray :: u64
  row :: u64
  col :: u64
  bank :: u64
  rank :: u64
  channel :: u64
  bitAddr :: u64

text \<open>
  A constructor writes into storage whose old contents are unspecified; \<open>g\<close> is that old
  content, which survives in the fields that the constructor does not set.
\<close>

definition NVMAddress_new :: "NVMAddress \<Rightarrow> NVMAddress" where
  "NVMAddress_new g = g\<lparr>translated := False, hasPhysicalAddress := False, physicalAddress := 0,
     subarray := 0, row := 0, col := 0, bank := 0, rank := 0, channel := 0\<rparr>"

definition SetTranslatedAddress ::
  "u64 \<Rightarrow> u64 \<Rightarrow> u64 \<Rightarrow> u64 \<Rightarrow> u64 \<Rightarrow> u64 \<Rightarrow> NVMAddress \<Rightarrow> NVMAddress" where
  "SetTranslatedAddress addrRow addrCol addrBank addrRank addrChannel addrSA a =
     a\<lparr>translated := True, row := addrRow, col := addrCol, bank := addrBank, rank := addrRank,
       channel := addrChannel, subarray := addrSA\<rparr>"

definition NVMAddress_of ::
  "NVMAddress \<Rightarrow> u64 \<Rightarrow> u64 \<Rightarrow> u64 \<Rightarrow> u64 \<Rightarrow> u64 \<Rightarrow> u64 \<Rightarrow> NVMAddress" where
  "NVMAddress_of g addrRow addrCol addrBank addrRank addrChannel addrSA =
     SetTranslatedAddress addrRow addrCol addrBank addrRank addrChannel addrSA g"

definition SetPhysicalAddress :: "u64 \<Rightarrow> NVMAddress \<Rightarrow> NVMAddress" where
  "SetPhysicalAddress pAddress a = a\<lparr>hasPhysicalAddress := True, physicalAddress := pAddress\<rparr>"

definition SetBitAddress :: "u8 \<Rightarrow> NVMAddress \<Rightarrow> NVMAddress" where
  "SetBitAddress b a = a\<lparr>bitAddr := ucast b\<rparr>"

definition GetTranslatedAddress :: "NVMAddress \<Rightarrow> u64 \<times> u64 \<times> u64 \<times> u64 \<times> u64 \<times> u64" where
  "GetTranslatedAddress a = (row a, col a, bank a, rank a, channel a, subarray a)"

definition NVMAddress_assign :: "NVMAddress \<Rightarrow> NVMAddress \<Rightarrow> NVMAddress" where
  "NVMAddress_assign m a = a\<lparr>translated := translated m,
     hasPhysicalAddress := hasPhysicalAddress m, physicalAddress := physicalAddress m,
     row := row m, col := col m, bank := bank m, rank := rank m, channel := channel m,
     subarray := subarray m, bitAddr := bitAddr m\<rparr>"

lemma NVMAddress_assign_eq [simp]: "NVMAddress_assign m a = m"
  by (simp add: NVMAddress_assign_def)

lemma GetTranslatedAddress_SetTranslatedAddress [simp]:
  "GetTranslatedAddress (SetTranslatedAddress r c b k h s a) = (r, c, b, k, h, s)"
  by (simp add: GetTranslatedAddress_def SetTranslatedAddress_def)

lemma SetTranslatedAddress_keeps_physical [simp]:
  "physicalAddress (SetTranslatedAddress r c b k h s a) = physicalAddress a"
  "hasPhysicalAddress (SetTranslatedAddress r c b k h s a) = hasPhysicalAddress a"
  "translated (SetTranslatedAddress r c b k h s a)"
  by (simp_all add: SetTranslatedAddress_def)

section \<open>NVMDataBlock\<close>

text \<open>
  \<open>rawData\<close> is the allocated buffer (\<open>None\<close> for the null pointer); its length is what was
  passed to \<^verbatim>\<open>new\<close> and need not be \<open>dsize\<close>. The bytes that \<^verbatim>\<open>new uint8_t[s]\<close> leaves
  uninitialised are the argument \<open>g\<close>.
\<close>

record NVMDataBlock =
  rawData :: "u8 list option"
  isValid :: bool
  dsize :: u64

definition NVMDataBlock_new :: NVMDataBlock where
  "NVMDataBlock_new = \<lparr>rawData = None, isValid = False, dsize = 0\<rparr>"

definition raw_alloc :: "(nat \<Rightarrow> u8) \<Rightarrow> u64 \<Rightarrow> u8 list" where
  "raw_alloc g s = map g [0..<unat s]"

definition SetSize :: "(nat \<Rightarrow> u8) \<Rightarrow> u64 \<Rightarrow> NVMDataBlock \<Rightarrow> NVMDataBlock option" where
  "SetSize g s d = do {
     cpp_assert (rawData d = None);
     Some (d\<lparr>rawData := Some (raw_alloc g s), dsize := s, isValid := True\<rparr>)
   }"

definition GetByte :: "u64 \<Rightarrow> NVMDataBlock \<Rightarrow> u8 option" where
  "GetByte byte d =
     (if isValid d \<and> byte \<le> dsize d
      then do {
        buf \<leftarrow> rawData d;
        if unat byte < length buf then Some (buf ! unat byte) else None
      }
      else Some 0)"

definition SetByte :: "u64 \<Rightarrow> u8 \<Rightarrow> NVMDataBlock \<Rightarrow> NVMDataBlock option" where
  "SetByte byte value d =
     (if byte \<le> dsize d
      then do {
        buf \<leftarrow> rawData d;
        if unat byte < length buf
        then Some (d\<lparr>rawData := Some (buf[unat byte := value])\<rparr>)
        else None
      }
      else None)"

definition SetValid :: "bool \<Rightarrow> NVMDataBlock \<Rightarrow> NVMDataBlock" where
  "SetValid v d = d\<lparr>isValid := v\<rparr>"

definition NVMDataBlock_assign ::
  "(nat \<Rightarrow> u8) \<Rightarrow> NVMDataBlock \<Rightarrow> NVMDataBlock \<Rightarrow> NVMDataBlock option" where
  "NVMDataBlock_assign g m d = do {
     d \<leftarrow> (case rawData m of
        None \<Rightarrow> Some d
      | Some src \<Rightarrow>
          (let buf = (case rawData d of None \<Rightarrow> raw_alloc g (dsize m) | Some b \<Rightarrow> b)
           in if unat (dsize m) \<le> length src \<and> unat (dsize m) \<le> length buf
              then Some (d\<lparr>rawData :=
                Some (take (unat (dsize m)) src @ drop (unat (dsize m)) buf)\<rparr>)
              else None));
     Some (d\<lparr>isValid := isValid m, dsize := dsize m\<rparr>)
   }"

text \<open>A block whose buffer was allocated with the recorded size.\<close>

definition block_wf :: "NVMDataBlock \<Rightarrow> bool" where
  "block_wf d \<longleftrightarrow> (case rawData d of None \<Rightarrow> \<not> isValid d | Some buf \<Rightarrow> length buf = unat (dsize d))"

lemma length_raw_alloc [simp]: "length (raw_alloc g s) = unat s"
  by (simp add: raw_alloc_def)

lemma block_wf_new [nvm_wf, simp]: "block_wf NVMDataBlock_new"
  by (simp add: block_wf_def NVMDataBlock_new_def)

lemma block_wf_SetSize [nvm_wf]: "SetSize g s d = Some d' \<Longrightarrow> block_wf d'"
  by (auto simp: SetSize_def block_wf_def bind_eq_Some_conv)

lemma block_wf_SetByte [nvm_wf]: "block_wf d \<Longrightarrow> SetByte i v d = Some d' \<Longrightarrow> block_wf d'"
  by (auto simp: SetByte_def block_wf_def bind_eq_Some_conv split: if_splits)

lemma block_wf_assign [nvm_wf]:
  assumes "block_wf m" "NVMDataBlock_assign g m d = Some d'" "rawData d = None" "isValid m"
  shows "block_wf d'"
  using assms
  by (auto simp: NVMDataBlock_assign_def block_wf_def bind_eq_Some_conv Let_def
      split: option.splits if_splits)

lemma GetByte_in_range:
  assumes "block_wf d" "isValid d" "i < dsize d"
  shows "\<exists>buf. rawData d = Some buf \<and> unat i < length buf \<and> GetByte i d = Some (buf ! unat i)"
  using assms less_imp_le [OF assms(3)]
  by (auto simp: block_wf_def GetByte_def word_less_nat_alt split: option.splits)

lemma SetByte_in_range:
  assumes "block_wf d" "isValid d" "i < dsize d"
  shows "\<exists>d'. SetByte i v d = Some d'"
  using GetByte_in_range [OF assms] less_imp_le [OF assms(3)] by (auto simp: SetByte_def)

text \<open>A byte written inside the block is read back, and no other byte changes.\<close>

lemma GetByte_SetByte:
  assumes "block_wf d" "isValid d" "i < dsize d" "j < dsize d" "SetByte i v d = Some d'"
  shows "GetByte j d' = (if j = i then Some v else GetByte j d)"
proof -
  obtain buf where buf: "rawData d = Some buf" "length buf = unat (dsize d)"
    using assms(1,2) by (auto simp: block_wf_def split: option.splits)
  have ij: "unat i < length buf" "unat j < length buf"
    using assms(3,4) buf by (simp_all add: word_less_nat_alt)
  have d': "d' = d\<lparr>rawData := Some (buf[unat i := v])\<rparr>"
    using less_imp_le [OF assms(3)] assms(5) buf ij by (simp add: SetByte_def)
  show ?thesis
    using assms(2) less_imp_le [OF assms(4)] buf ij by (auto simp: d' GetByte_def nth_list_update word_unat_eq_iff)
qed

section \<open>NVMainRequest\<close>

datatype OpType =
    NOP | ACTIVATE | READ | READ_PRECHARGE | WRITE | WRITE_PRECHARGE | PRECHARGE | PRECHARGE_ALL
  | POWERDOWN_PDA | POWERDOWN_PDPF | POWERDOWN_PDPS | POWERUP | REFRESH | BUS_READ | BUS_WRITE
  | CACHED_READ | CACHED_WRITE

datatype MemRequestStatus =
  MEM_REQUEST_INCOMPLETE | MEM_REQUEST_COMPLETE | MEM_REQUEST_RETRY | MEM_REQUEST_NUM

datatype NVMAccessType = UNKNOWN_ACCESS | SUPERVISOR_ACCESS | USER_ACCESS

datatype BulkCommand =
    CMD_NOP | CMD_PRE | CMD_READPRE | CMD_READ2PRE | CMD_READ3PRE | CMD_READ4PRE | CMD_WRITEPRE
  | CMD_WRITE2PRE | CMD_WRITE3PRE | CMD_WRITE4PRE | CMD_ACTREADPRE | CMD_ACTREAD2PRE
  | CMD_ACTREAD3PRE | CMD_ACTREAD4PRE | CMD_ACTWRITEPRE | CMD_ACTWRITE2PRE | CMD_ACTWRITE3PRE
  | CMD_ACTWRITE4PRE | CMD_PU_ACT_READ_PRE_PDPF | CMD_PU_ACT_WRITE_PRE_PDPF
  | CMD_ACT_READ_PRE_PDPF | CMD_ACT_WRITE_PRE_PDPF | CMD_READ_PRE_PDPF | CMD_WRITE_PRE_PDPF
  | CMD_PRE_PDPF | CMD_PDPF | CMD_PU_ACT_READ_PRE | CMD_PU_ACT_WRITE_PRE

datatype FailReasons =
    UNKNOWN_FAILURE | OPEN_REFRESH_WAITING | CLOSED_REFRESH_WAITING | REFRESH_OPEN_FAILURE
  | SUBARRAY_TIMING | BANK_TIMING | RANK_TIMING | UNSUPPORTED_COMMAND

record NVMainRequest =
  address :: NVMAddress
  rtype :: OpType
  bulkCmd :: BulkCommand
  threadId :: u64
  rdata :: NVMDataBlock
  oldData :: NVMDataBlock
  status :: MemRequestStatus
  access :: NVMAccessType
  tag :: int
  reqInfo :: "nat option"
  flags :: u64
  isPrefetch :: bool
  memread_flag :: u64
  pfTrigger :: NVMAddress
  programCounter :: u64
  burstCount :: ncounter_t
  owner :: "obj_id option"
  arrivalTick :: u64
  arrivalCycle :: ncycle_t
  queueCycle :: ncycle_t
  issueCycle :: ncycle_t
  completionCycle :: ncycle_t
  bankissueCycle :: ncycle_t
  memreadstartCycle :: ncycle_t
  memreadendCycle :: ncycle_t
  drchit_flag :: ncycle_t
  writeProgress :: ncycle_t
  cancellations :: ncycle_t

definition FLAG_LAST_REQUEST :: u64 where "FLAG_LAST_REQUEST = 1"
definition FLAG_IS_READ :: u64 where "FLAG_IS_READ = 2"
definition FLAG_IS_WRITE :: u64 where "FLAG_IS_WRITE = 4"
definition FLAG_CANCELLED :: u64 where "FLAG_CANCELLED = 8"
definition FLAG_PAUSED :: u64 where "FLAG_PAUSED = 16"
definition FLAG_FORCED :: u64 where "FLAG_FORCED = 32"
definition FLAG_PRIORITY :: u64 where "FLAG_PRIORITY = 64"
definition FLAG_ISSUED :: u64 where "FLAG_ISSUED = 128"
definition FLAG_EVICT :: u64 where "FLAG_EVICT = 256"
definition FLAG_SKIP_TAG :: u64 where "FLAG_SKIP_TAG = 512"

lemmas flag_defs = FLAG_LAST_REQUEST_def FLAG_IS_READ_def FLAG_IS_WRITE_def FLAG_CANCELLED_def
  FLAG_PAUSED_def FLAG_FORCED_def FLAG_PRIORITY_def FLAG_ISSUED_def FLAG_EVICT_def FLAG_SKIP_TAG_def

definition has_flag :: "NVMainRequest \<Rightarrow> u64 \<Rightarrow> bool" where
  "has_flag r f \<longleftrightarrow> flags r AND f \<noteq> 0"

definition set_flag :: "u64 \<Rightarrow> NVMainRequest \<Rightarrow> NVMainRequest" where
  "set_flag f r = r\<lparr>flags := flags r OR f\<rparr>"

definition clear_flag :: "u64 \<Rightarrow> NVMainRequest \<Rightarrow> NVMainRequest" where
  "clear_flag f r = r\<lparr>flags := flags r AND NOT f\<rparr>"

text \<open>The contents of a freshly allocated address or request that no constructor sets.\<close>

definition zero_address :: NVMAddress where
  "zero_address = \<lparr>translated = False, hasPhysicalAddress = False, physicalAddress = 0,
     subarray = 0, row = 0, col = 0, bank = 0, rank = 0, channel = 0, bitAddr = 0\<rparr>"

definition NVMainRequest_new :: NVMainRequest where
  "NVMainRequest_new = \<lparr>
     address = NVMAddress_new zero_address, rtype = NOP, bulkCmd = CMD_NOP, threadId = 0,
     rdata = NVMDataBlock_new, oldData = NVMDataBlock_new, status = MEM_REQUEST_INCOMPLETE,
     access = UNKNOWN_ACCESS, tag = 0, reqInfo = None, flags = 0, isPrefetch = False,
     memread_flag = 0, pfTrigger = NVMAddress_new zero_address, programCounter = 0,
     burstCount = 1, owner = None, arrivalTick = 0, arrivalCycle = 0, queueCycle = 0,
     issueCycle = 0, completionCycle = 0, bankissueCycle = 0, memreadstartCycle = 0,
     memreadendCycle = 0, drchit_flag = 0, writeProgress = 0, cancellations = 0\<rparr>"

text \<open>
  \<^verbatim>\<open>operator=\<close> copies neither \<open>flags\<close>, \<open>burstCount\<close>, \<open>writeProgress\<close> nor
  \<open>cancellations\<close>: the target keeps its own.
\<close>

definition NVMainRequest_assign ::
  "(nat \<Rightarrow> u8) \<Rightarrow> NVMainRequest \<Rightarrow> NVMainRequest \<Rightarrow> NVMainRequest option" where
  "NVMainRequest_assign g m r = do {
     d \<leftarrow> NVMDataBlock_assign g (rdata m) (rdata r);
     od \<leftarrow> NVMDataBlock_assign g (oldData m) (oldData r);
     Some (r\<lparr>address := NVMAddress_assign (address m) (address r), rtype := rtype m,
       bulkCmd := bulkCmd m, threadId := threadId m, rdata := d, oldData := od,
       status := status m, access := access m, tag := tag m, reqInfo := reqInfo m,
       isPrefetch := isPrefetch m, pfTrigger := NVMAddress_assign (pfTrigger m) (pfTrigger r),
       programCounter := programCounter m, owner := owner m, memread_flag := memread_flag m,
       bankissueCycle := bankissueCycle m, arrivalCycle := arrivalCycle m,
       queueCycle := queueCycle m, issueCycle := issueCycle m,
       memreadstartCycle := memreadstartCycle m, memreadendCycle := memreadendCycle m,
       completionCycle := completionCycle m, drchit_flag := drchit_flag m,
       arrivalTick := arrivalTick m\<rparr>)
   }"

lemma NVMainRequest_assign_frame [nvm_frame]:
  assumes "NVMainRequest_assign g m r = Some r'"
  shows "flags r' = flags r" "burstCount r' = burstCount r"
    "writeProgress r' = writeProgress r" "cancellations r' = cancellations r"
    "rtype r' = rtype m" "address r' = address m" "owner r' = owner m"
  using assms by (auto simp: NVMainRequest_assign_def bind_eq_Some_conv)

lemma NVMDataBlock_assign_new:
  assumes "block_wf m"
  shows "\<exists>d. NVMDataBlock_assign g m NVMDataBlock_new = Some d"
  using assms
  by (auto simp: NVMDataBlock_assign_def block_wf_def NVMDataBlock_new_def Let_def
      split: option.splits)

lemma NVMainRequest_assign_new:
  assumes "block_wf (rdata m)" "block_wf (oldData m)"
  shows "\<exists>r. NVMainRequest_assign g m NVMainRequest_new = Some r"
proof -
  have "rdata NVMainRequest_new = NVMDataBlock_new" "oldData NVMainRequest_new = NVMDataBlock_new"
    by (simp_all add: NVMainRequest_new_def)
  then show ?thesis
    using NVMDataBlock_assign_new [OF assms(1), of g] NVMDataBlock_assign_new [OF assms(2), of g]
    by (auto simp: NVMainRequest_assign_def)
qed

section \<open>NVMHelpers\<close>

text \<open>
  The loop of \<^verbatim>\<open>mlog2\<close>: \<open>newNum\<close> is halved until it is zero. It is entered with a number
  of at least 2, on which the test \<open>newNum \<le> 0\<close> is the test for zero.
\<close>

function mlog2_loop :: "int \<Rightarrow> int \<Rightarrow> int" where
  "mlog2_loop newNum retVal =
     (if newNum \<le> 0 then retVal else mlog2_loop (newNum div 2) (retVal + 1))"
  by pat_completeness auto
termination
  by (relation "measure (\<lambda>(n, r). nat n)") auto

declare mlog2_loop.simps [simp del]

definition mlog2 :: "int \<Rightarrow> int" where
  "mlog2 num = (if num < 2 then 0 else mlog2_loop num (-1))"

lemma mlog2_loop_bounds:
  "0 < n \<Longrightarrow> 2 ^ nat (mlog2_loop n r - r - 1) \<le> n \<and> n < 2 ^ nat (mlog2_loop n r - r)
     \<and> r < mlog2_loop n r"
proof (induction n r rule: mlog2_loop.induct)
  case (1 n r)
  show ?case
  proof (cases "n = 1")
    case True
    then have "mlog2_loop n r = r + 1"
      by (simp add: mlog2_loop.simps [of 1] mlog2_loop.simps [of 0])
    with True show ?thesis by simp
  next
    case False
    with "1.prems" have n: "0 < n div 2" "\<not> n \<le> 0" by auto
    define l where "l = mlog2_loop (n div 2) (r + 1)"
    have eq: "mlog2_loop n r = l" using n by (simp add: mlog2_loop.simps [of n r] l_def)
    from "1.IH" [OF n(2,1)]
    have IH: "2 ^ nat (l - r - 2) \<le> n div 2" "n div 2 < 2 ^ nat (l - r - 1)" "r + 1 < l"
      by (simp_all add: l_def algebra_simps)
    have e1: "nat (l - r - 1) = Suc (nat (l - r - 2))" "nat (l - r) = Suc (nat (l - r - 1))"
      using IH(3) by auto
    have "2 * 2 ^ nat (l - r - 2) \<le> n" "n < 2 * 2 ^ nat (l - r - 1)"
      using IH(1,2) by linarith+
    then show ?thesis using IH(3) by (simp add: eq e1)
  qed
qed

section \<open>Properties\<close>

text \<open>\<^verbatim>\<open>mlog2\<close> terminates and returns the floor of the base-two logarithm of
  every number of at least 2.\<close>

lemma mlog2_floor:
  assumes "2 \<le> n"
  shows "2 ^ nat (mlog2 n) \<le> n \<and> n < 2 ^ nat (mlog2 n + 1) \<and> 0 < mlog2 n"
proof -
  from assms have "0 < n" by simp
  from mlog2_loop_bounds [OF this, of "-1"]
  have b: "2 ^ nat (mlog2 n) \<le> n" "n < 2 ^ nat (mlog2 n + 1)" "-1 < mlog2 n"
    using assms by (simp_all add: mlog2_def)
  have "mlog2 n \<noteq> 0" using b(2) assms by auto
  with b show ?thesis by simp
qed

text \<open>A byte written inside a well-formed block succeeds, is read back, leaves
  every other byte of the block alone, and keeps the block well-formed.\<close>

lemma byte_roundtrip:
  assumes "block_wf d" "isValid d" "i < dsize d"
  shows "\<exists>d'. SetByte i v d = Some d' \<and> block_wf d' \<and> GetByte i d' = Some v
     \<and> (\<forall>j. j < dsize d \<and> j \<noteq> i \<longrightarrow> GetByte j d' = GetByte j d)"
proof -
  obtain d' where d': "SetByte i v d = Some d'" using SetByte_in_range [OF assms] by blast
  then show ?thesis
    using GetByte_SetByte [OF assms _ d'] block_wf_SetByte [OF assms(1) d'] assms(3) by auto
qed

definition example_block :: NVMDataBlock where
  "example_block = \<lparr>rawData = Some [1, 2, 3, 4], isValid = True, dsize = 4\<rparr>"

text \<open>The guards of \<^verbatim>\<open>GetByte\<close> and \<^verbatim>\<open>SetByte\<close> compare with
  \<^verbatim>\<open><=\<close>: on a well-formed valid block the index equal to the size passes them and the access
  is one byte past the end of the buffer.\<close>

lemma GetByte_at_size:
  assumes "block_wf d" "isValid d"
  shows "GetByte (dsize d) d = None \<and> SetByte (dsize d) v d = None"
  using assms by (auto simp: block_wf_def GetByte_def SetByte_def split: option.splits)

end
