(* ===== verification/Translation_Method.thy ===== *)
theory Translation_Method
  imports NVM_Request
begin

text \<open>
  \<^verbatim>\<open>src/NVmain/src/TranslationMethod.cpp\<close>: how many bits each memory partition takes and in
  which order the partitions are laid out in a physical address, with the parser of mapping
  schemes such as \<^verbatim>\<open>R:SA:RK:BK:CH:C\<close>. The C arrays of six entries indexed by
  \<^verbatim>\<open>MemoryPartition\<close> are functions on that type.
\<close>

datatype MemoryPartition =
  MEM_ROW | MEM_COL | MEM_BANK | MEM_RANK | MEM_CHANNEL | MEM_SUBARRAY | MEM_UNKNOWN

record TranslationMethod =
  bitWidths :: "MemoryPartition \<Rightarrow> u32"
  tcount :: "MemoryPartition \<Rightarrow> u64"
  order :: "MemoryPartition \<Rightarrow> int"

definition partitions :: "MemoryPartition list" where
  "partitions = [MEM_ROW, MEM_COL, MEM_BANK, MEM_RANK, MEM_CHANNEL, MEM_SUBARRAY]"

definition SetBitWidths ::
  "u32 \<Rightarrow> u32 \<Rightarrow> u32 \<Rightarrow> u32 \<Rightarrow> u32 \<Rightarrow> u32 \<Rightarrow> TranslationMethod \<Rightarrow> TranslationMethod" where
  "SetBitWidths rowBits colBits bankBits rankBits channelBits subarrayBits m =
     m\<lparr>bitWidths := (bitWidths m)(MEM_ROW := rowBits, MEM_COL := colBits, MEM_BANK := bankBits,
         MEM_RANK := rankBits, MEM_CHANNEL := channelBits, MEM_SUBARRAY := subarrayBits)\<rparr>"

definition SetOrder ::
  "int \<Rightarrow> int \<Rightarrow> int \<Rightarrow> int \<Rightarrow> int \<Rightarrow> int \<Rightarrow> TranslationMethod \<Rightarrow> TranslationMethod" where
  "SetOrder r c b k h s m =
     m\<lparr>order := (order m)(MEM_ROW := r - 1, MEM_COL := c - 1, MEM_BANK := b - 1,
         MEM_RANK := k - 1, MEM_CHANNEL := h - 1, MEM_SUBARRAY := s - 1)\<rparr>"

definition SetCount ::
  "u64 \<Rightarrow> u64 \<Rightarrow> u64 \<Rightarrow> u64 \<Rightarrow> u64 \<Rightarrow> u64 \<Rightarrow> TranslationMethod \<Rightarrow> TranslationMethod" where
  "SetCount rows cols banks ranks channels subarrays m =
     m\<lparr>tcount := (tcount m)(MEM_ROW := rows, MEM_COL := cols, MEM_BANK := banks,
         MEM_RANK := ranks, MEM_CHANNEL := channels, MEM_SUBARRAY := subarrays)\<rparr>"

text \<open>The constructor; \<open>g\<close> is the old content of the storage (\<^verbatim>\<open>count\<close> stays unset).\<close>

definition TranslationMethod_new :: "TranslationMethod \<Rightarrow> TranslationMethod" where
  "TranslationMethod_new g = SetOrder 4 1 3 5 6 2 (SetBitWidths 10 8 3 1 1 6 g)"

definition GetBitWidths :: "TranslationMethod \<Rightarrow> u32 \<times> u32 \<times> u32 \<times> u32 \<times> u32 \<times> u32" where
  "GetBitWidths m = (bitWidths m MEM_ROW, bitWidths m MEM_COL, bitWidths m MEM_BANK,
     bitWidths m MEM_RANK, bitWidths m MEM_CHANNEL, bitWidths m MEM_SUBARRAY)"

definition GetOrder :: "TranslationMethod \<Rightarrow> int \<times> int \<times> int \<times> int \<times> int \<times> int" where
  "GetOrder m = (order m MEM_ROW, order m MEM_COL, order m MEM_BANK,
     order m MEM_RANK, order m MEM_CHANNEL, order m MEM_SUBARRAY)"

definition GetCount :: "TranslationMethod \<Rightarrow> u64 \<times> u64 \<times> u64 \<times> u64 \<times> u64 \<times> u64" where
  "GetCount m = (tcount m MEM_ROW, tcount m MEM_COL, tcount m MEM_BANK,
     tcount m MEM_RANK, tcount m MEM_CHANNEL, tcount m MEM_SUBARRAY)"

section \<open>Parsing a mapping scheme\<close>

text \<open>
  \<^verbatim>\<open>strtok_r\<close> with the delimiter \<^verbatim>\<open>:\<close> yields the non-empty pieces between delimiters.
\<close>

fun split_colon :: "string \<Rightarrow> string \<Rightarrow> string list" where
  "split_colon acc [] = [rev acc]"
| "split_colon acc (c # cs) =
     (if c = CHR '':'' then rev acc # split_colon [] cs else split_colon (c # acc) cs)"

definition strtok :: "string \<Rightarrow> string list" where
  "strtok s = filter (\<lambda>t. t \<noteq> []) (split_colon [] s)"

definition token_partition :: "string \<Rightarrow> MemoryPartition option" where
  "token_partition t =
     (if t = ''R'' then Some MEM_ROW
      else if t = ''C'' then Some MEM_COL
      else if t = ''BK'' then Some MEM_BANK
      else if t = ''RK'' then Some MEM_RANK
      else if t = ''CH'' then Some MEM_CHANNEL
      else if t = ''SA'' then Some MEM_SUBARRAY
      else None)"

text \<open>
  The six local variables \<^verbatim>\<open>row\<close>, \<^verbatim>\<open>col\<close>, \<^verbatim>\<open>bank\<close>, \<^verbatim>\<open>rank\<close>, \<^verbatim>\<open>channel\<close>,
  \<^verbatim>\<open>subarray\<close> are the function \<open>v\<close>, and \<open>cur\<close> is \<^verbatim>\<open>currentOrder\<close>. An unrecognised token
  only prints a message and still uses up one position.
\<close>

fun scheme_loop ::
  "string list \<Rightarrow> (MemoryPartition \<Rightarrow> int) \<Rightarrow> int \<Rightarrow> (MemoryPartition \<Rightarrow> int) \<times> int" where
  "scheme_loop [] v cur = (v, cur)"
| "scheme_loop (t # ts) v cur =
     scheme_loop ts (case token_partition t of Some p \<Rightarrow> v(p := cur) | None \<Rightarrow> v) (cur - 1)"

fun fill_unset ::
  "MemoryPartition list \<Rightarrow> (MemoryPartition \<Rightarrow> int) \<Rightarrow> int \<Rightarrow> (MemoryPartition \<Rightarrow> int) \<times> int" where
  "fill_unset [] v cur = (v, cur)"
| "fill_unset (p # ps) v cur =
     (if v p = 0 then fill_unset ps (v(p := cur)) (cur - 1) else fill_unset ps v cur)"

text \<open>\<^verbatim>\<open>strcpy\<close> into the 16-byte stack buffer overflows when the text needs 16 bytes or more.\<close>

definition SetAddressMappingScheme :: "string \<Rightarrow> TranslationMethod \<Rightarrow> TranslationMethod option" where
  "SetAddressMappingScheme scheme m =
     (let cstr = takeWhile (\<lambda>c. c \<noteq> CHR 0x00) scheme in
      if 16 \<le> length cstr then None
      else
        (let (v, cur) = scheme_loop (strtok cstr) (\<lambda>_. 0) 6;
             (v, cur) = fill_unset
               [MEM_SUBARRAY, MEM_CHANNEL, MEM_RANK, MEM_BANK, MEM_ROW, MEM_COL] v cur
         in Some (SetOrder (v MEM_ROW) (v MEM_COL) (v MEM_BANK) (v MEM_RANK) (v MEM_CHANNEL)
               (v MEM_SUBARRAY) m)))"

section \<open>The order is a layout\<close>

text \<open>Each of the six positions is taken by exactly one partition.\<close>

definition order_wf :: "TranslationMethod \<Rightarrow> bool" where
  "order_wf m \<longleftrightarrow> distinct (map (order m) partitions) \<and> order m ` set partitions = {0..5}"

lemma set_partitions: "set partitions = UNIV - {MEM_UNKNOWN}"
  by (auto simp: partitions_def intro: MemoryPartition.exhaust)

lemma mem_partitions [simp]: "p \<in> set partitions \<longleftrightarrow> p \<noteq> MEM_UNKNOWN"
  by (simp add: set_partitions)

lemma token_partition_known: "token_partition t = Some p \<Longrightarrow> p \<noteq> MEM_UNKNOWN"
  by (auto simp: token_partition_def split: if_splits)

lemma token_partition_inj:
  "token_partition t = Some p \<Longrightarrow> token_partition t' = Some p \<Longrightarrow> t = t'"
  by (auto simp: token_partition_def split: if_splits)

text \<open>
  The invariant of both loops: the partitions in \<open>A\<close> hold the positions above \<open>cur\<close>, one
  each, and every other partition is still unset.
\<close>

definition scheme_inv :: "MemoryPartition set \<Rightarrow> (MemoryPartition \<Rightarrow> int) \<Rightarrow> int \<Rightarrow> bool" where
  "scheme_inv A v cur \<longleftrightarrow> A \<subseteq> set partitions \<and> inj_on v A \<and> v ` A = {cur + 1..6}
     \<and> (\<forall>p. p \<notin> A \<longrightarrow> v p = 0) \<and> cur = 6 - int (card A)"

lemma scheme_inv_start: "scheme_inv {} (\<lambda>_. 0) 6"
  by (simp add: scheme_inv_def)

lemma scheme_inv_finite: "scheme_inv A v cur \<Longrightarrow> finite A"
  by (auto simp: scheme_inv_def intro: finite_subset)

lemma scheme_inv_room:
  assumes "scheme_inv A v cur" "p \<noteq> MEM_UNKNOWN" "p \<notin> A"
  shows "0 < cur"
proof -
  have "card (insert p A) \<le> card (set partitions)"
    using assms by (intro card_mono) (auto simp: scheme_inv_def)
  then show ?thesis
    using assms scheme_inv_finite [OF assms(1)] by (simp add: partitions_def scheme_inv_def)
qed

lemma scheme_inv_assign:
  assumes "scheme_inv A v cur" "p \<noteq> MEM_UNKNOWN" "p \<notin> A"
  shows "scheme_inv (insert p A) (v(p := cur)) (cur - 1)"
proof -
  have inv: "A \<subseteq> set partitions" "inj_on v A" "v ` A = {cur + 1..6}" "\<forall>q. q \<notin> A \<longrightarrow> v q = 0"
    "cur = 6 - int (card A)"
    using assms(1) by (simp_all add: scheme_inv_def)
  have img: "(v(p := cur)) ` A = v ` A" using assms(3) by (intro image_cong) auto
  have "cur \<le> 6" "0 < cur" using inv(5) scheme_inv_room [OF assms] by simp_all
  then have "insert cur {cur + 1..6} = {cur - 1 + 1..6}" by auto
  moreover have "(v(p := cur)) ` insert p A = insert cur ((v(p := cur)) ` A)"
    by (simp only: image_insert fun_upd_same)
  ultimately have "(v(p := cur)) ` insert p A = {cur - 1 + 1..6}" unfolding img inv(3) by simp
  moreover have "inj_on (v(p := cur)) (insert p A)"
    using inv(2,3) assms(3) img by (simp add: inj_on_fun_updI)
  moreover have "insert p A \<subseteq> set partitions" using inv(1) assms(2) by simp
  moreover have "\<forall>q. q \<notin> insert p A \<longrightarrow> (v(p := cur)) q = 0" using inv(4) by simp
  moreover have "cur - 1 = 6 - int (card (insert p A))"
    using inv(5) assms(3) scheme_inv_finite [OF assms(1)] by simp
  ultimately show ?thesis unfolding scheme_inv_def by blast
qed

lemma scheme_loop_inv:
  assumes "scheme_inv A v cur" "distinct ts" "\<forall>t \<in> set ts. \<exists>p. token_partition t = Some p \<and> p \<notin> A"
    "scheme_loop ts v cur = (v', cur')"
  shows "\<exists>A'. scheme_inv A' v' cur'"
  using assms
proof (induction ts arbitrary: A v cur)
  case Nil
  then show ?case by auto
next
  case (Cons t ts)
  then obtain p where p: "token_partition t = Some p" "p \<notin> A" by auto
  have inv: "scheme_inv (insert p A) (v(p := cur)) (cur - 1)"
    by (rule scheme_inv_assign [OF Cons.prems(1) token_partition_known [OF p(1)] p(2)])
  have "\<forall>t' \<in> set ts. \<exists>q. token_partition t' = Some q \<and> q \<notin> insert p A"
    using Cons.prems(2,3) p(1) token_partition_inj by fastforce
  moreover have "scheme_loop ts (v(p := cur)) (cur - 1) = (v', cur')"
    using Cons.prems(4) p(1) by simp
  moreover have "distinct ts" using Cons.prems(2) by simp
  ultimately show ?case using Cons.IH [OF inv] by blast
qed

lemma fill_unset_inv:
  assumes "scheme_inv A v cur" "set ps \<subseteq> set partitions" "fill_unset ps v cur = (v', cur')"
  shows "\<exists>A'. A \<union> set ps \<subseteq> A' \<and> scheme_inv A' v' cur'"
  using assms
proof (induction ps arbitrary: A v cur)
  case Nil
  then show ?case by auto
next
  case (Cons p ps)
  have cur: "0 \<le> cur"
  proof -
    have "card A \<le> card (set partitions)"
      using Cons.prems(1) by (intro card_mono) (auto simp: scheme_inv_def)
    then show ?thesis using Cons.prems(1) by (simp add: scheme_inv_def partitions_def)
  qed
  show ?case
  proof (cases "p \<in> A")
    case True
    then have "v p \<in> {cur + 1..6}" using Cons.prems(1) by (auto simp: scheme_inv_def)
    then have "v p \<noteq> 0" using cur by simp
    then show ?thesis using Cons.IH [OF Cons.prems(1)] Cons.prems(2,3) True by auto
  next
    case False
    then have "v p = 0" using Cons.prems(1) by (simp add: scheme_inv_def)
    moreover have "scheme_inv (insert p A) (v(p := cur)) (cur - 1)"
      using scheme_inv_assign [OF Cons.prems(1) _ False] Cons.prems(2) by auto
    ultimately show ?thesis using Cons.IH Cons.prems(2,3) by fastforce
  qed
qed

lemma scheme_inv_full:
  assumes "scheme_inv A v cur" "set partitions \<subseteq> A"
  shows "inj_on v (set partitions) \<and> v ` set partitions = {1..6}"
proof -
  have "A = set partitions" using assms by (auto simp: scheme_inv_def)
  moreover from this have "card A = 6" by (simp add: partitions_def)
  ultimately show ?thesis using assms(1) by (simp add: scheme_inv_def)
qed

lemma SetOrder_order_wf:
  assumes "inj_on v (set partitions)" "v ` set partitions = {1..6}"
  shows "order_wf (SetOrder (v MEM_ROW) (v MEM_COL) (v MEM_BANK) (v MEM_RANK) (v MEM_CHANNEL)
     (v MEM_SUBARRAY) m)"
proof -
  let ?m = "SetOrder (v MEM_ROW) (v MEM_COL) (v MEM_BANK) (v MEM_RANK) (v MEM_CHANNEL)
     (v MEM_SUBARRAY) m"
  have o: "order ?m p = v p - 1" if "p \<in> set partitions" for p
    using that unfolding mem_partitions by (cases p) (simp_all add: SetOrder_def)
  then have "order ?m ` set partitions = (\<lambda>x. x - 1) ` (v ` set partitions)"
    by (simp add: image_image)
  also have "\<dots> = {0..5::int}"
    unfolding assms(2) by (simp add: image_minus_const_atLeastAtMost')
  finally have "order ?m ` set partitions = {0..5}" .
  moreover have "inj_on (order ?m) (set partitions)"
    using assms(1) o by (auto simp: inj_on_def)
  then have "distinct (map (order ?m) partitions)"
    by (simp add: distinct_map) (simp add: partitions_def)
  ultimately show ?thesis by (simp add: order_wf_def)
qed

section \<open>Properties\<close>


definition blank_method :: TranslationMethod where
  "blank_method = \<lparr>bitWidths = (\<lambda>p. 0), tcount = (\<lambda>p. 0), order = (\<lambda>p. 0)\<rparr>"


lemma TranslationMethod_new_order_wf [nvm_wf]: "order_wf (TranslationMethod_new g)"
  by (auto simp: order_wf_def TranslationMethod_new_def SetOrder_def SetBitWidths_def
      partitions_def)

end
