(* ===== verification/Address_Translator.thy ===== *)
theory Address_Translator
  imports Translation_Method
begin

unbundle bit_operations_syntax

text \<open>
  \<^verbatim>\<open>src/NVmain/src/AddressTranslator.cpp\<close>: decoding a physical address into row, column,
  bank, rank, channel and subarray, and encoding those fields back. The abstract specification
  is a mixed-radix number: the fields are the digits, least significant position first, above
  the byte offset inside one burst. Undefined shifts and the write to entry 100 of a
  six-entry array (\<^verbatim>\<open>MEM_UNKNOWN\<close>) are \<open>None\<close>.
\<close>

datatype TranslationField =
  NO_FIELD | ROW_FIELD | COL_FIELD | BANK_FIELD | RANK_FIELD | CHANNEL_FIELD | SUBARRAY_FIELD

record AddressTranslator =
  "method" :: "TranslationMethod option"
  defaultField :: TranslationField
  busWidth :: int
  burstLength :: int
  lowColBits :: int

definition AddressTranslator_new :: AddressTranslator where
  "AddressTranslator_new =
     \<lparr>method = None, defaultField = NO_FIELD, busWidth = 64, burstLength = 8, lowColBits = 0\<rparr>"

definition SetTranslationMethod :: "TranslationMethod \<Rightarrow> AddressTranslator \<Rightarrow> AddressTranslator" where
  "SetTranslationMethod m tr = tr\<lparr>method := Some m\<rparr>"

definition SetBusWidth :: "int \<Rightarrow> AddressTranslator \<Rightarrow> AddressTranslator" where
  "SetBusWidth bits tr = tr\<lparr>busWidth := bits\<rparr>"

definition SetBurstLength :: "int \<Rightarrow> AddressTranslator \<Rightarrow> AddressTranslator" where
  "SetBurstLength beat tr = tr\<lparr>burstLength := beat\<rparr>"

definition SetDefaultField :: "TranslationField \<Rightarrow> AddressTranslator \<Rightarrow> AddressTranslator" where
  "SetDefaultField f tr = tr\<lparr>defaultField := f\<rparr>"

definition FindOrder :: "TranslationMethod \<Rightarrow> int \<Rightarrow> MemoryPartition" where
  "FindOrder m i =
     (let (rowOrder, colOrder, bankOrder, rankOrder, channelOrder, subarrayOrder) = GetOrder m in
      if rowOrder = i then MEM_ROW
      else if colOrder = i then MEM_COL
      else if bankOrder = i then MEM_BANK
      else if rankOrder = i then MEM_RANK
      else if channelOrder = i then MEM_CHANNEL
      else if subarrayOrder = i then MEM_SUBARRAY
      else MEM_UNKNOWN)"

definition Divide :: "TranslationMethod \<Rightarrow> u64 \<Rightarrow> MemoryPartition \<Rightarrow> u64 option" where
  "Divide m partSize p =
     (let (rowBits, colBits, bankBits, rankBits, channelBits, subarrayBits) = GetBitWidths m in
      case p of
        MEM_ROW \<Rightarrow> shr64 partSize (unat rowBits)
      | MEM_COL \<Rightarrow> shr64 partSize (unat colBits)
      | MEM_BANK \<Rightarrow> shr64 partSize (unat bankBits)
      | MEM_RANK \<Rightarrow> shr64 partSize (unat rankBits)
      | MEM_CHANNEL \<Rightarrow> shr64 partSize (unat channelBits)
      | MEM_SUBARRAY \<Rightarrow> shr64 partSize (unat subarrayBits)
      | MEM_UNKNOWN \<Rightarrow> Some partSize)"

definition Modulo :: "TranslationMethod \<Rightarrow> u64 \<Rightarrow> MemoryPartition \<Rightarrow> u64 option" where
  "Modulo m partialAddr p =
     (let (rowBits, colBits, bankBits, rankBits, channelBits, subarrayBits) = GetBitWidths m in
      do {
        moduloSize \<leftarrow>
          (case p of
             MEM_ROW \<Rightarrow> shl64 1 (unat rowBits)
           | MEM_COL \<Rightarrow> shl64 1 (unat colBits)
           | MEM_BANK \<Rightarrow> shl64 1 (unat bankBits)
           | MEM_RANK \<Rightarrow> shl64 1 (unat rankBits)
           | MEM_CHANNEL \<Rightarrow> shl64 1 (unat channelBits)
           | MEM_SUBARRAY \<Rightarrow> shl64 1 (unat subarrayBits)
           | MEM_UNKNOWN \<Rightarrow> Some 1);
        Some (partialAddr mod moduloSize)
      })"

text \<open>The six-fold loops; the list is the loop counter's values.\<close>

fun translate_loop ::
  "TranslationMethod \<Rightarrow> int list \<Rightarrow> u64 \<Rightarrow> (MemoryPartition \<Rightarrow> u64) \<Rightarrow> (MemoryPartition \<Rightarrow> u64) option"
where
  "translate_loop m [] refAddress parts = Some parts"
| "translate_loop m (i # is) refAddress parts =
     (let part = FindOrder m i in
      if part = MEM_UNKNOWN then None
      else do {
        v \<leftarrow> Modulo m refAddress part;
        refAddress' \<leftarrow> Divide m refAddress part;
        translate_loop m is refAddress' (parts(part := v))
      })"

fun reverse_loop ::
  "TranslationMethod \<Rightarrow> int list \<Rightarrow> (MemoryPartition \<Rightarrow> u64) \<Rightarrow> u64 \<Rightarrow> u64 \<Rightarrow> u64 option"
where
  "reverse_loop m [] parts unitAddr phyAddr = Some phyAddr"
| "reverse_loop m (i # is) parts unitAddr phyAddr =
     (let part = FindOrder m i in
      if part = MEM_UNKNOWN then reverse_loop m is parts unitAddr phyAddr
      else do {
        unitAddr' \<leftarrow> shl64 unitAddr (unat (bitWidths m part));
        reverse_loop m is parts unitAddr' (phyAddr + parts part * unitAddr)
      })"

text \<open>
  \<open>TranslateAll a parts tr\<close>: the six outputs (the function \<open>parts\<close> gives what the output
  variables held before) and the translator, whose \<^verbatim>\<open>lowColBits\<close> is recomputed. Without a
  translation method the outputs are left alone.
\<close>

definition TranslateAll ::
  "u64 \<Rightarrow> (MemoryPartition \<Rightarrow> u64) \<Rightarrow> AddressTranslator
     \<Rightarrow> ((MemoryPartition \<Rightarrow> u64) \<times> AddressTranslator) option" where
  "TranslateAll a parts tr =
     (case method tr of
        None \<Rightarrow> Some (parts, tr)
      | Some m \<Rightarrow>
          (let busOffsetBits = mlog2 (busWidth tr div 8);
               burstBits = mlog2 (busWidth tr * burstLength tr div 8);
               low = burstBits - busOffsetBits
           in do {
             refAddress \<leftarrow> shr64i a busOffsetBits;
             refAddress \<leftarrow> shr64i refAddress low;
             parts' \<leftarrow> translate_loop m [0..5] refAddress parts;
             Some (parts', tr\<lparr>lowColBits := low\<rparr>)
           }))"

text \<open>Without a translation method \<^verbatim>\<open>ReverseTranslate\<close> exits the program.\<close>

definition ReverseTranslate ::
  "(MemoryPartition \<Rightarrow> u64) \<Rightarrow> AddressTranslator \<Rightarrow> (u64 \<times> AddressTranslator) option" where
  "ReverseTranslate parts tr =
     (case method tr of
        None \<Rightarrow> None
      | Some m \<Rightarrow>
          (let busOffsetBits = mlog2 (busWidth tr div 8);
               burstBits = mlog2 (busWidth tr * burstLength tr div 8);
               low = burstBits - busOffsetBits
           in do {
             unitAddr \<leftarrow> shl64i 1 busOffsetBits;
             unitAddr \<leftarrow> shl64i unitAddr low;
             phyAddr \<leftarrow> reverse_loop m [0..5] parts unitAddr 0;
             Some (phyAddr, tr\<lparr>lowColBits := low\<rparr>)
           }))"

definition field_of :: "TranslationField \<Rightarrow> (MemoryPartition \<Rightarrow> u64) \<Rightarrow> u64" where
  "field_of f parts =
     (case f of
        ROW_FIELD \<Rightarrow> parts MEM_ROW | COL_FIELD \<Rightarrow> parts MEM_COL | BANK_FIELD \<Rightarrow> parts MEM_BANK
      | RANK_FIELD \<Rightarrow> parts MEM_RANK | CHANNEL_FIELD \<Rightarrow> parts MEM_CHANNEL
      | SUBARRAY_FIELD \<Rightarrow> parts MEM_SUBARRAY | NO_FIELD \<Rightarrow> 0)"

text \<open>\<open>g\<close>: what the uninitialised local variables of \<^verbatim>\<open>Translate(uint64_t)\<close> hold.\<close>

definition TranslateField ::
  "(MemoryPartition \<Rightarrow> u64) \<Rightarrow> u64 \<Rightarrow> AddressTranslator \<Rightarrow> (u64 \<times> AddressTranslator) option" where
  "TranslateField g a tr = do {
     (parts, tr') \<leftarrow> TranslateAll a g tr;
     Some (field_of (defaultField tr') parts, tr')
   }"

definition TranslateRequest ::
  "(MemoryPartition \<Rightarrow> u64) \<Rightarrow> NVMainRequest \<Rightarrow> AddressTranslator
     \<Rightarrow> (u64 \<times> AddressTranslator) option" where
  "TranslateRequest g req tr =
     (let ad = address req in
      if translated ad
      then Some
        (case defaultField tr of
           ROW_FIELD \<Rightarrow> row ad | COL_FIELD \<Rightarrow> col ad | BANK_FIELD \<Rightarrow> bank ad
         | RANK_FIELD \<Rightarrow> rank ad | CHANNEL_FIELD \<Rightarrow> channel ad
         | SUBARRAY_FIELD \<Rightarrow> subarray ad | NO_FIELD \<Rightarrow> 0, tr)
      else TranslateField g (physicalAddress ad) tr)"

section \<open>The mixed-radix specification\<close>

text \<open>Digits with \<open>ws\<close> bits each, least significant first.\<close>

fun digits :: "nat list \<Rightarrow> nat \<Rightarrow> nat list" where
  "digits [] n = []"
| "digits (w # ws) n = n mod 2 ^ w # digits ws (n div 2 ^ w)"

fun undigits :: "nat list \<Rightarrow> nat list \<Rightarrow> nat" where
  "undigits (w # ws) (d # ds) = d + 2 ^ w * undigits ws ds"
| "undigits _ _ = 0"

lemma length_digits [simp]: "length (digits ws n) = length ws"
  by (induction ws arbitrary: n) auto

lemma undigits_digits: "undigits ws (digits ws n) = n mod 2 ^ sum_list ws"
proof (induction ws arbitrary: n)
  case (Cons w ws)
  have "n mod 2 ^ (w + sum_list ws) = 2 ^ w * (n div 2 ^ w mod 2 ^ sum_list ws) + n mod 2 ^ w"
    by (simp add: power_add mod_mult2_eq)
  then show ?case by (simp add: Cons.IH)
qed simp

lemma digits_undigits:
  "list_all2 (\<lambda>w d. d < 2 ^ w) ws ds \<Longrightarrow> digits ws (undigits ws ds) = ds"
  by (induction ws ds rule: list_all2_induct) simp_all

lemma undigits_bound: "list_all2 (\<lambda>w d. d < 2 ^ w) ws ds \<Longrightarrow> undigits ws ds < 2 ^ sum_list ws"
proof (induction ws ds rule: list_all2_induct)
  case (Cons w ws d ds)
  have "d + 2 ^ w * undigits ws ds < 2 ^ w * Suc (undigits ws ds)" using Cons(1) by simp
  also have "\<dots> \<le> 2 ^ w * 2 ^ sum_list ws" using Cons(3) by (intro mult_le_mono2) simp
  finally show ?case by (simp add: power_add)
qed simp

section \<open>The loops implement the specification\<close>

definition width :: "TranslationMethod \<Rightarrow> MemoryPartition \<Rightarrow> nat" where
  "width m p = unat (bitWidths m p)"

lemma Divide_eq: "p \<noteq> MEM_UNKNOWN \<Longrightarrow> Divide m a p = shr64 a (width m p)"
  by (cases p) (simp_all add: Divide_def GetBitWidths_def width_def)

lemma Modulo_eq:
  assumes "p \<noteq> MEM_UNKNOWN" "width m p < 64"
  shows "Modulo m a p = Some (take_bit (width m p) a)"
proof -
  have "Modulo m a p = Some (a mod push_bit (width m p) 1)"
    using assms by (cases p) (simp_all add: Modulo_def GetBitWidths_def width_def)
  then show ?thesis by (simp add: take_bit_eq_mod push_bit_eq_mult)
qed

text \<open>The partitions in the order in which the loops visit them.\<close>

definition layout :: "TranslationMethod \<Rightarrow> MemoryPartition list" where
  "layout m = map (FindOrder m) [0..5]"

fun decode_parts ::
  "TranslationMethod \<Rightarrow> MemoryPartition list \<Rightarrow> u64 \<Rightarrow> (MemoryPartition \<Rightarrow> u64) \<Rightarrow> MemoryPartition \<Rightarrow> u64"
where
  "decode_parts m [] a parts = parts"
| "decode_parts m (p # ps) a parts =
     decode_parts m ps (drop_bit (width m p) a) (parts(p := take_bit (width m p) a))"

lemma translate_loop_eq:
  assumes "\<forall>i \<in> set is. FindOrder m i \<noteq> MEM_UNKNOWN \<and> width m (FindOrder m i) < 64"
  shows "translate_loop m is a parts = Some (decode_parts m (map (FindOrder m) is) a parts)"
  using assms
  by (induction "is" arbitrary: a parts) (simp_all add: Modulo_eq Divide_eq Let_def)

lemma decode_parts_other: "p \<notin> set ps \<Longrightarrow> decode_parts m ps a parts p = parts p"
  by (induction ps arbitrary: a parts) auto

lemma decode_parts_digits:
  "distinct ps \<Longrightarrow>
     map (\<lambda>p. unat (decode_parts m ps a parts p)) ps = digits (map (width m) ps) (unat a)"
proof (induction ps arbitrary: a parts)
  case (Cons p ps)
  let ?parts = "parts(p := take_bit (width m p) a)"
  have "decode_parts m ps (drop_bit (width m p) a) ?parts p = take_bit (width m p) a"
    using Cons.prems by (simp add: decode_parts_other)
  moreover have "map (\<lambda>q. unat (decode_parts m ps (drop_bit (width m p) a) ?parts q)) ps
      = digits (map (width m) ps) (unat (drop_bit (width m p) a))"
    using Cons.prems by (intro Cons.IH) simp
  ultimately show ?case
    by (simp only: decode_parts.simps list.map digits.simps unat_take_bit unat_drop_bit)
qed simp

lemma reverse_loop_eq:
  assumes "\<forall>i \<in> set is. FindOrder m i \<noteq> MEM_UNKNOWN"
    "\<forall>i \<in> set is. width m (FindOrder m i) < 64"
    "u + sum_list (map (\<lambda>i. width m (FindOrder m i)) is) \<le> 64"
    "\<forall>i \<in> set is. unat (parts (FindOrder m i)) < 2 ^ width m (FindOrder m i)"
    "unat phy < 2 ^ u"
  shows "\<exists>r. reverse_loop m is parts (push_bit u 1) phy = Some r \<and>
    unat r = unat phy + 2 ^ u * undigits (map (\<lambda>i. width m (FindOrder m i)) is)
      (map (\<lambda>i. unat (parts (FindOrder m i))) is)"
  using assms
proof (induction "is" arbitrary: u phy)
  case Nil
  then show ?case by simp
next
  case (Cons i "is")
  define p where "p = FindOrder m i"
  define w where "w = width m p"
  have p: "p \<noteq> MEM_UNKNOWN" "w < 64" "unat (parts p) < 2 ^ w" "u + w \<le> 64"
    using Cons.prems by (auto simp: p_def w_def)
  have wd: "unat (bitWidths m p) = w" by (simp add: w_def width_def)
  have pu: "parts p * push_bit u 1 = push_bit u (parts p)"
    by (simp add: push_bit_eq_mult mult.commute)
  have bnd: "unat phy + unat (parts p) * 2 ^ u < 2 ^ (u + w)"
  proof -
    have "unat phy + unat (parts p) * 2 ^ u < 2 ^ u * Suc (unat (parts p))"
      using Cons.prems(5) by simp
    also have "\<dots> \<le> 2 ^ u * 2 ^ w" using p(3) by (intro mult_le_mono2) simp
    finally show ?thesis by (simp add: power_add)
  qed
  also have "(2::nat) ^ (u + w) \<le> 2 ^ 64" using p(4) by (intro power_increasing) auto
  finally have lt: "unat phy + unat (parts p) * 2 ^ u < 2 ^ 64" .
  have upb: "unat (push_bit u (parts p)) = unat (parts p) * 2 ^ u"
    using lt by (intro unat_push_bit) linarith
  have uadd: "unat (phy + push_bit u (parts p)) = unat phy + unat (parts p) * 2 ^ u"
    using lt upb by (subst unat_add_u64) simp_all
  have step: "reverse_loop m (i # is) parts (push_bit u 1) phy =
      reverse_loop m is parts (push_bit (u + w) 1) (phy + push_bit u (parts p))"
    using p(1,2) wd
    by (simp only: reverse_loop.simps p_def [symmetric] Let_def if_False shl64_Some pu
        push_bit_push_bit add.commute Option.bind.simps)
  have "unat (phy + push_bit u (parts p)) < 2 ^ (u + w)" using bnd uadd by simp
  from Cons.IH [OF _ _ _ _ this] Cons.prems
  obtain r where "reverse_loop m is parts (push_bit (u + w) 1) (phy + push_bit u (parts p)) = Some r"
    "unat r = unat (phy + push_bit u (parts p)) + 2 ^ (u + w) * undigits
       (map (\<lambda>i. width m (FindOrder m i)) is) (map (\<lambda>i. unat (parts (FindOrder m i))) is)"
    by (auto simp: p_def w_def)
  then show ?case
    using step uadd by (simp add: p_def [symmetric] w_def [symmetric] power_add algebra_simps)
qed

section \<open>Well-formed translators\<close>

definition offset_bits :: "AddressTranslator \<Rightarrow> nat" where
  "offset_bits tr = nat (mlog2 (busWidth tr * burstLength tr div 8))"

definition method_wf :: "nat \<Rightarrow> TranslationMethod \<Rightarrow> bool" where
  "method_wf off m \<longleftrightarrow> order_wf m \<and> off < 64
     \<and> off + sum_list (map (width m) partitions) \<le> 64 \<and> (\<forall>p \<in> set partitions. width m p < 64)"

definition translator_wf :: "AddressTranslator \<Rightarrow> bool" where
  "translator_wf tr \<longleftrightarrow> 8 \<le> busWidth tr \<and> 1 \<le> burstLength tr
     \<and> (case method tr of None \<Rightarrow> False | Some m \<Rightarrow> method_wf (offset_bits tr) m)"

text \<open>The fields fit their widths.\<close>

definition parts_fit :: "AddressTranslator \<Rightarrow> (MemoryPartition \<Rightarrow> u64) \<Rightarrow> bool" where
  "parts_fit tr parts \<longleftrightarrow>
     (\<forall>p \<in> set partitions. unat (parts p) < 2 ^ width (the (method tr)) p)"

lemma FindOrder_eq:
  assumes "order_wf m" "p \<noteq> MEM_UNKNOWN"
  shows "FindOrder m (order m p) = p"
  using assms by (cases p) (auto simp: FindOrder_def GetOrder_def order_wf_def partitions_def)

lemma layout_wf:
  assumes "order_wf m"
  shows "distinct (layout m)" "set (layout m) = set partitions"
proof -
  have surj: "\<exists>p \<noteq> MEM_UNKNOWN. i = order m p" if "i \<in> {0..5}" for i
    using assms that unfolding order_wf_def by (metis imageE mem_partitions)
  have inv: "order m (FindOrder m i) = i" if "i \<in> {0..5}" for i
    using surj [OF that] FindOrder_eq [OF assms] by auto
  show "distinct (layout m)"
    unfolding layout_def distinct_map by (auto intro!: inj_on_inverseI [of _ "order m"] inv)
  show "set (layout m) = set partitions"
  proof
    show "set (layout m) \<subseteq> set partitions"
      using surj FindOrder_eq [OF assms] by (fastforce simp: layout_def)
    show "set partitions \<subseteq> set (layout m)"
    proof
      fix p assume "p \<in> set partitions"
      moreover from this have "order m p \<in> {0..5}"
        using assms unfolding order_wf_def by blast
      ultimately show "p \<in> set (layout m)"
        using FindOrder_eq [OF assms, of p] by (force simp: layout_def)
    qed
  qed
qed

lemma layout_sum:
  fixes f :: "MemoryPartition \<Rightarrow> nat"
  assumes "order_wf m"
  shows "sum_list (map f (layout m)) = sum_list (map f partitions)"
proof -
  have "distinct partitions" by (simp add: partitions_def)
  then have "sum_list (map f (layout m)) = sum f (set (layout m))"
    "sum_list (map f partitions) = sum f (set partitions)"
    using layout_wf(1) [OF assms] by (simp_all add: sum_list_distinct_conv_sum_set)
  then show ?thesis using layout_wf(2) [OF assms] by simp
qed

lemma mlog2_nonneg: "0 \<le> mlog2 n"
  using mlog2_loop_bounds [of n "-1"] by (auto simp: mlog2_def)

lemma mlog2_mono:
  assumes "a \<le> b"
  shows "mlog2 a \<le> mlog2 b"
proof (cases "a < 2")
  case True
  then show ?thesis using mlog2_nonneg [of b] by (simp add: mlog2_def)
next
  case False
  with assms have *: "2 ^ nat (mlog2 a) \<le> a" "b < 2 ^ nat (mlog2 b + 1)"
    using mlog2_loop_bounds [of a "-1"] mlog2_loop_bounds [of b "-1"]
    by (simp_all add: mlog2_def)
  then have "(2::int) ^ nat (mlog2 a) < 2 ^ nat (mlog2 b + 1)" using assms by linarith
  then have "nat (mlog2 a) < nat (mlog2 b + 1)" by (simp add: power_strict_increasing_iff)
  then show ?thesis using mlog2_nonneg [of b] by linarith
qed

text \<open>The two shifts by the bus offset and by the low column bits are one shift.\<close>

lemma translator_offsets:
  assumes "translator_wf tr"
  defines "b \<equiv> mlog2 (busWidth tr div 8)"
    and "l \<equiv> mlog2 (busWidth tr * burstLength tr div 8) - mlog2 (busWidth tr div 8)"
  shows "0 \<le> b" "0 \<le> l" "nat b + nat l = offset_bits tr" "nat b < 64" "nat l < 64"
proof -
  have "busWidth tr * 1 \<le> busWidth tr * burstLength tr"
    using assms(1) by (intro mult_left_mono) (auto simp: translator_wf_def)
  then have "busWidth tr div 8 \<le> busWidth tr * burstLength tr div 8"
    by (intro zdiv_mono1) auto
  then show l: "0 \<le> l" using mlog2_mono by (simp add: l_def)
  show b: "0 \<le> b" by (simp add: b_def mlog2_nonneg)
  from b l show o: "nat b + nat l = offset_bits tr"
    by (simp add: offset_bits_def b_def l_def nat_add_distrib [symmetric])
  have "offset_bits tr < 64"
    using assms(1) by (auto simp: translator_wf_def method_wf_def split: option.splits)
  with o show "nat b < 64" "nat l < 64" by linarith+
qed

lemma TranslateAll_eq:
  assumes "translator_wf tr" "method tr = Some m"
  shows "\<exists>tr'. method tr' = method tr \<and> defaultField tr' = defaultField tr
    \<and> TranslateAll a g tr = Some (decode_parts m (layout m) (drop_bit (offset_bits tr) a) g, tr')"
proof -
  note off = translator_offsets [OF assms(1)]
  have m: "method_wf (offset_bits tr) m" using assms by (simp add: translator_wf_def)
  then have ord: "order_wf m" by (simp add: method_wf_def)
  have "\<forall>i \<in> set [0..5]. FindOrder m i \<noteq> MEM_UNKNOWN \<and> width m (FindOrder m i) < 64"
  proof
    fix i :: int assume "i \<in> set [0..5]"
    then have "FindOrder m i \<in> set (layout m)" by (auto simp: layout_def)
    then show "FindOrder m i \<noteq> MEM_UNKNOWN \<and> width m (FindOrder m i) < 64"
      using m layout_wf(2) [OF ord] by (simp add: method_wf_def)
  qed
  from translate_loop_eq [OF this] have
    "translate_loop m [0..5] (drop_bit (offset_bits tr) a) g =
       Some (decode_parts m (layout m) (drop_bit (offset_bits tr) a) g)"
    by (simp add: layout_def)
  then show ?thesis
    using off by (simp add: TranslateAll_def assms(2) Let_def shr64i_def drop_bit_drop_bit add.commute)
qed

lemma ReverseTranslate_eq:
  assumes "translator_wf tr" "method tr = Some m" "parts_fit tr parts"
  shows "\<exists>r tr'. ReverseTranslate parts tr = Some (r, tr') \<and>
    unat r = 2 ^ offset_bits tr * undigits (map (width m) (layout m))
      (map (\<lambda>p. unat (parts p)) (layout m))"
proof -
  note off = translator_offsets [OF assms(1)]
  have m: "method_wf (offset_bits tr) m" using assms by (simp add: translator_wf_def)
  then have ord: "order_wf m" by (simp add: method_wf_def)
  have in_layout: "FindOrder m i \<in> set (layout m)" if "i \<in> set [0..5]" for i
    using that by (auto simp: layout_def)
  have known: "\<forall>i \<in> set [0..5]. FindOrder m i \<noteq> MEM_UNKNOWN"
    using in_layout layout_wf(2) [OF ord] by simp
  have width: "\<forall>i \<in> set [0..5]. width m (FindOrder m i) < 64"
    using in_layout m layout_wf(2) [OF ord] by (simp add: method_wf_def)
  have fit: "\<forall>i \<in> set [0..5]. unat (parts (FindOrder m i)) < 2 ^ width m (FindOrder m i)"
    using in_layout assms(2,3) layout_wf(2) [OF ord] by (simp add: parts_fit_def)
  have ws: "map (\<lambda>i. f (FindOrder m i)) [0..5] = map f (layout m)" for f :: "MemoryPartition \<Rightarrow> nat"
    by (simp add: layout_def)
  have "offset_bits tr + sum_list (map (\<lambda>i. width m (FindOrder m i)) [0..5]) \<le> 64"
    unfolding ws layout_sum [OF ord] using m by (simp add: method_wf_def)
  from reverse_loop_eq [OF known width this fit, of 0]
  obtain r where r: "reverse_loop m [0..5] parts (push_bit (offset_bits tr) 1) 0 = Some r"
    "unat r = 2 ^ offset_bits tr * undigits (map (width m) (layout m))
      (map (\<lambda>p. unat (parts p)) (layout m))"
    using ws [of "width m"] ws [of "\<lambda>p. unat (parts p)"] by auto
  define b l where "b = mlog2 (busWidth tr div 8)"
    and "l = mlog2 (busWidth tr * burstLength tr div 8) - b"
  have "push_bit (nat l) (push_bit (nat b) (1::u64)) = push_bit (offset_bits tr) 1"
    unfolding off(3) [symmetric] b_def l_def by (simp only: push_bit_push_bit add.commute)
  then have "do { u \<leftarrow> shl64i 1 b; shl64i u l } = Some (push_bit (offset_bits tr) 1)"
    using off(1,2,4,5) by (simp add: shl64i_def b_def l_def)
  then have "ReverseTranslate parts tr = Some (r, tr\<lparr>lowColBits := l\<rparr>)"
    using r(1) by (auto simp: ReverseTranslate_def assms(2) Let_def b_def l_def bind_eq_Some_conv)
  then show ?thesis using r(2) by blast
qed

section \<open>The codec interface\<close>

text \<open>What the components that route by decoded address rely on.\<close>

locale address_codec =
  fixes encode :: "'c \<Rightarrow> 'f \<Rightarrow> 'a option"
    and decode :: "'c \<Rightarrow> 'a \<Rightarrow> 'f option"
    and ok :: "'c \<Rightarrow> bool"
    and fits :: "'c \<Rightarrow> 'f \<Rightarrow> bool"
  assumes round_trip: "ok c \<Longrightarrow> fits c f \<Longrightarrow> \<exists>a. encode c f = Some a \<and> decode c a = Some f"
    and decode_total: "ok c \<Longrightarrow> \<exists>f. decode c a = Some f \<and> fits c f"
begin

lemma encode_inj:
  assumes "ok c" "fits c f" "fits c f'" "encode c f = encode c f'"
  shows "f = f'"
  using round_trip [OF assms(1,2)] round_trip [OF assms(1,3)] assms(4) by auto

lemma decode_encode_decode:
  assumes "ok c" "decode c a = Some f"
  shows "\<exists>a'. encode c f = Some a' \<and> decode c a' = Some f"
  using round_trip [OF assms(1)] decode_total [OF assms(1), of a] assms(2) by auto

end

text \<open>The six fields as one tuple.\<close>

type_synonym fields = "u64 \<times> u64 \<times> u64 \<times> u64 \<times> u64 \<times> u64"

fun parts_of :: "fields \<Rightarrow> MemoryPartition \<Rightarrow> u64" where
  "parts_of (r, c, b, k, h, s) p =
     (case p of MEM_ROW \<Rightarrow> r | MEM_COL \<Rightarrow> c | MEM_BANK \<Rightarrow> b | MEM_RANK \<Rightarrow> k | MEM_CHANNEL \<Rightarrow> h
      | MEM_SUBARRAY \<Rightarrow> s | MEM_UNKNOWN \<Rightarrow> 0)"

definition fields_of :: "(MemoryPartition \<Rightarrow> u64) \<Rightarrow> fields" where
  "fields_of parts = (parts MEM_ROW, parts MEM_COL, parts MEM_BANK, parts MEM_RANK,
     parts MEM_CHANNEL, parts MEM_SUBARRAY)"

lemma fields_of_parts_of [simp]: "fields_of (parts_of f) = f"
  by (cases f) (simp add: fields_of_def)

lemma fields_of_cong: "(\<And>p. p \<noteq> MEM_UNKNOWN \<Longrightarrow> x p = y p) \<Longrightarrow> fields_of x = fields_of y"
  by (simp add: fields_of_def)

definition encode_address :: "AddressTranslator \<Rightarrow> fields \<Rightarrow> u64 option" where
  "encode_address tr f = map_option fst (ReverseTranslate (parts_of f) tr)"

definition decode_address :: "AddressTranslator \<Rightarrow> u64 \<Rightarrow> fields option" where
  "decode_address tr a = map_option (\<lambda>(parts, _). fields_of parts) (TranslateAll a (\<lambda>_. 0) tr)"

definition fields_fit :: "AddressTranslator \<Rightarrow> fields \<Rightarrow> bool" where
  "fields_fit tr f \<longleftrightarrow> parts_fit tr (parts_of f)"

lemma decode_parts_inverse:
  assumes "method_wf off m" "\<forall>p \<in> set partitions. unat (parts p) < 2 ^ width m p"
    "unat a = undigits (map (width m) (layout m)) (map (\<lambda>p. unat (parts p)) (layout m))"
    "p \<noteq> MEM_UNKNOWN"
  shows "decode_parts m (layout m) a g p = parts p"
proof -
  have ord: "order_wf m" using assms(1) by (simp add: method_wf_def)
  have "list_all2 (\<lambda>w d. d < 2 ^ w) (map (width m) (layout m)) (map (\<lambda>p. unat (parts p)) (layout m))"
    using assms(2) layout_wf(2) [OF ord]
    by (auto simp: list_all2_conv_all_nth dest!: nth_mem)
  then have "map (\<lambda>q. unat (decode_parts m (layout m) a g q)) (layout m) =
      map (\<lambda>q. unat (parts q)) (layout m)"
    using decode_parts_digits [OF layout_wf(1) [OF ord], of m a g] assms(3)
    by (simp add: digits_undigits)
  moreover have "p \<in> set (layout m)" using layout_wf(2) [OF ord] assms(4) by simp
  ultimately show ?thesis by (simp add: word_unat_eq_iff)
qed

lemma translate_reverse:
  assumes "translator_wf tr" "parts_fit tr parts"
  shows "\<exists>a tr1 parts' tr2. ReverseTranslate parts tr = Some (a, tr1)
    \<and> TranslateAll a g tr = Some (parts', tr2) \<and> (\<forall>p. p \<noteq> MEM_UNKNOWN \<longrightarrow> parts' p = parts p)"
proof -
  obtain m where m: "method tr = Some m" "method_wf (offset_bits tr) m"
    using assms(1) by (auto simp: translator_wf_def split: option.splits)
  obtain a tr1 where a: "ReverseTranslate parts tr = Some (a, tr1)"
    "unat a = 2 ^ offset_bits tr * undigits (map (width m) (layout m))
       (map (\<lambda>p. unat (parts p)) (layout m))"
    using ReverseTranslate_eq [OF assms(1) m(1) assms(2)] by blast
  then have "unat (drop_bit (offset_bits tr) a) =
      undigits (map (width m) (layout m)) (map (\<lambda>p. unat (parts p)) (layout m))"
    by (simp add: unat_drop_bit)
  from decode_parts_inverse [OF m(2) _ this] assms(2) m(1)
  have "\<forall>p. p \<noteq> MEM_UNKNOWN \<longrightarrow>
      decode_parts m (layout m) (drop_bit (offset_bits tr) a) g p = parts p"
    by (simp add: parts_fit_def)
  then show ?thesis using a(1) TranslateAll_eq [OF assms(1) m(1), of a g] by blast
qed

lemma decoded_parts_fit:
  assumes "translator_wf tr" "TranslateAll a g tr = Some (parts, tr')"
  shows "parts_fit tr parts"
proof -
  obtain m where m: "method tr = Some m" "method_wf (offset_bits tr) m"
    using assms(1) by (auto simp: translator_wf_def split: option.splits)
  then have ord: "order_wf m" by (simp add: method_wf_def)
  have parts: "parts = decode_parts m (layout m) (drop_bit (offset_bits tr) a) g"
    using TranslateAll_eq [OF assms(1) m(1), of a g] assms(2) by auto
  have "unat (parts p) < 2 ^ width m p" if "p \<in> set ps" "distinct ps"
    "parts = decode_parts m ps b h" for p ps b h
    using that
  proof (induction ps arbitrary: b h)
    case (Cons q ps)
    show ?case
    proof (cases "p = q")
      case True
      then have "parts p = take_bit (width m p) b"
        using Cons.prems by (simp add: decode_parts_other)
      then show ?thesis by (simp add: unat_take_bit)
    next
      case False
      then show ?thesis using Cons.IH [OF _ _ Cons.prems(3) [simplified]] Cons.prems(1,2) by simp
    qed
  qed simp
  then show ?thesis
    using parts layout_wf [OF ord] m(1) by (auto simp: parts_fit_def)
qed

interpretation nvm_codec: address_codec encode_address decode_address translator_wf fields_fit
proof (unfold_locales, goal_cases)
  case (1 tr f)
  then obtain a tr1 parts' tr2 where "ReverseTranslate (parts_of f) tr = Some (a, tr1)"
    "TranslateAll a (\<lambda>_. 0) tr = Some (parts', tr2)"
    "\<forall>p. p \<noteq> MEM_UNKNOWN \<longrightarrow> parts' p = parts_of f p"
    using translate_reverse [of tr "parts_of f" "\<lambda>_. 0"] by (auto simp: fields_fit_def)
  then show ?case
    using fields_of_cong [of parts' "parts_of f"]
    by (simp add: encode_address_def decode_address_def)
next
  case (2 tr a)
  obtain m where m: "method tr = Some m"
    using 2 by (auto simp: translator_wf_def split: option.splits)
  obtain parts tr' where p: "TranslateAll a (\<lambda>_. 0) tr = Some (parts, tr')"
    using TranslateAll_eq [OF 2 m, of a "\<lambda>_. 0"] by blast
  have "fields_fit tr (fields_of parts)"
    using decoded_parts_fit [OF 2 p]
    by (auto simp: fields_fit_def parts_fit_def fields_of_def split: MemoryPartition.splits)
  then show ?case using p by (simp add: decode_address_def)
qed

section \<open>Properties\<close>

text \<open>The translator that the constructors build, with the default translation method.\<close>

definition default_translator :: AddressTranslator where
  "default_translator = SetTranslationMethod
     (TranslationMethod_new \<lparr>bitWidths = (\<lambda>_. 0), tcount = (\<lambda>_. 0), order = (\<lambda>_. 0)\<rparr>)
     AddressTranslator_new"

lemma default_translator_wf: "translator_wf default_translator"
proof -
  have "mlog2 64 = 6"
    by (simp add: mlog2_def mlog2_loop.simps)
  then have off: "offset_bits default_translator = 6"
    by (simp add: offset_bits_def default_translator_def SetTranslationMethod_def
        AddressTranslator_new_def)
  show ?thesis
    unfolding translator_wf_def off
    by (simp add: default_translator_def SetTranslationMethod_def AddressTranslator_new_def
        method_wf_def TranslationMethod_new_order_wf)
      (simp add: partitions_def width_def TranslationMethod_new_def SetOrder_def SetBitWidths_def)
qed

text \<open>C16 (address_roundtrip). With a well-formed translator, encoding fields that fit their widths
  succeeds, and decoding the resulting physical address gives exactly those fields back.\<close>

theorem address_roundtrip:
  assumes "translator_wf tr" "parts_fit tr parts"
  shows "\<exists>a tr1 parts' tr2. ReverseTranslate parts tr = Some (a, tr1)
    \<and> TranslateAll a g tr = Some (parts', tr2) \<and> (\<forall>p. p \<noteq> MEM_UNKNOWN \<longrightarrow> parts' p = parts p)"
  by (rule translate_reverse [OF assms])

theorem address_roundtrip_witness:
  "\<exists>a tr1 parts' tr2. ReverseTranslate (\<lambda>_. 1) default_translator = Some (a, tr1)
    \<and> TranslateAll a (\<lambda>_. 0) default_translator = Some (parts', tr2)
    \<and> (\<forall>p. p \<noteq> MEM_UNKNOWN \<longrightarrow> parts' p = 1)"
proof -
  have "parts_fit default_translator (\<lambda>_. 1)"
    by (simp add: parts_fit_def default_translator_def SetTranslationMethod_def)
      (simp add: partitions_def width_def TranslationMethod_new_def SetOrder_def SetBitWidths_def
        del: mem_partitions)
  from address_roundtrip [OF default_translator_wf this] show ?thesis .
qed

text \<open>Decoding any physical address and encoding the fields again gives
  the address with the byte offset inside the burst cleared and the bits above the mapped
  capacity dropped.\<close>

lemma decode_encode_aligned:
  assumes "translator_wf tr" "method tr = Some m"
  shows "\<exists>parts tr1 a' tr2. TranslateAll a g tr = Some (parts, tr1)
    \<and> ReverseTranslate parts tr = Some (a', tr2)
    \<and> unat a' = 2 ^ offset_bits tr
        * (unat a div 2 ^ offset_bits tr mod 2 ^ sum_list (map (width m) partitions))"
proof -
  have ord: "order_wf m" using assms by (simp add: translator_wf_def method_wf_def)
  obtain tr1 where t: "TranslateAll a g tr =
      Some (decode_parts m (layout m) (drop_bit (offset_bits tr) a) g, tr1)"
    using TranslateAll_eq [OF assms] by blast
  define parts where "parts = decode_parts m (layout m) (drop_bit (offset_bits tr) a) g"
  obtain a' tr2 where r: "ReverseTranslate parts tr = Some (a', tr2)"
    "unat a' = 2 ^ offset_bits tr * undigits (map (width m) (layout m))
       (map (\<lambda>p. unat (parts p)) (layout m))"
    using ReverseTranslate_eq [OF assms decoded_parts_fit [OF assms(1) t]] by (auto simp: parts_def)
  have "map (\<lambda>p. unat (parts p)) (layout m) =
      digits (map (width m) (layout m)) (unat a div 2 ^ offset_bits tr)"
    unfolding parts_def decode_parts_digits [OF layout_wf(1) [OF ord]] by (simp add: unat_drop_bit)
  then show ?thesis using t r layout_sum [OF ord, of "width m"]
    by (auto simp: parts_def undigits_digits)
qed

text \<open>Two different tuples of fields that fit never encode to the
  same physical address.\<close>

lemma cells_have_distinct_addresses:
  assumes "translator_wf tr" "fields_fit tr f" "fields_fit tr f'"
    "encode_address tr f = encode_address tr f'"
  shows "f = f'"
  using assms by (rule nvm_codec.encode_inj)

text \<open>A request that carries the fields decoded from its own
  physical address is routed to the same child as a request that carries only the physical
  address.\<close>

lemma decoder_agrees_with_request:
  assumes "TranslateAll (physicalAddress (address req)) g tr = Some (parts, tr')"
    "req' = req\<lparr>address := SetTranslatedAddress (parts MEM_ROW) (parts MEM_COL) (parts MEM_BANK)
       (parts MEM_RANK) (parts MEM_CHANNEL) (parts MEM_SUBARRAY) (address req)\<rparr>"
    "\<not> translated (address req)" "translator_wf tr"
  shows "map_option fst (TranslateRequest g req' tr) = map_option fst (TranslateRequest g req tr)"
proof -
  obtain m where "method tr = Some m"
    using assms(4) by (auto simp: translator_wf_def split: option.splits)
  from TranslateAll_eq [OF assms(4) this, of "physicalAddress (address req)" g] assms(1)
  have "defaultField tr' = defaultField tr" by auto
  then show ?thesis
    using assms(1-3)
    by (auto simp: TranslateRequest_def TranslateField_def SetTranslatedAddress_def field_of_def
        split: TranslationField.splits)
qed

end
