(* ===== verification/Event_Queue.thy ===== *)
theory Event_Queue
  imports NVM_Request "HOL-Library.Multiset"
begin

text \<open>
  \<^verbatim>\<open>src/NVmain/src/EventQueue.cpp\<close>: the discrete-event core of the simulator. The queue maps a
  cycle to the list of events due then; \<^verbatim>\<open>Process\<close> delivers the events of the earliest cycle and
  \<^verbatim>\<open>Loop\<close> advances time. An event object is identified by its address \<open>eptr\<close>; \<open>efreed\<close>
  marks an event that \<^verbatim>\<open>Process\<close> has deleted while its pointer is still in the list, and reading
  such an event is \<open>None\<close>. The objects that receive events are the parameter \<open>h\<close>: it gets the
  action (which virtual function is called on which object with which arguments) and may change
  the queue and the rest of the simulator's state.

  Contents: the operations; the invariant \<open>evq_wf\<close> and that every operation keeps it; the
  abstract view \<open>pending\<close> (all events in delivery order) and what insertion and removal do to it;
  that the pointer-chasing loop of \<^verbatim>\<open>Process\<close> delivers the list in order; that \<^verbatim>\<open>Loop\<close>
  returns with the clock advanced by the requested number of cycles.
\<close>

section \<open>Events\<close>

datatype EventType =
  EventUnknown | EventCycle | EventIdle | EventRequest | EventResponse | EventCallback

record Event =
  eptr :: nat
  etype :: EventType
  recipient :: "obj_id option"
  erequest :: "req_ptr option"
  edata :: "nat option"
  ecycle :: ncycle_t
  epriority :: int
  emethod :: "nat option"
  efreed :: bool

definition Event_new :: "nat \<Rightarrow> Event" where
  "Event_new ptr = \<lparr>eptr = ptr, etype = EventUnknown, recipient = None, erequest = None,
     edata = None, ecycle = 0, epriority = 0, emethod = None, efreed = False\<rparr>"

record EventQueue =
  nextEventCycle :: ncycle_t
  lastEventCycle :: ncycle_t
  currentCycle :: ncycle_t
  frequency :: real
  eventMap :: "(ncycle_t, Event list) omap"
  nextPtr :: nat

abbreviation max_cycle :: ncycle_t where
  "max_cycle \<equiv> - 1"

definition EventQueue_new :: "real \<Rightarrow> EventQueue" where
  "EventQueue_new f = \<lparr>nextEventCycle = max_cycle, lastEventCycle = 0, currentCycle = 0,
     frequency = f, eventMap = [], nextPtr = 0\<rparr>"

text \<open>\<^verbatim>\<open>new Event()\<close>: a fresh address.\<close>

definition Event_alloc :: "EventQueue \<Rightarrow> Event \<times> EventQueue" where
  "Event_alloc q = (Event_new (nextPtr q), q\<lparr>nextPtr := Suc (nextPtr q)\<rparr>)"

section \<open>Insertion, search and removal\<close>

text \<open>The scan for the first event of a larger priority number reads every event it passes.\<close>

fun insert_by_priority :: "int \<Rightarrow> Event \<Rightarrow> Event list \<Rightarrow> Event list option" where
  "insert_by_priority p e [] = Some [e]"
| "insert_by_priority p e (x # xs) =
     (if efreed x then None
      else if p < epriority x then Some (e # x # xs)
      else map_option ((#) x) (insert_by_priority p e xs))"

definition InsertEventObj :: "Event \<Rightarrow> ncycle_t \<Rightarrow> int \<Rightarrow> EventQueue \<Rightarrow> EventQueue option" where
  "InsertEventObj event due p q =
     (let event = event\<lparr>ecycle := due\<rparr>;
          q = (if due < nextEventCycle q then q\<lparr>nextEventCycle := due\<rparr> else q)
      in case map_of (eventMap q) due of
           None \<Rightarrow> Some (q\<lparr>eventMap := omap_set due [event] (eventMap q)\<rparr>)
         | Some eventList \<Rightarrow> do {
             eventList' \<leftarrow> insert_by_priority p event eventList;
             Some (q\<lparr>eventMap := omap_set due eventList' (eventMap q)\<rparr>)
           })"

text \<open>The priority argument selects the position but is not stored in the event.\<close>

definition InsertEvent ::
  "EventType \<Rightarrow> obj_id \<Rightarrow> req_ptr option \<Rightarrow> ncycle_t \<Rightarrow> nat option \<Rightarrow> int \<Rightarrow> EventQueue
     \<Rightarrow> EventQueue option" where
  "InsertEvent ty rcp req due d p q =
     (let (event, q) = Event_alloc q in
      InsertEventObj (event\<lparr>etype := ty, recipient := Some rcp, erequest := req, ecycle := due,
        edata := d\<rparr>) due p q)"

definition InsertCallback ::
  "obj_id \<Rightarrow> nat \<Rightarrow> ncycle_t \<Rightarrow> nat option \<Rightarrow> int \<Rightarrow> EventQueue \<Rightarrow> EventQueue option" where
  "InsertCallback rcp cb due d p q =
     (let (event, q) = Event_alloc q in
      InsertEventObj (event\<lparr>etype := EventCallback, recipient := Some rcp, edata := d,
        ecycle := due, epriority := p, emethod := Some cb\<rparr>) due p q)"

fun erase_ptr :: "nat \<Rightarrow> Event list \<Rightarrow> Event list" where
  "erase_ptr ptr [] = []"
| "erase_ptr ptr (x # xs) = (if eptr x = ptr then xs else x # erase_ptr ptr xs)"

definition front_cycle :: "(ncycle_t, Event list) omap \<Rightarrow> ncycle_t" where
  "front_cycle m = (case m of [] \<Rightarrow> max_cycle | (k, _) # _ \<Rightarrow> k)"

definition RemoveEvent :: "nat \<Rightarrow> ncycle_t \<Rightarrow> EventQueue \<Rightarrow> bool \<times> EventQueue" where
  "RemoveEvent ptr due q =
     (case map_of (eventMap q) due of
        None \<Rightarrow> (False, q)
      | Some eventList \<Rightarrow>
          (let rv = (\<exists>e \<in> set eventList. eptr e = ptr);
               eventList' = erase_ptr ptr eventList;
               em = (if \<not> rv then eventMap q
                     else if eventList' = [] then omap_erase due (eventMap q)
                     else omap_set due eventList' (eventMap q))
           in (rv, q\<lparr>eventMap := em, nextEventCycle := front_cycle em\<rparr>)))"

text \<open>The last match wins: the loop does not stop at the first one.\<close>

definition FindEvent ::
  "EventType \<Rightarrow> obj_id \<Rightarrow> req_ptr option \<Rightarrow> ncycle_t \<Rightarrow> EventQueue \<Rightarrow> Event option option" where
  "FindEvent ty rcp req due q =
     (case map_of (eventMap q) due of
        None \<Rightarrow> Some None
      | Some eventList \<Rightarrow>
          if \<exists>e \<in> set eventList. efreed e then None
          else Some (List.find (\<lambda>e. etype e = ty \<and> recipient e = Some rcp \<and> erequest e = req)
             (rev eventList)))"

fun find_callback ::
  "obj_id \<Rightarrow> nat \<Rightarrow> nat option \<Rightarrow> int \<Rightarrow> Event list \<Rightarrow> Event option option" where
  "find_callback rcp cb d p [] = Some None"
| "find_callback rcp cb d p (e # es) =
     (if efreed e \<or> recipient e = None then None
      else if recipient e = Some rcp \<and> emethod e = Some cb \<and> edata e = d \<and> epriority e = p
      then Some (Some e)
      else find_callback rcp cb d p es)"

definition FindCallback ::
  "obj_id \<Rightarrow> nat \<Rightarrow> ncycle_t \<Rightarrow> nat option \<Rightarrow> int \<Rightarrow> EventQueue \<Rightarrow> Event option option" where
  "FindCallback rcp cb due d p q =
     (case map_of (eventMap q) due of
        None \<Rightarrow> Some None
      | Some eventList \<Rightarrow> find_callback rcp cb d p eventList)"

section \<open>Processing\<close>

text \<open>The call that delivering an event makes.\<close>

datatype action =
    DoCycle obj_id ncycle_t
  | DoRequestComplete obj_id "req_ptr option"
  | DoCallback obj_id nat "nat option"
  | DoNothing

definition event_action :: "EventQueue \<Rightarrow> Event \<Rightarrow> action option" where
  "event_action q e =
     (case etype e of
        EventCycle \<Rightarrow> do {
          r \<leftarrow> recipient e;
          Some (DoCycle r (nextEventCycle q - lastEventCycle q))
        }
      | EventResponse \<Rightarrow> do { r \<leftarrow> recipient e; Some (DoRequestComplete r (erequest e)) }
      | EventCallback \<Rightarrow> do {
          r \<leftarrow> recipient e;
          cb \<leftarrow> emethod e;
          Some (DoCallback r cb (edata e))
        }
      | _ \<Rightarrow> Some DoNothing)"

type_synonym 's handler = "action \<Rightarrow> EventQueue \<times> 's \<Rightarrow> (EventQueue \<times> 's) option"

fun free_ptr :: "nat \<Rightarrow> Event list \<Rightarrow> Event list" where
  "free_ptr ptr [] = []"
| "free_ptr ptr (x # xs) = (if eptr x = ptr then x\<lparr>efreed := True\<rparr> # xs else x # free_ptr ptr xs)"

definition first_ptr :: "Event list \<Rightarrow> nat option" where
  "first_ptr es = (case es of [] \<Rightarrow> None | e # _ \<Rightarrow> Some (eptr e))"

text \<open>
  The list iterator is the address of the event it stands on. After the call the list is read
  again, since the call may have inserted or removed events; if the event under the iterator has
  left the list the iterator is invalid.
\<close>

partial_function (option) process_events ::
  "'s handler \<Rightarrow> ncycle_t \<Rightarrow> nat option \<Rightarrow> EventQueue \<times> 's \<Rightarrow> (EventQueue \<times> 's) option" where
  "process_events h k it st =
     (case it of
        None \<Rightarrow> Some st
      | Some ptr \<Rightarrow> do {
          eventList \<leftarrow> map_of (eventMap (fst st)) k;
          e \<leftarrow> List.find (\<lambda>x. eptr x = ptr) eventList;
          a \<leftarrow> event_action (fst st) e;
          st1 \<leftarrow> h a st;
          eventList1 \<leftarrow> map_of (eventMap (fst st1)) k;
          rest \<leftarrow> (case dropWhile (\<lambda>x. eptr x \<noteq> ptr) eventList1 of
                     [] \<Rightarrow> None | _ # xs \<Rightarrow> Some xs);
          process_events h k (first_ptr rest)
            ((fst st1)\<lparr>eventMap := omap_set k (free_ptr ptr eventList1) (eventMap (fst st1))\<rparr>,
             snd st1)
        })"

definition Process :: "'s handler \<Rightarrow> EventQueue \<times> 's \<Rightarrow> (EventQueue \<times> 's) option" where
  "Process h st = do {
     eventList \<leftarrow> map_of (eventMap (fst st)) (nextEventCycle (fst st));
     st1 \<leftarrow> process_events h (nextEventCycle (fst st)) (first_ptr eventList) st;
     let q = fst st1;
     let em = omap_erase (nextEventCycle q) (eventMap q);
     Some (q\<lparr>eventMap := em, lastEventCycle := nextEventCycle q,
             nextEventCycle := front_cycle em\<rparr>, snd st1)
   }"

definition Loop :: "'s handler \<Rightarrow> EventQueue \<times> 's \<Rightarrow> (EventQueue \<times> 's) option" where
  "Loop h st = do {
     st1 \<leftarrow> (if nextEventCycle (fst st) = currentCycle (fst st) then Process h st else Some st);
     Some ((fst st1)\<lparr>currentCycle := currentCycle (fst st1) + 1\<rparr>, snd st1)
   }"

partial_function (option) loop_steps ::
  "'s handler \<Rightarrow> ncycle_t \<Rightarrow> EventQueue \<times> 's \<Rightarrow> (EventQueue \<times> 's) option" where
  "loop_steps h stepCycles st =
     (if stepCycles = 0 then Some st
      else
        (let q = fst st in
         if nextEventCycle q > currentCycle q + stepCycles
         then Some (q\<lparr>currentCycle := currentCycle q + stepCycles\<rparr>, snd st)
         else
           (let currentSteps = nextEventCycle q - currentCycle q in
            do {
              st1 \<leftarrow> Process h (q\<lparr>currentCycle := currentCycle q + currentSteps\<rparr>, snd st);
              loop_steps h (stepCycles - currentSteps) st1
            })))"

definition LoopSteps :: "'s handler \<Rightarrow> ncycle_t \<Rightarrow> EventQueue \<times> 's \<Rightarrow> (EventQueue \<times> 's) option" where
  "LoopSteps h steps st =
     (if steps = 0 \<and> nextEventCycle (fst st) = currentCycle (fst st) then Process h st
      else loop_steps h steps st)"

section \<open>The invariant\<close>

definition all_events :: "EventQueue \<Rightarrow> Event list" where
  "all_events q = concat (map snd (eventMap q))"

definition lists_wf :: "(ncycle_t, Event list) omap \<Rightarrow> bool" where
  "lists_wf m \<longleftrightarrow> (\<forall>(k, l) \<in> set m. l \<noteq> [] \<and> (\<forall>e \<in> set l. ecycle e = k \<and> \<not> efreed e))"

definition evq_wf :: "EventQueue \<Rightarrow> bool" where
  "evq_wf q \<longleftrightarrow> omap_wf (eventMap q) \<and> lists_wf (eventMap q)
     \<and> nextEventCycle q = front_cycle (eventMap q)
     \<and> distinct (map eptr (all_events q)) \<and> (\<forall>e \<in> set (all_events q). eptr e < nextPtr q)"

lemma evq_wf_new [nvm_wf]: "evq_wf (EventQueue_new f)"
  by (simp add: evq_wf_def EventQueue_new_def lists_wf_def front_cycle_def all_events_def)

section \<open>The abstract view: events in delivery order\<close>

text \<open>
  Insertion at a cycle: after every event of an earlier cycle and after the events of the same
  cycle up to the first one whose priority number is larger.
\<close>

definition pending_insert :: "Event \<Rightarrow> ncycle_t \<Rightarrow> int \<Rightarrow> Event list \<Rightarrow> Event list" where
  "pending_insert e due p es =
     (let same = [x \<leftarrow> es. ecycle x = due] in
      [x \<leftarrow> es. ecycle x < due]
        @ takeWhile (\<lambda>x. epriority x \<le> p) same @ [e] @ dropWhile (\<lambda>x. epriority x \<le> p) same
        @ [x \<leftarrow> es. due < ecycle x])"

lemma insert_by_priority_eq:
  "\<forall>x \<in> set xs. \<not> efreed x \<Longrightarrow> insert_by_priority p e xs =
     Some (takeWhile (\<lambda>x. epriority x \<le> p) xs @ [e] @ dropWhile (\<lambda>x. epriority x \<le> p) xs)"
  by (induction xs) auto

lemma insert_by_priority_freed:
  "efreed x \<Longrightarrow> insert_by_priority p e (x # xs) = None"
  by simp

text \<open>The parts of the map below, at and above a cycle, as filters on the events.\<close>

lemma events_split:
  assumes "omap_wf m" "lists_wf m"
  shows "\<exists>m1 m2. concat (map snd m1) = [x \<leftarrow> concat (map snd m). ecycle x < k]
    \<and> concat (map snd m2) = [x \<leftarrow> concat (map snd m). k < ecycle x]
    \<and> (case map_of m k of None \<Rightarrow> [] | Some l \<Rightarrow> l) = [x \<leftarrow> concat (map snd m). ecycle x = k]
    \<and> concat (map snd m) = concat (map snd m1)
        @ (case map_of m k of None \<Rightarrow> [] | Some l \<Rightarrow> l) @ concat (map snd m2)
    \<and> (\<forall>l. omap_set k l m = m1 @ (k, l) # m2) \<and> omap_erase k m = m1 @ m2
    \<and> set m1 \<subseteq> set m \<and> set m2 \<subseteq> set m"
proof -
  obtain m1 m2 where m: "\<forall>x \<in> fst ` set m1. x < k" "\<forall>x \<in> fst ` set m2. k < x"
    "m = m1 @ (case map_of m k of None \<Rightarrow> [] | Some v \<Rightarrow> [(k, v)]) @ m2"
    "\<forall>v'. omap_set k v' m = m1 @ (k, v') # m2" "omap_erase k m = m1 @ m2"
    using omap_split [OF assms(1)] by blast
  define l where "l = (case map_of m k of None \<Rightarrow> [] | Some l \<Rightarrow> l)"
  have cat: "concat (map snd m) = concat (map snd m1) @ l @ concat (map snd m2)"
    by (subst m(3)) (auto simp: l_def split: option.splits)
  have "set m = set m1 \<union> set (case map_of m k of None \<Rightarrow> [] | Some v \<Rightarrow> [(k, v)]) \<union> set m2"
    by (subst m(3)) (simp add: Un_assoc)
  then have sub: "set m1 \<subseteq> set m" "set m2 \<subseteq> set m" by auto
  have key: "ecycle x = k'" if "(k', es) \<in> set m" "x \<in> set es" for k' es x
    using that assms(2) by (auto simp: lists_wf_def)
  have 1: "\<forall>x \<in> set (concat (map snd m1)). ecycle x < k"
    using m(1) sub key by fastforce
  have 2: "\<forall>x \<in> set (concat (map snd m2)). k < ecycle x"
    using m(2) sub key by fastforce
  have 3: "\<forall>x \<in> set l. ecycle x = k"
    by (auto simp: l_def split: option.splits dest: map_of_SomeD [OF sym] key)
  note f = filter_below [OF 1] filter_above [OF 2] filter_at [OF 3]
  show ?thesis
    unfolding l_def [symmetric]
    by (rule exI [of _ m1], rule exI [of _ m2])
      (use cat f sub m(4,5) in \<open>simp only: filter_append append_Nil append_Nil2, blast\<close>)
qed

lemma lists_wf_sub: "lists_wf m \<Longrightarrow> set m' \<subseteq> set m \<Longrightarrow> lists_wf m'"
  by (auto simp: lists_wf_def)

lemma lists_wf_append [simp]: "lists_wf (m @ m') \<longleftrightarrow> lists_wf m \<and> lists_wf m'"
  by (auto simp: lists_wf_def)

lemma lists_wf_Cons [simp]: "lists_wf ((k, l) # m) \<longleftrightarrow>
    l \<noteq> [] \<and> (\<forall>e \<in> set l. ecycle e = k \<and> \<not> efreed e) \<and> lists_wf m"
  by (auto simp: lists_wf_def)

lemma lists_wf_Nil [simp]: "lists_wf []"
  by (simp add: lists_wf_def)

lemma front_cycle_first: "front_cycle m = (case omap_first m of None \<Rightarrow> max_cycle | Some k \<Rightarrow> k)"
  by (cases m) (auto simp: front_cycle_def omap_first_def)

lemma front_cycle_set:
  "omap_wf m \<Longrightarrow> front_cycle (omap_set k l m) = min k (front_cycle m)"
  by (simp add: front_cycle_first om.first_insert split: option.splits)


text \<open>What one insertion does to the map, and that it keeps the lists well-formed.\<close>

lemma InsertEventObj_eq:
  fixes due :: ncycle_t
  assumes "evq_wf q"
  defines "same \<equiv> [x \<leftarrow> all_events q. ecycle x = due]"
  shows "InsertEventObj e due p q = Some (q\<lparr>nextEventCycle := min due (nextEventCycle q),
     eventMap := omap_set due (takeWhile (\<lambda>x. epriority x \<le> p) same @ [e\<lparr>ecycle := due\<rparr>]
       @ dropWhile (\<lambda>x. epriority x \<le> p) same) (eventMap q)\<rparr>)"
proof -
  have wf: "omap_wf (eventMap q)" "lists_wf (eventMap q)" using assms(1) by (simp_all add: evq_wf_def)
  have same: "(case map_of (eventMap q) due of None \<Rightarrow> [] | Some l \<Rightarrow> l) = same"
    using events_split [OF wf, of due] by (auto simp: same_def all_events_def)
  have next_eq: "(if due < nextEventCycle q then q\<lparr>nextEventCycle := due\<rparr> else q) =
     q\<lparr>nextEventCycle := min due (nextEventCycle q)\<rparr>"
    by (simp add: min_def)
  show ?thesis
  proof (cases "map_of (eventMap q) due")
    case None
    then show ?thesis
      using same unfolding InsertEventObj_def next_eq by (simp add: Let_def)
  next
    case (Some l)
    then have "\<forall>x \<in> set l. \<not> efreed x" using wf(2) by (auto simp: lists_wf_def dest!: map_of_SomeD)
    then show ?thesis
      using Some same insert_by_priority_eq [of l p "e\<lparr>ecycle := due\<rparr>"]
      unfolding InsertEventObj_def next_eq by (simp add: Let_def)
  qed
qed

lemma InsertEventObj_all_events:
  assumes "evq_wf q" "InsertEventObj e due p q = Some q'"
  shows "all_events q' = pending_insert (e\<lparr>ecycle := due\<rparr>) due p (all_events q)"
proof -
  have wf: "omap_wf (eventMap q)" "lists_wf (eventMap q)" using assms(1) by (simp_all add: evq_wf_def)
  obtain m1 m2 where "concat (map snd m1) = [x \<leftarrow> all_events q. ecycle x < due]"
    "concat (map snd m2) = [x \<leftarrow> all_events q. due < ecycle x]"
    "\<forall>l. omap_set due l (eventMap q) = m1 @ (due, l) # m2"
    using events_split [OF wf, of due] by (auto simp: all_events_def)
  moreover have "eventMap q' = omap_set due
      (takeWhile (\<lambda>x. epriority x \<le> p) [x \<leftarrow> all_events q. ecycle x = due] @ [e\<lparr>ecycle := due\<rparr>]
       @ dropWhile (\<lambda>x. epriority x \<le> p) [x \<leftarrow> all_events q. ecycle x = due]) (eventMap q)"
    using InsertEventObj_eq [OF assms(1), of e due p] assms(2) by auto
  ultimately show ?thesis
    by (simp add: all_events_def [of q'] pending_insert_def Let_def)
qed

lemma mset_pending_insert: "mset (pending_insert e due p es) = add_mset e (mset es)"
proof -
  let ?s = "[x \<leftarrow> es. ecycle x = due]"
  have tw: "mset (takeWhile (\<lambda>x. epriority x \<le> p) ?s) + mset (dropWhile (\<lambda>x. epriority x \<le> p) ?s)
      = mset ?s"
    by (simp flip: mset_append)
  have es: "mset es = mset [x \<leftarrow> es. ecycle x < due] + mset ?s + mset [x \<leftarrow> es. due < ecycle x]"
    by (induction es) auto
  show ?thesis
    unfolding es pending_insert_def Let_def mset_append tw [symmetric] by simp
qed

lemma set_pending_insert: "set (pending_insert e due p es) = insert e (set es)"
  using arg_cong [OF mset_pending_insert, of set_mset] by simp

lemma InsertEventObj_wf:
  assumes "evq_wf q" "InsertEventObj e due p q = Some q'"
    "eptr e \<notin> eptr ` set (all_events q)" "eptr e < nextPtr q" "\<not> efreed e"
  shows "evq_wf q'"
proof -
  have wf: "omap_wf (eventMap q)" "lists_wf (eventMap q)" "nextEventCycle q = front_cycle (eventMap q)"
    "distinct (map eptr (all_events q))" "\<forall>e \<in> set (all_events q). eptr e < nextPtr q"
    using assms(1) by (simp_all add: evq_wf_def)
  let ?same = "[x \<leftarrow> all_events q. ecycle x = due]"
  let ?l = "takeWhile (\<lambda>x. epriority x \<le> p) ?same @ [e\<lparr>ecycle := due\<rparr>]
       @ dropWhile (\<lambda>x. epriority x \<le> p) ?same"
  have q': "q' = q\<lparr>nextEventCycle := min due (nextEventCycle q), eventMap := omap_set due ?l (eventMap q)\<rparr>"
    using InsertEventObj_eq [OF assms(1), of e due p] assms(2) by simp
  obtain m1 m2 where m: "omap_set due ?l (eventMap q) = m1 @ (due, ?l) # m2"
    "set m1 \<subseteq> set (eventMap q)" "set m2 \<subseteq> set (eventMap q)"
    using events_split [OF wf(1,2), of due] by blast
  have "\<forall>x \<in> set (all_events q). \<not> efreed x" using wf(2) by (auto simp: all_events_def lists_wf_def)
  then have "\<forall>x \<in> set ?l. ecycle x = due \<and> \<not> efreed x"
    using assms(5) by (auto dest: set_takeWhileD set_dropWhileD)
  then have "lists_wf (omap_set due ?l (eventMap q))"
    unfolding m(1) lists_wf_append lists_wf_Cons
    using lists_wf_sub [OF wf(2) m(2)] lists_wf_sub [OF wf(2) m(3)] by blast
  moreover have "omap_wf (omap_set due ?l (eventMap q))" by (rule omap_wf_set [OF wf(1)])
  moreover have "front_cycle (omap_set due ?l (eventMap q)) = min due (nextEventCycle q)"
    using front_cycle_set [OF wf(1)] wf(3) by simp
  moreover have "set (all_events q') = insert (e\<lparr>ecycle := due\<rparr>) (set (all_events q))"
    using InsertEventObj_all_events [OF assms(1,2)] by (simp add: set_pending_insert)
  moreover have "mset (map eptr (all_events q')) = add_mset (eptr e) (mset (map eptr (all_events q)))"
    using InsertEventObj_all_events [OF assms(1,2)] by (simp add: mset_pending_insert)
  then have "distinct (map eptr (all_events q'))"
    using wf(4) assms(3) mset_eq_imp_distinct_iff [of "map eptr (all_events q')" "eptr e # map eptr (all_events q)"]
    by simp
  moreover have "eventMap q' = omap_set due ?l (eventMap q)" "nextPtr q' = nextPtr q"
    "nextEventCycle q' = min due (nextEventCycle q)"
    by (simp_all add: q')
  ultimately show ?thesis using wf(5) assms(4) unfolding evq_wf_def by simp
qed

lemma InsertEventObj_frame [nvm_frame]:
  "InsertEventObj e due p q = Some q' \<Longrightarrow>
     currentCycle q' = currentCycle q \<and> lastEventCycle q' = lastEventCycle q
     \<and> frequency q' = frequency q \<and> nextPtr q' = nextPtr q
     \<and> nextEventCycle q' = min due (nextEventCycle q)"
  by (auto simp: InsertEventObj_def Let_def bind_eq_Some_conv min_def split: option.splits if_splits)

lemma Event_alloc_wf: "evq_wf q \<Longrightarrow> evq_wf (q\<lparr>nextPtr := Suc (nextPtr q)\<rparr>)"
  by (fastforce simp: evq_wf_def all_events_def)

lemma fresh_ptr: "evq_wf q \<Longrightarrow> nextPtr q \<notin> eptr ` set (all_events q)"
  by (auto simp: evq_wf_def)

lemma insert_fresh:
  assumes "evq_wf q" "eptr e = nextPtr q" "\<not> efreed e"
  shows "\<exists>q'. InsertEventObj e due p (q\<lparr>nextPtr := Suc (nextPtr q)\<rparr>) = Some q' \<and> evq_wf q'
    \<and> all_events q' = pending_insert (e\<lparr>ecycle := due\<rparr>) due p (all_events q)"
proof -
  let ?q = "q\<lparr>nextPtr := Suc (nextPtr q)\<rparr>"
  have wf: "evq_wf ?q" by (rule Event_alloc_wf [OF assms(1)])
  obtain q' where q': "InsertEventObj e due p ?q = Some q'" using InsertEventObj_eq [OF wf] by blast
  have "all_events ?q = all_events q" by (simp add: all_events_def)
  then show ?thesis
    using InsertEventObj_wf [OF wf q'] InsertEventObj_all_events [OF wf q'] q' assms(2,3)
      fresh_ptr [OF assms(1)] by auto
qed

text \<open>The event that \<^verbatim>\<open>InsertEvent\<close> builds.\<close>

definition plain_event ::
  "nat \<Rightarrow> EventType \<Rightarrow> obj_id \<Rightarrow> req_ptr option \<Rightarrow> ncycle_t \<Rightarrow> nat option \<Rightarrow> Event" where
  "plain_event ptr ty rcp req due d = (Event_new ptr)\<lparr>etype := ty, recipient := Some rcp,
     erequest := req, ecycle := due, edata := d\<rparr>"

lemma InsertEvent_spec:
  assumes "evq_wf q"
  shows "\<exists>q'. InsertEvent ty rcp req due d p q = Some q' \<and> evq_wf q'
    \<and> all_events q' = pending_insert (plain_event (nextPtr q) ty rcp req due d) due p (all_events q)
    \<and> currentCycle q' = currentCycle q \<and> nextEventCycle q' = min due (nextEventCycle q)
    \<and> nextPtr q' = Suc (nextPtr q)"
proof -
  let ?e = "plain_event (nextPtr q) ty rcp req due d"
  have e: "eptr ?e = nextPtr q" "\<not> efreed ?e" "?e\<lparr>ecycle := due\<rparr> = ?e"
    by (simp_all add: plain_event_def Event_new_def)
  obtain q' where q': "InsertEventObj ?e due p (q\<lparr>nextPtr := Suc (nextPtr q)\<rparr>) = Some q'"
    "evq_wf q'" "all_events q' = pending_insert (?e\<lparr>ecycle := due\<rparr>) due p (all_events q)"
    using insert_fresh [OF assms e(1,2)] by blast
  moreover have "InsertEvent ty rcp req due d p q =
      InsertEventObj ?e due p (q\<lparr>nextPtr := Suc (nextPtr q)\<rparr>)"
    by (simp add: InsertEvent_def Event_alloc_def plain_event_def)
  ultimately show ?thesis using InsertEventObj_frame [OF q'(1)] e(3) by auto
qed

section \<open>Removal\<close>

lemma erase_ptr_filter:
  "distinct (map eptr es) \<Longrightarrow> erase_ptr ptr es = [x \<leftarrow> es. eptr x \<noteq> ptr]"
proof (induction es)
  case (Cons e es)
  show ?case
  proof (cases "eptr e = ptr")
    case True
    then have "\<forall>x \<in> set es. eptr x \<noteq> ptr" using Cons.prems by (force simp: image_iff)
    then have "[x \<leftarrow> es. eptr x \<noteq> ptr] = es" by simp
    then show ?thesis using True by simp
  next
    case False
    then show ?thesis using Cons by simp
  qed
qed simp

lemma evq_wf_restrict:
  assumes "evq_wf q" "omap_wf em" "lists_wf em" "concat (map snd em) = filter P (all_events q)"
  shows "evq_wf (q\<lparr>eventMap := em, nextEventCycle := front_cycle em\<rparr>)"
proof -
  have ev: "all_events (q\<lparr>eventMap := em, nextEventCycle := front_cycle em\<rparr>) = filter P (all_events q)"
    using assms(4) by (simp add: all_events_def)
  show ?thesis
    using assms(1-3) unfolding evq_wf_def ev by (simp add: distinct_map_filter)
qed

lemma RemoveEvent_spec:
  assumes "evq_wf q" "RemoveEvent ptr due q = (rv, q')"
  shows "rv = (\<exists>e \<in> set (all_events q). eptr e = ptr \<and> ecycle e = due)"
    "all_events q' = [e \<leftarrow> all_events q. \<not> (eptr e = ptr \<and> ecycle e = due)]" "evq_wf q'"
    "currentCycle q' = currentCycle q" "nextPtr q' = nextPtr q"
proof -
  have wf: "omap_wf (eventMap q)" "lists_wf (eventMap q)" "nextEventCycle q = front_cycle (eventMap q)"
    "distinct (map eptr (all_events q))"
    using assms(1) by (simp_all add: evq_wf_def)
  let ?keep = "\<lambda>e. \<not> (eptr e = ptr \<and> ecycle e = due)"
  obtain m1 m2 where m: "concat (map snd m1) = [x \<leftarrow> all_events q. ecycle x < due]"
    "concat (map snd m2) = [x \<leftarrow> all_events q. due < ecycle x]"
    "(case map_of (eventMap q) due of None \<Rightarrow> [] | Some l \<Rightarrow> l) = [x \<leftarrow> all_events q. ecycle x = due]"
    "all_events q = concat (map snd m1)
        @ (case map_of (eventMap q) due of None \<Rightarrow> [] | Some l \<Rightarrow> l) @ concat (map snd m2)"
    "\<And>l. omap_set due l (eventMap q) = m1 @ (due, l) # m2" "omap_erase due (eventMap q) = m1 @ m2"
    "set m1 \<subseteq> set (eventMap q)" "set m2 \<subseteq> set (eventMap q)"
    using events_split [OF wf(1,2), of due] unfolding all_events_def by blast
  show "currentCycle q' = currentCycle q" "nextPtr q' = nextPtr q"
    using assms(2) by (auto simp: RemoveEvent_def Let_def split: option.splits)
  have id1: "filter ?keep (concat (map snd m1)) = concat (map snd m1)"
    unfolding m(1) by (auto simp: filter_filter intro!: filter_cong)
  have id2: "filter ?keep (concat (map snd m2)) = concat (map snd m2)"
    unfolding m(2) by (auto simp: filter_filter intro!: filter_cong)
  define l where "l = [x \<leftarrow> all_events q. ecycle x = due]"
  have all: "all_events q = concat (map snd m1) @ l @ concat (map snd m2)"
    using m(3,4) by (simp add: l_def)
  have "distinct (map eptr l)" using wf(4) by (simp add: l_def distinct_map_filter)
  then have er: "erase_ptr ptr l = filter ?keep l"
    by (simp add: erase_ptr_filter l_def filter_filter conj_commute cong: conj_cong)
  have keep: "filter ?keep (all_events q) = concat (map snd m1) @ erase_ptr ptr l @ concat (map snd m2)"
    unfolding all filter_append id1 id2 er ..
  have mem: "(\<exists>e \<in> set (all_events q). eptr e = ptr \<and> ecycle e = due) = (\<exists>e \<in> set l. eptr e = ptr)"
    by (auto simp: l_def)
  have "rv = (\<exists>e \<in> set l. eptr e = ptr) \<and> all_events q' = filter ?keep (all_events q) \<and> evq_wf q'"
  proof (cases "map_of (eventMap q) due")
    case None
    then have "l = []" using m(3) by (simp add: l_def)
    then show ?thesis
      using None assms keep all by (simp add: RemoveEvent_def)
  next
    case (Some l')
    then have l': "l' = l" using m(3) by (simp add: l_def)
    define em where "em = (if \<exists>e \<in> set l. eptr e = ptr
      then if erase_ptr ptr l = [] then omap_erase due (eventMap q)
           else omap_set due (erase_ptr ptr l) (eventMap q) else eventMap q)"
    have q': "q' = q\<lparr>eventMap := em, nextEventCycle := front_cycle em\<rparr>"
      and rv: "rv = (\<exists>e \<in> set l. eptr e = ptr)"
      using assms(2) Some by (auto simp: RemoveEvent_def Let_def l' em_def)
    have noop: "filter ?keep (all_events q) = all_events q" if "\<not> (\<exists>e \<in> set l. eptr e = ptr)"
      using that mem by (auto simp: filter_id_conv)
    have cat: "concat (map snd em) = filter ?keep (all_events q)"
      using noop keep by (auto simp: em_def m(5,6) all_events_def)
    have "\<forall>e \<in> set l. ecycle e = due \<and> \<not> efreed e"
      using wf(2) by (auto simp: l_def all_events_def lists_wf_def)
    then have "\<forall>e \<in> set (erase_ptr ptr l). ecycle e = due \<and> \<not> efreed e" unfolding er by simp
    then have "lists_wf em"
      using lists_wf_sub [OF wf(2) m(7)] lists_wf_sub [OF wf(2) m(8)] wf(2)
      by (simp add: em_def m(5,6))
    moreover have "omap_wf em"
      using omap_wf_erase [OF wf(1)] omap_wf_set [OF wf(1)] wf(1) by (simp add: em_def)
    ultimately have "evq_wf q'" unfolding q' using evq_wf_restrict [OF assms(1)] cat by blast
    moreover have "all_events q' = filter ?keep (all_events q)"
      using cat by (simp add: q' all_events_def)
    ultimately show ?thesis using rv by simp
  qed
  then show "rv = (\<exists>e \<in> set (all_events q). eptr e = ptr \<and> ecycle e = due)"
    "all_events q' = filter ?keep (all_events q)" "evq_wf q'"
    using mem by simp_all
qed

section \<open>Processing delivers the events of one cycle in order\<close>

text \<open>
  While \<^verbatim>\<open>Process\<close> works on cycle \<open>k\<close> the list of that cycle (\<open>l\<close>, whose delivered events
  are already deleted) stays in the map; the rest of the map is a well-formed queue.
\<close>

definition deliverable :: "Event \<Rightarrow> bool" where
  "deliverable e \<longleftrightarrow> (etype e \<in> {EventCycle, EventResponse, EventCallback} \<longrightarrow> recipient e \<noteq> None)
     \<and> (etype e = EventCallback \<longrightarrow> emethod e \<noteq> None)"

definition evq_ok :: "EventQueue \<Rightarrow> bool" where
  "evq_ok q \<longleftrightarrow> evq_wf q \<and> (\<forall>e \<in> set (all_events q). deliverable e)"

definition drop_cycle :: "ncycle_t \<Rightarrow> EventQueue \<Rightarrow> EventQueue" where
  "drop_cycle k q = q\<lparr>eventMap := omap_erase k (eventMap q),
     nextEventCycle := front_cycle (omap_erase k (eventMap q))\<rparr>"

definition running :: "ncycle_t \<Rightarrow> Event list \<Rightarrow> EventQueue \<Rightarrow> bool" where
  "running k l q \<longleftrightarrow> omap_wf (eventMap q) \<and> map_of (eventMap q) k = Some l
     \<and> nextEventCycle q = k \<and> front_cycle (eventMap q) = k \<and> evq_ok (drop_cycle k q)"

text \<open>
  A handler is timely for a relation \<open>R\<close> on the simulator's state when delivering an action returns,
  changes the state by \<open>R\<close>, keeps the invariant \<open>I\<close>, and leaves the cycle being processed and
  the clock alone: what it schedules is due later.
\<close>

definition timely :: "('s \<Rightarrow> bool) \<Rightarrow> (action \<Rightarrow> 's \<Rightarrow> 's \<Rightarrow> bool) \<Rightarrow> 's handler \<Rightarrow> bool" where
  "timely I R h \<longleftrightarrow> (\<forall>a q s k l. running k l q \<and> I s \<longrightarrow>
     (\<exists>q' s'. h a (q, s) = Some (q', s') \<and> R a s s' \<and> I s' \<and> running k l q'
        \<and> currentCycle q' = currentCycle q \<and> lastEventCycle q' = lastEventCycle q))"

fun chain :: "('a \<Rightarrow> 's \<Rightarrow> 's \<Rightarrow> bool) \<Rightarrow> 'a list \<Rightarrow> 's \<Rightarrow> 's \<Rightarrow> bool" where
  "chain R [] s s' \<longleftrightarrow> s = s'"
| "chain R (a # as) s s' \<longleftrightarrow> (\<exists>t. R a s t \<and> chain R as t s')"

lemma timelyD:
  "timely I R h \<Longrightarrow> running k l q \<Longrightarrow> I s \<Longrightarrow>
     \<exists>q' s'. h a (q, s) = Some (q', s') \<and> R a s s' \<and> I s' \<and> running k l q'
        \<and> currentCycle q' = currentCycle q \<and> lastEventCycle q' = lastEventCycle q"
  unfolding timely_def by blast

definition due_action :: "EventQueue \<Rightarrow> Event \<Rightarrow> action" where
  "due_action q e = (case event_action q e of Some a \<Rightarrow> a | None \<Rightarrow> DoNothing)"

lemma deliverable_action: "deliverable e \<Longrightarrow> event_action q e = Some (due_action q e)"
  by (cases "etype e") (auto simp: deliverable_def event_action_def due_action_def)

lemma due_action_cong:
  "nextEventCycle q = nextEventCycle q' \<Longrightarrow> lastEventCycle q = lastEventCycle q' \<Longrightarrow>
     due_action q e = due_action q' e"
  by (cases "etype e") (auto simp: event_action_def due_action_def)

lemma free_ptr_ptrs [simp]: "map eptr (free_ptr ptr es) = map eptr es"
  by (induction es) auto

lemma free_ptr_split:
  "ptr \<notin> eptr ` set ds \<Longrightarrow> eptr e = ptr \<Longrightarrow> free_ptr ptr (ds @ e # es) = (ds @ [e\<lparr>efreed := True\<rparr>]) @ es"
  by (induction ds) auto

lemma find_ptr_split:
  "ptr \<notin> eptr ` set ds \<Longrightarrow> eptr e = ptr \<Longrightarrow> List.find (\<lambda>x. eptr x = ptr) (ds @ e # es) = Some e"
  by (induction ds) auto

lemma dropWhile_ptr_split:
  "ptr \<notin> eptr ` set ds \<Longrightarrow> eptr e = ptr \<Longrightarrow> dropWhile (\<lambda>x. eptr x \<noteq> ptr) (ds @ e # es) = e # es"
  by (induction ds) auto

lemma omap_erase_set_same: "omap_wf m \<Longrightarrow> omap_erase k (omap_set k v m) = omap_erase k m"
  by (rule omap_eqI) (auto simp: omap_wf_set omap_wf_erase omap_lookup_set omap_lookup_erase)

lemma running_mark:
  assumes "running k l q"
  shows "running k l' (q\<lparr>eventMap := omap_set k l' (eventMap q)\<rparr>)"
proof -
  have "omap_wf (eventMap q)" "nextEventCycle q = k" "front_cycle (eventMap q) = k"
    "evq_ok (drop_cycle k q)"
    using assms by (simp_all add: running_def)
  moreover from this have "drop_cycle k (q\<lparr>eventMap := omap_set k l' (eventMap q)\<rparr>) = drop_cycle k q"
    by (simp add: drop_cycle_def omap_erase_set_same)
  ultimately show ?thesis
    by (simp add: running_def omap_wf_set omap_lookup_set front_cycle_set)
qed

lemma process_events_delivers:
  assumes "timely I R h"
  shows "running k (ds @ es) q \<Longrightarrow> distinct (map eptr (ds @ es)) \<Longrightarrow> \<forall>e \<in> set es. deliverable e
    \<Longrightarrow> I s \<Longrightarrow> \<exists>q' s' l'. process_events h k (first_ptr es) (q, s) = Some (q', s')
      \<and> chain R (map (due_action q) es) s s' \<and> I s' \<and> running k l' q'
      \<and> currentCycle q' = currentCycle q \<and> lastEventCycle q' = lastEventCycle q"
proof (induction es arbitrary: ds q s)
  case Nil
  then show ?case
    by (auto simp: first_ptr_def process_events.simps)
next
  case (Cons e es)
  let ?p = "eptr e"
  have notin: "?p \<notin> eptr ` set ds" using Cons.prems(2) by auto
  have look: "map_of (eventMap q) k = Some (ds @ e # es)" using Cons.prems(1) by (simp add: running_def)
  have act: "event_action q e = Some (due_action q e)" using Cons.prems(3) by (simp add: deliverable_action)
  obtain q1 s1 where q1: "h (due_action q e) (q, s) = Some (q1, s1)" "R (due_action q e) s s1" "I s1"
    "running k (ds @ e # es) q1" "currentCycle q1 = currentCycle q" "lastEventCycle q1 = lastEventCycle q"
    using timelyD [OF assms Cons.prems(1,4)] by blast
  have look1: "map_of (eventMap q1) k = Some (ds @ e # es)" using q1(4) by (simp add: running_def)
  let ?q2 = "q1\<lparr>eventMap := omap_set k ((ds @ [e\<lparr>efreed := True\<rparr>]) @ es) (eventMap q1)\<rparr>"
  have unf: "process_events h k (first_ptr (e # es)) (q, s) = process_events h k (first_ptr es) (?q2, s1)"
    by (subst process_events.simps)
      (simp add: first_ptr_def [of "e # es"] look act q1(1) look1 find_ptr_split [OF notin]
        dropWhile_ptr_split [OF notin] free_ptr_split [OF notin])
  have "distinct (map eptr ((ds @ [e\<lparr>efreed := True\<rparr>]) @ es))" "\<forall>e \<in> set es. deliverable e"
    using Cons.prems(2,3) by auto
  from Cons.IH [OF running_mark [OF q1(4)] this q1(3)]
  obtain q' s' l' where r: "process_events h k (first_ptr es) (?q2, s1) = Some (q', s')"
    "chain R (map (due_action ?q2) es) s1 s'" "I s'" "running k l' q'"
    "currentCycle q' = currentCycle q1" "lastEventCycle q' = lastEventCycle q1"
    by (elim exE conjE) simp
  have "nextEventCycle q = k" "nextEventCycle q1 = k" using Cons.prems(1) q1(4) by (simp_all add: running_def)
  then have "due_action ?q2 = due_action q"
    using q1(6) by (intro ext due_action_cong) simp_all
  then have "chain R (map (due_action q) (e # es)) s s'" using r(2) q1(2) by auto
  then show ?case unfolding unf using r(1,3-6) q1(5,6) by metis
qed

lemma running_front:
  assumes "running k l q"
  shows "\<exists>m. eventMap q = (k, l) # m \<and> (k \<noteq> max_cycle \<longrightarrow> k < front_cycle m)"
proof -
  have r: "omap_wf (eventMap q)" "map_of (eventMap q) k = Some l" "front_cycle (eventMap q) = k"
    using assms by (simp_all add: running_def)
  then obtain k' l' m where m: "eventMap q = (k', l') # m" by (cases "eventMap q") auto
  with r have "k' = k" "l' = l" by (simp_all add: front_cycle_def)
  moreover have "k < front_cycle m" if "k \<noteq> max_cycle"
    using r(1) that m \<open>k' = k\<close>
    by (cases m) (auto simp: omap_wf_Cons front_cycle_def word_order.not_eq_extremum)
  ultimately show ?thesis using m by blast
qed

lemma running_start:
  assumes "evq_ok q" "nextEventCycle q \<noteq> max_cycle"
  shows "\<exists>l. running (nextEventCycle q) l q \<and> l = [e \<leftarrow> all_events q. ecycle e = nextEventCycle q]"
proof -
  have wf: "evq_wf q" "omap_wf (eventMap q)" "lists_wf (eventMap q)" "nextEventCycle q = front_cycle (eventMap q)"
    using assms(1) by (simp_all add: evq_ok_def evq_wf_def)
  obtain k l m where m: "eventMap q = (k, l) # m"
    using assms(2) wf(4) by (cases "eventMap q") (auto simp: front_cycle_def)
  have k: "nextEventCycle q = k" using wf(4) m by (simp add: front_cycle_def)
  have keys: "\<forall>k' \<in> fst ` set m. k < k'" and wfm: "omap_wf m" "lists_wf m"
    using wf(2,3) m by (simp_all add: omap_wf_Cons)
  have kl: "\<forall>e \<in> set l. ecycle e = k" using wf(3) m by simp
  have km: "\<forall>e \<in> set (concat (map snd m)). ecycle e \<noteq> k"
    using keys wfm(2) by (fastforce simp: lists_wf_def)
  have all: "all_events q = l @ concat (map snd m)" using m by (simp add: all_events_def)
  have l: "[e \<leftarrow> all_events q. ecycle e = k] = l"
    unfolding all filter_append using kl km by (simp add: filter_empty_conv)
  have rest: "concat (map snd m) = [e \<leftarrow> all_events q. ecycle e \<noteq> k]"
    unfolding all filter_append using kl km by (simp add: filter_empty_conv)
  have "evq_wf (drop_cycle k q)"
    using evq_wf_restrict [OF wf(1) wfm rest] m by (simp add: drop_cycle_def)
  moreover have "all_events (drop_cycle k q) = concat (map snd m)"
    using m by (simp add: drop_cycle_def all_events_def)
  moreover have "\<forall>e \<in> set (concat (map snd m)). deliverable e"
    using assms(1) all by (auto simp: evq_ok_def)
  ultimately have "evq_ok (drop_cycle k q)" by (simp add: evq_ok_def)
  then have "running k l q" using wf(2,4) m k by (simp add: running_def)
  then show ?thesis using l k by blast
qed

lemma Process_spec:
  assumes "evq_ok q" "nextEventCycle q \<noteq> max_cycle" "timely I R h" "I s"
  shows "\<exists>q' s'. Process h (q, s) = Some (q', s') \<and> I s' \<and> evq_ok q'
    \<and> chain R (map (due_action q) [e \<leftarrow> all_events q. ecycle e = nextEventCycle q]) s s'
    \<and> nextEventCycle q < nextEventCycle q' \<and> lastEventCycle q' = nextEventCycle q
    \<and> currentCycle q' = currentCycle q"
proof -
  let ?k = "nextEventCycle q"
  let ?l = "[e \<leftarrow> all_events q. ecycle e = ?k]"
  have run: "running ?k ([] @ ?l) q" using running_start [OF assms(1,2)] by auto
  have look: "map_of (eventMap q) ?k = Some ?l" using run by (simp add: running_def)
  have "distinct (map eptr ([] @ ?l))" "\<forall>e \<in> set ?l. deliverable e"
    using assms(1) by (auto simp: evq_ok_def evq_wf_def distinct_map_filter)
  then obtain q1 s1 l1 where r: "process_events h ?k (first_ptr ?l) (q, s) = Some (q1, s1)"
    "chain R (map (due_action q) ?l) s s1" "I s1" "running ?k l1 q1" "currentCycle q1 = currentCycle q"
    using process_events_delivers [OF assms(3) run _ _ assms(4)] by blast
  obtain m where m: "eventMap q1 = (?k, l1) # m" "?k < front_cycle m"
    using running_front [OF r(4)] assms(2) by blast
  have k1: "nextEventCycle q1 = ?k" "evq_ok (drop_cycle ?k q1)" using r(4) by (simp_all add: running_def)
  let ?q' = "q1\<lparr>eventMap := m, lastEventCycle := ?k, nextEventCycle := front_cycle m\<rparr>"
  have "Process h (q, s) = Some (?q', s1)"
    using look r(1) m(1) k1(1) by (simp add: Process_def Let_def)
  moreover have "evq_ok ?q'"
    using k1(2) m(1) by (simp add: drop_cycle_def evq_ok_def evq_wf_def all_events_def)
  ultimately show ?thesis using r(2,3,5) m(2) by simp
qed

section \<open>The clock\<close>

lemma loop_steps_returns:
  assumes "timely I R h"
  shows "evq_ok q \<Longrightarrow> I s \<Longrightarrow> currentCycle q \<le> nextEventCycle q
    \<Longrightarrow> 0 < n \<or> currentCycle q < nextEventCycle q
    \<Longrightarrow> unat (currentCycle q) + unat n < 2 ^ 64 - 1 \<Longrightarrow>
    \<exists>q' s'. loop_steps h n (q, s) = Some (q', s') \<and> I s' \<and> evq_ok q'
      \<and> currentCycle q' = currentCycle q + n \<and> currentCycle q' < nextEventCycle q'"
proof (induction "2 ^ 64 - unat (nextEventCycle q)" arbitrary: q s n rule: less_induct)
  case less
  let ?c = "currentCycle q" and ?k = "nextEventCycle q"
  have sum: "unat (?c + n) = unat ?c + unat n"
    using less.prems(5) by (simp add: unat_add_u64)
  have max: "unat (max_cycle :: ncycle_t) = 2 ^ 64 - 1" by (simp add: unsigned_minus_1_eq_mask mask_eq_exp_minus_1)
  consider "n = 0" | "n \<noteq> 0" "?c + n < ?k" | "n \<noteq> 0" "?k \<le> ?c + n" by fastforce
  then show ?case
  proof cases
    case 1
    then show ?thesis using less.prems by (simp add: loop_steps.simps)
  next
    case 2
    have "evq_ok (q\<lparr>currentCycle := ?c + n\<rparr>)"
      using less.prems(1) by (simp add: evq_ok_def evq_wf_def all_events_def)
    then show ?thesis using 2 less.prems by (simp add: loop_steps.simps)
  next
    case 3
    let ?d = "?k - ?c"
    let ?q1 = "q\<lparr>currentCycle := ?c + ?d\<rparr>"
    have ok1: "evq_ok ?q1" using less.prems(1) by (simp add: evq_ok_def evq_wf_def all_events_def)
    have d: "unat ?d = unat ?k - unat ?c" using less.prems(3) by (simp add: unat_sub)
    have "unat ?k \<le> unat ?c + unat n" using 3(2) sum by (simp add: word_le_nat_alt)
    then have nm: "?d \<le> n" and ne: "nextEventCycle ?q1 \<noteq> max_cycle"
      using d less.prems(5) max by (auto simp: word_le_nat_alt)
    obtain q2 s2 where p: "Process h (?q1, s) = Some (q2, s2)" "I s2" "evq_ok q2"
      "?k < nextEventCycle q2" "currentCycle q2 = ?k"
      using Process_spec [where h = h and I = I and R = R, OF ok1 ne assms less.prems(2)] by auto
    have unf: "loop_steps h n (q, s) = loop_steps h (n - ?d) (q2, s2)"
      using 3(1) p(1) 3(2) [THEN leD] by (subst loop_steps.simps) simp
    have rest: "unat (currentCycle q2) + unat (n - ?d) < 2 ^ 64 - 1"
      using less.prems(3,5) nm d p(5) by (simp add: unat_sub word_le_nat_alt)
    have "2 ^ 64 - unat (nextEventCycle q2) < 2 ^ 64 - unat ?k"
      using p(4) unsigned_less [of "nextEventCycle q2", where ?'a = nat]
      by (simp add: word_less_nat_alt)
    from less.hyps [OF this p(3,2) _ _ rest] p(4,5) show ?thesis
      unfolding unf by (simp add: add.commute)
  qed
qed

section \<open>Scheduling from inside a handler\<close>

lemma omap_erase_set_other:
  "omap_wf m \<Longrightarrow> k \<noteq> k' \<Longrightarrow> omap_erase k (omap_set k' v m) = omap_set k' v (omap_erase k m)"
  by (rule omap_eqI) (auto simp: omap_wf_set omap_wf_erase omap_lookup_set omap_lookup_erase fun_eq_iff)

text \<open>An event scheduled for a later cycle leaves the cycle being processed as it is.\<close>

lemma InsertEvent_running:
  assumes "running k l q" "k < due" "ty \<noteq> EventCallback"
  shows "\<exists>q'. InsertEvent ty rcp req due d p q = Some q' \<and> running k l q'
    \<and> currentCycle q' = currentCycle q \<and> lastEventCycle q' = lastEventCycle q
    \<and> all_events (drop_cycle k q') = pending_insert (plain_event (nextPtr q) ty rcp req due d)
        due p (all_events (drop_cycle k q))"
proof -
  let ?e = "plain_event (nextPtr q) ty rcp req due d"
  let ?r = "drop_cycle k q"
  have run: "omap_wf (eventMap q)" "map_of (eventMap q) k = Some l" "nextEventCycle q = k"
    "front_cycle (eventMap q) = k" "evq_ok ?r"
    using assms(1) by (simp_all add: running_def)
  have wfr: "evq_wf ?r" using run(5) by (simp add: evq_ok_def)
  obtain r' where r': "InsertEvent ty rcp req due d p ?r = Some r'" "evq_wf r'"
    "all_events r' = pending_insert (plain_event (nextPtr ?r) ty rcp req due d) due p (all_events ?r)"
    using InsertEvent_spec [OF wfr] by blast
  define same where "same = [x \<leftarrow> all_events ?r. ecycle x = due]"
  define L where "L = takeWhile (\<lambda>x. epriority x \<le> p) same @ [?e] @ dropWhile (\<lambda>x. epriority x \<le> p) same"
  have e: "?e\<lparr>ecycle := due\<rparr> = ?e" by (simp add: plain_event_def Event_new_def)
  have ins: "InsertEvent ty rcp req due d p x =
      InsertEventObj (plain_event (nextPtr x) ty rcp req due d) due p (x\<lparr>nextPtr := Suc (nextPtr x)\<rparr>)" for x
    by (simp add: InsertEvent_def Event_alloc_def plain_event_def)
  have wfa: "evq_wf (?r\<lparr>nextPtr := Suc (nextPtr ?r)\<rparr>)" by (rule Event_alloc_wf [OF wfr])
  have ev: "\<And>n. all_events (?r\<lparr>nextPtr := n\<rparr>) = all_events ?r" "nextPtr ?r = nextPtr q"
    "eventMap ?r = omap_erase k (eventMap q)"
    by (simp_all add: drop_cycle_def all_events_def)
  have mapr: "eventMap r' = omap_set due L (omap_erase k (eventMap q))"
    using r'(1) InsertEventObj_eq [OF wfa, of ?e due p]
    unfolding ins ev(1) ev(2) e same_def [symmetric] L_def [symmetric] by (auto simp: ev(3))
  have lk: "map_of (eventMap ?r) due = map_of (eventMap q) due"
    using run(1) assms(2) by (simp add: drop_cycle_def omap_lookup_erase)
  define q' where "q' = q\<lparr>nextPtr := Suc (nextPtr q), eventMap := omap_set due L (eventMap q)\<rparr>"
  have same: "(case map_of (eventMap q) due of None \<Rightarrow> [] | Some l \<Rightarrow> l) = same"
    using events_split [of "eventMap ?r" due] wfr lk by (auto simp: evq_wf_def all_events_def same_def)
  have "\<forall>x \<in> set same. \<not> efreed x"
    using wfr by (auto simp: evq_wf_def all_events_def same_def lists_wf_def)
  then have ibp: "insert_by_priority p ?e same = Some L" by (simp add: insert_by_priority_eq L_def)
  have nxt: "\<not> due < nextEventCycle q" using assms(2) run(3) by simp
  have Lq: "InsertEvent ty rcp req due d p q = Some q'"
  proof (cases "map_of (eventMap q) due")
    case None
    then have "L = [?e]" using same by (simp add: L_def)
    then show ?thesis using None nxt e by (simp add: ins InsertEventObj_def Let_def q'_def)
  next
    case (Some l')
    then have "l' = same" using same by simp
    then show ?thesis using Some nxt e ibp by (simp add: ins InsertEventObj_def Let_def q'_def)
  qed
  have "drop_cycle k q' = r'"
  proof -
    have "eventMap (drop_cycle k q') = eventMap r'"
      using mapr run(1) assms(2) by (simp add: drop_cycle_def q'_def omap_erase_set_other)
    moreover have "nextEventCycle r' = front_cycle (eventMap r')" using r'(2) by (simp add: evq_wf_def)
    moreover have "currentCycle r' = currentCycle q \<and> lastEventCycle r' = lastEventCycle q
        \<and> frequency r' = frequency q \<and> nextPtr r' = Suc (nextPtr q)"
      using InsertEventObj_frame [OF r'(1) [unfolded ins]] by (simp add: drop_cycle_def)
    ultimately show ?thesis by (cases r') (simp add: drop_cycle_def q'_def)
  qed
  moreover have "deliverable ?e" using assms(3) by (simp add: deliverable_def plain_event_def)
  then have "\<forall>x \<in> set (all_events r'). deliverable x"
    using run(5) r'(3) by (auto simp: set_pending_insert evq_ok_def drop_cycle_def)
  moreover have "omap_wf (eventMap q') \<and> map_of (eventMap q') k = Some l \<and> front_cycle (eventMap q') = k"
    using run(1,2,4) assms(2) by (auto simp: q'_def omap_wf_set omap_lookup_set front_cycle_set)
  ultimately have "running k l q'"
    using r'(2) run(3) by (simp add: running_def evq_ok_def q'_def)
  then show ?thesis
    using Lq \<open>drop_cycle k q' = r'\<close> r'(3) by (auto simp: q'_def drop_cycle_def)
qed

section \<open>The contract of the queue\<close>

text \<open>
  What a component that schedules events relies on: its event is pending until it is removed, and
  nothing else that is pending is lost, duplicated or renamed.
\<close>

locale event_schedule =
  fixes schedule :: "'r \<Rightarrow> 'q \<Rightarrow> 'q option"
    and cancel :: "nat \<Rightarrow> ncycle_t \<Rightarrow> 'q \<Rightarrow> bool \<times> 'q"
    and pending :: "'q \<Rightarrow> Event list"
    and built :: "'q \<Rightarrow> 'r \<Rightarrow> Event"
    and ok :: "'q \<Rightarrow> bool"
  assumes schedule_ok: "ok q \<Longrightarrow> \<exists>q'. schedule r q = Some q' \<and> ok q'"
    and schedule_adds: "ok q \<Longrightarrow> schedule r q = Some q' \<Longrightarrow>
      mset (pending q') = add_mset (built q r) (mset (pending q))"
    and schedule_keeps_order: "ok q \<Longrightarrow> schedule r q = Some q' \<Longrightarrow>
      [e \<leftarrow> pending q'. eptr e \<noteq> eptr (built q r)] = pending q"
    and built_fresh: "ok q \<Longrightarrow> e \<in> set (pending q) \<Longrightarrow> eptr e \<noteq> eptr (built q r)"
    and cancel_ok: "ok q \<Longrightarrow> ok (snd (cancel ptr due q))"
    and cancel_found: "ok q \<Longrightarrow>
      fst (cancel ptr due q) \<longleftrightarrow> (\<exists>e \<in> set (pending q). eptr e = ptr \<and> ecycle e = due)"
    and cancel_removes: "ok q \<Longrightarrow>
      pending (snd (cancel ptr due q)) = [e \<leftarrow> pending q. \<not> (eptr e = ptr \<and> ecycle e = due)]"
begin

lemma schedule_cancel:
  assumes "ok q" "schedule r q = Some q'"
  shows "fst (cancel (eptr (built q r)) (ecycle (built q r)) q')
    \<and> pending (snd (cancel (eptr (built q r)) (ecycle (built q r)) q')) = pending q"
proof -
  let ?e = "built q r"
  have ok': "ok q'" using schedule_ok [OF assms(1), of r] assms(2) by auto
  have set: "set (pending q') = insert ?e (set (pending q))"
    using arg_cong [OF schedule_adds [OF assms], of set_mset] by simp
  have "[e \<leftarrow> pending q'. \<not> (eptr e = eptr ?e \<and> ecycle e = ecycle ?e)] = [e \<leftarrow> pending q'. eptr e \<noteq> eptr ?e]"
    using set built_fresh [OF assms(1)] by (intro filter_cong) auto
  then show ?thesis
    using cancel_found [OF ok'] cancel_removes [OF ok'] set schedule_keeps_order [OF assms] by auto
qed

lemma cancel_other:
  assumes "ok q" "schedule r q = Some q'" "ptr \<noteq> eptr (built q r)"
  shows "built q r \<in> set (pending (snd (cancel ptr due q')))"
proof -
  have "ok q'" using schedule_ok [OF assms(1), of r] assms(2) by auto
  moreover have "built q r \<in> set (pending q')"
    using arg_cong [OF schedule_adds [OF assms(1,2)], of set_mset] by simp
  ultimately show ?thesis using cancel_removes assms(3) by simp
qed

end

text \<open>The arguments of \<^verbatim>\<open>InsertEvent\<close> as one request.\<close>

type_synonym event_args = "EventType \<times> obj_id \<times> req_ptr option \<times> ncycle_t \<times> nat option \<times> int"

definition insert_args :: "event_args \<Rightarrow> EventQueue \<Rightarrow> EventQueue option" where
  "insert_args r q = (case r of (ty, rcp, req, due, d, p) \<Rightarrow> InsertEvent ty rcp req due d p q)"

definition built_event :: "EventQueue \<Rightarrow> event_args \<Rightarrow> Event" where
  "built_event q r = (case r of (ty, rcp, req, due, d, p) \<Rightarrow> plain_event (nextPtr q) ty rcp req due d)"

lemma built_event_ptr [simp]: "eptr (built_event q r) = nextPtr q"
  by (cases r) (simp add: built_event_def plain_event_def Event_new_def)

lemma all_events_sorted:
  assumes "omap_wf m" "lists_wf m"
  shows "concat (map snd m) = [x \<leftarrow> concat (map snd m). ecycle x < due]
    @ [x \<leftarrow> concat (map snd m). ecycle x = due] @ [x \<leftarrow> concat (map snd m). due < ecycle x]"
  using events_split [OF assms, of due] by metis

lemma pending_insert_others:
  assumes "evq_wf q" "eptr e \<notin> eptr ` set (all_events q)"
  shows "[x \<leftarrow> pending_insert e due p (all_events q). eptr x \<noteq> eptr e] = all_events q"
proof -
  let ?es = "all_events q" and ?keep = "\<lambda>x. eptr x \<noteq> eptr e"
  have keep: "filter ?keep xs = xs" if "set xs \<subseteq> set ?es" for xs
    by (rule filter_True) (use that assms(2) in \<open>metis image_eqI subsetD\<close>)
  let ?s = "[x \<leftarrow> ?es. ecycle x = due]"
  have es: "?es = [x \<leftarrow> ?es. ecycle x < due] @ ?s @ [x \<leftarrow> ?es. due < ecycle x]"
    using all_events_sorted [of "eventMap q"] assms(1) by (simp add: evq_wf_def all_events_def)
  have "set (takeWhile (\<lambda>x. epriority x \<le> p) ?s) \<subseteq> set ?es"
    "set (dropWhile (\<lambda>x. epriority x \<le> p) ?s) \<subseteq> set ?es"
    by (auto dest: set_takeWhileD set_dropWhileD)
  then have parts: "filter ?keep (takeWhile (\<lambda>x. epriority x \<le> p) ?s) = takeWhile (\<lambda>x. epriority x \<le> p) ?s"
    "filter ?keep (dropWhile (\<lambda>x. epriority x \<le> p) ?s) = dropWhile (\<lambda>x. epriority x \<le> p) ?s"
    "filter ?keep [x \<leftarrow> ?es. ecycle x < due] = [x \<leftarrow> ?es. ecycle x < due]"
    "filter ?keep [x \<leftarrow> ?es. due < ecycle x] = [x \<leftarrow> ?es. due < ecycle x]"
    by (intro keep; fastforce)+
  have "filter ?keep [e] = []" by simp
  then have "filter ?keep (pending_insert e due p ?es) = [x \<leftarrow> ?es. ecycle x < due]
      @ (takeWhile (\<lambda>x. epriority x \<le> p) ?s @ dropWhile (\<lambda>x. epriority x \<le> p) ?s) @ [x \<leftarrow> ?es. due < ecycle x]"
    unfolding pending_insert_def Let_def filter_append parts by simp
  then show ?thesis using es unfolding takeWhile_dropWhile_id by simp
qed

interpretation evq: event_schedule insert_args RemoveEvent all_events built_event evq_wf
proof
  fix q :: EventQueue and r :: event_args and q'
  assume wf: "evq_wf q"
  obtain ty rcp req due d p where r: "r = (ty, rcp, req, due, d, p)" by (cases r)
  have b: "built_event q r = plain_event (nextPtr q) ty rcp req due d" by (simp add: built_event_def r)
  have i: "insert_args r q = InsertEvent ty rcp req due d p q" by (simp add: insert_args_def r)
  show "\<exists>q'. insert_args r q = Some q' \<and> evq_wf q'" unfolding i using InsertEvent_spec [OF wf] by blast
  assume "insert_args r q = Some q'"
  then have ev: "all_events q' = pending_insert (built_event q r) due p (all_events q)"
    using InsertEvent_spec [OF wf, of ty rcp req due d p] by (auto simp: i b)
  then show "mset (all_events q') = add_mset (built_event q r) (mset (all_events q))"
    by (simp add: mset_pending_insert)
  show "[e \<leftarrow> all_events q'. eptr e \<noteq> eptr (built_event q r)] = all_events q"
    unfolding ev by (rule pending_insert_others [OF wf]) (simp add: fresh_ptr [OF wf])
next
  fix q :: EventQueue and e and r :: event_args
  assume "evq_wf q" "e \<in> set (all_events q)"
  then show "eptr e \<noteq> eptr (built_event q r)" using fresh_ptr by force
next
  fix q :: EventQueue and ptr due
  assume wf: "evq_wf q"
  note spec = RemoveEvent_spec [OF wf prod.collapse [symmetric], of ptr due]
  show "evq_wf (snd (RemoveEvent ptr due q))" by (rule spec(3))
  show "fst (RemoveEvent ptr due q) \<longleftrightarrow> (\<exists>e \<in> set (all_events q). eptr e = ptr \<and> ecycle e = due)"
    by (rule spec(1))
  show "all_events (snd (RemoveEvent ptr due q)) =
      [e \<leftarrow> all_events q. \<not> (eptr e = ptr \<and> ecycle e = due)]"
    by (rule spec(2))
qed

section \<open>Properties\<close>

definition idle_queue :: EventQueue where
  "idle_queue = EventQueue_new 1"

text \<open>A queue with an event at cycle 7 that completes request 3 at object 2.\<close>

definition busy_queue :: EventQueue where
  "busy_queue = the (InsertEvent EventResponse 2 (Some 3) 7 None 0 idle_queue)"

lemma busy_queue_eq: "busy_queue = idle_queue\<lparr>nextEventCycle := 7, nextPtr := 1,
     eventMap := [(7, [plain_event 0 EventResponse 2 (Some 3) 7 None])]\<rparr>"
  by (simp add: busy_queue_def idle_queue_def InsertEvent_def Event_alloc_def InsertEventObj_def
      EventQueue_new_def plain_event_def Event_new_def word_less_nat_alt unsigned_minus_1_eq_mask
      mask_eq_exp_minus_1)

lemma busy_queue_ok: "evq_ok busy_queue"
  by (simp add: busy_queue_eq idle_queue_def EventQueue_new_def evq_ok_def evq_wf_def omap_wf_def
      front_cycle_def all_events_def plain_event_def Event_new_def deliverable_def)

text \<open>On a well-formed queue \<^verbatim>\<open>InsertEvent\<close> succeeds and keeps the queue
  well-formed; in delivery order the new event comes after every event of an earlier cycle, before
  every event of a later cycle, and within its cycle after the events up to the first whose stored
  priority number is larger than the argument; \<open>nextEventCycle\<close> becomes the earlier of the two.\<close>

lemma InsertEvent_position:
  assumes "evq_wf q"
  shows "\<exists>q'. InsertEvent ty rcp req due d p q = Some q' \<and> evq_wf q'
    \<and> all_events q' = pending_insert (plain_event (nextPtr q) ty rcp req due d) due p (all_events q)
    \<and> nextEventCycle q' = min due (nextEventCycle q)"
  using InsertEvent_spec [OF assms, of ty rcp req due d p] by blast

text \<open>C28 (schedule_then_cancel). An event inserted in a well-formed queue is found by \<^verbatim>\<open>RemoveEvent\<close>
  with its address and cycle, and removing it restores the pending events in their order.\<close>

theorem schedule_then_cancel:
  assumes "evq_wf q" "InsertEvent ty rcp req due d p q = Some q'"
  shows "fst (RemoveEvent (nextPtr q) due q') \<and> evq_wf (snd (RemoveEvent (nextPtr q) due q'))
    \<and> all_events (snd (RemoveEvent (nextPtr q) due q')) = all_events q"
proof -
  let ?r = "(ty, rcp, req, due, d, p)"
  have i: "insert_args ?r q = Some q'" using assms(2) by (simp add: insert_args_def)
  have "evq_wf q'" using evq.schedule_ok [OF assms(1), of ?r] i by auto
  moreover have "ecycle (built_event q ?r) = due" by (simp add: built_event_def plain_event_def)
  ultimately show ?thesis using evq.schedule_cancel [OF assms(1) i] evq.cancel_ok by simp
qed

theorem schedule_then_cancel_witness:
  "\<exists>q'. InsertEvent EventCycle 4 None 9 None 0 busy_queue = Some q'
    \<and> all_events (snd (RemoveEvent 1 9 q')) = all_events busy_queue"
proof -
  have wf: "evq_wf busy_queue" using busy_queue_ok by (simp add: evq_ok_def)
  then obtain q' where q': "InsertEvent EventCycle 4 None 9 None 0 busy_queue = Some q'"
    using InsertEvent_spec by blast
  moreover have "nextPtr busy_queue = 1" by (simp add: busy_queue_eq)
  ultimately show ?thesis using schedule_then_cancel [OF wf q'] by simp
qed


text \<open>A handler that records the calls it gets and asks for another cycle of object 5 after 20 cycles.\<close>

definition logging :: "action list handler" where
  "logging a st = map_option (\<lambda>q. (q, snd st @ [a]))
     (if nextEventCycle (fst st) < 1000
      then InsertEvent EventCycle 5 None (nextEventCycle (fst st) + 20) None 0 (fst st)
      else Some (fst st))"

definition appended :: "'a \<Rightarrow> 'a list \<Rightarrow> 'a list \<Rightarrow> bool" where
  "appended a s s' \<longleftrightarrow> s' = s @ [a]"

lemma logging_timely: "timely (\<lambda>s. True) appended logging"
  unfolding timely_def
proof (intro allI impI)
  fix a q s k l
  assume "running k l q \<and> True"
  then have run: "running k l q" and k: "nextEventCycle q = k" by (simp_all add: running_def)
  have "\<exists>q'. (if nextEventCycle q < 1000 then InsertEvent EventCycle 5 None (nextEventCycle q + 20) None 0 q
      else Some q) = Some q' \<and> running k l q' \<and> currentCycle q' = currentCycle q
      \<and> lastEventCycle q' = lastEventCycle q"
  proof (cases "k < 1000")
    case True
    then have "unat (k + 20) = unat k + 20" by (subst unat_add_u64) (simp_all add: word_less_nat_alt)
    then have "k < k + 20" by (simp add: word_less_nat_alt)
    then show ?thesis
      using InsertEvent_running [OF run, of "k + 20" EventCycle 5 None None 0] True k by auto
  next
    case False
    then show ?thesis using run k by simp
  qed
  then show "\<exists>q' s'. logging a (q, s) = Some (q', s') \<and> appended a s s' \<and> True \<and> running k l q'
      \<and> currentCycle q' = currentCycle q \<and> lastEventCycle q' = lastEventCycle q"
    by (auto simp: logging_def appended_def)
qed


text \<open>What a call of \<^verbatim>\<open>Loop(steps)\<close> does.\<close>

lemma LoopSteps_returns:
  assumes "timely I R h" "evq_ok q" "I s" "currentCycle q \<le> nextEventCycle q"
    "unat (currentCycle q) + unat n < 2 ^ 64 - 1"
  shows "\<exists>q' s'. LoopSteps h n (q, s) = Some (q', s') \<and> I s' \<and> evq_ok q'
    \<and> currentCycle q' = currentCycle q + n \<and> currentCycle q' < nextEventCycle q'"
proof (cases "n = 0 \<and> nextEventCycle q = currentCycle q")
  case True
  have "nextEventCycle q \<noteq> max_cycle"
    using True assms(5) by (auto simp: unsigned_minus_1_eq_mask mask_eq_exp_minus_1)
  then show ?thesis
    using Process_spec [where I = I and R = R and h = h, OF assms(2) _ assms(1,3)] True
    by (auto simp: LoopSteps_def)
next
  case False
  then have "0 < n \<or> currentCycle q < nextEventCycle q"
    using assms(4) by (auto simp: word_neq_0_conv)
  then show ?thesis
    using loop_steps_returns [OF assms(1-4) _ assms(5)] False by (auto simp: LoopSteps_def)
qed



text \<open>The priority given to \<^verbatim>\<open>InsertEvent\<close> is not stored in the
  event, so among events inserted this way two non-negative priorities give the same queue: the
  later insertion always comes last in its cycle.\<close>

lemma InsertEvent_ignores_priority:
  assumes "evq_wf q" "\<forall>e \<in> set (all_events q). epriority e = 0" "0 \<le> p" "0 \<le> p'"
  shows "InsertEvent ty rcp req due d p q = InsertEvent ty rcp req due d p' q
    \<and> (\<exists>q'. InsertEvent ty rcp req due d p q = Some q' \<and> (\<forall>e \<in> set (all_events q'). epriority e = 0))"
proof -
  let ?q = "q\<lparr>nextPtr := Suc (nextPtr q)\<rparr>"
  have ev: "all_events ?q = all_events q" by (simp add: all_events_def)
  have eq: "takeWhile (\<lambda>x. epriority x \<le> r) [x \<leftarrow> all_events q. ecycle x = due] = [x \<leftarrow> all_events q. ecycle x = due]"
    "dropWhile (\<lambda>x. epriority x \<le> r) [x \<leftarrow> all_events q. ecycle x = due] = []" if "0 \<le> r" for r
    using assms(2) that by (auto simp: takeWhile_eq_all_conv dropWhile_eq_Nil_conv)
  have "InsertEvent ty rcp req due d p q = InsertEvent ty rcp req due d p' q"
    using InsertEventObj_eq [OF Event_alloc_wf [OF assms(1)]] assms(3,4)
    by (simp add: InsertEvent_def Event_alloc_def ev eq)
  moreover obtain q' where "InsertEvent ty rcp req due d p q = Some q'"
    "all_events q' = pending_insert (plain_event (nextPtr q) ty rcp req due d) due p (all_events q)"
    using InsertEvent_spec [OF assms(1)] by blast
  moreover have "epriority (plain_event (nextPtr q) ty rcp req due d) = 0"
    by (simp add: plain_event_def Event_new_def)
  then have "\<forall>e \<in> set (all_events q'). epriority e = 0"
    using assms(2) calculation(3) by (auto simp: set_pending_insert)
  ultimately show ?thesis by metis
qed



end
