(* ===== verification/Sim_Interface.thy ===== *)
theory Sim_Interface
  imports NVM_Request
begin

text \<open>
  \<^verbatim>\<open>src/NVmain/src/SimInterface.cpp\<close>: the functional memory image the simulator keeps for
  endurance modelling. \<^verbatim>\<open>memoryData\<close> owns one heap-allocated block per address;
  \<^verbatim>\<open>accessCounts\<close> counts the writes after the first. The two maps are only searched and
  updated, never iterated, so they are finite maps here.
\<close>

record SimInterface =
  memoryData :: "u64 \<rightharpoonup> NVMDataBlock"
  accessCounts :: "u64 \<rightharpoonup> u32"

definition SimInterface_new :: SimInterface where
  "SimInterface_new = \<lparr>memoryData = Map.empty, accessCounts = Map.empty\<rparr>"

text \<open>
  \<open>GetDataAtAddress a d si\<close> is the return value and the caller's block after the call, where
  \<open>d\<close> is the block the caller passes (\<open>None\<close> for a null pointer). The code assigns the found
  pointer to its own parameter \<^verbatim>\<open>data\<close>, so the caller's block is the one passed in.
\<close>

definition GetDataAtAddress ::
  "u64 \<Rightarrow> NVMDataBlock option \<Rightarrow> SimInterface \<Rightarrow> int \<times> NVMDataBlock option" where
  "GetDataAtAddress a d si = (if memoryData si a = None then (0, d) else (1, d))"

definition SetDataAtAddress ::
  "(nat \<Rightarrow> u8) \<Rightarrow> u64 \<Rightarrow> NVMDataBlock \<Rightarrow> SimInterface \<Rightarrow> SimInterface option" where
  "SetDataAtAddress g a d si =
     (case accessCounts si a of
        None \<Rightarrow> do {
          newData \<leftarrow> NVMDataBlock_assign g d NVMDataBlock_new;
          Some (si\<lparr>memoryData := (memoryData si)(a \<mapsto> newData),
                   accessCounts := (accessCounts si)(a \<mapsto> 0)\<rparr>)
        }
      | Some n \<Rightarrow> do {
          blk \<leftarrow> memoryData si a;
          newData \<leftarrow> NVMDataBlock_assign g d blk;
          Some (si\<lparr>memoryData := (memoryData si)(a \<mapsto> newData),
                   accessCounts := (accessCounts si)(a \<mapsto> n + 1)\<rparr>)
        })"

text \<open>Both maps have an entry for the same addresses.\<close>

definition sim_wf :: "SimInterface \<Rightarrow> bool" where
  "sim_wf si \<longleftrightarrow> (\<forall>a. memoryData si a = None \<longleftrightarrow> accessCounts si a = None)"

lemma sim_wf_new [nvm_wf]: "sim_wf SimInterface_new"
  by (simp add: sim_wf_def SimInterface_new_def)

lemma sim_wf_set [nvm_wf]: "sim_wf si \<Longrightarrow> SetDataAtAddress g a d si = Some si' \<Longrightarrow> sim_wf si'"
  by (auto simp: sim_wf_def SetDataAtAddress_def bind_eq_Some_conv split: option.splits)

lemma set_present: "SetDataAtAddress g a d si = Some si' \<Longrightarrow>
    memoryData si' b = None \<longleftrightarrow> b \<noteq> a \<and> memoryData si b = None"
  by (auto simp: SetDataAtAddress_def bind_eq_Some_conv split: option.splits if_splits)

lemma set_other: "SetDataAtAddress g a d si = Some si' \<Longrightarrow> b \<noteq> a \<Longrightarrow>
    memoryData si' b = memoryData si b"
  by (auto simp: SetDataAtAddress_def bind_eq_Some_conv split: option.splits)

text \<open>
  What a client of a functional memory relies on: a stored address is present, other addresses
  keep their presence, and storing is possible.
\<close>

locale functional_memory =
  fixes present :: "'a \<Rightarrow> 'm \<Rightarrow> bool"
    and store :: "'a \<Rightarrow> 'd \<Rightarrow> 'm \<Rightarrow> 'm option"
    and ok :: "'m \<Rightarrow> bool"
  assumes ok_store: "ok m \<Longrightarrow> store a d m = Some m' \<Longrightarrow> ok m'"
    and present_store: "ok m \<Longrightarrow> store a d m = Some m' \<Longrightarrow> present b m' \<longleftrightarrow> b = a \<or> present b m"
begin

fun store_all :: "('a \<times> 'd) list \<Rightarrow> 'm \<Rightarrow> 'm option" where
  "store_all [] m = Some m"
| "store_all ((a, d) # ws) m = Option.bind (store a d m) (store_all ws)"

lemma present_store_all:
  "ok m \<Longrightarrow> store_all ws m = Some m' \<Longrightarrow> ok m' \<and> (present b m' \<longleftrightarrow> b \<in> fst ` set ws \<or> present b m)"
proof (induction ws arbitrary: m)
  case Nil
  then show ?case by simp
next
  case (Cons w ws)
  obtain a d where w: "w = (a, d)" by (cases w)
  with Cons.prems obtain m1 where m1: "store a d m = Some m1" "store_all ws m1 = Some m'"
    by (auto simp: bind_eq_Some_conv)
  from Cons.prems(1) m1 have "ok m1" "present b m1 \<longleftrightarrow> b = a \<or> present b m"
    using ok_store present_store by blast+
  with Cons.IH [OF _ m1(2)] w show ?case by auto
qed

end

interpretation sim_mem: functional_memory
  "\<lambda>a si. fst (GetDataAtAddress a None si) = 1" "SetDataAtAddress g" sim_wf
proof (unfold_locales, goal_cases)
  case (1 m a d m') then show ?case by (rule sim_wf_set)
next
  case (2 m a d m' b)
  from set_present [OF 2(2)] show ?case by (auto simp: GetDataAtAddress_def)
qed

section \<open>Properties\<close>

text \<open>After the first write to an address the interface reports the address
  present, holds a well-formed copy of the written bytes, and every other address is unchanged.\<close>

lemma sim_set_then_get:
  assumes "sim_wf si" "accessCounts si a = None" "block_wf d" "isValid d"
  shows "\<exists>si'. SetDataAtAddress g a d si = Some si' \<and> sim_wf si'
     \<and> fst (GetDataAtAddress a None si') = 1
     \<and> (\<exists>blk. memoryData si' a = Some blk \<and> (\<forall>i < dsize d. GetByte i blk = GetByte i d))
     \<and> (\<forall>b. b \<noteq> a \<longrightarrow> memoryData si' b = memoryData si b)"
proof -
  obtain buf where buf: "rawData d = Some buf" "length buf = unat (dsize d)"
    using assms(3,4) by (auto simp: block_wf_def split: option.splits)
  define blk where "blk = d\<lparr>rawData := Some buf\<rparr>"
  have asg: "NVMDataBlock_assign g d NVMDataBlock_new = Some blk"
    using buf by (cases d) (simp add: NVMDataBlock_assign_def NVMDataBlock_new_def Let_def blk_def)
  have "blk = d" using buf by (cases d) (simp add: blk_def)
  with asg obtain si' where si': "SetDataAtAddress g a d si = Some si'" "memoryData si' a = Some d"
    using assms(2) by (auto simp: SetDataAtAddress_def)
  moreover have "fst (GetDataAtAddress a None si') = 1"
    using si'(2) by (simp add: GetDataAtAddress_def)
  ultimately show ?thesis
    using sim_wf_set [OF assms(1) si'(1)] set_other [OF si'(1)] by auto
qed

text \<open>\<^verbatim>\<open>GetDataAtAddress\<close> never fills the block it is given, even
  when it reports the address present: the found block is assigned to the parameter itself.\<close>

lemma GetDataAtAddress_no_data: "snd (GetDataAtAddress a d si) = d"
  by (simp add: GetDataAtAddress_def)

end
