(* ===== verification/NVM_Params.thy ===== *)
theory NVM_Params
  imports NVM_Prelude
begin

text \<open>
  \<^verbatim>\<open>src/NVmain/src/Params.h\<close> and the constructor of \<^verbatim>\<open>src/NVmain/src/Params.cpp\<close>: the
  configuration every module reads. The class is one record, built in five layers (timing, energy,
  geometry, cell programming, policy); \<^verbatim>\<open>double\<close> is \<open>real\<close>. The constructor is a function
  of the memory it is given, because it leaves \<open>tDQ_TURNAROUND\<close>, \<open>BANKGROUPS\<close> and
  \<open>LogLevel\<close> unset. \<open>default_params\<close> is its result with those three set as the simulator's
  DDR3 configurations set them; its field values are the simplification rules that concrete
  examples evaluate with.
\<close>

datatype ProgramMode = ProgramMode_SRMS | ProgramMode_SSMR

datatype PauseMode = PauseMode_Normal | PauseMode_IIWC | PauseMode_Optimal

section \<open>The parameters\<close>

record TimingParams =
  tAL :: ncycle_t
  tBURST :: ncycle_t
  tCAS :: ncycle_t
  tCCD_L :: ncycle_t
  tCCD_S :: ncycle_t
  tCMD :: ncycle_t
  tCWD :: ncycle_t
  tRAW :: ncycle_t
  tOST :: ncycle_t
  tPD :: ncycle_t
  tRAS :: ncycle_t
  tRCD :: ncycle_t
  tRDB :: ncycle_t
  tREFW :: ncycle_t
  tRFC :: ncycle_t
  tRP :: ncycle_t
  tRRDR_L :: ncycle_t
  tRRDR_S :: ncycle_t
  tRRDW :: ncycle_t
  tPPD :: ncycle_t
  tRTP :: ncycle_t
  tRTRS :: ncycle_t
  tWP :: ncycle_t
  tWR :: ncycle_t
  tWTR_L :: ncycle_t
  tWTR_S :: ncycle_t
  tXP :: ncycle_t
  tXPDLL :: ncycle_t
  tXS :: ncycle_t
  tXSDLL :: ncycle_t
  tRead2Read_diff_part :: ncycle_t
  tRead2Write_diff_part :: ncycle_t
  tWrite2Read_diff_part :: ncycle_t
  tWrite2Write_diff_part :: ncycle_t
  tRead2Read_diff_addr :: ncycle_t
  tRead2Write_diff_addr :: ncycle_t
  tWrite2Read_diff_addr :: ncycle_t
  tWrite2Write_diff_addr :: ncycle_t
  tRead2Read_same_addr :: ncycle_t
  tRead2Write_same_addr :: ncycle_t
  tWrite2Read_same_addr :: ncycle_t
  tWrite2Write_same_addr :: ncycle_t
  tDQ_TURNAROUND :: ncycle_t
  tRDPDEN :: ncycle_t
  tWRPDEN :: ncycle_t
  tWRAPDEN :: ncycle_t

record EnergyParams = TimingParams +
  EIDD0 :: real
  EIDD1 :: real
  EIDD2P0 :: real
  EIDD2P1 :: real
  EIDD2N :: real
  EIDD3P :: real
  EIDD3N :: real
  EIDD4R :: real
  EIDD4W :: real
  EIDD5B :: real
  EIDD6 :: real
  Eopenrd :: real
  Erd :: real
  Eref :: real
  Ewr :: real
  Ewrpb :: real
  Eactstdby :: real
  Eprestdby :: real
  Epda :: real
  Epdpf :: real
  Epdps :: real
  Voltage :: real
  Vddq :: real
  Vssq :: real
  Ereset :: real
  Eset :: real

record GeometryParams = EnergyParams +
  BusWidth :: ncounter_t
  DeviceWidth :: ncounter_t
  CLK :: ncounter_t
  RATE :: ncounter_t
  CPUFreq :: ncounter_t
  Rtt_nom :: int
  Rtt_wr :: int
  Rtt_cont :: int
  RanksPerDIMM :: int
  OffChipLatency :: ncounter_t
  PeriodicStatsInterval :: ncounter_t
  ROWS :: ncounter_t
  COLS :: ncounter_t
  CHANNELS :: ncounter_t
  RANKS :: ncounter_t
  BANKS :: ncounter_t
  BANKGROUPS :: ncounter_t
  RAW :: ncounter_t
  MATHeight :: ncounter_t
  RBSize :: ncounter_t
  LogLevel :: ncounter_t

record CellParams = GeometryParams +
  programMode :: ProgramMode
  MLCLevels :: ncounter_t
  WPVariance :: ncounter_t
  UniformWrites :: bool
  WriteAllBits :: bool
  tWP0 :: ncycle_t
  tWP1 :: ncycle_t
  nWP00 :: ncycle_t
  nWP01 :: ncycle_t
  nWP10 :: ncycle_t
  nWP11 :: ncycle_t
  WPMaxVariance :: ncycle_t
  DeadlockTimer :: ncycle_t
  useTagCache :: bool
  WritePausing :: bool
  PauseThreshold :: real
  MaxCancellations :: ncounter_t
  pauseMode :: PauseMode

record Params = CellParams +
  EnduranceModelName :: string
  DataEncoderName :: string
  EnergyModel :: string
  UseLowPower :: bool
  PowerDownMode :: string
  InitPD :: bool
  PrintGraphs :: bool
  PrintAllDevices :: bool
  PrintConfig :: bool
  PrintPreTrace :: bool
  EchoPreTrace :: bool
  RefreshRows :: ncounter_t
  UseRefresh :: bool
  StaggerRefresh :: bool
  UsePrecharge :: bool
  decdelay :: ncycle_t
  ClosePage :: ncycle_t
  ScheduleScheme :: int
  HighWaterMark :: int
  LowWaterMark :: int
  BanksPerRefresh :: ncounter_t
  DelayedRefreshThreshold :: ncounter_t
  AddressMappingScheme :: string
  MemoryPrefetcher :: string
  PrefetchBufferSize :: ncounter_t
  debugOn :: bool
  debugClasses :: "string set"

section \<open>The constructor\<close>

definition timing_defaults :: "Params \<Rightarrow> Params" where
  "timing_defaults g = g\<lparr>tAL := 0, tBURST := 4, tCAS := 10, tCCD_L := 7, tCCD_S := 4,
     tCMD := 1, tCWD := 7, tRAW := 20, tOST := 1, tPD := 6, tRAS := 24, tRCD := 9, tRDB := 2,
     tREFW := 42666667, tRFC := 107, tRP := 9, tRRDR_L := 7, tRRDR_S := 5, tRRDW := 5, tPPD := 0,
     tRTP := 5, tRTRS := 1, tWP := 0, tWR := 10, tWTR_L := 10, tWTR_S := 3, tXP := 6,
     tXPDLL := 17, tXS := 5, tXSDLL := 512, tRead2Read_diff_part := 8,
     tRead2Write_diff_part := 8, tWrite2Read_diff_part := 8, tWrite2Write_diff_part := 31,
     tRead2Read_diff_addr := 46, tRead2Write_diff_addr := 79, tWrite2Read_diff_addr := 496,
     tWrite2Write_diff_addr := 496, tRead2Read_same_addr := 46, tRead2Write_same_addr := 79,
     tWrite2Read_same_addr := 1562, tWrite2Write_same_addr := 1562, tRDPDEN := 24, tWRPDEN := 19,
     tWRAPDEN := 22\<rparr>"

definition energy_defaults :: "Params \<Rightarrow> Params" where
  "energy_defaults g = g\<lparr>EIDD0 := 85, EIDD1 := 54, EIDD2P0 := 30, EIDD2P1 := 30,
     EIDD2N := 37, EIDD3P := 35, EIDD3N := 40, EIDD4R := 160, EIDD4W := 165, EIDD5B := 200,
     EIDD6 := 12, Eopenrd := 108108 / 100000, Erd := 3405401 / 1000000,
     Eref := 38558533 / 1000000, Ewr := 102375 / 100000, Ewrpb := (102375 / 100000) / 512,
     Eactstdby := 9009 / 100000, Eprestdby := 83333 / 1000000, Epda := 0, Epdpf := 0, Epdps := 0,
     Voltage := 15 / 10, Vddq := 15 / 10, Vssq := 0, Ereset := 54331 / 1000000,
     Eset := 101581 / 1000000\<rparr>"

definition geometry_defaults :: "Params \<Rightarrow> Params" where
  "geometry_defaults g = g\<lparr>BusWidth := 64, DeviceWidth := 8, CLK := 666, RATE := 2,
     CPUFreq := 2000, Rtt_nom := 30, Rtt_wr := 60, Rtt_cont := 75, RanksPerDIMM := 1,
     OffChipLatency := 10, PeriodicStatsInterval := 0, ROWS := 65536, COLS := 32, CHANNELS := 2,
     RANKS := 2, BANKS := 8, RAW := 4, MATHeight := 65536, RBSize := 32\<rparr>"

definition cell_defaults :: "Params \<Rightarrow> Params" where
  "cell_defaults g = g\<lparr>programMode := ProgramMode_SRMS, MLCLevels := 1, WPVariance := 1,
     UniformWrites := True, WriteAllBits := True, tWP0 := 40, tWP1 := 60, nWP00 := 0, nWP01 := 7,
     nWP10 := 5, nWP11 := 1, WPMaxVariance := 2, DeadlockTimer := 10000000, useTagCache := False,
     WritePausing := False, PauseThreshold := 4 / 10, MaxCancellations := 4,
     pauseMode := PauseMode_Normal\<rparr>"

definition policy_defaults :: "Params \<Rightarrow> Params" where
  "policy_defaults g = g\<lparr>EnduranceModelName := ''NullModel'',
     DataEncoderName := ''default'', EnergyModel := ''current'', UseLowPower := True,
     PowerDownMode := ''FASTEXIT'', InitPD := False, PrintGraphs := False,
     PrintAllDevices := False, PrintConfig := False, PrintPreTrace := False,
     EchoPreTrace := False, RefreshRows := 4, UseRefresh := True, StaggerRefresh := False,
     UsePrecharge := True, decdelay := 0, ClosePage := 1, ScheduleScheme := 1,
     HighWaterMark := 32, LowWaterMark := 16, BanksPerRefresh := 8, DelayedRefreshThreshold := 1,
     AddressMappingScheme := ''R:SA:RK:BK:CH:C'', MemoryPrefetcher := ''none'',
     PrefetchBufferSize := 32, debugOn := False, debugClasses := {}\<rparr>"

definition Params_new :: "Params \<Rightarrow> Params" where
  "Params_new g = policy_defaults (cell_defaults (geometry_defaults (energy_defaults
     (timing_defaults g))))"

section \<open>Derived quantities\<close>

text \<open>
  The size of one access in bytes, as \<^verbatim>\<open>wordSize\<close> is computed in the endurance models, the
  encoders and the sub-array: \<^verbatim>\<open>BusWidth * (tBURST * RATE) / 8\<close> in 64-bit arithmetic.
\<close>

definition word_bytes :: "Params \<Rightarrow> u64" where
  "word_bytes p = (BusWidth p * (tBURST p * RATE p)) div 8"

definition row_bytes :: "Params \<Rightarrow> u64" where
  "row_bytes p = COLS p * word_bytes p"

abbreviation burst_gap :: "Params \<Rightarrow> ncycle_t" where
  "burst_gap p \<equiv> max (tBURST p) (tCCD_L p)"

text \<open>The parameters of the examples.\<close>

definition default_params :: Params where
  "default_params = (Params_new undefined)\<lparr>tDQ_TURNAROUND := 0, BANKGROUPS := 1, LogLevel := 0\<rparr>"

lemma default_timing [simp]:
  "tAL default_params = 0" "tBURST default_params = 4" "tCAS default_params = 10"
  "tCCD_L default_params = 7" "tCCD_S default_params = 4" "tCMD default_params = 1"
  "tCWD default_params = 7" "tRAW default_params = 20" "tOST default_params = 1"
  "tPD default_params = 6" "tRAS default_params = 24" "tRCD default_params = 9"
  "tRDB default_params = 2" "tREFW default_params = 42666667" "tRFC default_params = 107"
  "tRP default_params = 9" "tRRDR_L default_params = 7" "tRRDR_S default_params = 5"
  "tRRDW default_params = 5" "tPPD default_params = 0" "tRTP default_params = 5"
  "tRTRS default_params = 1" "tWP default_params = 0" "tWR default_params = 10"
  "tWTR_L default_params = 10" "tWTR_S default_params = 3" "tXP default_params = 6"
  "tXPDLL default_params = 17" "tXS default_params = 5" "tXSDLL default_params = 512"
  "tRead2Read_diff_part default_params = 8" "tRead2Write_diff_part default_params = 8"
  "tWrite2Read_diff_part default_params = 8" "tWrite2Write_diff_part default_params = 31"
  "tRead2Read_diff_addr default_params = 46" "tRead2Write_diff_addr default_params = 79"
  "tWrite2Read_diff_addr default_params = 496" "tWrite2Write_diff_addr default_params = 496"
  "tRead2Read_same_addr default_params = 46" "tRead2Write_same_addr default_params = 79"
  "tWrite2Read_same_addr default_params = 1562" "tWrite2Write_same_addr default_params = 1562"
  "tRDPDEN default_params = 24" "tWRPDEN default_params = 19" "tWRAPDEN default_params = 22"
  "tDQ_TURNAROUND default_params = 0"
  by (simp_all add: default_params_def Params_new_def policy_defaults_def cell_defaults_def
      geometry_defaults_def energy_defaults_def timing_defaults_def)

lemma default_energy [simp]:
  "EIDD0 default_params = 85" "EIDD1 default_params = 54" "EIDD2P0 default_params = 30"
  "EIDD2P1 default_params = 30" "EIDD2N default_params = 37" "EIDD3P default_params = 35"
  "EIDD3N default_params = 40" "EIDD4R default_params = 160" "EIDD4W default_params = 165"
  "EIDD5B default_params = 200" "EIDD6 default_params = 12"
  "Eopenrd default_params = 108108 / 100000" "Erd default_params = 3405401 / 1000000"
  "Eref default_params = 38558533 / 1000000" "Ewr default_params = 102375 / 100000"
  "Ewrpb default_params = (102375 / 100000) / 512" "Eactstdby default_params = 9009 / 100000"
  "Eprestdby default_params = 83333 / 1000000" "Epda default_params = 0"
  "Epdpf default_params = 0" "Epdps default_params = 0" "Voltage default_params = 15 / 10"
  "Vddq default_params = 15 / 10" "Vssq default_params = 0"
  "Ereset default_params = 54331 / 1000000" "Eset default_params = 101581 / 1000000"
  by (simp_all add: default_params_def Params_new_def policy_defaults_def cell_defaults_def
      geometry_defaults_def energy_defaults_def timing_defaults_def)

lemma default_geometry [simp]:
  "BusWidth default_params = 64" "DeviceWidth default_params = 8" "CLK default_params = 666"
  "RATE default_params = 2" "CPUFreq default_params = 2000" "Rtt_nom default_params = 30"
  "Rtt_wr default_params = 60" "Rtt_cont default_params = 75" "RanksPerDIMM default_params = 1"
  "OffChipLatency default_params = 10" "PeriodicStatsInterval default_params = 0"
  "ROWS default_params = 65536" "COLS default_params = 32" "CHANNELS default_params = 2"
  "RANKS default_params = 2" "BANKS default_params = 8" "RAW default_params = 4"
  "MATHeight default_params = 65536" "RBSize default_params = 32" "BANKGROUPS default_params = 1"
  "LogLevel default_params = 0"
  by (simp_all add: default_params_def Params_new_def policy_defaults_def cell_defaults_def
      geometry_defaults_def energy_defaults_def timing_defaults_def)

lemma default_cell [simp]:
  "programMode default_params = ProgramMode_SRMS" "MLCLevels default_params = 1"
  "WPVariance default_params = 1" "UniformWrites default_params = True"
  "WriteAllBits default_params = True" "tWP0 default_params = 40" "tWP1 default_params = 60"
  "nWP00 default_params = 0" "nWP01 default_params = 7" "nWP10 default_params = 5"
  "nWP11 default_params = 1" "WPMaxVariance default_params = 2"
  "DeadlockTimer default_params = 10000000" "useTagCache default_params = False"
  "WritePausing default_params = False" "PauseThreshold default_params = 4 / 10"
  "MaxCancellations default_params = 4" "pauseMode default_params = PauseMode_Normal"
  by (simp_all add: default_params_def Params_new_def policy_defaults_def cell_defaults_def
      geometry_defaults_def energy_defaults_def timing_defaults_def)

lemma default_policy [simp]:
  "EnduranceModelName default_params = ''NullModel''"
  "DataEncoderName default_params = ''default''" "EnergyModel default_params = ''current''"
  "UseLowPower default_params = True" "PowerDownMode default_params = ''FASTEXIT''"
  "InitPD default_params = False" "PrintGraphs default_params = False"
  "PrintAllDevices default_params = False" "PrintConfig default_params = False"
  "PrintPreTrace default_params = False" "EchoPreTrace default_params = False"
  "RefreshRows default_params = 4" "UseRefresh default_params = True"
  "StaggerRefresh default_params = False" "UsePrecharge default_params = True"
  "decdelay default_params = 0" "ClosePage default_params = 1"
  "ScheduleScheme default_params = 1" "HighWaterMark default_params = 32"
  "LowWaterMark default_params = 16" "BanksPerRefresh default_params = 8"
  "DelayedRefreshThreshold default_params = 1"
  "AddressMappingScheme default_params = ''R:SA:RK:BK:CH:C''"
  "MemoryPrefetcher default_params = ''none''" "PrefetchBufferSize default_params = 32"
  "debugOn default_params = False" "debugClasses default_params = {}"
  by (simp_all add: default_params_def Params_new_def policy_defaults_def cell_defaults_def
      geometry_defaults_def energy_defaults_def timing_defaults_def)

end
