(* ===== verification/Endurance_Model.thy ===== *)
theory Endurance_Model
  imports NVM_Request NVM_Params
begin

text \<open>
  Wear of the memory cells: \<^verbatim>\<open>src/NVmain/src/EnduranceModel.cpp\<close>, the row, word, byte, bit and
  null models of \<^verbatim>\<open>src/NVmain/Endurance/\<close> and the two endurance distributions. A model keeps the
  remaining writes of each cell group in a map from a key to a life; the class hierarchy is the
  field \<open>ekind\<close>, on which the virtual functions dispatch. \<^verbatim>\<open>rand()\<close> is a sequence of numbers and
  a position in it. \<open>None\<close> is a division by zero, an access outside a data block, or a conversion
  of a floating-point number that \<^verbatim>\<open>uint64_t\<close> can not hold.

  Shown: the contract of the life map (locale \<open>wear_ledger\<close>); that a write wears exactly the
  cells whose data changes; that a failure is reported exactly when a worn-out cell is written;
  how many writes a row survives; that the keys of different words and bits differ, and that the
  keys of bytes do not.
\<close>

section \<open>Distributions\<close>

type_synonym rng = "(nat \<Rightarrow> nat) \<times> nat"

definition rand_next :: "rng \<Rightarrow> nat \<times> rng" where
  "rand_next r = (fst r (snd r), (fst r, Suc (snd r)))"

datatype EnduranceDistribution =
    UniformDistribution u64
  | NormalDistribution (nd_mean: u64) (nd_variance: u64) (nextEndurance: real)

text \<open>The constructors read the configuration, where \<open>-1\<close> is a missing value.\<close>

definition CreateEnduranceDistribution :: "string \<Rightarrow> int \<Rightarrow> int \<Rightarrow> EnduranceDistribution option" where
  "CreateEnduranceDistribution distName cmean cvar =
     (let mean = (if cmean = -1 then 1000000 else word_of_int cmean);
          variance = (if cvar = -1 then 100000 else word_of_int cvar)
      in if distName = ''Uniform'' then Some (UniformDistribution mean)
         else if distName = ''Normal'' then Some (NormalDistribution mean variance 0)
         else None)"

text \<open>Conversion of a floating-point number to \<^verbatim>\<open>uint64_t\<close>: towards zero, when it fits.\<close>

definition cast_u64 :: "real \<Rightarrow> u64 option" where
  "cast_u64 x =
     (let t = (if x < 0 then ceiling x else floor x)
      in if 0 \<le> t \<and> t < 2 ^ 64 then Some (word_of_int t) else None)"

partial_function (option) draw_pair :: "rng \<Rightarrow> ((real \<times> real \<times> real) \<times> rng) option" where
  "draw_pair r =
     (let (n1, r1) = rand_next r;
          (n2, r2) = rand_next r1;
          x1 = 2 * (real (n1 mod 1000000) / 1000000) - 1;
          x2 = 2 * (real (n2 mod 1000000) / 1000000) - 1;
          w = x1 * x1 + x2 * x2
      in if 1 \<le> w then draw_pair r2 else Some ((x1, x2, w), r2))"

definition GetEndurance ::
  "EnduranceDistribution \<Rightarrow> rng \<Rightarrow> (u64 \<times> EnduranceDistribution \<times> rng) option" where
  "GetEndurance d r =
     (case d of
        UniformDistribution mean \<Rightarrow> Some (mean, d, r)
      | NormalDistribution mean variance nxt \<Rightarrow>
          if nxt \<noteq> 0 then do {
            v \<leftarrow> cast_u64 nxt;
            Some (v, NormalDistribution mean variance 0, r)
          }
          else do {
            ((x1, x2, w), r') \<leftarrow> draw_pair r;
            cpp_assert (w \<noteq> 0);
            let f = sqrt ((- 2 * ln w) / w);
            let y1 = x1 * f;
            let y2 = x2 * f;
            v \<leftarrow> cast_u64 (y1 * real (unat variance));
            Some (mean + v,
              NormalDistribution mean variance (real (unat mean) + y2 * real (unat variance)), r')
          })"

section \<open>The life map\<close>

datatype EnduranceKind = RowModel | WordModel | ByteModel | BitModel | NullModel

record EnduranceModel =
  ekind :: EnduranceKind
  life :: "(u64, u64) omap"
  granularity :: u64
  enduranceDist :: "EnduranceDistribution option"

definition EnduranceModel_new :: "EnduranceKind \<Rightarrow> EnduranceModel" where
  "EnduranceModel_new k = \<lparr>ekind = k, life = [],
     granularity = (case k of ByteModel \<Rightarrow> 8 | BitModel \<Rightarrow> 1 | _ \<Rightarrow> 0), enduranceDist = None\<rparr>"

definition CreateEnduranceModel :: "string \<Rightarrow> EnduranceModel option" where
  "CreateEnduranceModel modelName =
     (if modelName = ''RowModel'' then Some (EnduranceModel_new RowModel)
      else if modelName = ''WordModel'' then Some (EnduranceModel_new WordModel)
      else if modelName = ''ByteModel'' then Some (EnduranceModel_new ByteModel)
      else if modelName = ''BitModel'' then Some (EnduranceModel_new BitModel)
      else if modelName = ''NullModel'' then Some (EnduranceModel_new NullModel)
      else None)"

definition SetGranularity :: "u64 \<Rightarrow> EnduranceModel \<Rightarrow> EnduranceModel" where
  "SetGranularity bits m = m\<lparr>granularity := bits\<rparr>"

definition Endurance_SetConfig ::
  "Params \<Rightarrow> EnduranceDistribution option \<Rightarrow> EnduranceModel \<Rightarrow> EnduranceModel" where
  "Endurance_SetConfig p ed m =
     (let m = (case ekind m of
                 RowModel \<Rightarrow> SetGranularity (COLS p * 8) m
               | WordModel \<Rightarrow> SetGranularity (BusWidth p * 8) m
               | _ \<Rightarrow> m)
      in m\<lparr>enduranceDist := ed\<rparr>)"

definition GetWorstLife :: "EnduranceModel \<Rightarrow> u64" where
  "GetWorstLife m = foldl (\<lambda>mn (k, v). if v < mn then v else mn) (- 1) (life m)"

definition GetAverageLife :: "EnduranceModel \<Rightarrow> u64" where
  "GetAverageLife m =
     (let total = foldl (\<lambda>t (k, v). t + v) 0 (life m)
      in if life m \<noteq> [] then total div word_of_nat (length (life m)) else 0)"

definition DecrementLife ::
  "u64 \<Rightarrow> EnduranceModel \<times> rng \<Rightarrow> (bool \<times> EnduranceModel \<times> rng) option" where
  "DecrementLife addr st =
     (let (m, r) = st in
      case map_of (life m) addr of
        None \<Rightarrow> do {
          d \<leftarrow> enduranceDist m;
          (v, d', r') \<leftarrow> GetEndurance d r;
          Some (True, m\<lparr>life := omap_set addr v (life m), enduranceDist := Some d'\<rparr>, r')
        }
      | Some v \<Rightarrow>
          if v \<noteq> 0 then Some (True, m\<lparr>life := omap_set addr (v - 1) (life m)\<rparr>, r)
          else Some (False, m, r))"

definition IsDead :: "u64 \<Rightarrow> EnduranceModel \<Rightarrow> bool" where
  "IsDead addr m \<longleftrightarrow> map_of (life m) addr = Some 0"

section \<open>The models\<close>

definition word_key :: "Params \<Rightarrow> u64 \<Rightarrow> u64 \<Rightarrow> u64 option" where
  "word_key p r c =
     (if word_bytes p = 0 then None else Some (r * (row_bytes p div word_bytes p) + c))"

definition byte_key :: "Params \<Rightarrow> u64 \<Rightarrow> u64 \<Rightarrow> nat \<Rightarrow> u64" where
  "byte_key p r c i = r * (row_bytes p div 8) + c * word_bytes p + word_of_nat i"

definition bit_key :: "Params \<Rightarrow> u64 \<Rightarrow> u64 \<Rightarrow> nat \<Rightarrow> nat \<Rightarrow> u64" where
  "bit_key p r c i j = r * (row_bytes p * 8) + c * word_bytes p * 8 + word_of_nat i * 8 + word_of_nat j"

text \<open>\<^verbatim>\<open>Read\<close>: \<open>0\<close>, or \<open>-1\<close> when a cell of the word is dead.\<close>

definition ByteModel_Read :: "Params \<Rightarrow> NVMainRequest \<Rightarrow> EnduranceModel \<Rightarrow> int" where
  "ByteModel_Read p req m =
     (if \<exists>i \<in> set (rev [0..<unat (word_bytes p)]).
           IsDead (byte_key p (row (address req)) (col (address req)) i) m then -1 else 0)"

definition BitModel_Read :: "Params \<Rightarrow> NVMainRequest \<Rightarrow> EnduranceModel \<Rightarrow> int" where
  "BitModel_Read p req m =
     (if \<exists>i \<in> set [0..<unat (word_bytes p)]. \<exists>j \<in> set [0..<8].
           IsDead (bit_key p (row (address req)) (col (address req)) i j) m then -1 else 0)"

definition Endurance_Read :: "Params \<Rightarrow> NVMainRequest \<Rightarrow> EnduranceModel \<Rightarrow> int option" where
  "Endurance_Read p req m =
     (case ekind m of
        RowModel \<Rightarrow> Some (if IsDead (row (address req)) m then -1 else 0)
      | WordModel \<Rightarrow> do {
          key \<leftarrow> word_key p (row (address req)) (col (address req));
          Some (if IsDead key m then -1 else 0)
        }
      | ByteModel \<Rightarrow> Some (ByteModel_Read p req m)
      | BitModel \<Rightarrow> Some (BitModel_Read p req m)
      | NullModel \<Rightarrow> Some 0)"

text \<open>\<^verbatim>\<open>if( !DecrementLife( key ) ) rv = -1;\<close>\<close>

definition wear ::
  "u64 \<Rightarrow> int \<times> EnduranceModel \<times> rng \<Rightarrow> (int \<times> EnduranceModel \<times> rng) option" where
  "wear key st = do {
     (ok, st') \<leftarrow> DecrementLife key (snd st);
     Some (if ok then fst st else -1, st')
   }"

fun byte_loop ::
  "Params \<Rightarrow> NVMainRequest \<Rightarrow> NVMDataBlock \<Rightarrow> nat list \<Rightarrow> int \<times> EnduranceModel \<times> rng
     \<Rightarrow> (int \<times> EnduranceModel \<times> rng) option" where
  "byte_loop p req old [] st = Some st"
| "byte_loop p req old (i # is) st = do {
     oldByte \<leftarrow> GetByte (word_of_nat i) old;
     newByte \<leftarrow> GetByte (word_of_nat i) (rdata req);
     st \<leftarrow> (if oldByte = newByte then Some st
            else wear (byte_key p (row (address req)) (col (address req)) i) st);
     byte_loop p req old is st
   }"

fun bit_inner ::
  "Params \<Rightarrow> NVMainRequest \<Rightarrow> u8 \<Rightarrow> u8 \<Rightarrow> nat \<Rightarrow> nat list \<Rightarrow> int \<times> EnduranceModel \<times> rng
     \<Rightarrow> (int \<times> EnduranceModel \<times> rng) option" where
  "bit_inner p req oldByte newByte i [] st = Some st"
| "bit_inner p req oldByte newByte i (j # js) st = do {
     st \<leftarrow> (if bit oldByte j = bit newByte j then Some st
            else wear (bit_key p (row (address req)) (col (address req)) i j) st);
     bit_inner p req oldByte newByte i js st
   }"

fun bit_loop ::
  "Params \<Rightarrow> NVMainRequest \<Rightarrow> NVMDataBlock \<Rightarrow> nat list \<Rightarrow> int \<times> EnduranceModel \<times> rng
     \<Rightarrow> (int \<times> EnduranceModel \<times> rng) option" where
  "bit_loop p req old [] st = Some st"
| "bit_loop p req old (i # is) st = do {
     oldByte \<leftarrow> GetByte (word_of_nat i) old;
     newByte \<leftarrow> GetByte (word_of_nat i) (rdata req);
     st \<leftarrow> (if oldByte = newByte then Some st else bit_inner p req oldByte newByte i [0..<8] st);
     bit_loop p req old is st
   }"

definition Endurance_Write ::
  "Params \<Rightarrow> NVMainRequest \<Rightarrow> NVMDataBlock \<Rightarrow> EnduranceModel \<times> rng
     \<Rightarrow> (int \<times> EnduranceModel \<times> rng) option" where
  "Endurance_Write p req old st =
     (case ekind (fst st) of
        RowModel \<Rightarrow> wear (row (address req)) (0, st)
      | WordModel \<Rightarrow> do {
          key \<leftarrow> word_key p (row (address req)) (col (address req));
          wear key (0, st)
        }
      | ByteModel \<Rightarrow> byte_loop p req old (rev [0..<unat (word_bytes p)]) (0, st)
      | BitModel \<Rightarrow> bit_loop p req old [0..<unat (word_bytes p)] (0, st)
      | NullModel \<Rightarrow> Some (0, st))"

section \<open>The contract of the life map\<close>

locale wear_ledger =
  fixes lifeof :: "'m \<Rightarrow> u64 \<Rightarrow> u64 option"
    and dec :: "u64 \<Rightarrow> 'm \<times> 'r \<Rightarrow> (bool \<times> 'm \<times> 'r) option"
    and ok :: "'m \<Rightarrow> bool"
  assumes dec_live: "ok m \<Longrightarrow> lifeof m a = Some v \<Longrightarrow> v \<noteq> 0 \<Longrightarrow>
      \<exists>m'. dec a (m, r) = Some (True, m', r) \<and> ok m' \<and> lifeof m' = (lifeof m)(a \<mapsto> v - 1)"
    and dec_dead: "ok m \<Longrightarrow> lifeof m a = Some 0 \<Longrightarrow> dec a (m, r) = Some (False, m, r)"
    and dec_new: "ok m \<Longrightarrow> lifeof m a = None \<Longrightarrow> dec a (m, r) = Some (b, m', r') \<Longrightarrow>
      b \<and> ok m' \<and> (\<exists>v. lifeof m' = (lifeof m)(a \<mapsto> v))"
begin

lemma dec_step:
  assumes "ok m" "dec a (m, r) = Some (b, m', r')"
  shows "ok m'" "b \<longleftrightarrow> lifeof m a \<noteq> Some 0" "a' \<noteq> a \<Longrightarrow> lifeof m' a' = lifeof m a'"
    "lifeof m a = Some v \<Longrightarrow> lifeof m' a = Some (v - of_bool (v \<noteq> 0))" "lifeof m' a \<noteq> None"
proof -
  consider "lifeof m a = None" | "lifeof m a = Some 0" | v where "lifeof m a = Some v" "v \<noteq> 0"
    by (cases "lifeof m a") auto
  then have "ok m' \<and> (b \<longleftrightarrow> lifeof m a \<noteq> Some 0) \<and> (a' \<noteq> a \<longrightarrow> lifeof m' a' = lifeof m a')
    \<and> (\<forall>v. lifeof m a = Some v \<longrightarrow> lifeof m' a = Some (v - of_bool (v \<noteq> 0))) \<and> lifeof m' a \<noteq> None"
  proof cases
    case 1
    then show ?thesis using dec_new [OF assms(1) 1 assms(2)] by auto
  next
    case 2
    then show ?thesis using dec_dead [OF assms(1) 2, of r] assms by auto
  next
    case 3
    then show ?thesis using dec_live [OF assms(1) 3, of r] assms(2) by auto
  qed
  then show "ok m'" "b \<longleftrightarrow> lifeof m a \<noteq> Some 0" "a' \<noteq> a \<Longrightarrow> lifeof m' a' = lifeof m a'"
    "lifeof m a = Some v \<Longrightarrow> lifeof m' a = Some (v - of_bool (v \<noteq> 0))" "lifeof m' a \<noteq> None"
    by blast+
qed

text \<open>A life never grows, and a dead cell stays dead.\<close>

lemma dec_le:
  assumes "ok m" "dec a (m, r) = Some (b, m', r')" "lifeof m k = Some v"
  shows "\<exists>v' \<le> v. lifeof m' k = Some v'"
proof (cases "k = a")
  case True
  have "v - of_bool (v \<noteq> 0) \<le> v" by (cases "v = 0") (simp_all add: word_le_nat_alt unat_minus_one)
  then show ?thesis using dec_step(4) [OF assms(1,2)] True assms(3) by blast
next
  case False
  then show ?thesis using dec_step(3) [OF assms(1,2)] assms(3) by auto
qed

end

interpretation lifemap: wear_ledger "\<lambda>m. map_of (life m)" DecrementLife "\<lambda>m. omap_wf (life m)"
proof
  fix m :: EnduranceModel and a v and r :: rng
  assume "omap_wf (life m)" "map_of (life m) a = Some v" "v \<noteq> 0"
  then show "\<exists>m'. DecrementLife a (m, r) = Some (True, m', r) \<and> omap_wf (life m')
      \<and> map_of (life m') = (map_of (life m))(a \<mapsto> v - 1)"
    by (auto simp: DecrementLife_def omap_wf_set omap_lookup_set)
next
  fix m :: EnduranceModel and a and r :: rng
  assume "map_of (life m) a = Some 0"
  then show "DecrementLife a (m, r) = Some (False, m, r)" by (simp add: DecrementLife_def)
next
  fix m m' :: EnduranceModel and a b and r r' :: rng
  assume "omap_wf (life m)" "map_of (life m) a = None" "DecrementLife a (m, r) = Some (b, m', r')"
  then show "b \<and> omap_wf (life m') \<and> (\<exists>v. map_of (life m') = (map_of (life m))(a \<mapsto> v))"
    by (auto simp: DecrementLife_def bind_eq_Some_conv omap_wf_set omap_lookup_set)
qed

section \<open>Writes as sequences of decrements\<close>

fun wear_all ::
  "u64 list \<Rightarrow> int \<times> EnduranceModel \<times> rng \<Rightarrow> (int \<times> EnduranceModel \<times> rng) option" where
  "wear_all [] st = Some st"
| "wear_all (k # ks) st = do { st \<leftarrow> wear k st; wear_all ks st }"

lemma wear_all_append: "wear_all (ks @ ks') st = do { st \<leftarrow> wear_all ks st; wear_all ks' st }"
proof (induction ks arbitrary: st)
  case (Cons k ks)
  have "wear_all (ks @ ks') = (\<lambda>st. do { st \<leftarrow> wear_all ks st; wear_all ks' st })"
    by (rule ext) (rule Cons)
  then show ?case by (simp add: bind_assoc)
qed simp

lemma byte_loop_eq:
  assumes "\<forall>i \<in> set is. GetByte (word_of_nat i) old = Some (ob i) \<and> GetByte (word_of_nat i) (rdata req) = Some (nb i)"
  shows "byte_loop p req old is =
    wear_all (map (byte_key p (row (address req)) (col (address req))) [i \<leftarrow> is. ob i \<noteq> nb i])"
  using assms
proof (induction "is")
  case (Cons i "is")
  then show ?case by (intro ext) simp
qed (simp add: fun_eq_iff del: split_paired_All)

lemma bit_inner_eq:
  "bit_inner p req oldByte newByte i js =
    wear_all (map (bit_key p (row (address req)) (col (address req)) i) [j \<leftarrow> js. bit oldByte j \<noteq> bit newByte j])"
proof (induction js)
  case (Cons j js)
  then show ?case by (intro ext) simp
qed (simp add: fun_eq_iff del: split_paired_All)

definition changed_bits :: "(nat \<Rightarrow> u8) \<Rightarrow> (nat \<Rightarrow> u8) \<Rightarrow> nat list \<Rightarrow> (nat \<times> nat) list" where
  "changed_bits ob nb is = [(i, j). i \<leftarrow> is, j \<leftarrow> [j \<leftarrow> [0..<8]. bit (ob i) j \<noteq> bit (nb i) j]]"

lemma bit_loop_eq:
  assumes "\<forall>i \<in> set is. GetByte (word_of_nat i) old = Some (ob i) \<and> GetByte (word_of_nat i) (rdata req) = Some (nb i)"
  shows "bit_loop p req old is =
    wear_all (map (\<lambda>(i, j). bit_key p (row (address req)) (col (address req)) i j) (changed_bits ob nb is))"
  using assms
proof (induction "is")
  case Nil
  then show ?case by (intro ext) (simp add: changed_bits_def)
next
  case (Cons i "is")
  let ?key = "bit_key p (row (address req)) (col (address req))"
  let ?js = "[j \<leftarrow> [0..<8]. bit (ob i) j \<noteq> bit (nb i) j]"
  have "bit_loop p req old (i # is) st = do { st \<leftarrow> wear_all (map (?key i) ?js) st; bit_loop p req old is st }" for st
    using Cons.prems by (cases "ob i = nb i") (simp_all add: bit_inner_eq)
  moreover have "map (\<lambda>(i, j). ?key i j) (changed_bits ob nb (i # is)) =
      map (?key i) ?js @ map (\<lambda>(i, j). ?key i j) (changed_bits ob nb is)"
    by (simp add: changed_bits_def)
  moreover have "bit_loop p req old is = wear_all (map (\<lambda>(i, j). ?key i j) (changed_bits ob nb is))"
    using Cons by simp
  ultimately show ?case by (intro ext) (simp only: wear_all_append)
qed

text \<open>What a sequence of decrements of different keys does, whatever the distribution.\<close>

lemma wear_all_spec:
  assumes "omap_wf (life m)" "distinct ks" "wear_all ks (rv, m, r) = Some (rv', m', r')"
  shows "omap_wf (life m') \<and> rv' = (if \<exists>k \<in> set ks. IsDead k m then -1 else rv)
    \<and> (\<forall>k. k \<notin> set ks \<longrightarrow> map_of (life m') k = map_of (life m) k)
    \<and> (\<forall>k v. k \<in> set ks \<and> map_of (life m) k = Some v \<longrightarrow> map_of (life m') k = Some (v - of_bool (v \<noteq> 0)))"
  using assms
proof (induction ks arbitrary: rv m r)
  case (Cons k ks)
  obtain b m1 r1 where d: "DecrementLife k (m, r) = Some (b, m1, r1)"
    using Cons.prems(3) by (cases "DecrementLife k (m, r)") (auto simp: wear_def)
  have rest: "wear_all ks (if b then rv else -1, m1, r1) = Some (rv', m', r')"
    using Cons.prems(3) by (cases b) (simp_all add: wear_def d)
  note step = lifemap.dec_step [OF Cons.prems(1) d]
  from Cons.IH [OF step(1) _ rest] Cons.prems(2)
  have IH: "omap_wf (life m')" "rv' = (if \<exists>k \<in> set ks. IsDead k m1 then -1 else if b then rv else -1)"
    "\<And>k'. k' \<notin> set ks \<Longrightarrow> map_of (life m') k' = map_of (life m1) k'"
    "\<And>k' v. k' \<in> set ks \<Longrightarrow> map_of (life m1) k' = Some v \<Longrightarrow> map_of (life m') k' = Some (v - of_bool (v \<noteq> 0))"
    by auto
  have notin: "k \<notin> set ks" using Cons.prems(2) by simp
  then have same: "IsDead k' m1 = IsDead k' m" if "k' \<in> set ks" for k'
    using step(3) [of k'] that unfolding IsDead_def by metis
  have "rv' = (if \<exists>k' \<in> set (k # ks). IsDead k' m then -1 else rv)"
    unfolding IH(2) using same step(2) by (auto simp: IsDead_def)
  moreover have "map_of (life m') k' = map_of (life m) k'" if "k' \<notin> set (k # ks)" for k'
    using that IH(3) [of k'] step(3) [of k'] by simp
  moreover have "map_of (life m') k' = Some (v - of_bool (v \<noteq> 0))"
    if "k' \<in> set (k # ks)" "map_of (life m) k' = Some v" for k' v
    using that IH(3) [of k'] IH(4) [of k'] step(3) [of k'] step(4) notin by (cases "k' = k") auto
  ultimately show ?case using IH(1) by blast
qed simp

section \<open>Keys\<close>

text \<open>The rows that fit: no key of a row below \<open>n\<close> wraps around.\<close>

definition keys_fit :: "Params \<Rightarrow> nat \<Rightarrow> bool" where
  "keys_fit p n \<longleftrightarrow> word_bytes p \<noteq> 0
     \<and> n * (unat (COLS p) * unat (word_bytes p) * 8) < 2 ^ 64"

lemma mixed_radix_less:
  assumes "a < (m :: nat)" "b < n"
  shows "a * n + b < m * n"
proof -
  have "a * n + b < a * n + n" using assms(2) by simp
  also have "\<dots> = Suc a * n" by simp
  also have "\<dots> \<le> m * n" using assms(1) by (intro mult_le_mono1) simp
  finally show ?thesis .
qed

lemma mixed_radix_inj:
  assumes "a * n + b = a' * n + b'" "b < (n :: nat)" "b' < n"
  shows "a = a' \<and> b = b'"
proof -
  have "(a * n + b) div n = a" "(a' * n + b') div n = a'" "(a * n + b) mod n = b" "(a' * n + b') mod n = b'"
    using assms(2,3) by simp_all
  then show ?thesis using assms(1) by metis
qed

lemma unat_bit_key:
  assumes "keys_fit p n" "unat r < n" "c < COLS p" "i < unat (word_bytes p)" "j < 8"
  shows "unat (bit_key p r c i j) =
    ((unat r * unat (COLS p) + unat c) * unat (word_bytes p) + i) * 8 + j"
proof -
  let ?C = "unat (COLS p)" and ?W = "unat (word_bytes p)"
  let ?N = "((unat r * ?C + unat c) * ?W + i) * 8 + j"
  have "unat c < ?C" using assms(3) by (simp add: word_less_nat_alt)
  then have "unat r * ?C + unat c < n * ?C" by (rule mixed_radix_less [OF assms(2)])
  then have "(unat r * ?C + unat c) * ?W + i < n * ?C * ?W" using assms(4) by (rule mixed_radix_less)
  then have "?N < n * ?C * ?W * 8" using assms(5) by (rule mixed_radix_less)
  then have lt: "?N < 2 ^ LENGTH(64)" using assms(1) by (simp add: keys_fit_def mult.assoc)
  have "bit_key p r c i j = word_of_nat ?N"
    by (simp add: bit_key_def row_bytes_def algebra_simps)
  then show ?thesis using of_nat_inverse [OF _ lt] by metis
qed

lemma bit_key_inj:
  assumes "keys_fit p n" "unat r < n" "c < COLS p" "i < unat (word_bytes p)" "j < 8"
    "unat r' < n" "c' < COLS p" "i' < unat (word_bytes p)" "j' < 8"
    "bit_key p r c i j = bit_key p r' c' i' j'"
  shows "r = r' \<and> c = c' \<and> i = i' \<and> j = j'"
proof -
  have "((unat r * unat (COLS p) + unat c) * unat (word_bytes p) + i) * 8 + j =
      ((unat r' * unat (COLS p) + unat c') * unat (word_bytes p) + i') * 8 + j'"
    using unat_bit_key [OF assms(1-5)] unat_bit_key [OF assms(1,6-9)] assms(10) by simp
  from mixed_radix_inj [OF this assms(5,9)]
  have "(unat r * unat (COLS p) + unat c) * unat (word_bytes p) + i =
      (unat r' * unat (COLS p) + unat c') * unat (word_bytes p) + i'" and j: "j = j'" by simp_all
  from mixed_radix_inj [OF this(1) assms(4,8)]
  have "unat r * unat (COLS p) + unat c = unat r' * unat (COLS p) + unat c'" and i: "i = i'" by simp_all
  from mixed_radix_inj [OF this(1)] assms(3,7)
  have "unat r = unat r' \<and> unat c = unat c'" by (simp add: word_less_nat_alt)
  then show ?thesis using i j by (simp add: word_unat_eq_iff)
qed

lemma changed_bits_distinct: "distinct is \<Longrightarrow> distinct (changed_bits ob nb is)"
  unfolding changed_bits_def
  by (induction "is") (auto simp: distinct_map inj_on_def)

lemma set_changed_bits:
  "(i, j) \<in> set (changed_bits ob nb is) \<longleftrightarrow> i \<in> set is \<and> j < 8 \<and> bit (ob i) j \<noteq> bit (nb i) j"
  by (auto simp: changed_bits_def)

section \<open>Properties\<close>

text \<open>A write under the bit model, for a word inside the geometry and
  data blocks that cover it, decrements the life of exactly the bits whose value changes, leaves
  every other life alone, and returns \<open>-1\<close> exactly when one of the changed bits was already worn
  out.\<close>

lemma bit_write_wears_changed_bits:
  assumes "ekind m = BitModel" "omap_wf (life m)" "keys_fit p n"
    "unat (row (address req)) < n" "col (address req) < COLS p"
    "\<forall>i < unat (word_bytes p). GetByte (word_of_nat i) old = Some (ob i)
       \<and> GetByte (word_of_nat i) (rdata req) = Some (nb i)"
    "Endurance_Write p req old (m, r) = Some (rv, m', r')"
  defines "key \<equiv> (\<lambda>(i, j). bit_key p (row (address req)) (col (address req)) i j)"
    and "changed \<equiv> {(i, j). i < unat (word_bytes p) \<and> j < 8 \<and> bit (ob i) j \<noteq> bit (nb i) j}"
  shows "rv = (if \<exists>b \<in> changed. IsDead (key b) m then -1 else 0)
    \<and> (\<forall>k. k \<notin> key ` changed \<longrightarrow> map_of (life m') k = map_of (life m) k)
    \<and> (\<forall>k v. k \<in> key ` changed \<and> map_of (life m) k = Some v \<longrightarrow>
         map_of (life m') k = Some (v - of_bool (v \<noteq> 0)))"
proof -
  let ?is = "[0..<unat (word_bytes p)]"
  have sc: "set (changed_bits ob nb ?is) = changed"
    by (auto simp: changed_def set_changed_bits)
  have "inj_on key changed"
    by (rule inj_onI) (auto simp: key_def changed_def dest: bit_key_inj [OF assms(3-5) _ _ assms(4,5)])
  then have dist: "distinct (map key (changed_bits ob nb ?is))"
    using changed_bits_distinct [of ?is ob nb] by (simp add: distinct_map sc)
  have "bit_loop p req old ?is = wear_all (map key (changed_bits ob nb ?is))"
    unfolding key_def by (rule bit_loop_eq) (use assms(6) in simp)
  then have "wear_all (map key (changed_bits ob nb ?is)) (0, m, r) = Some (rv, m', r')"
    using assms(1,7) by (simp add: Endurance_Write_def)
  from wear_all_spec [OF assms(2) dist this] show ?thesis by (simp add: sc)
qed

definition worn_request :: NVMainRequest where
  "worn_request = NVMainRequest_new\<lparr>address := zero_address\<lparr>row := 1, col := 2\<rparr>,
     rdata := \<lparr>rawData = Some (replicate 64 0), isValid = True, dsize = 64\<rparr>\<rparr>"

definition worn_old :: NVMDataBlock where
  "worn_old = \<lparr>rawData = Some (1 # replicate 63 0), isValid = True, dsize = 64\<rparr>"

definition worn_model :: "EnduranceKind \<Rightarrow> EnduranceModel" where
  "worn_model k = (EnduranceModel_new k)\<lparr>life := [(17408, 0)],
     enduranceDist := Some (UniformDistribution 5)\<rparr>"

lemma default_word_bytes [simp]: "word_bytes default_params = 64" "row_bytes default_params = 2048"
  by (simp_all add: word_bytes_def row_bytes_def)

lemma GetByte_list:
  assumes "rawData d = Some bs" "isValid d" "unat (dsize d) = length bs" "i < length bs"
  shows "GetByte (word_of_nat i) d = Some (bs ! i)"
proof -
  have "i < 2 ^ LENGTH(64)" using assms(3,4) unsigned_less [of "dsize d", where ?'a = nat] by simp
  then have "unat (word_of_nat i :: u64) = i" by (rule of_nat_inverse [OF refl])
  then show ?thesis using assms by (simp add: GetByte_def word_le_nat_alt)
qed

lemma wear_uniform:
  assumes "enduranceDist m = Some (UniformDistribution u)"
  shows "\<exists>rv' m' r'. wear k (rv, m, r) = Some (rv', m', r') \<and> enduranceDist m' = Some (UniformDistribution u)"
  using assms by (cases "map_of (life m) k") (auto simp: wear_def DecrementLife_def GetEndurance_def)

lemma wear_all_uniform:
  "enduranceDist m = Some (UniformDistribution u) \<Longrightarrow> \<exists>rv' m' r'. wear_all ks (rv, m, r) = Some (rv', m', r')"
proof (induction ks arbitrary: rv m r)
  case (Cons k ks)
  obtain rv1 m1 r1 where "wear k (rv, m, r) = Some (rv1, m1, r1)" "enduranceDist m1 = Some (UniformDistribution u)"
    using wear_uniform [OF Cons.prems] by blast
  then show ?case using Cons.IH [of m1 rv1 r1] by simp
qed simp

text \<open>The results of \<open>n\<close> writes of the same request.\<close>

fun write_times ::
  "Params \<Rightarrow> NVMainRequest \<Rightarrow> NVMDataBlock \<Rightarrow> nat \<Rightarrow> EnduranceModel \<times> rng \<Rightarrow> (int list \<times> EnduranceModel \<times> rng) option" where
  "write_times p req old 0 st = Some ([], st)"
| "write_times p req old (Suc n) st = do {
     (rv, st) \<leftarrow> Endurance_Write p req old st;
     (rvs, st) \<leftarrow> write_times p req old n st;
     Some (rv # rvs, st)
   }"

lemma row_lifetime_from:
  "ekind m = RowModel \<Longrightarrow> omap_wf (life m) \<Longrightarrow> map_of (life m) (row (address req)) = Some v \<Longrightarrow>
     \<exists>st. write_times p req old n (m, r) = Some (replicate (min n (unat v)) 0 @ replicate (n - unat v) (-1), st)"
proof (induction n arbitrary: m v)
  case (Suc n)
  let ?k = "row (address req)"
  show ?case
  proof (cases "v = 0")
    case True
    then have "Endurance_Write p req old (m, r) = Some (-1, m, r)"
      using Suc.prems by (simp add: Endurance_Write_def wear_def DecrementLife_def)
    then show ?thesis using Suc.IH [OF Suc.prems] True by auto
  next
    case False
    let ?m = "m\<lparr>life := omap_set ?k (v - 1) (life m)\<rparr>"
    have "Endurance_Write p req old (m, r) = Some (0, ?m, r)"
      using Suc.prems False by (simp add: Endurance_Write_def wear_def DecrementLife_def)
    moreover have "unat v = Suc (unat (v - 1))"
      using False by (metis Suc_pred' unat_gt_0 unat_minus_one)
    ultimately show ?thesis
      using Suc.IH [of ?m "v - 1"] Suc.prems by (auto simp: omap_wf_set omap_lookup_set)
  qed
qed auto



text \<open>Two words of the geometry never share a key in the life map of the word
  model.\<close>

lemma word_keys_distinct:
  assumes "word_bytes p \<noteq> 0" "unat (COLS p) * unat (word_bytes p) < 2 ^ 64" "n * unat (COLS p) < 2 ^ 64"
    "unat r < n" "c < COLS p" "unat r' < n" "c' < COLS p" "word_key p r c = word_key p r' c'"
  shows "r = r' \<and> c = c'"
proof -
  have W: "0 < unat (word_bytes p)" using assms(1) by (simp add: unat_gt_0)
  have "unat (row_bytes p) = unat (COLS p) * unat (word_bytes p)"
    unfolding row_bytes_def by (rule unat_mult_u64 [OF assms(2)])
  then have parts: "row_bytes p div word_bytes p = COLS p"
    using W by (simp add: word_unat_eq_iff unat_div)
  have key: "word_key p a b = Some (word_of_nat (unat a * unat (COLS p) + unat b))" for a b
    using assms(1) by (simp add: word_key_def parts)
  have lt: "unat a * unat (COLS p) + unat b < 2 ^ LENGTH(64)" if "unat a < n" "b < COLS p" for a b
    using mixed_radix_less [OF that(1), of "unat b" "unat (COLS p)"] that(2) assms(3)
    by (simp add: word_less_nat_alt)
  have "unat r * unat (COLS p) + unat c = unat r' * unat (COLS p) + unat c'"
    using assms(8) of_nat_inverse [OF refl lt [OF assms(4,5)]] of_nat_inverse [OF refl lt [OF assms(6,7)]]
    unfolding key by (metis option.inject)
  then show ?thesis
    using mixed_radix_inj [of "unat r" "unat (COLS p)"] assms(5,7)
    by (simp add: word_less_nat_alt word_unat_eq_iff)
qed

text \<open>The byte model divides the row size by 8 although a row has one key for
  each of its bytes: with the default geometry the first byte of column 4 of row 0 and the first
  byte of column 0 of row 1 share a key, so that wear of one is charged to the other.\<close>

lemma byte_keys_collide:
  "byte_key default_params 0 4 0 = byte_key default_params 1 0 0"
  by (simp add: byte_key_def)

lemma foldl_min:
  "foldl (\<lambda>mn (k, v). if v < mn then v else mn) (x :: u64) l = Min (insert x (snd ` set l))"
proof (induction l arbitrary: x)
  case (Cons a l)
  let ?S = "snd ` set l"
  have "(if snd a < x then snd a else x) = min x (snd a)" by (auto simp: min_def)
  moreover have "Min (insert (min x (snd a)) ?S) = Min (insert x (insert (snd a) ?S))"
    by (cases "?S = {}") (simp_all add: min.assoc)
  ultimately show ?case using Cons by (simp add: case_prod_beta)
qed simp

text \<open>\<^verbatim>\<open>GetWorstLife\<close> is a lower bound of every recorded life, and it is
  one of them unless the map is empty.\<close>

lemma worst_life_is_minimum:
  assumes "omap_wf (life m)"
  shows "(\<forall>k v. map_of (life m) k = Some v \<longrightarrow> GetWorstLife m \<le> v)
    \<and> (life m \<noteq> [] \<longrightarrow> (\<exists>k. map_of (life m) k = Some (GetWorstLife m)))"
proof -
  let ?S = "snd ` set (life m)"
  have w: "GetWorstLife m = Min (insert (- 1) ?S)" by (simp add: GetWorstLife_def foldl_min)
  have dist: "distinct (map fst (life m))"
    using assms by (simp add: omap_wf_def strict_sorted_iff)
  have "GetWorstLife m \<le> v" if "map_of (life m) k = Some v" for k v
  proof -
    have "v \<in> ?S" using map_of_SomeD [OF that] by force
    then show ?thesis unfolding w by (intro Min_le) auto
  qed
  moreover have "\<exists>k. map_of (life m) k = Some (GetWorstLife m)" if "life m \<noteq> []"
  proof -
    have "GetWorstLife m = min (- 1) (Min ?S)" unfolding w using that by (intro Min_insert) auto
    also have "\<dots> = Min ?S" by (rule min_absorb2) (rule word_order.extremum)
    also have "\<dots> \<in> ?S" using that by (intro Min_in) auto
    finally show ?thesis using map_of_is_SomeI [OF dist] by fastforce
  qed
  ultimately show ?thesis by blast
qed

end
