(* ===== verification/Flip_N_Write.thy ===== *)
theory Flip_N_Write
  imports NVM_Request NVM_Params
begin

text \<open>
  \<^verbatim>\<open>src/NVmain/DataEncoders/FlipNWrite/FlipNWrite.cpp\<close> and the default encoder of
  \<^verbatim>\<open>src/NVmain/src/DataEncoder.cpp\<close>: before a write, each partition of the word whose bits would
  mostly change is inverted and remembered as flipped. The encoder changes the new and the old
  data of the request in place. \<open>None\<close> is a division by zero, an index outside the counter array
  or a byte outside a data block.

  Shown: the counters hold the number of changed bits of each partition; a write changes at most
  half of the bits of each partition by the encoder's own account; inverting a range of whole
  bytes twice restores it; and the bit order that the inversion reverses makes that account wrong.
\<close>

unbundle bit_operations_syntax

section \<open>The encoder\<close>

record FlipNWrite =
  flippedAddresses :: "u64 set"
  bitsFlipped :: u64
  bitCompareSwapWrites :: u64
  flipNWriteReduction :: real
  fpSize :: int

definition FlipNWrite_new :: "FlipNWrite \<Rightarrow> FlipNWrite" where
  "FlipNWrite_new g = g\<lparr>flippedAddresses := {}, bitsFlipped := 0, bitCompareSwapWrites := 0\<rparr>"

text \<open>The configured granularity, where \<open>-1\<close> is a missing value.\<close>

definition FlipNWrite_SetConfig :: "int \<Rightarrow> FlipNWrite \<Rightarrow> FlipNWrite" where
  "FlipNWrite_SetConfig gran e = e\<lparr>fpSize := (if gran = -1 then 32 else gran)\<rparr>"

text \<open>Bit \<open>j\<close> of the byte, when it is zero and inside the range, sets bit \<open>7 - j\<close> of the result.\<close>

definition invert_byte :: "u64 \<Rightarrow> u64 \<Rightarrow> nat \<Rightarrow> u8 \<Rightarrow> u8" where
  "invert_byte startBit endBit i b =
     foldl (\<lambda>newByte j.
        (let currentBit = word_of_nat (i * 8 + j) :: u64 in
         if currentBit < startBit \<or> endBit \<le> currentBit then newByte
         else if \<not> bit b j then newByte OR push_bit (7 - j) 1 else newByte))
       0 [0..<8]"

fun invert_loop :: "u64 \<Rightarrow> u64 \<Rightarrow> nat list \<Rightarrow> NVMDataBlock \<Rightarrow> NVMDataBlock option" where
  "invert_loop startBit endBit [] d = Some d"
| "invert_loop startBit endBit (i # is) d = do {
     b \<leftarrow> GetByte (word_of_nat i) d;
     d \<leftarrow> SetByte (word_of_nat i) (invert_byte startBit endBit i b) d;
     invert_loop startBit endBit is d
   }"

definition InvertData :: "NVMDataBlock \<Rightarrow> u64 \<Rightarrow> u64 \<Rightarrow> NVMDataBlock option" where
  "InvertData d startBit endBit =
     (let startByte = unat (startBit div 8);
          endByte = unat ((endBit - 1) div 8)
      in invert_loop startBit endBit [startByte..<Suc endByte] d)"

definition part_addr :: "NVMainRequest \<Rightarrow> u64 \<Rightarrow> u64 \<Rightarrow> nat \<Rightarrow> u64" where
  "part_addr req rowPartitions flipPartitions i =
     row (address req) * rowPartitions + col (address req) * flipPartitions + word_of_nat i"

fun unflip_loop ::
  "NVMainRequest \<Rightarrow> FlipNWrite \<Rightarrow> u64 \<Rightarrow> u64 \<Rightarrow> nat list \<Rightarrow> NVMDataBlock \<Rightarrow> NVMDataBlock option" where
  "unflip_loop req e rp fp [] d = Some d"
| "unflip_loop req e rp fp (i # is) d = do {
     d \<leftarrow> (if part_addr req rp fp i \<in> flippedAddresses e
           then InvertData d (word_of_nat i * word_of_int (fpSize e)) ((word_of_nat i + 1) * word_of_int (fpSize e))
           else Some d);
     unflip_loop req e rp fp is d
   }"

text \<open>\<^verbatim>\<open>modifyCount[currentBit/fpSize]++\<close>\<close>

definition bump :: "int \<Rightarrow> u64 \<Rightarrow> int list \<Rightarrow> int list option" where
  "bump fps currentBit mc =
     (let k = unat (currentBit div word_of_int fps)
      in if k < length mc then Some (mc[k := mc ! k + 1]) else None)"

fun count_byte :: "int \<Rightarrow> u8 \<Rightarrow> u8 \<Rightarrow> nat list \<Rightarrow> u64 \<times> int list \<Rightarrow> (u64 \<times> int list) option" where
  "count_byte fps ob nb [] st = Some st"
| "count_byte fps ob nb (j # js) (currentBit, mc) = do {
     mc \<leftarrow> (if bit ob j \<noteq> bit nb j then bump fps currentBit mc else Some mc);
     count_byte fps ob nb js (currentBit + 1, mc)
   }"

fun count_loop ::
  "int \<Rightarrow> NVMDataBlock \<Rightarrow> NVMDataBlock \<Rightarrow> nat list \<Rightarrow> u64 \<times> int list \<Rightarrow> (u64 \<times> int list) option" where
  "count_loop fps old new [] st = Some st"
| "count_loop fps old new (i # is) (currentBit, mc) = do {
     ob \<leftarrow> GetByte (word_of_nat i) old;
     nb \<leftarrow> GetByte (word_of_nat i) new;
     st \<leftarrow> (if ob = nb then Some (currentBit + 8, mc) else count_byte fps ob nb [0..<8] (currentBit, mc));
     count_loop fps old new is st
   }"

fun flip_loop ::
  "NVMainRequest \<Rightarrow> u64 \<Rightarrow> u64 \<Rightarrow> int list \<Rightarrow> nat list \<Rightarrow> FlipNWrite \<times> NVMDataBlock
     \<Rightarrow> (FlipNWrite \<times> NVMDataBlock) option" where
  "flip_loop req rp fp mc [] st = Some st"
| "flip_loop req rp fp mc (i # is) (e, d) =
     (let c = mc ! i;
          e = e\<lparr>bitCompareSwapWrites := bitCompareSwapWrites e + word_of_int c\<rparr>;
          curAddr = part_addr req rp fp i
      in if fpSize e div 2 < c
         then do {
           d \<leftarrow> InvertData d (word_of_nat i * word_of_int (fpSize e)) ((word_of_nat i + 1) * word_of_int (fpSize e));
           flip_loop req rp fp mc is
             (e\<lparr>bitsFlipped := bitsFlipped e + word_of_int (fpSize e - c),
                flippedAddresses := insert curAddr (flippedAddresses e)\<rparr>, d)
         }
         else flip_loop req rp fp mc is
             (e\<lparr>bitsFlipped := bitsFlipped e + word_of_int c,
                flippedAddresses := flippedAddresses e - {curAddr}\<rparr>, d))"

definition FlipNWrite_Write ::
  "Params \<Rightarrow> NVMainRequest \<Rightarrow> FlipNWrite \<Rightarrow> (ncycle_t \<times> NVMainRequest \<times> FlipNWrite) option" where
  "FlipNWrite_Write p req e = do {
     cpp_assert (fpSize e \<noteq> 0);
     let rowPartitions = (row_bytes p * 8) div word_of_int (fpSize e);
     let flipPartitions = (word_bytes p * 8) div word_of_int (fpSize e);
     let is = [0..<unat flipPartitions];
     od \<leftarrow> unflip_loop req e rowPartitions flipPartitions is (oldData req);
     (cb, mc) \<leftarrow> count_loop (fpSize e) od (rdata req) [0..<unat (word_bytes p)]
       (0, replicate (unat flipPartitions) 0);
     (e', nd) \<leftarrow> flip_loop req rowPartitions flipPartitions mc is (e, rdata req);
     Some (0, req\<lparr>oldData := od, rdata := nd\<rparr>, e')
   }"

definition FlipNWrite_Read :: "NVMainRequest \<Rightarrow> ncycle_t" where
  "FlipNWrite_Read req = 0"

definition FlipNWrite_CalculateStats :: "FlipNWrite \<Rightarrow> FlipNWrite" where
  "FlipNWrite_CalculateStats e = e\<lparr>flipNWriteReduction :=
     (if bitCompareSwapWrites e \<noteq> 0
      then real (unat (bitsFlipped e)) / real (unat (bitCompareSwapWrites e)) * 100
      else 100)\<rparr>"

section \<open>The encoders of a sub-array\<close>

text \<open>\<^verbatim>\<open>DataEncoder\<close> and its subclass.\<close>

datatype DataEncoder = BaseEncoder | FlipNWriteEncoder FlipNWrite

definition CreateNewDataEncoder :: "FlipNWrite \<Rightarrow> string \<Rightarrow> DataEncoder" where
  "CreateNewDataEncoder g encoderName =
     (if encoderName = ''default'' then BaseEncoder
      else if encoderName = ''FlipNWrite'' then FlipNWriteEncoder (FlipNWrite_new g)
      else BaseEncoder)"

definition Encoder_Write ::
  "Params \<Rightarrow> NVMainRequest \<Rightarrow> DataEncoder \<Rightarrow> (ncycle_t \<times> NVMainRequest \<times> DataEncoder) option" where
  "Encoder_Write p req enc =
     (case enc of
        BaseEncoder \<Rightarrow> Some (0, req, BaseEncoder)
      | FlipNWriteEncoder e \<Rightarrow> do {
          (rv, req', e') \<leftarrow> FlipNWrite_Write p req e;
          Some (rv, req', FlipNWriteEncoder e')
        })"

section \<open>Inversion\<close>

lemma bit_invert_fold:
  assumes "k \<le> 8"
  shows "bit (foldl (\<lambda>newByte j. if P j then newByte else if \<not> bit b j then newByte OR push_bit (7 - j) 1
      else newByte) 0 [0..<k] :: u8) n \<longleftrightarrow> n < 8 \<and> (\<exists>j < k. n = 7 - j \<and> \<not> P j \<and> \<not> bit b j)"
  using assms
proof (induction k)
  case (Suc k)
  have "bit (2 ^ (7 - k) :: u8) n \<longleftrightarrow> n = 7 - k" by (auto simp: bit_exp_iff)
  then show ?case using Suc by (auto simp: bit_or_iff less_Suc_eq)
qed simp

lemma mirror_index: "n < 8 \<Longrightarrow> (\<exists>j < 8. n = 7 - j \<and> R j) \<longleftrightarrow> R (7 - n :: nat)"
  by (auto intro!: exI [of _ "7 - n"])

lemma bit_invert_byte:
  assumes "startBit \<le> word_of_nat (i * 8)" "unat endBit \<ge> i * 8 + 8" "i * 8 + 8 < 2 ^ 64"
  shows "bit (invert_byte startBit endBit i b) n \<longleftrightarrow> n < 8 \<and> \<not> bit b (7 - n)"
proof -
  have u: "unat (word_of_nat (i * 8 + j) :: u64) = i * 8 + j" if "j \<le> 8" for j
    using of_nat_inverse [OF refl, of "i * 8 + j", where ?'a = 64] assms(3) that by simp
  let ?out = "\<lambda>j. word_of_nat (i * 8 + j) < startBit \<or> endBit \<le> word_of_nat (i * 8 + j)"
  have inr: "\<not> ?out j" if "j < 8" for j
    using u [of j] u [of 0] that assms(1,2) unfolding word_less_nat_alt word_le_nat_alt by auto
  have "(\<exists>j < 8. n = 7 - j \<and> \<not> ?out j \<and> \<not> bit b j) \<longleftrightarrow> (\<not> ?out (7 - n) \<and> \<not> bit b (7 - n))" if "n < 8"
    by (rule mirror_index [OF that])
  moreover have "\<not> ?out (7 - n)" by (rule inr) arith
  ultimately show ?thesis
    unfolding invert_byte_def Let_def bit_invert_fold [OF order_refl] by blast
qed

lemma invert_byte_twice:
  assumes "startBit \<le> word_of_nat (i * 8)" "unat endBit \<ge> i * 8 + 8" "i * 8 + 8 < 2 ^ 64"
  shows "invert_byte startBit endBit i (invert_byte startBit endBit i b) = b"
proof (rule bit_eqI)
  fix n
  show "bit (invert_byte startBit endBit i (invert_byte startBit endBit i b)) n = bit b n"
  proof (cases "n < 8")
    case True
    then have "7 - (7 - n) = n" "7 - n < 8" by simp_all
    then show ?thesis unfolding bit_invert_byte [OF assms] using True by simp
  next
    case False
    then show ?thesis unfolding bit_invert_byte [OF assms] by (auto dest: bit_imp_le_length)
  qed
qed

text \<open>The bytes of a valid block after the loop.\<close>

definition full_block :: "NVMDataBlock \<Rightarrow> u8 list \<Rightarrow> bool" where
  "full_block d bs \<longleftrightarrow> rawData d = Some bs \<and> isValid d \<and> unat (dsize d) = length bs"

lemma unat_index: "full_block d bs \<Longrightarrow> i < length bs \<Longrightarrow> unat (word_of_nat i :: u64) = i"
  using unsigned_less [of "dsize d", where ?'a = nat] of_nat_inverse [OF refl, of i, where ?'a = 64]
  by (simp add: full_block_def)

lemma full_GetByte: "full_block d bs \<Longrightarrow> i < length bs \<Longrightarrow> GetByte (word_of_nat i) d = Some (bs ! i)"
  using unat_index by (simp add: full_block_def GetByte_def word_le_nat_alt)

lemma full_SetByte:
  assumes "full_block d bs" "i < length bs"
  shows "\<exists>d'. SetByte (word_of_nat i) v d = Some d' \<and> full_block d' (bs[i := v]) \<and> dsize d' = dsize d"
  using assms unat_index [OF assms] by (simp add: full_block_def SetByte_def word_le_nat_alt)

lemma full_block_eq: "full_block d bs \<Longrightarrow> full_block d' bs \<Longrightarrow> dsize d = dsize d' \<Longrightarrow> d = d'"
  by (simp add: full_block_def)

lemma invert_loop_spec:
  "full_block d bs \<Longrightarrow> distinct is \<Longrightarrow> \<forall>i \<in> set is. i < length bs \<Longrightarrow>
     \<exists>d'. invert_loop s e is d = Some d' \<and> dsize d' = dsize d
       \<and> full_block d' (map (\<lambda>k. if k \<in> set is then invert_byte s e k (bs ! k) else bs ! k) [0..<length bs])"
proof (induction "is" arbitrary: d bs)
  case Nil
  then show ?case by (simp add: map_nth)
next
  case (Cons i "is")
  let ?v = "invert_byte s e i (bs ! i)"
  have i: "i < length bs" using Cons.prems(3) by simp
  obtain d1 where d1: "SetByte (word_of_nat i) ?v d = Some d1" "full_block d1 (bs[i := ?v])" "dsize d1 = dsize d"
    using full_SetByte [OF Cons.prems(1) i] by blast
  obtain d' where d': "invert_loop s e is d1 = Some d'" "dsize d' = dsize d1"
    "full_block d' (map (\<lambda>k. if k \<in> set is then invert_byte s e k (bs[i := ?v] ! k) else bs[i := ?v] ! k)
       [0..<length (bs[i := ?v])])"
    using Cons.IH [OF d1(2)] Cons.prems(2,3) by auto
  have eq: "map (\<lambda>k. if k \<in> set is then invert_byte s e k (bs[i := ?v] ! k) else bs[i := ?v] ! k)
        [0..<length (bs[i := ?v])] =
      map (\<lambda>k. if k \<in> set (i # is) then invert_byte s e k (bs ! k) else bs ! k) [0..<length bs]"
  proof (intro map_cong)
    fix k
    assume "k \<in> set [0..<length bs]"
    moreover have "i \<notin> set is" using Cons.prems(2) by simp
    ultimately show "(if k \<in> set is then invert_byte s e k (bs[i := ?v] ! k) else bs[i := ?v] ! k) =
        (if k \<in> set (i # is) then invert_byte s e k (bs ! k) else bs ! k)"
      by (cases "k = i") auto
  qed simp
  show ?case
    using d'(1,2) d1(1,3) full_GetByte [OF Cons.prems(1) i] d'(3) [unfolded eq] by simp
qed

section \<open>Counting\<close>

definition differs :: "u8 list \<Rightarrow> u8 list \<Rightarrow> nat \<Rightarrow> bool" where
  "differs old new b \<longleftrightarrow> bit (old ! (b div 8)) (b mod 8) \<noteq> bit (new ! (b div 8)) (b mod 8)"

definition part_count :: "nat \<Rightarrow> (nat \<Rightarrow> bool) \<Rightarrow> nat \<Rightarrow> nat \<Rightarrow> int" where
  "part_count fp P n k = int (length (filter (\<lambda>b. P b \<and> b div fp = k) [0..<n]))"

lemma part_count_le:
  assumes "0 < fp"
  shows "part_count fp P n k \<le> int fp"
proof -
  have "length (filter (\<lambda>b. P b \<and> b div fp = k) [0..<n]) = card {b. b < n \<and> P b \<and> b div fp = k}"
    using distinct_card [of "filter (\<lambda>b. P b \<and> b div fp = k) [0..<n]"] by simp
  also have "b \<in> {k * fp..<k * fp + fp}" if "b div fp = k" for b
    using that div_mult_mod_eq [of b fp] mod_less_divisor [OF assms, of b] by auto
  then have "card {b. b < n \<and> P b \<and> b div fp = k} \<le> card {k * fp..<k * fp + fp}"
    by (intro card_mono) auto
  finally show ?thesis by (simp add: part_count_def)
qed

lemma part_count_Suc:
  "part_count fp P (Suc n) k = part_count fp P n k + of_bool (P n \<and> n div fp = k)"
  by (simp add: part_count_def)

definition counts :: "nat \<Rightarrow> nat \<Rightarrow> (nat \<Rightarrow> bool) \<Rightarrow> nat \<Rightarrow> int list" where
  "counts fp parts P n = map (part_count fp P n) [0..<parts]"

lemma counts_skip: "\<not> P n \<Longrightarrow> counts fp parts P (Suc n) = counts fp parts P n"
  by (simp add: counts_def part_count_Suc)

lemma bump_counts:
  assumes "0 < fp" "n < fp * parts" "n < 2 ^ 64" "fp < 2 ^ 64" "P n"
  shows "bump (int fp) (word_of_nat n) (counts fp parts P n) = Some (counts fp parts P (Suc n))"
proof -
  have "unat (word_of_nat n :: u64) = n" "unat (word_of_nat fp :: u64) = fp"
    using assms(3,4) by (simp_all add: of_nat_inverse [OF refl])
  then have k: "unat (word_of_nat n div word_of_int (int fp) :: u64) = n div fp"
    by (simp add: unat_div)
  have "n div fp < parts" using assms(1,2) by (simp add: less_mult_imp_div_less mult.commute)
  then show ?thesis
    using assms(5) unfolding bump_def Let_def k
    by (auto simp: counts_def part_count_Suc intro!: nth_equalityI simp: nth_list_update)
qed

lemma count_byte_counts:
  assumes "0 < fp" "fp < 2 ^ 64" "8 * i + 8 \<le> fp * parts" "8 * i + 8 < 2 ^ 64"
    "\<forall>j < 8. P (8 * i + j) \<longleftrightarrow> bit ob j \<noteq> bit nb j"
  shows "a + m \<le> 8 \<Longrightarrow>
    count_byte (int fp) ob nb [a..<a + m] (word_of_nat (8 * i + a), counts fp parts P (8 * i + a)) =
      Some (word_of_nat (8 * i + a + m), counts fp parts P (8 * i + a + m))"
proof (induction m arbitrary: a)
  case (Suc m)
  have upt: "[a..<a + Suc m] = a # [Suc a..<Suc a + m]" using Suc.prems by (simp add: upt_conv_Cons)
  have eq: "(if bit ob a \<noteq> bit nb a then bump (int fp) (word_of_nat (8 * i + a)) (counts fp parts P (8 * i + a))
      else Some (counts fp parts P (8 * i + a))) = Some (counts fp parts P (Suc (8 * i + a)))"
  proof (cases "bit ob a \<noteq> bit nb a")
    case True
    then have "P (8 * i + a)" using assms(5) Suc.prems by simp
    then have "bump (int fp) (word_of_nat (8 * i + a)) (counts fp parts P (8 * i + a)) =
        Some (counts fp parts P (Suc (8 * i + a)))"
      using assms(1-4) Suc.prems by (intro bump_counts) simp_all
    then show ?thesis by (subst if_P [OF True])
  next
    case False
    then have "\<not> P (8 * i + a)" using assms(5) Suc.prems by simp
    then show ?thesis using False by (simp add: counts_skip)
  qed
  have cb: "word_of_nat (8 * i + a) + 1 = (word_of_nat (8 * i + Suc a) :: u64)" by simp
  show ?case
    unfolding upt count_byte.simps eq bind.bind_lunit cb using Suc.IH [of "Suc a"] Suc.prems by simp
qed simp

lemma counts_add: "\<forall>j < m. \<not> P (n + j) \<Longrightarrow> counts fp parts P (n + m) = counts fp parts P n"
  by (induction m) (simp_all add: counts_skip)

lemma count_loop_counts:
  assumes "0 < fp" "fp < 2 ^ 64" "8 * length obs \<le> fp * parts" "8 * length obs < 2 ^ 64"
    "full_block old obs" "full_block new nbs" "length obs = length nbs"
  shows "a + m \<le> length obs \<Longrightarrow>
    count_loop (int fp) old new [a..<a + m] (word_of_nat (8 * a), counts fp parts (differs obs nbs) (8 * a)) =
      Some (word_of_nat (8 * (a + m)), counts fp parts (differs obs nbs) (8 * (a + m)))"
proof (induction m arbitrary: a)
  case (Suc m)
  let ?P = "differs obs nbs"
  have gb: "GetByte (word_of_nat a) old = Some (obs ! a)" "GetByte (word_of_nat a) new = Some (nbs ! a)"
    using Suc.prems assms(7) by (simp_all add: full_GetByte [OF assms(5)] full_GetByte [OF assms(6)])
  have P: "?P (8 * a + j) \<longleftrightarrow> bit (obs ! a) j \<noteq> bit (nbs ! a) j" if "j < 8" for j
    using that by (simp add: differs_def)
  have upt: "[a..<a + Suc m] = a # [Suc a..<Suc a + m]" by (simp add: upt_conv_Cons)
  have eq: "(if obs ! a = nbs ! a then Some (word_of_nat (8 * a) + 8, counts fp parts ?P (8 * a))
      else count_byte (int fp) (obs ! a) (nbs ! a) [0..<8] (word_of_nat (8 * a), counts fp parts ?P (8 * a))) =
      Some (word_of_nat (8 * Suc a), counts fp parts ?P (8 * Suc a))"
  proof (cases "obs ! a = nbs ! a")
    case True
    then show ?thesis using counts_add [of 8 ?P "8 * a" fp parts] P by (simp add: add.commute)
  next
    case False
    have "8 * a + 8 \<le> fp * parts" "8 * a + 8 < 2 ^ 64" using assms(3,4) Suc.prems by simp_all
    from count_byte_counts [OF assms(1,2) this, of ?P "obs ! a" "nbs ! a" 0 8] False P
    show ?thesis by (simp add: add.commute)
  qed
  show ?case
    unfolding upt count_loop.simps gb bind.bind_lunit eq using Suc.IH [of "Suc a"] Suc.prems by simp
qed simp

section \<open>The account of written bits\<close>

definition cost :: "int \<Rightarrow> int \<Rightarrow> int" where
  "cost fps c = (if fps div 2 < c then fps - c else c)"

lemma cost_bound: "0 \<le> c \<Longrightarrow> c \<le> fps \<Longrightarrow> 0 \<le> cost fps c \<and> cost fps c \<le> fps div 2"
  by (auto simp: cost_def)

lemma flip_loop_cost:
  "flip_loop req rp fp mc is (e, d) = Some (e', d') \<Longrightarrow>
     fpSize e' = fpSize e \<and> bitsFlipped e' = bitsFlipped e + word_of_int (\<Sum>i \<leftarrow> is. cost (fpSize e) (mc ! i))
     \<and> bitCompareSwapWrites e' = bitCompareSwapWrites e + word_of_int (\<Sum>i \<leftarrow> is. mc ! i)"
proof (induction "is" arbitrary: e d)
  case (Cons i "is")
  let ?c = "mc ! i" and ?a = "part_addr req rp fp i"
  let ?e = "e\<lparr>bitCompareSwapWrites := bitCompareSwapWrites e + word_of_int ?c\<rparr>"
  show ?case
  proof (cases "fpSize e div 2 < ?c")
    case True
    then obtain d1 where "flip_loop req rp fp mc is
        (?e\<lparr>bitsFlipped := bitsFlipped ?e + word_of_int (fpSize ?e - ?c),
            flippedAddresses := insert ?a (flippedAddresses ?e)\<rparr>, d1) = Some (e', d')"
      using Cons.prems by (auto simp: Let_def bind_eq_Some_conv)
    from Cons.IH [OF this] True show ?thesis by (simp add: cost_def)
  next
    case False
    then have "flip_loop req rp fp mc is (?e\<lparr>bitsFlipped := bitsFlipped ?e + word_of_int ?c,
        flippedAddresses := flippedAddresses ?e - {?a}\<rparr>, d) = Some (e', d')"
      using Cons.prems by (simp add: Let_def)
    from Cons.IH [OF this] False show ?thesis by (simp add: cost_def)
  qed
qed simp

lemma count_loop_start:
  assumes "0 < fp" "fp < 2 ^ 64" "8 * length obs \<le> fp * parts" "8 * length obs < 2 ^ 64"
    "full_block old obs" "full_block new nbs" "length obs = length nbs"
  shows "count_loop (int fp) old new [0..<length obs] (0, replicate parts 0) =
    Some (word_of_nat (8 * length obs), counts fp parts (differs obs nbs) (8 * length obs))"
proof -
  have "counts fp parts (differs obs nbs) 0 = replicate parts 0"
    by (intro nth_equalityI) (simp_all add: counts_def part_count_def)
  then show ?thesis using count_loop_counts [OF assms, of 0 "length obs"] by simp
qed

lemma sum_cost_bound:
  "\<forall>i \<in> set is. 0 \<le> f i \<and> f i \<le> fps \<Longrightarrow>
     0 \<le> (\<Sum>i \<leftarrow> is. cost fps (f i)) \<and> (\<Sum>i \<leftarrow> is. cost fps (f i)) \<le> int (length is) * (fps div 2)"
proof (induction "is")
  case (Cons i "is")
  then have "0 \<le> cost fps (f i) \<and> cost fps (f i) \<le> fps div 2" by (intro cost_bound) simp_all
  with Cons show ?case by (simp add: algebra_simps)
qed simp

section \<open>Properties\<close>

text \<open>Inverting a range of whole bytes of a data block twice succeeds and
  restores the block.\<close>

lemma InvertData_involutive:
  assumes "full_block d bs" "s < e" "unat e * 8 < 2 ^ 64" "unat e \<le> length bs"
  shows "\<exists>d'. InvertData d (s * 8) (e * 8) = Some d' \<and> InvertData d' (s * 8) (e * 8) = Some d"
proof -
  have u8: "unat (x * 8) = unat x * 8" if "x \<le> e" for x
  proof -
    have "unat x \<le> unat e" using that by (simp add: word_le_nat_alt)
    then have "unat x * unat (8 :: u64) < 2 ^ 64" using assms(3) by simp
    then have "unat (x * 8) = unat x * unat (8 :: u64)" by (rule unat_mult_u64)
    then show ?thesis by simp
  qed
  have se: "unat s < unat e" using assms(2) by (simp add: word_less_nat_alt)
  have lo: "unat (s * 8 div 8) = unat s" using u8 [of s] assms(2) by (simp add: unat_div)
  have "unat (e * 8 - 1) = unat e * 8 - 1"
    using u8 [of e] se by (simp add: unat_sub word_le_nat_alt)
  then have hi: "Suc (unat ((e * 8 - 1) div 8)) = unat e" using se by (simp add: unat_div)
  let ?is = "[unat s..<unat e]"
  have inv: "InvertData x (s * 8) (e * 8) = invert_loop (s * 8) (e * 8) ?is x" for x
    by (simp only: InvertData_def Let_def lo hi)
  have "\<forall>i \<in> set ?is. i < length bs" using assms(4) by simp
  from invert_loop_spec [OF assms(1) distinct_upt this] obtain d' where d':
    "invert_loop (s * 8) (e * 8) ?is d = Some d'" "dsize d' = dsize d" "full_block d'
      (map (\<lambda>k. if k \<in> set ?is then invert_byte (s * 8) (e * 8) k (bs ! k) else bs ! k) [0..<length bs])"
    by blast
  let ?bs = "map (\<lambda>k. if k \<in> set ?is then invert_byte (s * 8) (e * 8) k (bs ! k) else bs ! k) [0..<length bs]"
  have "\<forall>i \<in> set ?is. i < length ?bs" using assms(4) by simp
  from invert_loop_spec [OF d'(3) distinct_upt this] obtain d'' where d'':
    "invert_loop (s * 8) (e * 8) ?is d' = Some d''" "dsize d'' = dsize d'" "full_block d''
      (map (\<lambda>k. if k \<in> set ?is then invert_byte (s * 8) (e * 8) k (?bs ! k) else ?bs ! k) [0..<length ?bs])"
    by blast
  have "invert_byte (s * 8) (e * 8) k (invert_byte (s * 8) (e * 8) k b) = b" if "k \<in> set ?is" for k b
  proof (rule invert_byte_twice)
    have "unat (word_of_nat (k * 8) :: u64) = k * 8"
      using that assms(3) of_nat_inverse [OF refl, of "k * 8", where ?'a = 64] by simp
    then show "s * 8 \<le> word_of_nat (k * 8)"
      using that u8 [of s] assms(2) unfolding word_le_nat_alt by simp
    show "k * 8 + 8 \<le> unat (e * 8)" using that u8 [of e] by simp
    show "k * 8 + 8 < 2 ^ 64" using that assms(3) by simp
  qed
  then have "map (\<lambda>k. if k \<in> set ?is then invert_byte (s * 8) (e * 8) k (?bs ! k) else ?bs ! k) [0..<length ?bs] = bs"
    by (intro nth_equalityI) simp_all
  then have "d'' = d" using d''(2,3) d'(2) full_block_eq [OF _ assms(1)] by simp
  then show ?thesis using d'(1) d''(1) inv by auto
qed

lemma SetByte_full:
  "full_block d bs \<Longrightarrow> SetByte i v d = Some d' \<Longrightarrow> \<exists>bs'. full_block d' bs' \<and> length bs' = length bs"
  by (auto simp: full_block_def SetByte_def split: if_splits)

lemma invert_loop_full:
  "full_block d bs \<Longrightarrow> invert_loop s e is d = Some d' \<Longrightarrow> \<exists>bs'. full_block d' bs' \<and> length bs' = length bs"
proof (induction "is" arbitrary: d bs)
  case (Cons i "is")
  then obtain v d1 where d1: "SetByte (word_of_nat i) v d = Some d1" "invert_loop s e is d1 = Some d'"
    by (auto simp: bind_eq_Some_conv)
  then show ?case using Cons.IH SetByte_full [OF Cons.prems(1) d1(1)] by metis
qed auto

lemma unflip_loop_full:
  "full_block d bs \<Longrightarrow> unflip_loop req e rp fp is d = Some d' \<Longrightarrow> \<exists>bs'. full_block d' bs' \<and> length bs' = length bs"
proof (induction "is" arbitrary: d bs)
  case (Cons i "is")
  obtain d1 where d1: "(if part_addr req rp fp i \<in> flippedAddresses e
      then InvertData d (word_of_nat i * word_of_int (fpSize e)) ((word_of_nat i + 1) * word_of_int (fpSize e))
      else Some d) = Some d1" "unflip_loop req e rp fp is d1 = Some d'"
    using Cons.prems(2) by (auto simp: bind_eq_Some_conv)
  have "\<exists>bs1. full_block d1 bs1 \<and> length bs1 = length bs"
    using d1(1) Cons.prems(1) invert_loop_full [OF Cons.prems(1)]
    by (auto simp: InvertData_def Let_def split: if_splits)
  then show ?case using Cons.IH d1(2) by metis
qed auto


text \<open>A word of one byte in one partition.\<close>

definition tiny_params :: Params where
  "tiny_params = default_params\<lparr>BusWidth := 8, tBURST := 1, RATE := 1\<rparr>"

definition tiny_encoder :: FlipNWrite where
  "tiny_encoder = \<lparr>flippedAddresses = {}, bitsFlipped = 0, bitCompareSwapWrites = 0,
     flipNWriteReduction = 0, fpSize = 8\<rparr>"

definition tiny_request :: "u8 \<Rightarrow> u8 \<Rightarrow> NVMainRequest" where
  "tiny_request ob nb = NVMainRequest_new\<lparr>
     oldData := \<lparr>rawData = Some [ob], isValid = True, dsize = 1\<rparr>,
     rdata := \<lparr>rawData = Some [nb], isValid = True, dsize = 1\<rparr>\<rparr>"

lemma tiny_word_bytes [simp]: "word_bytes tiny_params = 1"
  by (simp add: word_bytes_def tiny_params_def)

lemma tiny_write:
  "FlipNWrite_Write tiny_params (tiny_request 0x01 0xFE) tiny_encoder =
     Some (0, tiny_request 0x01 0x80, tiny_encoder\<lparr>bitCompareSwapWrites := 8, flippedAddresses := {0}\<rparr>)"
  by (simp add: FlipNWrite_Write_def tiny_encoder_def tiny_request_def part_addr_def Let_def
      GetByte_def SetByte_def bump_def InvertData_def invert_byte_def upt_rec NVMainRequest_new_def
      NVMAddress_new_def zero_address_def)


text \<open>The inversion also reverses the bits of each byte. Writing
  \<open>0xFE\<close> over \<open>0x01\<close> with an 8-bit partition stores \<open>0x80\<close>: two cells change, while
  the encoder counts no written bit. With the bits inverted in place none would change.\<close>

lemma flip_account_is_wrong:
  "\<exists>req' e'. FlipNWrite_Write tiny_params (tiny_request 0x01 0xFE) tiny_encoder = Some (0, req', e')
    \<and> bitsFlipped e' = bitsFlipped tiny_encoder \<and> rdata req' \<noteq> oldData req'
    \<and> rawData (rdata req') = Some [0x80] \<and> rawData (oldData req') = Some [0x01]"
  using tiny_write by (simp add: tiny_encoder_def tiny_request_def)

end
