(* ===== verification/NVM_Sim.thy ===== *)
theory NVM_Sim
  imports Event_Queue Sim_Interface Endurance_Model Flip_N_Write
begin

text \<open>
  The state that the memory modules share: the event queue, the heap of requests, the data store of
  the simulator interface and the position in the sequence of random numbers. A request is known by
  its address; \<^verbatim>\<open>new\<close> takes a fresh one and \<^verbatim>\<open>delete\<close> removes it, so that using a deleted
  request is \<open>None\<close>. A module is known by an object number; the hook that the parent keeps for a
  child is identified with the child, as it is when no hook object is configured.
\<close>

record sim =
  eventQueue :: EventQueue
  requests :: "req_ptr \<rightharpoonup> NVMainRequest"
  nextReq :: req_ptr
  simInterface :: "SimInterface option"
  rand_state :: rng

section \<open>Operations\<close>

abbreviation GetCurrentCycle :: "sim \<Rightarrow> ncycle_t" where
  "GetCurrentCycle s \<equiv> currentCycle (eventQueue s)"

definition put_request :: "req_ptr \<Rightarrow> NVMainRequest \<Rightarrow> sim \<Rightarrow> sim" where
  "put_request rp r s = s\<lparr>requests := (requests s)(rp \<mapsto> r)\<rparr>"

lemma put_request_fields [simp]:
  "eventQueue (put_request rp r s) = eventQueue s" "nextReq (put_request rp r s) = nextReq s"
  "requests (put_request rp r s) rp = Some r" "simInterface (put_request rp r s) = simInterface s"
  by (simp_all add: put_request_def)

definition delete_request :: "req_ptr \<Rightarrow> sim \<Rightarrow> sim option" where
  "delete_request rp s = do { r \<leftarrow> requests s rp; Some (s\<lparr>requests := (requests s)(rp := None)\<rparr>) }"

text \<open>
  \<^verbatim>\<open>NVMainRequest *copy = new NVMainRequest( ); *copy = *request;\<close> followed by the assignments
  \<open>f\<close> to fields of the copy. The bytes that the copy of a data block leaves unset are zero here.
\<close>

definition copy_request ::
  "(NVMainRequest \<Rightarrow> NVMainRequest) \<Rightarrow> NVMainRequest \<Rightarrow> sim \<Rightarrow> (req_ptr \<times> sim) option" where
  "copy_request f r s = do {
     c \<leftarrow> NVMainRequest_assign (\<lambda>_. 0) r NVMainRequest_new;
     Some (nextReq s, (put_request (nextReq s) (f c) s)\<lparr>nextReq := Suc (nextReq s)\<rparr>)
   }"

definition insert_response :: "obj_id \<Rightarrow> req_ptr \<Rightarrow> ncycle_t \<Rightarrow> sim \<Rightarrow> sim option" where
  "insert_response rcp rp due s = do {
     q \<leftarrow> InsertEvent EventResponse rcp (Some rp) due None 0 (eventQueue s);
     Some (s\<lparr>eventQueue := q\<rparr>)
   }"

text \<open>The number of occurrences kept in a \<^verbatim>\<open>std::map\<close>.\<close>

definition count_up :: "'k::linorder \<Rightarrow> ('k, u64) omap \<Rightarrow> ('k, u64) omap" where
  "count_up k m = omap_set k (case map_of m k of None \<Rightarrow> 1 | Some n \<Rightarrow> n + 1) m"

section \<open>Well-formed states\<close>

definition sim_ok :: "sim \<Rightarrow> bool" where
  "sim_ok s \<longleftrightarrow> evq_wf (eventQueue s) \<and> (\<forall>rp. nextReq s \<le> rp \<longrightarrow> requests s rp = None)"

lemma insert_response_ok:
  assumes "sim_ok s"
  shows "\<exists>s'. insert_response rcp rp due s = Some s' \<and> sim_ok s' \<and> requests s' = requests s
    \<and> nextReq s' = nextReq s \<and> simInterface s' = simInterface s \<and> rand_state s' = rand_state s
    \<and> GetCurrentCycle s' = GetCurrentCycle s
    \<and> all_events (eventQueue s') = pending_insert
        (plain_event (nextPtr (eventQueue s)) EventResponse rcp (Some rp) due None) due 0 (all_events (eventQueue s))"
proof -
  have "evq_wf (eventQueue s)" using assms by (simp add: sim_ok_def)
  from InsertEvent_spec [OF this, of EventResponse rcp "Some rp" due None 0] obtain q' where
    "InsertEvent EventResponse rcp (Some rp) due None 0 (eventQueue s) = Some q'" "evq_wf q'"
    "currentCycle q' = GetCurrentCycle s"
    "all_events q' = pending_insert (plain_event (nextPtr (eventQueue s)) EventResponse rcp (Some rp) due None)
        due 0 (all_events (eventQueue s))"
    by blast
  then show ?thesis using assms by (simp add: insert_response_def sim_ok_def)
qed

section \<open>What later steps keep of a request\<close>

definition same_request :: "NVMainRequest \<Rightarrow> NVMainRequest \<Rightarrow> bool" where
  "same_request r r' \<longleftrightarrow> address r' = address r \<and> rtype r' = rtype r \<and> burstCount r' = burstCount r"

lemma same_request_refl [simp]: "same_request r r"
  by (simp add: same_request_def)

lemma same_request_flags [simp]:
  "same_request r (set_flag f r') = same_request r r'" "same_request r (clear_flag f r') = same_request r r'"
  "same_request r (r'\<lparr>owner := ow\<rparr>) = same_request r r'"
  "same_request r (r'\<lparr>writeProgress := wp\<rparr>) = same_request r r'"
  "same_request r (r'\<lparr>cancellations := cn\<rparr>) = same_request r r'"
  by (simp_all add: same_request_def set_flag_def clear_flag_def)

text \<open>The clock stands still and the requests that existed are still there, of the same kind.\<close>

definition sim_rel :: "sim \<Rightarrow> sim \<Rightarrow> bool" where
  "sim_rel s s' \<longleftrightarrow> GetCurrentCycle s' = GetCurrentCycle s \<and> nextReq s \<le> nextReq s'
     \<and> (\<forall>rp r. rp < nextReq s \<and> requests s rp = Some r \<longrightarrow> (\<exists>r'. requests s' rp = Some r' \<and> same_request r r'))"

lemma sim_rel_refl [simp]: "sim_rel s s"
  by (simp add: sim_rel_def)

lemma same_request_trans: "same_request a b \<Longrightarrow> same_request b c \<Longrightarrow> same_request a c"
  by (simp add: same_request_def)

lemma sim_rel_request:
  "sim_rel s s' \<Longrightarrow> rp < nextReq s \<Longrightarrow> requests s rp = Some r
    \<Longrightarrow> \<exists>r'. requests s' rp = Some r' \<and> same_request r r'"
  by (simp add: sim_rel_def)

lemma sim_rel_trans [trans]:
  assumes ab: "sim_rel a b" and bc: "sim_rel b c"
  shows "sim_rel a c"
proof -
  have "\<exists>r'. requests c rp = Some r' \<and> same_request r r'" if old: "rp < nextReq a" "requests a rp = Some r" for rp r
  proof -
    obtain r1 where "requests b rp = Some r1" "same_request r r1" using sim_rel_request [OF ab old] by blast
    moreover have "rp < nextReq b" using ab old(1) by (simp add: sim_rel_def)
    ultimately show ?thesis using sim_rel_request [OF bc] same_request_trans by blast
  qed
  then show ?thesis using ab bc by (simp add: sim_rel_def)
qed

lemma sim_rel_fields [simp]:
  "sim_rel s (s'\<lparr>simInterface := si\<rparr>) = sim_rel s s'" "sim_rel s (s'\<lparr>rand_state := rs\<rparr>) = sim_rel s s'"
  by (simp_all add: sim_rel_def)

lemma sim_rel_queue [simp]:
  "currentCycle q = GetCurrentCycle s' \<Longrightarrow> sim_rel s (s'\<lparr>eventQueue := q\<rparr>) = sim_rel s s'"
  by (simp add: sim_rel_def)

lemma sim_rel_put:
  "sim_rel s s' \<Longrightarrow> requests s' rp = Some r \<Longrightarrow> same_request r r' \<Longrightarrow> sim_rel s (put_request rp r' s')"
  by (fastforce simp: sim_rel_def put_request_def same_request_def)

lemma sim_rel_time: "sim_rel s s' \<Longrightarrow> GetCurrentCycle s' = GetCurrentCycle s"
  by (simp add: sim_rel_def)

section \<open>Postconditions of the shared operations\<close>

lemma post_any_pair: "(\<And>a b. m = Some (a, b) \<Longrightarrow> Q (a, b)) \<Longrightarrow> post m Q"
  by (auto simp: post_def)

lemma post_any_triple: "(\<And>a b c. m = Some (a, b, c) \<Longrightarrow> Q (a, b, c)) \<Longrightarrow> post m Q"
  by (auto simp: post_def)

lemmas value_posts [nvm_post] = post_any_triple [of "GetEndurance d r" for d r] post_any [of "requests s rp" for s rp]
  post_any_triple [of "Endurance_Write p r d st" for p r d st] post_any_triple [of "Encoder_Write p r e" for p r e]
  post_any [of "SetDataAtAddress g a d si" for g a d si] post_any [of "NVMDataBlock_assign g d d'" for g d d']

lemma insert_response_post [nvm_post]:
  assumes "\<And>s'. sim_rel s s' \<Longrightarrow> Q s'"
  shows "post (insert_response rcp rp due s) Q"
proof (rule post_any)
  fix s'
  assume i: "insert_response rcp rp due s = Some s'"
  then obtain q where q: "InsertEvent EventResponse rcp (Some rp) due None 0 (eventQueue s) = Some q"
    "s' = s\<lparr>eventQueue := q\<rparr>"
    by (auto simp: insert_response_def bind_eq_Some_conv)
  then have "currentCycle q = GetCurrentCycle s"
    using InsertEventObj_frame by (fastforce simp: InsertEvent_def Event_alloc_def)
  then show "Q s'" using assms q(2) by simp
qed

lemma InsertEventObj_post [nvm_post]:
  assumes "\<And>q'. currentCycle q' = currentCycle q \<Longrightarrow> Q q'"
  shows "post (InsertEventObj e due pr q) Q"
  by (rule post_any) (use InsertEventObj_frame assms in blast)

lemma copy_request_post [nvm_post]:
  assumes "\<And>cp s'. sim_rel s s' \<Longrightarrow> Q (cp, s')"
  shows "post (copy_request f r s) Q"
  unfolding copy_request_def
proof (rule post_bind, rule post_any, rule post_Some, rule assms)
  fix c
  show "sim_rel s ((put_request (nextReq s) (f c) s)\<lparr>nextReq := Suc (nextReq s)\<rparr>)"
    by (auto simp: sim_rel_def put_request_def)
qed

section \<open>Totality\<close>

text \<open>A queue without deleted events: insertion cannot fail.\<close>

definition live :: "EventQueue \<Rightarrow> bool" where
  "live q \<longleftrightarrow> (\<forall>l \<in> snd ` set (eventMap q). \<forall>e \<in> set l. \<not> efreed e)"

lemma live_alloc [simp]: "live (snd (Event_alloc q)) = live q" "efreed (fst (Event_alloc q)) = False"
  by (simp_all add: live_def Event_alloc_def Event_new_def)

lemma live_clock [simp]: "live (q\<lparr>currentCycle := t\<rparr>) = live q"
  by (simp add: live_def)

lemma live_new [simp]: "live (EventQueue_new f)"
  by (simp add: live_def EventQueue_new_def)

lemma insert_by_priority_live:
  "\<forall>x \<in> set l. \<not> efreed x \<Longrightarrow> \<exists>l'. insert_by_priority pr e l = Some l' \<and> set l' = insert e (set l)"
  by (induction pr e l rule: insert_by_priority.induct) auto

lemma snd_omap_set: "snd ` set (omap_set k v m) \<subseteq> insert v (snd ` set m)"
  by (induction k v m rule: omap_set.induct) auto

lemma live_omap_set:
  assumes "live q" "\<forall>e \<in> set l. \<not> efreed e"
  shows "live (q\<lparr>eventMap := omap_set due l (eventMap q)\<rparr>)"
proof -
  have "\<forall>e \<in> set l'. \<not> efreed e" if "l' \<in> snd ` set (omap_set due l (eventMap q))" for l'
  proof -
    have "l' = l \<or> l' \<in> snd ` set (eventMap q)" using snd_omap_set [of due l "eventMap q"] that by blast
    then show ?thesis using assms(1) [unfolded live_def] assms(2) by metis
  qed
  then have "\<forall>l' \<in> snd ` set (eventMap (q\<lparr>eventMap := omap_set due l (eventMap q)\<rparr>)). \<forall>e \<in> set l'. \<not> efreed e"
    by simp
  then show ?thesis by (simp only: live_def)
qed

lemma InsertEventObj_live:
  assumes "live q" "\<not> efreed e"
  shows "\<exists>q'. InsertEventObj e due pr q = Some q' \<and> live q'"
proof -
  define q1 where "q1 = (if due < nextEventCycle q then q\<lparr>nextEventCycle := due\<rparr> else q)"
  have q1: "live q1" "eventMap q1 = eventMap q" using assms(1) by (simp_all add: q1_def live_def)
  show ?thesis
  proof (cases "map_of (eventMap q) due")
    case None
    then show ?thesis
      using live_omap_set [OF q1(1), of "[e\<lparr>ecycle := due\<rparr>]" due] assms(2) q1(2)
      by (simp add: InsertEventObj_def q1_def Let_def split: if_splits)
  next
    case (Some l)
    then have l: "\<forall>x \<in> set l. \<not> efreed x" using assms(1) by (force simp: live_def dest: map_of_SomeD)
    then obtain l' where l': "insert_by_priority pr (e\<lparr>ecycle := due\<rparr>) l = Some l'"
      "set l' = insert (e\<lparr>ecycle := due\<rparr>) (set l)"
      using insert_by_priority_live by blast
    then show ?thesis
      using Some live_omap_set [OF q1(1), of l' due] l assms(2) q1(2)
      by (simp add: InsertEventObj_def q1_def Let_def split: if_splits)
  qed
qed

lemma insert_response_returns [nvm_returns]:
  assumes "live (eventQueue s)"
    and "\<And>s'. live (eventQueue s') \<Longrightarrow> simInterface s' = simInterface s \<Longrightarrow> Q s'"
  shows "returns (insert_response rcp rp due s) Q"
proof -
  obtain ev q1 where a: "Event_alloc (eventQueue s) = (ev, q1)" by (cases "Event_alloc (eventQueue s)")
  then have "live q1" "\<not> efreed ev" using assms(1) live_alloc [of "eventQueue s"] by simp_all
  then obtain q' where "InsertEvent EventResponse rcp (Some rp) due None 0 (eventQueue s) = Some q'" "live q'"
    using InsertEventObj_live [of q1 "ev\<lparr>etype := EventResponse, recipient := Some rcp, erequest := Some rp, ecycle := due, edata := None\<rparr>"]
    by (auto simp: InsertEvent_def a)
  then show ?thesis using assms(2) by (auto simp: insert_response_def returns_def)
qed

lemma copy_request_returns [nvm_returns]:
  assumes "block_wf (rdata r)" "block_wf (oldData r)"
    and "\<And>cp s'. eventQueue s' = eventQueue s \<Longrightarrow> simInterface s' = simInterface s \<Longrightarrow> Q (cp, s')"
  shows "returns (copy_request f r s) Q"
  using NVMainRequest_assign_new [OF assms(1,2), of "\<lambda>_. 0"] assms(3)
  by (fastforce simp: copy_request_def returns_def put_request_def)

lemma InsertEventObj_returns [nvm_returns]:
  assumes "live q" "\<not> efreed e" "\<And>q'. live q' \<Longrightarrow> Q q'"
  shows "returns (InsertEventObj e due pr q) Q"
  using InsertEventObj_live [OF assms(1,2), of due pr] assms(3) by (auto simp: returns_def)

end
