(* ===== verification/Mlc_Count.thy ===== *)
theory Mlc_Count
  imports NVM_Prelude
begin

text \<open>
  The bit counting of \<^verbatim>\<open>src/NVmain/src/SubArray.cpp\<close> (\<^verbatim>\<open>Count32MLC1\<close>, \<^verbatim>\<open>Count32MLC2\<close>
  and the loops over a data buffer), which decides how many cells a write programs to each level.
  The buffer of bytes is read as 32-bit words in little-endian order, as the
  \<^verbatim>\<open>reinterpret_cast\<close> does on the simulator's hosts; a word past the end of the buffer is
  \<open>None\<close>. Shown: the multiply-and-shift trick counts the ones, the trick for 2-bit cells counts
  the cells that hold a value, and the four counts of a buffer add up to its number of cells.
\<close>

unbundle bit_operations_syntax

section \<open>Counting\<close>

definition Count32MLC1 :: "u32 \<Rightarrow> u64" where
  "Count32MLC1 data =
     (let count = data;
          count = count - (drop_bit 1 count AND 0x55555555);
          count = (count AND 0x33333333) + (drop_bit 2 count AND 0x33333333);
          count = drop_bit 24 (((count + drop_bit 4 count) AND 0x0f0f0f0f) * 0x01010101)
      in ucast count)"

definition Count32MLC2 :: "u8 \<Rightarrow> u32 \<Rightarrow> u64 option" where
  "Count32MLC2 value data =
     (let data = (if value = 0 then data XOR 0xFFFFFFFF
                  else if value = 1 then data XOR 0xAAAAAAAA
                  else if value = 2 then data XOR 0x55555555 else data)
      in do {
        cpp_assert (value < 4);
        let count = (data AND 0x55555555) AND drop_bit 1 (data AND 0xAAAAAAAA);
        Some (Count32MLC1 count)
      })"

text \<open>Word \<open>i\<close> of a buffer of bytes.\<close>

definition word_at :: "u8 list \<Rightarrow> nat \<Rightarrow> u32 option" where
  "word_at bs i =
     (if 4 * i + 3 < length bs
      then Some (ucast (bs ! (4 * i)) OR push_bit 8 (ucast (bs ! (4 * i + 1)))
        OR push_bit 16 (ucast (bs ! (4 * i + 2))) OR push_bit 24 (ucast (bs ! (4 * i + 3))))
      else None)"

primrec sum_words :: "(u32 \<Rightarrow> u64 option) \<Rightarrow> u8 list \<Rightarrow> nat \<Rightarrow> u64 option" where
  "sum_words f bs 0 = Some 0"
| "sum_words f bs (Suc n) = do {
     count \<leftarrow> sum_words f bs n;
     w \<leftarrow> word_at bs n;
     c \<leftarrow> f w;
     Some (count + c)
   }"

definition CountBitsMLC1 :: "u8 \<Rightarrow> u8 list \<Rightarrow> u64 \<Rightarrow> u64 option" where
  "CountBitsMLC1 value data words = do {
     count \<leftarrow> sum_words (\<lambda>w. Some (Count32MLC1 w)) data (unat words);
     Some (if value = 1 then count else words * 32 - count)
   }"

definition CountBitsMLC2 :: "u8 \<Rightarrow> u8 list \<Rightarrow> u64 \<Rightarrow> u64 option" where
  "CountBitsMLC2 value data words = sum_words (Count32MLC2 value) data (unat words)"

section \<open>Words as four bytes\<close>

definition join :: "u8 \<Rightarrow> u8 \<Rightarrow> u8 \<Rightarrow> u8 \<Rightarrow> u32" where
  "join a b c d = ucast a OR push_bit 8 (ucast b) OR push_bit 16 (ucast c) OR push_bit 24 (ucast d)"

lemma bit_join:
  "bit (join a b c d) n \<longleftrightarrow>
     (if n < 8 then bit a n else if n < 16 then bit b (n - 8)
      else if n < 24 then bit c (n - 16) else n < 32 \<and> bit d (n - 24))"
  by (auto simp: join_def bit_or_iff bit_push_bit_iff bit_ucast_iff dest: bit_imp_le_length)

lemma join_exhaust: "\<exists>a b c d. w = join a b c d"
proof (intro exI)
  show "w = join (ucast w) (ucast (drop_bit 8 w)) (ucast (drop_bit 16 w)) (ucast (drop_bit 24 w))"
    by (rule bit_eqI) (auto simp: bit_join bit_ucast_iff bit_drop_bit_eq dest: bit_imp_le_length)
qed

lemma join_and: "join a b c d AND join a' b' c' d' = join (a AND a') (b AND b') (c AND c') (d AND d')"
  by (rule bit_eqI) (auto simp: bit_join bit_and_iff)

lemma join_xor: "join a b c d XOR join a' b' c' d' = join (a XOR a') (b XOR b') (c XOR c') (d XOR d')"
  by (rule bit_eqI) (auto simp: bit_join bit_xor_iff)

text \<open>A shift followed by a mask that is zero in the top bits of each byte works byte by byte.\<close>

lemma join_shift_and:
  assumes "k < 8" "\<forall>n. bit m n \<longrightarrow> n + k < 8"
  shows "drop_bit k (join a b c d) AND join m m m m =
    join (drop_bit k a AND m) (drop_bit k b AND m) (drop_bit k c AND m) (drop_bit k d AND m)"
proof (rule bit_eqI)
  fix n
  have "bit m n \<Longrightarrow> n + k < 8" "bit m (n - 8) \<Longrightarrow> n - 8 + k < 8"
    "bit m (n - 16) \<Longrightarrow> n - 16 + k < 8" "bit m (n - 24) \<Longrightarrow> n - 24 + k < 8"
    using assms(2) by blast+
  then show "bit (drop_bit k (join a b c d) AND join m m m m) n =
    bit (join (drop_bit k a AND m) (drop_bit k b AND m) (drop_bit k c AND m) (drop_bit k d AND m)) n"
    using assms(1)
    by (auto simp: bit_join bit_and_iff bit_drop_bit_eq add.commute)
qed

lemma join_nat:
  "join a b c d = word_of_nat (unat a + 2 ^ 8 * unat b + 2 ^ 16 * unat c + 2 ^ 24 * unat d)"
proof -
  have "join a b c d = ucast a + (push_bit 8 (ucast b) + (push_bit 16 (ucast c) + push_bit 24 (ucast d)))"
    unfolding join_def
    by (subst disjunctive_add; (auto simp: bit_or_iff bit_push_bit_iff bit_ucast_iff
        dest: bit_imp_le_length)?)+
  also have "\<dots> = word_of_nat (unat a + 2 ^ 8 * unat b + 2 ^ 16 * unat c + 2 ^ 24 * unat d)"
    by (simp add: push_bit_eq_mult)
  finally show ?thesis .
qed

lemma unat_join: "unat (join a b c d) = unat a + 2 ^ 8 * unat b + 2 ^ 16 * unat c + 2 ^ 24 * unat d"
proof -
  have "unat a < 256" "unat b < 256" "unat c < 256" "unat d < 256"
    using unsigned_less [of a, where ?'a = nat] unsigned_less [of b, where ?'a = nat]
      unsigned_less [of c, where ?'a = nat] unsigned_less [of d, where ?'a = nat] by simp_all
  then have "unat a + 2 ^ 8 * unat b + 2 ^ 16 * unat c + 2 ^ 24 * unat d < 2 ^ LENGTH(32)" by simp
  then show ?thesis unfolding join_nat by (rule of_nat_inverse [OF refl])
qed

lemma join_add:
  assumes "unat a + unat a' < 256" "unat b + unat b' < 256" "unat c + unat c' < 256" "unat d + unat d' < 256"
  shows "join a b c d + join a' b' c' d' = join (a + a') (b + b') (c + c') (d + d')"
proof -
  have "unat (a + a') = unat a + unat a'" "unat (b + b') = unat b + unat b'"
    "unat (c + c') = unat c + unat c'" "unat (d + d') = unat d + unat d'"
    using assms by (simp_all add: unat_word_ariths)
  then show ?thesis by (simp add: join_nat algebra_simps)
qed

lemma join_sub:
  assumes "a' \<le> a" "b' \<le> b" "c' \<le> c" "d' \<le> d"
  shows "join a b c d - join a' b' c' d' = join (a - a') (b - b') (c - c') (d - d')"
proof -
  have "join a b c d = join (a - a') (b - b') (c - c') (d - d') + join a' b' c' d'"
    using assms unsigned_less [of a, where ?'a = nat] unsigned_less [of b, where ?'a = nat]
      unsigned_less [of c, where ?'a = nat] unsigned_less [of d, where ?'a = nat]
    by (subst join_add) (simp_all add: unat_sub word_le_nat_alt)
  then show ?thesis by simp
qed

text \<open>The multiplication adds the four bytes into the top one.\<close>

lemma join_mult_high:
  assumes "unat a + unat b + unat c + unat d < 256"
  shows "unat (drop_bit 24 (join a b c d * 0x01010101)) = unat a + unat b + unat c + unat d"
proof -
  let ?n = "unat a + 2 ^ 8 * unat b + 2 ^ 16 * unat c + 2 ^ 24 * unat d"
  let ?m = "2 ^ 24 * (unat a + unat b + unat c + unat d) + 2 ^ 16 * (unat a + unat b + unat c)
      + 2 ^ 8 * (unat a + unat b) + unat a"
  have eq: "?n * 0x01010101 = ?m + 2 ^ 32 * (unat b + unat c + unat d + 2 ^ 8 * (unat c + unat d) + 2 ^ 16 * unat d)"
    by (simp add: algebra_simps)
  have "?m < 2 ^ 32" using assms by simp
  then have "?n * 0x01010101 mod 2 ^ 32 = ?m" unfolding eq mod_mult_self2 by (rule mod_less)
  then have "unat (join a b c d * 0x01010101) = ?m"
    by (simp add: unat_word_ariths unat_join)
  moreover have "?m div 2 ^ 24 = unat a + unat b + unat c + unat d" using assms by simp
  ultimately show ?thesis unfolding unat_drop_bit_eq by (simp only: drop_bit_eq_div)
qed

section \<open>One byte\<close>

definition pop8 :: "u8 \<Rightarrow> nat" where
  "pop8 b = length (filter (bit b) [0..<8])"

definition pairs8 :: "u8 \<Rightarrow> u8" where
  "pairs8 b = b - (drop_bit 1 b AND 0x55)"

definition nibbles8 :: "u8 \<Rightarrow> u8" where
  "nibbles8 b = (pairs8 b AND 0x33) + (drop_bit 2 (pairs8 b) AND 0x33)"

definition byte_ok :: "u8 \<Rightarrow> bool" where
  "byte_ok b \<longleftrightarrow> drop_bit 1 b AND 0x55 \<le> b
     \<and> unat (pairs8 b AND 0x33) + unat (drop_bit 2 (pairs8 b) AND 0x33) < 256
     \<and> unat (nibbles8 b) mod 16 \<le> 4 \<and> unat (nibbles8 b) div 16 \<le> 4
     \<and> unat (nibbles8 b) mod 16 + unat (nibbles8 b) div 16 = pop8 b"

lemma byte_ok_bits:
  "byte_ok (of_bool x0 + 2 * of_bool x1 + 4 * of_bool x2 + 8 * of_bool x3 + 16 * of_bool x4
     + 32 * of_bool x5 + 64 * of_bool x6 + 128 * of_bool x7)"
  by (cases x0; cases x1; cases x2; cases x3; cases x4; cases x5; cases x6; cases x7;
      simp add: byte_ok_def pairs8_def nibbles8_def pop8_def upt_rec)

lemma byte_ok: "byte_ok b"
proof -
  have upt8: "[0..<8] = [0, 1, 2, 3, 4, 5, 6, 7 :: nat]" by (simp add: upt_rec)
  have "b = horner_sum of_bool 2 (map (bit b) [0..<8])"
    using horner_sum_bit_eq_take_bit [of b 8] by (simp add: take_bit_word_eq_self)
  also have "\<dots> = of_bool (bit b 0) + 2 * of_bool (bit b 1) + 4 * of_bool (bit b 2)
      + 8 * of_bool (bit b 3) + 16 * of_bool (bit b 4) + 32 * of_bool (bit b 5)
      + 64 * of_bool (bit b 6) + 128 * of_bool (bit b 7)"
    by (simp add: upt8 distrib_left flip: mult.assoc)
  finally show ?thesis using byte_ok_bits by metis
qed

section \<open>One word\<close>

definition popcount :: "u32 \<Rightarrow> nat" where
  "popcount w = length (filter (bit w) [0..<32])"

lemma filter_upt_shift: "length (filter P [m..<m + k]) = length (filter (\<lambda>i. P (m + i)) [0..<k])"
  by (induction k) auto

lemma popcount_join: "popcount (join a b c d) = pop8 a + pop8 b + pop8 c + pop8 d"
proof -
  have upt: "[0..<32] = [0..<8] @ [8..<8 + 8] @ [16..<16 + 8] @ [24..<24 + 8]"
    by (simp flip: upt_add_eq_append add: upt_rec)
  have part: "length (filter (bit (join a b c d)) [m..<m + 8]) =
      length (filter (\<lambda>i. bit (join a b c d) (m + i)) [0..<8])" for m
    by (rule filter_upt_shift)
  have "filter (bit (join a b c d)) [0..<8] = filter (bit a) [0..<8]"
    "filter (\<lambda>i. bit (join a b c d) (8 + i)) [0..<8] = filter (bit b) [0..<8]"
    "filter (\<lambda>i. bit (join a b c d) (16 + i)) [0..<8] = filter (bit c) [0..<8]"
    "filter (\<lambda>i. bit (join a b c d) (24 + i)) [0..<8] = filter (bit d) [0..<8]"
    by (auto simp: bit_join intro!: filter_cong)
  then show ?thesis unfolding popcount_def upt filter_append length_append part pop8_def by simp
qed

lemma mask_bytes:
  "(0x55555555 :: u32) = join 0x55 0x55 0x55 0x55" "(0x33333333 :: u32) = join 0x33 0x33 0x33 0x33"
  "(0x0f0f0f0f :: u32) = join 0x0f 0x0f 0x0f 0x0f" "(0xAAAAAAAA :: u32) = join 0xAA 0xAA 0xAA 0xAA"
  "(0xFFFFFFFF :: u32) = join 0xFF 0xFF 0xFF 0xFF"
  by (simp_all add: join_def)

lemma join_shift4:
  "drop_bit 4 (join a b c d) = join (drop_bit 4 a OR push_bit 4 b) (drop_bit 4 b OR push_bit 4 c)
     (drop_bit 4 c OR push_bit 4 d) (drop_bit 4 d OR push_bit 4 0)"
proof (rule bit_eqI)
  fix n
  have "bit a (n + 4) \<Longrightarrow> n < 4" "bit b (n - 8 + 4) \<Longrightarrow> n - 8 < 4" "bit c (n - 16 + 4) \<Longrightarrow> n - 16 < 4"
    "bit d (n - 24 + 4) \<Longrightarrow> n - 24 < 4"
    by (auto dest: bit_imp_le_length)
  then show "bit (drop_bit 4 (join a b c d)) n = bit (join (drop_bit 4 a OR push_bit 4 b)
      (drop_bit 4 b OR push_bit 4 c) (drop_bit 4 c OR push_bit 4 d) (drop_bit 4 d OR push_bit 4 0)) n"
    by (auto simp: bit_join bit_or_iff bit_drop_bit_eq bit_push_bit_iff ac_simps)
qed

lemma nibble_sum:
  fixes a b :: u8
  assumes "unat a mod 16 \<le> 4" "unat a div 16 \<le> 4" "unat b mod 16 \<le> 4"
  shows "unat a + unat (drop_bit 4 a OR push_bit 4 b) < 256"
    "unat ((a + (drop_bit 4 a OR push_bit 4 b)) AND 0x0f) = unat a mod 16 + unat a div 16"
proof -
  have pb: "unat (push_bit 4 b) = 16 * (unat b mod 16)"
    using assms(3) by (simp add: push_bit_eq_mult unat_word_ariths mult_mod_right mult.commute)
  have db: "unat (drop_bit 4 a) = unat a div 16"
    unfolding unat_drop_bit_eq by (simp add: drop_bit_eq_div)
  have "drop_bit 4 a OR push_bit 4 b = drop_bit 4 a + push_bit 4 b"
    by (rule disjunctive_add [symmetric])
      (auto simp: bit_drop_bit_eq bit_push_bit_iff dest: bit_imp_le_length)
  then have u: "unat (drop_bit 4 a OR push_bit 4 b) = unat a div 16 + 16 * (unat b mod 16)"
    using assms pb db by (simp add: unat_word_ariths)
  have a: "unat a = 16 * (unat a div 16) + unat a mod 16" by simp
  show lt: "unat a + unat (drop_bit 4 a OR push_bit 4 b) < 256" using assms a u by linarith
  have m: "(0x0f :: u8) = mask 4" by (simp add: mask_eq_exp_minus_1)
  have mod: "(16 * k + r) mod 2 ^ 4 = r" if "r \<le> 8" for k r :: nat using that by simp
  have eq: "unat (a + (drop_bit 4 a OR push_bit 4 b)) =
      16 * (unat a div 16 + unat b mod 16) + (unat a mod 16 + unat a div 16)"
    using lt a u by (simp add: unat_word_ariths)
  show "unat ((a + (drop_bit 4 a OR push_bit 4 b)) AND 0x0f) = unat a mod 16 + unat a div 16"
    unfolding m take_bit_eq_mask [symmetric] unsigned_take_bit_eq eq
    unfolding take_bit_eq_mod by (rule mod) (use assms in linarith)
qed

lemma pop8_le: "pop8 b \<le> 8"
  unfolding pop8_def by (rule order_trans [OF length_filter_le]) simp

lemma popcount_le: "popcount w \<le> 32"
  unfolding popcount_def by (rule order_trans [OF length_filter_le]) simp

lemma Count32_pop: "unat (Count32MLC1 w) = popcount w"
proof -
  obtain a b c d where w: "w = join a b c d" using join_exhaust by blast
  note ok = byte_ok [unfolded byte_ok_def]
  have tb: "(0x55 :: u8) = take_bit 7 0x55" "(0x33 :: u8) = take_bit 6 0x33" by simp_all
  have m: "\<forall>n. bit (0x55 :: u8) n \<longrightarrow> n + 1 < 8" "\<forall>n. bit (0x33 :: u8) n \<longrightarrow> n + 2 < 8"
    using bit_take_bit_iff [of 7 "0x55 :: u8", folded tb(1)]
      bit_take_bit_iff [of 6 "0x33 :: u8", folded tb(2)] by auto
  have s1: "w - (drop_bit 1 w AND 0x55555555) = join (pairs8 a) (pairs8 b) (pairs8 c) (pairs8 d)"
    unfolding w mask_bytes using m(1) ok by (simp add: join_shift_and join_sub pairs8_def)
  let ?x = "join (pairs8 a) (pairs8 b) (pairs8 c) (pairs8 d)"
  have s2: "(?x AND 0x33333333) + (drop_bit 2 ?x AND 0x33333333) =
      join (nibbles8 a) (nibbles8 b) (nibbles8 c) (nibbles8 d)"
    unfolding mask_bytes using m(2) ok by (simp add: join_shift_and join_and join_add nibbles8_def)
  let ?y = "join (nibbles8 a) (nibbles8 b) (nibbles8 c) (nibbles8 d)"
  let ?n = "\<lambda>e f. (nibbles8 e + (drop_bit 4 (nibbles8 e) OR push_bit 4 f)) AND 0x0f"
  have n: "unat (?n e f) = pop8 e" if "unat f mod 16 \<le> 4" for e f
    using nibble_sum [of "nibbles8 e" f] ok [of e] that by simp
  have "?y + drop_bit 4 ?y = join (nibbles8 a + (drop_bit 4 (nibbles8 a) OR push_bit 4 (nibbles8 b)))
      (nibbles8 b + (drop_bit 4 (nibbles8 b) OR push_bit 4 (nibbles8 c)))
      (nibbles8 c + (drop_bit 4 (nibbles8 c) OR push_bit 4 (nibbles8 d)))
      (nibbles8 d + (drop_bit 4 (nibbles8 d) OR push_bit 4 0))"
    unfolding join_shift4 using ok by (intro join_add nibble_sum(1)) simp_all
  then have s3: "(?y + drop_bit 4 ?y) AND 0x0f0f0f0f =
      join (?n a (nibbles8 b)) (?n b (nibbles8 c)) (?n c (nibbles8 d)) (?n d 0)"
    unfolding mask_bytes by (simp only: join_and)
  have pops: "unat (?n a (nibbles8 b)) = pop8 a" "unat (?n b (nibbles8 c)) = pop8 b"
    "unat (?n c (nibbles8 d)) = pop8 c" "unat (?n d 0) = pop8 d"
    using ok by (intro n; simp)+
  have "unat (?n a (nibbles8 b)) + unat (?n b (nibbles8 c)) + unat (?n c (nibbles8 d)) + unat (?n d 0) < 256"
    unfolding pops using pop8_le [of a] pop8_le [of b] pop8_le [of c] pop8_le [of d] by linarith
  from join_mult_high [OF this]
  have "unat (drop_bit 24 (((?y + drop_bit 4 ?y) AND 0x0f0f0f0f) * 0x01010101)) = popcount w"
    unfolding s3 pops by (simp add: w popcount_join)
  then show ?thesis
    unfolding Count32MLC1_def Let_def s1 s2 using popcount_le [of w]
    by (simp add: unsigned_ucast_eq take_bit_nat_eq_self)
qed

section \<open>Two-bit cells\<close>

text \<open>Cell \<open>i\<close> of a word holds the bits \<open>2 i + 1\<close> and \<open>2 i\<close>.\<close>

definition cell :: "u32 \<Rightarrow> nat \<Rightarrow> nat" where
  "cell w i = 2 * of_bool (bit w (2 * i + 1)) + of_bool (bit w (2 * i))"

definition cells :: "nat \<Rightarrow> u32 \<Rightarrow> nat" where
  "cells v w = length (filter (\<lambda>i. cell w i = v) [0..<16])"

lemma popcount_even:
  assumes "\<forall>i. bit w i \<longrightarrow> even i"
  shows "popcount w = length (filter (\<lambda>i. bit w (2 * i)) [0..<16])"
proof -
  have "length (filter (bit w) [0..<2 * k]) = length (filter (\<lambda>i. bit w (2 * i)) [0..<k])" for k
    using assms by (induction k) (auto simp: odd_even_add)
  from this [of 16] show ?thesis by (simp add: popcount_def)
qed

lemma mask_bits:
  assumes "n < 32"
  shows "bit (0x55555555 :: u32) n \<longleftrightarrow> even n" "bit (0xAAAAAAAA :: u32) n \<longleftrightarrow> odd n" "bit (0xFFFFFFFF :: u32) n"
proof -
  have "\<forall>n \<in> set [0..<32]. (bit (0x55555555 :: u32) n \<longleftrightarrow> even n)
      \<and> (bit (0xAAAAAAAA :: u32) n \<longleftrightarrow> odd n) \<and> bit (0xFFFFFFFF :: u32) n"
    by (simp add: upt_rec)
  then show "bit (0x55555555 :: u32) n \<longleftrightarrow> even n" "bit (0xAAAAAAAA :: u32) n \<longleftrightarrow> odd n"
    "bit (0xFFFFFFFF :: u32) n"
    using assms by simp_all
qed

text \<open>The value that is XORed in turns the pattern that is searched into \<open>11\<close>.\<close>

lemma Count32MLC2_cells:
  assumes "v < 4"
  shows "\<exists>c. Count32MLC2 v w = Some c \<and> unat c = cells (unat v) w"
proof -
  have "unat v = 0 \<or> unat v = 1 \<or> unat v = 2 \<or> unat v = 3"
    using assms by (auto simp: word_less_nat_alt)
  then have v: "v = 0 \<or> v = 1 \<or> v = 2 \<or> v = 3" by (simp add: word_unat_eq_iff)
  define x where "x = (if v = 0 then w XOR 0xFFFFFFFF else if v = 1 then w XOR 0xAAAAAAAA
      else if v = 2 then w XOR 0x55555555 else w)"
  define y where "y = (x AND 0x55555555) AND drop_bit 1 (x AND 0xAAAAAAAA)"
  have y: "bit y n \<longleftrightarrow> n < 32 \<and> even n \<and> bit x n \<and> bit x (Suc n)" for n
    using mask_bits(1) [of n] mask_bits(2) [of "Suc n"]
    by (cases "n < 31") (auto simp: y_def bit_and_iff bit_drop_bit_eq dest: bit_imp_le_length)
  have xb: "bit x n \<longleftrightarrow> (if v = 0 then \<not> bit w n else if v = 1 then bit w n \<noteq> odd n
      else if v = 2 then bit w n \<noteq> even n else bit w n)" if "n < 32" for n
    using mask_bits [OF that] that by (simp add: x_def bit_xor_iff)
  have "bit y (2 * i) \<longleftrightarrow> cell w i = unat v" if "i < 16" for i
    using that v xb [of "2 * i"] xb [of "Suc (2 * i)"] by (elim disjE) (auto simp: y cell_def)
  then have "filter (\<lambda>i. bit y (2 * i)) [0..<16] = filter (\<lambda>i. cell w i = unat v) [0..<16]"
    by (intro filter_cong) auto
  then have "popcount y = cells (unat v) w"
    unfolding cells_def by (subst popcount_even) (simp_all add: y)
  moreover have "Count32MLC2 v w = Some (Count32MLC1 y)"
    using assms by (simp add: Count32MLC2_def Let_def x_def y_def)
  ultimately show ?thesis by (simp add: Count32_pop)
qed

section \<open>Buffers\<close>

lemma cells_sum: "cells 0 w + cells 1 w + cells 2 w + cells 3 w = 16"
proof -
  have "length (filter (\<lambda>i. f i = 0) xs) + length (filter (\<lambda>i. f i = 1) xs)
      + length (filter (\<lambda>i. f i = 2) xs) + length (filter (\<lambda>i. f i = 3) xs) = length xs"
    if "\<forall>i. f i < 4" for f :: "nat \<Rightarrow> nat" and xs
  proof (induction xs)
    case (Cons i xs)
    have "f i < 4" using that by blast
    then have "f i = 0 \<or> f i = 1 \<or> f i = 2 \<or> f i = 3" by auto
    then show ?case using Cons by auto
  qed simp
  from this [of "cell w" "[0..<16]"] show ?thesis by (simp add: cells_def cell_def)
qed

lemma word_at_in_range: "4 * n \<le> length bs \<Longrightarrow> i < n \<Longrightarrow> \<exists>w. word_at bs i = Some w"
  by (simp add: word_at_def)

text \<open>The words of a buffer as a list.\<close>

definition words_of :: "u8 list \<Rightarrow> nat \<Rightarrow> u32 list" where
  "words_of bs n = map (\<lambda>i. the (word_at bs i)) [0..<n]"

lemma sum_words_eq:
  assumes "\<forall>w. \<exists>c. f w = Some c \<and> unat c = g w \<and> g w \<le> 32" "n < 2 ^ 58"
  shows "4 * n \<le> length bs \<Longrightarrow>
    \<exists>c. sum_words f bs n = Some c \<and> unat c = sum_list (map g (words_of bs n)) \<and> unat c \<le> 32 * n"
  using assms(2)
proof (induction n)
  case (Suc n)
  then obtain c where c: "sum_words f bs n = Some c" "unat c = sum_list (map g (words_of bs n))"
    "unat c \<le> 32 * n" by auto
  obtain w where w: "word_at bs n = Some w" using word_at_in_range [OF Suc.prems(1), of n] by auto
  obtain d where d: "f w = Some d" "unat d = g w" "g w \<le> 32" using assms(1) by blast
  have "unat c + unat d \<le> 32 * Suc n" using c(3) d by simp
  then have "unat (c + d) = unat c + unat d" using Suc.prems(2) by (intro unat_add_u64) simp
  then show ?case using c d w by (simp add: words_of_def)
qed (simp add: words_of_def)

lemma sum_words_fail: "length bs < 4 * n \<Longrightarrow> sum_words f bs n = None"
  by (induction n) (auto simp: word_at_def bind_eq_None_conv)

text \<open>C31 (popcount_trick). The bit-manipulation sequence of \<^verbatim>\<open>Count32MLC1\<close> returns the number of
  one bits of its argument, for every 32-bit word.\<close>

theorem popcount_trick: "unat (Count32MLC1 w) = popcount w"
  by (rule Count32_pop)

text \<open>For a buffer that holds the requested number of words, the four calls of
  \<^verbatim>\<open>CountBitsMLC2\<close> return, each counts the two-bit cells with its value, and the counts add up to
  the 16 cells of every word: the assertion in \<^verbatim>\<open>WriteCellData\<close> can not fail.\<close>

lemma mlc2_counts_partition:
  assumes "4 * unat n \<le> length bs" "unat n < 2 ^ 58"
  shows "\<exists>c0 c1 c2 c3. CountBitsMLC2 0 bs n = Some c0 \<and> CountBitsMLC2 1 bs n = Some c1
    \<and> CountBitsMLC2 2 bs n = Some c2 \<and> CountBitsMLC2 3 bs n = Some c3
    \<and> unat c1 = sum_list (map (cells 1) (words_of bs (unat n))) \<and> c0 + c1 + c2 + c3 = 16 * n"
proof -
  have le: "cells v w \<le> 32" for v w
    unfolding cells_def by (rule order_trans [OF length_filter_le]) simp
  have f: "\<forall>w. \<exists>c. Count32MLC2 v w = Some c \<and> unat c = cells (unat v) w \<and> cells (unat v) w \<le> 32" if "v < 4" for v
    using Count32MLC2_cells [OF that] le by blast
  have ex: "\<exists>c. CountBitsMLC2 v bs n = Some c \<and> unat c = sum_list (map (cells (unat v)) (words_of bs (unat n)))"
    if "v < 4" for v
    using sum_words_eq [OF f [OF that] assms(2,1)] by (auto simp: CountBitsMLC2_def)
  obtain c0 c1 c2 c3 where c: "CountBitsMLC2 0 bs n = Some c0" "CountBitsMLC2 1 bs n = Some c1"
    "CountBitsMLC2 2 bs n = Some c2" "CountBitsMLC2 3 bs n = Some c3"
    "unat c0 = sum_list (map (cells 0) (words_of bs (unat n)))"
    "unat c1 = sum_list (map (cells 1) (words_of bs (unat n)))"
    "unat c2 = sum_list (map (cells 2) (words_of bs (unat n)))"
    "unat c3 = sum_list (map (cells 3) (words_of bs (unat n)))"
    using ex [of 0] ex [of 1] ex [of 2] ex [of 3] by auto
  have "sum_list (map (cells 0) ws) + sum_list (map (cells 1) ws) + sum_list (map (cells 2) ws)
      + sum_list (map (cells 3) ws) = 16 * length ws" for ws
  proof (induction ws)
    case (Cons w ws)
    then show ?case using cells_sum [of w] by simp
  qed simp
  from this [of "words_of bs (unat n)"]
  have "unat c0 + unat c1 + unat c2 + unat c3 = 16 * unat n"
    by (simp add: c words_of_def)
  then have "word_of_nat (unat c0 + unat c1 + unat c2 + unat c3) = (word_of_nat (16 * unat n) :: u64)"
    by simp
  then have "c0 + c1 + c2 + c3 = 16 * n" by simp
  then show ?thesis using c by blast
qed

text \<open>For a buffer that holds the requested words, the counts of zeroes and
  ones both return and add up to the number of bits.\<close>

lemma mlc1_counts_complement:
  assumes "4 * unat n \<le> length bs" "unat n < 2 ^ 58"
  shows "\<exists>c0 c1. CountBitsMLC1 0 bs n = Some c0 \<and> CountBitsMLC1 1 bs n = Some c1
    \<and> unat c1 = sum_list (map popcount (words_of bs (unat n))) \<and> c0 + c1 = 32 * n \<and> unat c1 \<le> 32 * unat n"
proof -
  have "\<forall>w. \<exists>c. Some (Count32MLC1 w) = Some c \<and> unat c = popcount w \<and> popcount w \<le> 32"
    using Count32_pop popcount_le by simp
  from sum_words_eq [OF this assms(2,1)] show ?thesis
    by (auto simp: CountBitsMLC1_def mult.commute)
qed

end
