(* ===== verification/Sub_Array.thy ===== *)
theory Sub_Array
  imports NVM_Sim Mlc_Count
begin

text \<open>
  \<^verbatim>\<open>src/NVmain/src/SubArray.cpp\<close>: the endpoint of every memory command. A sub-array has one row
  buffer, the earliest cycle at which each command may be issued next (\<open>nextActivate\<close> and so on),
  the write in progress with what is needed to pause or cancel it, an endurance model, a data
  encoder and statistics. The operations take the parameters \<open>p\<close>, the address of the request and
  the pair of the sub-array and the shared state; \<open>None\<close> is a failed assertion or undefined
  behaviour of the code. \<^verbatim>\<open>RequestComplete\<close> returns whether the request is passed on to the parent.
  \<^verbatim>\<open>double\<close> and \<^verbatim>\<open>float\<close> are \<open>real\<close>; a write whose progress would be divided by a zero duration is \<open>None\<close>.
\<close>

section \<open>State\<close>

datatype SubArrayState =
  SUBARRAY_UNKNOWN | SUBARRAY_OPEN | SUBARRAY_CLOSED | SUBARRAY_PRECHARGING | SUBARRAY_REFRESHING

datatype WriteMode = WRITE_BACK | WRITE_THROUGH | DELAYED_WRITE

record SubArrayStats =
  dataCycles :: ncounter_t
  worstCaseWrite :: ncycle_t
  num00Writes :: ncounter_t
  num01Writes :: ncounter_t
  num10Writes :: ncounter_t
  num11Writes :: ncounter_t
  averageWriteTime :: real
  measuredWriteTimes :: ncounter_t
  averagePausesPerRequest :: real
  measuredPauses :: ncounter_t
  averagePausedRequestProgress :: real
  measuredProgresses :: ncounter_t
  cancelledWrites :: ncounter_t
  cancelledWriteTime :: ncounter_t
  pausedWrites :: ncounter_t
  actWaits :: ncounter_t
  actWaitTotal :: ncounter_t
  actWaitAverage :: "real option"
  subArrayEnergy :: real
  activeEnergy :: real
  burstEnergy :: real
  writeEnergy :: real
  refreshEnergy :: real
  worstCaseEndurance :: u64
  averageEndurance :: u64
  reads :: ncounter_t
  writes :: ncounter_t
  activates :: ncounter_t
  precharges :: ncounter_t
  refreshes :: ncounter_t
  idleTimer :: ncounter_t
  mlcTimingMap :: "(u64, u64) omap"
  cancelCountMap :: "(u64, u64) omap"
  wpPauseMap :: "(real, u64) omap"
  wpCancelMap :: "(real, u64) omap"

record SubArray = SubArrayStats +
  this :: obj_id
  state :: SubArrayState
  nextCommand :: BulkCommand
  sa_useTagCache :: bool
  lastActivate :: ncycle_t
  nextActivate :: ncycle_t
  nextPrecharge :: ncycle_t
  nextRead :: ncycle_t
  nextWrite :: ncycle_t
  nextPowerDown :: ncycle_t
  writeCycle :: bool
  writeBackRequests :: "req_ptr list"
  isWriting :: bool
  writeEnd :: ncycle_t
  writeStart :: ncycle_t
  writeIterationStarts :: "(ncycle_t, unit) omap"
  writeRequest :: "req_ptr option"
  writeEvent :: "nat option"
  writeEventTime :: ncycle_t
  writeMode :: WriteMode
  nextActivatePreWrite :: ncycle_t
  nextPrechargePreWrite :: ncycle_t
  nextReadPreWrite :: ncycle_t
  nextWritePreWrite :: ncycle_t
  nextPowerDownPreWrite :: ncycle_t
  averageWriteIterations :: ncounter_t
  dramTagLatency :: ncycle_t
  sa_decdelay :: ncycle_t
  openRow :: u64
  dataEncoder :: "DataEncoder option"
  endrModel :: "EnduranceModel option"
  subArrayId :: ncounter_t

text \<open>The constructor; \<open>g\<close> is the memory it is given.\<close>

definition SubArray_new :: "obj_id \<Rightarrow> SubArray \<Rightarrow> SubArray" where
  "SubArray_new oid g = g\<lparr>
     this := oid, nextActivate := 0, nextPrecharge := 0, nextRead := 0, nextWrite := 0,
     nextPowerDown := 0, nextCommand := CMD_NOP, state := SUBARRAY_CLOSED, lastActivate := 0,
     openRow := 0, dataCycles := 0, worstCaseWrite := 0, sa_decdelay := 0, subArrayEnergy := 0,
     activeEnergy := 0, burstEnergy := 0, writeEnergy := 0, refreshEnergy := 0,
     writeCycle := False, writeBackRequests := [], writeMode := WRITE_THROUGH, isWriting := False,
     writeEnd := 0, writeStart := 0, writeIterationStarts := [], writeEventTime := 0,
     writeEvent := None, writeRequest := None, nextActivatePreWrite := 0,
     nextPrechargePreWrite := 0, nextReadPreWrite := 0, nextWritePreWrite := 0,
     nextPowerDownPreWrite := 0, idleTimer := 0, cancelledWrites := 0, cancelledWriteTime := 0,
     pausedWrites := 0, averagePausesPerRequest := 0, measuredPauses := 0,
     averagePausedRequestProgress := 0, measuredProgresses := 0, reads := 0, writes := 0,
     activates := 0, precharges := 0, refreshes := 0, actWaits := 0, actWaitTotal := 0,
     actWaitAverage := Some 0, num00Writes := 0, num01Writes := 0, num10Writes := 0, num11Writes := 0,
     mlcTimingMap := [], cancelCountMap := [], wpPauseMap := [], wpCancelMap := [],
     averageWriteTime := 0, measuredWriteTimes := 0, averageWriteIterations := 1,
     endrModel := None, dataEncoder := None, subArrayId := - 1\<rparr>"

text \<open>
  \<^verbatim>\<open>SetConfig\<close>: \<open>wm\<close> is the configured write mode, \<open>clk\<close> the configured clock in MHz,
  \<open>endr\<close> and \<open>enc\<close> the objects that the factories make for the configured names.
\<close>

definition SubArray_SetConfig ::
  "Params \<Rightarrow> string option \<Rightarrow> real \<Rightarrow> EnduranceModel option \<Rightarrow> DataEncoder option \<Rightarrow> SubArray \<Rightarrow> SubArray" where
  "SubArray_SetConfig p wm clk endr enc sa =
     (let sa = sa\<lparr>sa_decdelay := decdelay p,
            writeMode := (case wm of None \<Rightarrow> writeMode sa
              | Some m \<Rightarrow> if m = ''WriteThrough'' then WRITE_THROUGH
                  else if m = ''WriteBack'' then WRITE_BACK else WRITE_THROUGH),
            averageWriteIterations := (nWP00 p + nWP01 p + nWP10 p + nWP11 p + 2) div 4,
            endrModel := endr, dataEncoder := enc, sa_useTagCache := useTagCache p\<rparr>
      in if useTagCache p then sa\<lparr>dramTagLatency := word_of_int (ceiling (4 / (1 / (clk / 1000))))\<rparr>
         else sa)"

section \<open>Pausing and cancelling writes\<close>

fun next_iteration_start :: "ncycle_t \<Rightarrow> ncycle_t \<Rightarrow> (ncycle_t, unit) omap \<Rightarrow> ncycle_t" where
  "next_iteration_start now start [] = start"
| "next_iteration_start now start ((t, _) # ts) =
     (if now < t then start else next_iteration_start now t ts)"

text \<open>\<^verbatim>\<open>RemoveEvent( writeEvent, writeEventTime ); delete writeEvent;\<close> where the pointer may be null.\<close>

definition remove_write_event :: "nat option \<Rightarrow> ncycle_t \<Rightarrow> EventQueue \<Rightarrow> EventQueue" where
  "remove_write_event ev due q =
     (case ev of
        None \<Rightarrow> if omap_count due (eventMap q) then q\<lparr>nextEventCycle := front_cycle (eventMap q)\<rparr> else q
      | Some ptr \<Rightarrow>
          (let q = snd (RemoveEvent ptr due q)
           in q\<lparr>eventMap := map (\<lambda>(k, l). (k, free_ptr ptr l)) (eventMap q)\<rparr>))"

definition CheckWritePausing :: "Params \<Rightarrow> SubArray \<times> sim \<Rightarrow> (SubArray \<times> sim) option" where
  "CheckWritePausing p st = (case st of (sa, s) \<Rightarrow>
     if WritePausing p \<and> isWriting sa then do {
       let now = GetCurrentCycle s;
       let writeTimer = writeEnd sa - writeStart sa;
       let progress = (if pauseMode p \<noteq> PauseMode_Optimal
             then writeEnd sa - next_iteration_start now (writeStart sa) (writeIterationStarts sa)
             else writeEnd sa - now);
       wp \<leftarrow> writeRequest sa;
       wr \<leftarrow> requests s wp;
       let wr = wr\<lparr>writeProgress := progress\<rparr>;
       cpp_assert (writeTimer \<noteq> 0);
       let writePercent = 1 - real (unat progress) / real (unat writeTimer);
       let sa = sa\<lparr>averagePausedRequestProgress :=
             (averagePausedRequestProgress sa * real (unat (measuredProgresses sa)) + writePercent)
               / real (unat (measuredProgresses sa + 1)),
             measuredProgresses := measuredProgresses sa + 1\<rparr>;
       let paused = (writePercent > PauseThreshold p);
       let wr = (if paused then (if progress \<noteq> writeEnd sa then set_flag FLAG_PAUSED wr else wr)
             else if MaxCancellations p \<le> cancellations wr + 1
             then set_flag FLAG_FORCED ((set_flag FLAG_CANCELLED wr)\<lparr>cancellations := cancellations wr + 1\<rparr>)
             else (set_flag FLAG_CANCELLED wr)\<lparr>cancellations := cancellations wr + 1\<rparr>);
       let sa = (if paused
             then (if progress \<noteq> writeEnd sa then sa\<lparr>pausedWrites := pausedWrites sa + 1\<rparr> else sa)
                    \<lparr>wpPauseMap := count_up writePercent (wpPauseMap sa)\<rparr>
             else sa\<lparr>cancelledWrites := cancelledWrites sa + 1,
                      cancelledWriteTime := cancelledWriteTime sa + (now - writeStart sa),
                      wpCancelMap := count_up writePercent (wpCancelMap sa)\<rparr>);
       let s = put_request wp wr s;
       let s = s\<lparr>eventQueue := remove_write_event (writeEvent sa) (writeEventTime sa) (eventQueue s)\<rparr>;
       let sa = sa\<lparr>writeEvent := None\<rparr>;
       s \<leftarrow> insert_response (this sa) wp (now + 1) s;
       Some (sa\<lparr>nextActivate := nextActivatePreWrite sa, nextPrecharge := nextPrechargePreWrite sa,
                nextWrite := nextWritePreWrite sa, nextRead := nextReadPreWrite sa,
                nextPowerDown := nextPowerDownPreWrite sa\<rparr>, s)
     }
     else Some (sa, s))"

definition BetweenWriteIterations :: "SubArray \<Rightarrow> sim \<Rightarrow> bool" where
  "BetweenWriteIterations sa s \<longleftrightarrow>
     isWriting sa \<and> omap_count (GetCurrentCycle s) (writeIterationStarts sa)"

section \<open>The duration of a cell write\<close>

definition insert_starts :: "ncycle_t list \<Rightarrow> SubArray \<Rightarrow> SubArray" where
  "insert_starts ts sa = sa\<lparr>writeIterationStarts :=
     foldl (\<lambda>m t. omap_set t () m) (writeIterationStarts sa) ts\<rparr>"

definition write_words :: "Params \<Rightarrow> u64" where
  "write_words p = ucast (ucast (tBURST p * RATE p * BusWidth p) :: u32) div 32"

definition slc_energy :: "Params \<Rightarrow> u64 \<Rightarrow> u64 \<Rightarrow> SubArray \<Rightarrow> SubArray" where
  "slc_energy p c0 c1 sa =
     (if EnergyModel p \<noteq> ''current''
      then (let e = Ereset p * real (unat c0) + Eset p * real (unat c1)
            in sa\<lparr>subArrayEnergy := subArrayEnergy sa + e, writeEnergy := writeEnergy sa + e\<rparr>)
      else sa)"

text \<open>The pulses of a two-bit cell write: the delay of the single pulse, of each repeated pulse, and
  the number of repeated pulses.\<close>

definition mlc2_pulses ::
  "Params \<Rightarrow> u64 \<Rightarrow> u64 \<Rightarrow> u64 \<Rightarrow> u64 \<Rightarrow> sim \<Rightarrow> (ncycle_t \<times> ncycle_t \<times> ncycle_t \<times> sim) option" where
  "mlc2_pulses p c00 c01 c10 c11 s =
     (let delay00 = (if c00 = 0 then 0 else nWP00 p);
          delay01 = (if c01 = 0 then 0 else nWP01 p);
          delay10 = (if c10 = 0 then 0 else nWP10 p);
          delay11 = (if c11 = 0 then 0 else nWP11 p);
          programPulseCount = max (max delay00 delay01) (max delay10 delay11)
      in if c01 \<noteq> 0 \<or> c10 \<noteq> 0
         then do {
           let maxPulseCount = WPMaxVariance p + programPulseCount;
           let minPulseCount = programPulseCount - WPMaxVariance p;
           let minPulseCount = (if sint minPulseCount < 0 then 0 else minPulseCount);
           (v, _, r) \<leftarrow> GetEndurance (NormalDistribution programPulseCount (WPVariance p) 0) (rand_state s);
           let v = (if maxPulseCount < v then maxPulseCount else v);
           let v = (if v < minPulseCount then minPulseCount else v);
           let s = s\<lparr>rand_state := r\<rparr>;
           if programMode p = ProgramMode_SRMS then Some (tWP0 p, tWP1 p, v, s)
           else Some (tWP1 p, tWP0 p, v, s)
         }
         else if c00 \<noteq> 0 \<and> c11 = 0 then Some (tWP0 p, 0, 0, s)
         else if c00 = 0 \<and> c11 \<noteq> 0 then Some (tWP1 p, 0, 0, s)
         else Some (max (tWP0 p) (tWP1 p), 0, 0, s))"

definition WriteCellData :: "Params \<Rightarrow> req_ptr \<Rightarrow> SubArray \<times> sim \<Rightarrow> (ncycle_t \<times> SubArray \<times> sim) option" where
  "WriteCellData p rp st = (case st of (sa, s) \<Rightarrow> do {
     r \<leftarrow> requests s rp;
     let sa = sa\<lparr>writeIterationStarts := []\<rparr>;
     let now = GetCurrentCycle s;
     let raw = rawData (rdata r);
     let words = write_words p;
     if UniformWrites p then do {
       let sa = (if 1 < MLCLevels p
           then insert_starts (map (\<lambda>i. now + word_of_nat i * (tWP p div averageWriteIterations sa))
                  [0..<unat (averageWriteIterations sa)]) sa
           else sa);
       (c0, c1) \<leftarrow> (case raw of
            None \<Rightarrow> Some (256, 256)
          | Some bs \<Rightarrow> do {
              c0 \<leftarrow> CountBitsMLC1 0 bs words;
              c1 \<leftarrow> CountBitsMLC1 1 bs words;
              Some (c0, c1)
            });
       Some (tWP p, slc_energy p c0 c1 sa, s)
     }
     else case raw of
       None \<Rightarrow> Some (tWP0 p, sa, s)
     | Some bs \<Rightarrow>
         if MLCLevels p = 1 then do {
           c0 \<leftarrow> CountBitsMLC1 0 bs words;
           c1 \<leftarrow> CountBitsMLC1 1 bs words;
           let delay0 = (if c0 = 0 then 0 else tWP0 p);
           let delay1 = (if c1 = 0 then 0 else tWP1 p);
           Some (max delay0 delay1, slc_energy p c0 c1 sa, s)
         }
         else if MLCLevels p = 2 then do {
           c00 \<leftarrow> CountBitsMLC2 0 bs words;
           c01 \<leftarrow> CountBitsMLC2 1 bs words;
           c10 \<leftarrow> CountBitsMLC2 2 bs words;
           c11 \<leftarrow> CountBitsMLC2 3 bs words;
           cpp_assert (c00 + c01 + c10 + c11
             = ucast (ucast (tBURST p * RATE p * BusWidth p) :: u32) div 2);
           (once, again, n, s) \<leftarrow> mlc2_pulses p c00 c01 c10 c11 s;
           let sa = insert_starts (now # map (\<lambda>i. now + once + word_of_nat i * again) [0..<unat n]) sa;
           let maxDelay = once + n * again;
           let sa = sa\<lparr>mlcTimingMap := count_up maxDelay (mlcTimingMap sa)\<rparr>;
           let sa = (if worstCaseWrite sa < maxDelay then sa\<lparr>worstCaseWrite := maxDelay\<rparr> else sa);
           Some (maxDelay, sa, s)
         }
         else Some (0, sa, s)
   })"

section \<open>Endurance\<close>

fun zero_bytes :: "nat list \<Rightarrow> NVMDataBlock \<Rightarrow> NVMDataBlock option" where
  "zero_bytes [] d = Some d"
| "zero_bytes (i # is) d = do { d \<leftarrow> SetByte (word_of_nat i) 0 d; zero_bytes is d }"

definition UpdateEndurance ::
  "Params \<Rightarrow> req_ptr \<Rightarrow> SubArray \<times> sim \<Rightarrow> (ncycle_t \<times> SubArray \<times> sim) option" where
  "UpdateEndurance p rp st = (case st of (sa, s) \<Rightarrow>
     case endrModel sa of
       None \<Rightarrow> Some (0, sa, s)
     | Some m \<Rightarrow>
         if ekind m = NullModel then Some (0, sa, s)
         else case simInterface s of
           None \<Rightarrow> Some (0, sa, s)
         | Some si \<Rightarrow> do {
             r \<leftarrow> requests s rp;
             let addr = physicalAddress (address r);
             old \<leftarrow> (if isValid (oldData r) then NVMDataBlock_assign (\<lambda>_. 0) (oldData r) NVMDataBlock_new
                    else if fst (GetDataAtAddress addr (Some NVMDataBlock_new) si) = 0
                         then zero_bytes [0..<unat (word_bytes p)] NVMDataBlock_new
                         else Some NVMDataBlock_new);
             si \<leftarrow> SetDataAtAddress (\<lambda>_. 0) addr (rdata r) si;
             (extra, m, rs) \<leftarrow> Endurance_Write p r old (m, rand_state s);
             let latency = (if extra < 0 then - extra - 1 else extra);
             Some (word_of_int latency, sa\<lparr>endrModel := Some m\<rparr>,
               s\<lparr>simInterface := Some si, rand_state := rs\<rparr>)
           })"

section \<open>Commands\<close>

text \<open>The updates of the timing constraints that each command makes.\<close>

definition activate_constraints :: "Params \<Rightarrow> ncycle_t \<Rightarrow> SubArray \<Rightarrow> SubArray" where
  "activate_constraints p now sa = sa\<lparr>
     nextPrecharge := max (nextPrecharge sa) (now + max (tRCD p) (tRAS p)),
     nextRead := max (nextRead sa) (now + tRCD p - tAL p),
     nextWrite := max (nextWrite sa) (now + tRCD p - tAL p),
     nextPowerDown := max (nextPowerDown sa) (now + max (tRCD p) (tRAS p))\<rparr>"

definition read_constraints :: "Params \<Rightarrow> NVMainRequest \<Rightarrow> ncycle_t \<Rightarrow> SubArray \<Rightarrow> SubArray" where
  "read_constraints p r now sa =
     (let decLat = sa_decdelay sa;
          bursts = burst_gap p * (burstCount r - 1);
          nextAct = max (nextActivate sa) (now + bursts + tAL p + tRTP p + tRP p + decLat);
          sa = (if rtype r = READ_PRECHARGE
            then sa\<lparr>nextActivate := nextAct, nextPrecharge := max (nextPrecharge sa) nextAct,
                   nextRead := max (nextRead sa) nextAct, nextWrite := max (nextWrite sa) nextAct\<rparr>
            else sa\<lparr>
              nextPrecharge := max (nextPrecharge sa) (now + bursts + tAL p + tBURST p + tRTP p - tCCD_L p + decLat),
              nextRead := max (nextRead sa) (now + burst_gap p * burstCount r),
              nextWrite := max (nextWrite sa) (now + bursts + tCAS p + tBURST p + tRTRS p - tCWD p + decLat)\<rparr>)
      in sa\<lparr>nextPowerDown := max (nextPowerDown sa) (now + bursts + tCAS p + tAL p + tBURST p + 1 + decLat)\<rparr>)"

definition write_constraints :: "Params \<Rightarrow> NVMainRequest \<Rightarrow> ncycle_t \<Rightarrow> ncycle_t \<Rightarrow> SubArray \<Rightarrow> SubArray" where
  "write_constraints p r now writeTimer sa =
     (let bursts = burst_gap p * (burstCount r - 1);
          nextAct = max (nextActivate sa)
            (now + bursts + tAL p + tCWD p + tBURST p + writeTimer + tWR p + tRP p);
          sa = (if rtype r = WRITE_PRECHARGE
            then sa\<lparr>nextActivate := nextAct, nextPrecharge := max (nextPrecharge sa) nextAct,
                   nextRead := max (nextRead sa) nextAct, nextWrite := max (nextWrite sa) nextAct\<rparr>
            else sa\<lparr>
              nextPrecharge := max (nextPrecharge sa)
                (now + bursts + tAL p + tCWD p + tBURST p + writeTimer + tWR p),
              nextRead := max (nextRead sa) (now + bursts + tCWD p + tBURST p + tWTR_L p + writeTimer),
              nextWrite := max (nextWrite sa) (now + burst_gap p * burstCount r + writeTimer)\<rparr>)
      in sa\<lparr>nextPowerDown := max (nextPowerDown sa) (nextPrecharge sa)\<rparr>)"

definition save_times :: "SubArray \<Rightarrow> SubArray" where
  "save_times sa = sa\<lparr>nextActivatePreWrite := nextActivate sa, nextPrechargePreWrite := nextPrecharge sa,
     nextReadPreWrite := nextRead sa, nextWritePreWrite := nextWrite sa,
     nextPowerDownPreWrite := nextPowerDown sa\<rparr>"

definition SubArray_Activate :: "Params \<Rightarrow> req_ptr \<Rightarrow> SubArray \<times> sim \<Rightarrow> (bool \<times> SubArray \<times> sim) option" where
  "SubArray_Activate p rp st = do {
     (sa, s) \<leftarrow> CheckWritePausing p st;
     r \<leftarrow> requests s rp;
     let now = GetCurrentCycle s;
     if now < nextActivate sa then Some (False, sa, s)
     else if UsePrecharge p \<and> state sa \<noteq> SUBARRAY_CLOSED then Some (False, sa, s)
     else do {
       let sa = activate_constraints p now sa;
       let s = put_request rp (r\<lparr>owner := Some (this sa)\<rparr>) s;
       s \<leftarrow> insert_response (this sa) rp (now + tRCD p) s;
       let e = (if EnergyModel p = ''current''
             then (EIDD0 p * real (unat (tRAS p + tRP p))
                   - (EIDD3N p * real (unat (tRAS p)) + EIDD2N p * real (unat (tRP p)))) / real (unat (BANKS p))
             else Erd p);
       Some (True, sa\<lparr>openRow := row (address r), state := SUBARRAY_OPEN, writeCycle := False,
             lastActivate := now, subArrayEnergy := subArrayEnergy sa + e,
             activeEnergy := activeEnergy sa + e, activates := activates sa + 1\<rparr>, s)
     }
   }"

text \<open>Reading records the data of addresses that were never written, when endurance is modelled.\<close>

definition track_read_data :: "NVMainRequest \<Rightarrow> SubArray \<Rightarrow> sim \<Rightarrow> sim option" where
  "track_read_data r sa s =
     (case simInterface s of
        None \<Rightarrow> Some s
      | Some si \<Rightarrow>
          if endrModel sa = None then Some s
          else if fst (GetDataAtAddress (physicalAddress (address r)) None si) = 0
          then do {
            si \<leftarrow> SetDataAtAddress (\<lambda>_. 0) (physicalAddress (address r)) (rdata r) si;
            Some (s\<lparr>simInterface := Some si\<rparr>)
          }
          else Some s)"

definition SubArray_Read :: "Params \<Rightarrow> req_ptr \<Rightarrow> SubArray \<times> sim \<Rightarrow> (bool \<times> SubArray \<times> sim) option" where
  "SubArray_Read p rp st = do {
     (sa, s) \<leftarrow> CheckWritePausing p st;
     r \<leftarrow> requests s rp;
     let now = GetCurrentCycle s;
     if now < nextRead sa then Some (False, sa, s)
     else if state sa \<noteq> SUBARRAY_OPEN then Some (False, sa, s)
     else if row (address r) \<noteq> openRow sa then Some (False, sa, s)
     else do {
       let decLat = sa_decdelay sa;
       let bursts = burst_gap p * (burstCount r - 1);
       let sa = read_constraints p r now sa;
       s \<leftarrow> (if rtype r = READ_PRECHARGE then do {
           (preReq, s) \<leftarrow> copy_request (\<lambda>c. c\<lparr>owner := Some (this sa)\<rparr>) r s;
           insert_response (this sa) preReq (now + tAL p + tRTP p + decLat + bursts) s
         }
         else Some s);
       (busReq, s) \<leftarrow> copy_request (\<lambda>c. c\<lparr>rtype := BUS_WRITE, owner := Some (this sa)\<rparr>) r s;
       s \<leftarrow> insert_response (this sa) busReq
              (if sa_useTagCache sa then now + tCAS p + decLat + dramTagLatency sa else now + tCAS p + decLat) s;
       s \<leftarrow> insert_response (this sa) rp
              (if sa_useTagCache sa then now + tCAS p + tBURST p + dramTagLatency sa
               else now + tCAS p + tBURST p + decLat) s;
       let e = (if EnergyModel p = ''current''
             then ((EIDD4R p - EIDD3N p) * real (unat (tBURST p))) / real (unat (BANKS p)) else Eopenrd p);
       s \<leftarrow> track_read_data r sa s;
       Some (True, sa\<lparr>subArrayEnergy := subArrayEnergy sa + e, burstEnergy := burstEnergy sa + e,
             reads := reads sa + 1, dataCycles := dataCycles sa + tBURST p\<rparr>, s)
     }
   }"

text \<open>The encoder changes the data of the request in place.\<close>

definition encode_request :: "Params \<Rightarrow> req_ptr \<Rightarrow> SubArray \<times> sim \<Rightarrow> (ncycle_t \<times> SubArray \<times> sim) option" where
  "encode_request p rp st = (case st of (sa, s) \<Rightarrow>
     case dataEncoder sa of
       None \<Rightarrow> Some (0, sa, s)
     | Some enc \<Rightarrow> do {
         r \<leftarrow> requests s rp;
         (lat, r, enc) \<leftarrow> Encoder_Write p r enc;
         Some (lat, sa\<lparr>dataEncoder := Some enc\<rparr>, put_request rp r s)
       })"

fun xor_bytes :: "NVMDataBlock \<Rightarrow> NVMDataBlock \<Rightarrow> nat list \<Rightarrow> u8 list option" where
  "xor_bytes new old [] = Some []"
| "xor_bytes new old (i # is) = do {
     a \<leftarrow> GetByte (word_of_nat i) new;
     b \<leftarrow> GetByte (word_of_nat i) old;
     bs \<leftarrow> xor_bytes new old is;
     Some (xor a b # bs)
   }"

definition unchanged_bits :: "NVMainRequest \<Rightarrow> u64 option" where
  "unchanged_bits r = do {
     bitCountData \<leftarrow> xor_bytes (rdata r) (oldData r) [0..<unat (dsize (rdata r))];
     numChangedBits \<leftarrow> CountBitsMLC1 1 bitCountData (dsize (rdata r) div 4);
     cpp_assert (numChangedBits \<le> dsize (rdata r) * 8);
     Some (dsize (rdata r) * 8 - numChangedBits)
   }"

definition average_write :: "ncycle_t \<Rightarrow> SubArray \<Rightarrow> SubArray" where
  "average_write writeTimer sa = sa\<lparr>
     averageWriteTime := (averageWriteTime sa * real (unat (measuredWriteTimes sa)) + real (unat writeTimer))
       / (real (unat (measuredWriteTimes sa)) + 1),
     measuredWriteTimes := measuredWriteTimes sa + 1\<rparr>"

text \<open>The first half of \<^verbatim>\<open>Write\<close>: encoding and endurance of a write-through, with the
  latency and the number of unchanged bits; the flags of a restarted write; the duration of the cell
  write, with the latency and the number of unchanged bits.\<close>

definition encode_and_wear ::
  "Params \<Rightarrow> req_ptr \<Rightarrow> SubArray \<times> sim \<Rightarrow> (ncycle_t \<times> u64 \<times> SubArray \<times> sim) option" where
  "encode_and_wear p rp st = (case st of (sa, s) \<Rightarrow>
     if writeMode sa = WRITE_THROUGH then do {
       (encLat, sa, s) \<leftarrow> encode_request p rp (sa, s);
       (endrLat, sa, s) \<leftarrow> UpdateEndurance p rp (sa, s);
       r \<leftarrow> requests s rp;
       unchanged \<leftarrow> (if \<not> WriteAllBits p then unchanged_bits r else Some 0);
       Some (encLat + endrLat, unchanged, sa, s)
     }
     else Some (0, 0, sa, s))"

definition restart_flags :: "NVMainRequest \<Rightarrow> NVMainRequest" where
  "restart_flags r =
     (let r = (if has_flag r FLAG_PAUSED then clear_flag FLAG_PAUSED r else r)
      in if has_flag r FLAG_CANCELLED then clear_flag FLAG_CANCELLED r else r)"

definition write_duration ::
  "Params \<Rightarrow> req_ptr \<Rightarrow> SubArray \<times> sim \<Rightarrow> (ncycle_t \<times> ncycle_t \<times> u64 \<times> SubArray \<times> sim) option" where
  "write_duration p rp st = do {
     (lat, unchanged, sa, s) \<leftarrow> encode_and_wear p rp st;
     (timer, sa, s) \<leftarrow> WriteCellData p rp (sa, s);
     r \<leftarrow> requests s rp;
     let timer = (if has_flag r FLAG_PAUSED then writeProgress r else timer);
     let s = put_request rp (restart_flags r) s;
     if writeMode sa = WRITE_BACK \<and> writeCycle sa then do {
       (cp, s) \<leftarrow> copy_request (\<lambda>c. c) (restart_flags r) s;
       Some (0, lat, unchanged, sa\<lparr>writeBackRequests := writeBackRequests sa @ [cp]\<rparr>, s)
     }
     else if writeMode sa = WRITE_THROUGH
     then Some (timer, lat, unchanged, sa, put_request rp ((restart_flags r)\<lparr>writeProgress := timer\<rparr>) s)
     else Some (timer, lat, unchanged, sa, s)
   }"

definition burst_write_energy :: "Params \<Rightarrow> u64 \<Rightarrow> SubArray \<Rightarrow> SubArray" where
  "burst_write_energy p unchanged sa =
     (if EnergyModel p = ''current''
      then (let e = ((EIDD4W p - EIDD3N p) * real (unat (tBURST p))) / real (unat (BANKS p))
            in sa\<lparr>subArrayEnergy := subArrayEnergy sa + e, burstEnergy := burstEnergy sa + e\<rparr>)
      else sa\<lparr>subArrayEnergy := subArrayEnergy sa + (Ewr p - Ewrpb p * real (unat unchanged)),
               burstEnergy := burstEnergy sa + Ewr p\<rparr>)"

definition SubArray_Write :: "Params \<Rightarrow> req_ptr \<Rightarrow> SubArray \<times> sim \<Rightarrow> (bool \<times> SubArray \<times> sim) option" where
  "SubArray_Write p rp st = (case st of (sa, s) \<Rightarrow> do {
     r \<leftarrow> requests s rp;
     let now = GetCurrentCycle s;
     if now < nextWrite sa then Some (False, sa, s)
     else if state sa \<noteq> SUBARRAY_OPEN then Some (False, sa, s)
     else if row (address r) \<noteq> openRow sa then Some (False, sa, s)
     else do {
       (timer, lat, unchanged, sa, s) \<leftarrow> write_duration p rp (sa, s);
       let sa = save_times sa;
       let timer = (if writeMode sa = WRITE_THROUGH then timer + lat else timer);
       let sa = (if writeMode sa = WRITE_THROUGH then average_write timer sa else sa);
       r \<leftarrow> requests s rp;
       let bursts = burst_gap p * (burstCount r - 1);
       let sa = write_constraints p r now timer sa;
       s \<leftarrow> (if rtype r = WRITE_PRECHARGE then do {
           (preReq, s) \<leftarrow> copy_request (\<lambda>c. c\<lparr>owner := Some (this sa)\<rparr>) r s;
           insert_response (this sa) preReq (now + bursts + tAL p + tCWD p + tBURST p + timer + tWR p) s
         }
         else Some s);
       let sa = sa\<lparr>isWriting := True, writeRequest := Some rp, writeStart := now, writeEnd := now + timer,
             writeEventTime := now + tCWD p + burst_gap p * burstCount r + timer\<rparr>;
       let ev = (fst (Event_alloc (eventQueue s)))\<lparr>etype := EventResponse, recipient := Some (this sa),
             erequest := Some rp\<rparr>;
       let s = s\<lparr>eventQueue := snd (Event_alloc (eventQueue s))\<rparr>;
       let sa = sa\<lparr>writeEvent := Some (eptr ev)\<rparr>;
       (busReq, s) \<leftarrow> copy_request (\<lambda>c. c\<lparr>rtype := BUS_READ, owner := Some (this sa)\<rparr>) r s;
       s \<leftarrow> insert_response (this sa) busReq (now + tCWD p) s;
       q \<leftarrow> InsertEventObj ev (if sa_useTagCache sa then writeEventTime sa + dramTagLatency sa
              else writeEventTime sa) 0 (eventQueue s);
       let sa = burst_write_energy p unchanged sa;
       Some (True, sa\<lparr>writeCycle := True, writes := writes sa + 1, dataCycles := dataCycles sa + tBURST p\<rparr>,
         s\<lparr>eventQueue := q\<rparr>)
     }
   })"

fun flush_writes :: "Params \<Rightarrow> req_ptr list \<Rightarrow> SubArray \<times> sim \<Rightarrow> (ncycle_t \<times> SubArray \<times> sim) option" where
  "flush_writes p [] (sa, s) = Some (0, sa, s)"
| "flush_writes p (w # ws) (sa, s) = do {
     (encLat, sa, s) \<leftarrow> encode_request p w (sa, s);
     (endrLat, sa, s) \<leftarrow> UpdateEndurance p w (sa, s);
     (rest, sa, s) \<leftarrow> flush_writes p ws (sa, s);
     Some (encLat + endrLat + rest, sa, s)
   }"

definition precharge_timer :: "Params \<Rightarrow> req_ptr \<Rightarrow> SubArray \<times> sim \<Rightarrow> (ncycle_t \<times> SubArray \<times> sim) option" where
  "precharge_timer p rp st = (case st of (sa, s) \<Rightarrow>
     if writeMode sa = WRITE_BACK \<and> writeCycle sa then do {
       (cellTime, sa, s) \<leftarrow> WriteCellData p rp (sa, s);
       (lat, sa, s) \<leftarrow> flush_writes p (writeBackRequests sa) (sa, s);
       let timer = max 1 (tRP p + cellTime) + lat;
       Some (timer, average_write timer (sa\<lparr>writeBackRequests := []\<rparr>), s)
     }
     else Some (max 1 (tRP p), sa, s))"

definition SubArray_Precharge :: "Params \<Rightarrow> req_ptr \<Rightarrow> SubArray \<times> sim \<Rightarrow> (bool \<times> SubArray \<times> sim) option" where
  "SubArray_Precharge p rp st = (case st of (sa, s) \<Rightarrow> do {
     let now = GetCurrentCycle s;
     if now < nextPrecharge sa then Some (False, sa, s)
     else if state sa \<noteq> SUBARRAY_CLOSED \<and> state sa \<noteq> SUBARRAY_OPEN then Some (False, sa, s)
     else do {
       (timer, sa, s) \<leftarrow> precharge_timer p rp (sa, s);
       let sa = sa\<lparr>nextActivate := max (nextActivate sa) (now + timer)\<rparr>;
       r \<leftarrow> requests s rp;
       let s = put_request rp (r\<lparr>owner := Some (this sa)\<rparr>) s;
       s \<leftarrow> insert_response (this sa) rp (now + timer) s;
       Some (True, sa\<lparr>state := SUBARRAY_PRECHARGING\<rparr>, s)
     }
   })"

definition SubArray_Refresh :: "Params \<Rightarrow> req_ptr \<Rightarrow> SubArray \<times> sim \<Rightarrow> (bool \<times> SubArray \<times> sim) option" where
  "SubArray_Refresh p rp st = (case st of (sa, s) \<Rightarrow> do {
     let now = GetCurrentCycle s;
     if now < nextActivate sa then Some (False, sa, s)
     else if state sa \<noteq> SUBARRAY_CLOSED \<and> UsePrecharge p then Some (False, sa, s)
     else do {
       let sa = sa\<lparr>nextActivate := max (nextActivate sa) (now + tRFC p)\<rparr>;
       r \<leftarrow> requests s rp;
       let s = put_request rp (r\<lparr>owner := Some (this sa)\<rparr>) s;
       s \<leftarrow> insert_response (this sa) rp (now + tRFC p) s;
       let e = (if EnergyModel p = ''current''
             then (EIDD5B p - EIDD3N p) * real (unat (tRFC p)) / real (unat (BANKS p)) else Eref p);
       Some (True, sa\<lparr>state := SUBARRAY_REFRESHING, subArrayEnergy := subArrayEnergy sa + e,
             refreshEnergy := refreshEnergy sa + e\<rparr>, s)
     }
   })"

section \<open>Issuing\<close>

definition SubArray_NextIssuable :: "OpType \<Rightarrow> SubArray \<Rightarrow> ncycle_t" where
  "SubArray_NextIssuable ty sa =
     (case ty of
        ACTIVATE \<Rightarrow> nextActivate sa
      | READ \<Rightarrow> nextRead sa
      | WRITE \<Rightarrow> nextWrite sa
      | PRECHARGE \<Rightarrow> nextPrecharge sa
      | _ \<Rightarrow> 0)"

text \<open>Whether the write in progress, if any, must not be interrupted.\<close>

definition write_forced :: "Params \<Rightarrow> SubArray \<Rightarrow> sim \<Rightarrow> bool option" where
  "write_forced p sa s =
     (if WritePausing p \<and> isWriting sa
      then do { wp \<leftarrow> writeRequest sa; wr \<leftarrow> requests s wp; Some (has_flag wr FLAG_FORCED) }
      else Some False)"

definition SubArray_IsIssuable ::
  "Params \<Rightarrow> NVMainRequest \<Rightarrow> SubArray \<Rightarrow> sim \<Rightarrow> (bool \<times> FailReasons option \<times> SubArray) option" where
  "SubArray_IsIssuable p r sa s =
     (let now = GetCurrentCycle s;
          ok = Some (True, None, sa);
          refuse = Some (False, Some SUBARRAY_TIMING, sa)
      in if nextCommand sa \<noteq> CMD_NOP then Some (False, None, sa)
      else case rtype r of
        ACTIVATE \<Rightarrow>
          if now < nextActivate sa
          then Some (False, Some SUBARRAY_TIMING, sa\<lparr>actWaits := actWaits sa + 1,
                 actWaitTotal := actWaitTotal sa + (nextActivate sa - now)\<rparr>)
          else if UsePrecharge p \<and> state sa \<noteq> SUBARRAY_CLOSED then refuse
          else do {
            forced \<leftarrow> write_forced p sa s;
            if forced \<or> (WritePausing p \<and> isWriting sa \<and> \<not> has_flag r FLAG_PRIORITY) then refuse else ok
          }
      | READ \<Rightarrow>
          if now < nextRead sa \<or> state sa \<noteq> SUBARRAY_OPEN \<or> row (address r) \<noteq> openRow sa then refuse
          else do { forced \<leftarrow> write_forced p sa s; if forced then refuse else ok }
      | READ_PRECHARGE \<Rightarrow>
          if now < nextRead sa \<or> state sa \<noteq> SUBARRAY_OPEN \<or> row (address r) \<noteq> openRow sa then refuse
          else do { forced \<leftarrow> write_forced p sa s; if forced then refuse else ok }
      | WRITE \<Rightarrow>
          if now < nextWrite sa \<or> state sa \<noteq> SUBARRAY_OPEN \<or> row (address r) \<noteq> openRow sa then refuse else ok
      | WRITE_PRECHARGE \<Rightarrow>
          if now < nextWrite sa \<or> state sa \<noteq> SUBARRAY_OPEN \<or> row (address r) \<noteq> openRow sa then refuse else ok
      | PRECHARGE \<Rightarrow>
          if now < nextPrecharge sa \<or> (state sa \<noteq> SUBARRAY_OPEN \<and> state sa \<noteq> SUBARRAY_CLOSED) then refuse else ok
      | PRECHARGE_ALL \<Rightarrow>
          if now < nextPrecharge sa \<or> (state sa \<noteq> SUBARRAY_OPEN \<and> state sa \<noteq> SUBARRAY_CLOSED) then refuse else ok
      | POWERDOWN_PDA \<Rightarrow> if now < nextPowerDown sa \<or> isWriting sa then refuse else ok
      | POWERDOWN_PDPF \<Rightarrow> if now < nextPowerDown sa \<or> isWriting sa then refuse else ok
      | POWERDOWN_PDPS \<Rightarrow> if now < nextPowerDown sa \<or> isWriting sa then refuse else ok
      | POWERUP \<Rightarrow> ok
      | REFRESH \<Rightarrow> if now < nextActivate sa \<or> (state sa \<noteq> SUBARRAY_CLOSED \<and> UsePrecharge p) then refuse else ok
      | _ \<Rightarrow> Some (False, Some UNSUPPORTED_COMMAND, sa))"

definition SubArray_IssueCommand :: "Params \<Rightarrow> req_ptr \<Rightarrow> SubArray \<times> sim \<Rightarrow> (bool \<times> SubArray \<times> sim) option" where
  "SubArray_IssueCommand p rp st = (case st of (sa, s) \<Rightarrow> do {
     r \<leftarrow> requests s rp;
     (ok, _, sa) \<leftarrow> SubArray_IsIssuable p r sa s;
     if \<not> ok then Some (False, sa, s)
     else case rtype r of
       ACTIVATE \<Rightarrow> SubArray_Activate p rp (sa, s)
     | READ \<Rightarrow> SubArray_Read p rp (sa, s)
     | READ_PRECHARGE \<Rightarrow> SubArray_Read p rp (sa, s)
     | WRITE \<Rightarrow> SubArray_Write p rp (sa, s)
     | WRITE_PRECHARGE \<Rightarrow> SubArray_Write p rp (sa, s)
     | PRECHARGE \<Rightarrow> SubArray_Precharge p rp (sa, s)
     | PRECHARGE_ALL \<Rightarrow> SubArray_Precharge p rp (sa, s)
     | REFRESH \<Rightarrow> SubArray_Refresh p rp (sa, s)
     | _ \<Rightarrow> Some (True, sa, s)
   })"

section \<open>Completion\<close>

definition complete_write :: "req_ptr \<Rightarrow> NVMainRequest \<Rightarrow> SubArray \<Rightarrow> SubArray" where
  "complete_write rp r sa =
     (if rtype r = WRITE \<or> rtype r = WRITE_PRECHARGE
      then (let sa = (if writeRequest sa = Some rp then sa\<lparr>isWriting := False\<rparr> else sa)
            in if \<not> (has_flag r FLAG_PAUSED \<or> has_flag r FLAG_CANCELLED)
               then sa\<lparr>averagePausesPerRequest :=
                        (averagePausesPerRequest sa * real (unat (measuredPauses sa)) + real (unat (cancellations r)))
                          / (real (unat (measuredPauses sa)) + 1),
                      measuredPauses := measuredPauses sa + 1,
                      cancelCountMap := omap_set (cancellations r)
                        (case map_of (cancelCountMap sa) (cancellations r) of None \<Rightarrow> 0 | Some n \<Rightarrow> n + 1)
                        (cancelCountMap sa)\<rparr>
               else sa)
      else sa)"

definition SubArray_RequestComplete ::
  "Params \<Rightarrow> req_ptr \<Rightarrow> SubArray \<times> sim \<Rightarrow> (bool \<times> SubArray \<times> sim) option" where
  "SubArray_RequestComplete p rp st = (case st of (sa, s) \<Rightarrow> do {
     r \<leftarrow> requests s rp;
     let sa = complete_write rp r sa;
     if owner r \<noteq> Some (this sa) then Some (True, sa, s)
     else case rtype r of
       READ_PRECHARGE \<Rightarrow> do {
         let s = put_request rp (r\<lparr>rtype := PRECHARGE\<rparr>) s;
         s \<leftarrow> insert_response (this sa) rp (GetCurrentCycle s + tRP p) s;
         Some (False, sa\<lparr>state := SUBARRAY_PRECHARGING\<rparr>, s)
       }
     | WRITE_PRECHARGE \<Rightarrow> do {
         let s = put_request rp (r\<lparr>rtype := PRECHARGE\<rparr>) s;
         s \<leftarrow> insert_response (this sa) rp (GetCurrentCycle s + tRP p) s;
         Some (False, sa\<lparr>state := SUBARRAY_PRECHARGING\<rparr>, s)
       }
     | PRECHARGE \<Rightarrow> do {
         s \<leftarrow> delete_request rp s;
         Some (False, sa\<lparr>state := SUBARRAY_CLOSED, openRow := ROWS p, precharges := precharges sa + 1\<rparr>, s)
       }
     | PRECHARGE_ALL \<Rightarrow> do {
         s \<leftarrow> delete_request rp s;
         Some (False, sa\<lparr>state := SUBARRAY_CLOSED, openRow := ROWS p, precharges := precharges sa + 1\<rparr>, s)
       }
     | REFRESH \<Rightarrow> do {
         s \<leftarrow> delete_request rp s;
         let sa = (if UsePrecharge p then sa\<lparr>state := SUBARRAY_CLOSED, openRow := ROWS p\<rparr>
                   else sa\<lparr>state := SUBARRAY_OPEN\<rparr>);
         Some (False, sa\<lparr>refreshes := refreshes sa + 1\<rparr>, s)
       }
     | _ \<Rightarrow> do { s \<leftarrow> delete_request rp s; Some (False, sa, s) }
   })"

definition SubArray_Idle :: "SubArray \<Rightarrow> bool" where
  "SubArray_Idle sa \<longleftrightarrow> state sa = SUBARRAY_CLOSED \<or> state sa = SUBARRAY_PRECHARGING"

text \<open>The statistics at the end of a run; the average of no waits, a NaN in the code, is \<open>None\<close>.\<close>

definition SubArray_CalculateStats :: "SubArray \<Rightarrow> SubArray option" where
  "SubArray_CalculateStats sa = do {
     m \<leftarrow> endrModel sa;
     Some (sa\<lparr>worstCaseEndurance := GetWorstLife m, averageEndurance := GetAverageLife m,
       actWaitAverage := (if actWaits sa = 0 then None
         else Some (real (unat (actWaitTotal sa)) / real (unat (actWaits sa))))\<rparr>)
   }"

end
