(* ===== verification/NVM_Object.thy ===== *)
theory NVM_Object
  imports NVM_Sim Address_Translator
begin

text \<open>
  \<^verbatim>\<open>src/NVmain/src/NVMObject.cpp\<close>: what every memory module inherits. A module selects one of its
  children with its decoder or by index; a completed request is deleted by its owner and passed to
  the parent by everybody else. Hooks of a child are identified with the child, as they are when no
  hook object is configured.
\<close>

section \<open>Children\<close>

text \<open>\<^verbatim>\<open>GetChild( req )\<close>: the field of the decoder picks the child; the vector is not
  checked, so an index past its end is undefined. The translation updates the decoder.\<close>

definition GetChild_req ::
  "NVMainRequest \<Rightarrow> AddressTranslator \<Rightarrow> 'c list \<Rightarrow> (nat \<times> AddressTranslator) option" where
  "GetChild_req r dec cs = do {
     (child, dec) \<leftarrow> TranslateRequest (\<lambda>_. 0) r dec;
     if unat child < length cs then Some (unat child, dec) else None
   }"

text \<open>\<^verbatim>\<open>GetChild( child )\<close>: the index is asserted to be in range.\<close>

definition GetChild_idx :: "ncounter_t \<Rightarrow> 'c list \<Rightarrow> nat option" where
  "GetChild_idx child cs = do { cpp_assert (unat child < length cs); Some (unat child) }"

section \<open>Completion\<close>

text \<open>\<^verbatim>\<open>RequestComplete\<close>: the result tells whether the request goes on to the parent.\<close>

definition NVMObject_RequestComplete :: "obj_id \<Rightarrow> req_ptr \<Rightarrow> sim \<Rightarrow> (bool \<times> sim) option" where
  "NVMObject_RequestComplete me rp s = do {
     r \<leftarrow> requests s rp;
     if owner r = Some me then do { s \<leftarrow> delete_request rp s; Some (False, s) }
     else Some (True, s)
   }"

section \<open>Rules\<close>

lemma TranslateRequest_field: "TranslateRequest g r tr = Some (c, tr') \<Longrightarrow> defaultField tr' = defaultField tr"
  by (auto simp: TranslateRequest_def TranslateField_def TranslateAll_def Let_def bind_eq_Some_conv
      split: if_splits option.splits)

lemma GetChild_req_post [nvm_post]:
  assumes "\<And>i dec'. i < length cs \<Longrightarrow> defaultField dec' = defaultField dec \<Longrightarrow> Q (i, dec')"
  shows "post (GetChild_req r dec cs) Q"
  unfolding GetChild_req_def
  by (intro post_bind post_any_pair [of "TranslateRequest g r dec" for g] nvm_post) (auto intro: assms TranslateRequest_field)

text \<open>A translated request goes to the child that its field names.\<close>

lemma GetChild_translated:
  assumes "translated (address r)" "defaultField dec = SUBARRAY_FIELD" "GetChild_req r dec cs = Some (i, dec')"
  shows "i = unat (subarray (address r))"
  using assms by (auto simp: GetChild_req_def TranslateRequest_def split: if_splits)

lemma GetChild_idx_post [nvm_post]:
  assumes "\<And>i. i < length cs \<Longrightarrow> i = unat child \<Longrightarrow> Q i"
  shows "post (GetChild_idx child cs) Q"
  unfolding GetChild_idx_def by (intro nvm_post) (simp add: assms)

lemma NVMObject_RequestComplete_post [nvm_post]:
  assumes "\<And>b s'. GetCurrentCycle s' = GetCurrentCycle s \<Longrightarrow> Q (b, s')"
  shows "post (NVMObject_RequestComplete me rp s) Q"
  unfolding NVMObject_RequestComplete_def delete_request_def
  by (intro nvm_post; rule assms; simp)

end
