(* ===== verification/Ddr3_Bank.thy ===== *)
theory Ddr3_Bank
  imports Sub_Array NVM_Object
begin

text \<open>
  \<^verbatim>\<open>src/NVmain/Banks/DDR3Bank/DDR3Bank.cpp\<close>: a bank of sub-arrays. The bank keeps its own earliest
  issue times and power state and the queue of the sub-arrays with an open row; every command is
  checked and issued in the bank and then in the sub-array that the decoder selects. The operations
  take the parameters, the address of the request and the pair of the bank and the shared state.
\<close>

section \<open>State\<close>

datatype DDR3BankState =
  DDR3BANK_UNKNOWN | DDR3BANK_OPEN | DDR3BANK_CLOSED | DDR3BANK_PDPF | DDR3BANK_PDA | DDR3BANK_PDPS

record BankStats =
  bk_dataCycles :: ncounter_t
  bk_activeCycles :: ncounter_t
  bk_standbyCycles :: ncounter_t
  bk_fastExitActiveCycles :: ncounter_t
  bk_fastExitPrechargeCycles :: ncounter_t
  bk_slowExitPrechargeCycles :: ncounter_t
  bk_powerCycles :: ncounter_t
  bk_actWaits :: ncounter_t
  bk_actWaitTotal :: ncounter_t
  bk_actWaitAverage :: "real option"
  bankEnergy :: real
  bk_activeEnergy :: real
  bk_burstEnergy :: real
  bk_refreshEnergy :: real
  bankPower :: real
  activePower :: real
  burstPower :: real
  refreshPower :: real
  utilization :: real
  bandwidth :: real
  dummyStat :: int
  bk_averageEndurance :: u64
  bk_worstCaseEndurance :: u64
  bk_reads :: ncounter_t
  bk_writes :: ncounter_t
  bk_activates :: ncounter_t
  bk_precharges :: ncounter_t
  bk_refreshes :: ncounter_t
  bk_idleTimer :: ncounter_t

record DDR3Bank = BankStats +
  bk_this :: obj_id
  bk_children :: "SubArray list"
  bk_decoder :: AddressTranslator
  activeSubArrayQueue :: "ncounter_t list"
  MATWidth :: ncounter_t
  bk_MATHeight :: ncounter_t
  subArrayNum :: ncounter_t
  bk_state :: DDR3BankState
  bk_nextCommand :: BulkCommand
  bk_lastActivate :: ncycle_t
  bk_nextActivate :: ncycle_t
  bk_nextPrecharge :: ncycle_t
  bk_nextRead :: ncycle_t
  bk_nextWrite :: ncycle_t
  nextRefresh :: ncycle_t
  nextRefreshDone :: ncycle_t
  bk_nextPowerDown :: ncycle_t
  nextPowerDownDone :: ncycle_t
  bk_nextPowerUp :: ncycle_t
  bk_writeCycle :: bool
  bk_writeMode :: WriteMode
  bk_openRow :: u64
  bankId :: ncounter_t

text \<open>The constructor; \<open>g\<close> is the memory it is given.\<close>

definition DDR3Bank_new :: "obj_id \<Rightarrow> DDR3Bank \<Rightarrow> DDR3Bank" where
  "DDR3Bank_new oid g = g\<lparr>
     bk_this := oid, bk_children := [], bk_nextActivate := 0, bk_nextPrecharge := 0, bk_nextRead := 0,
     bk_nextWrite := 0, nextRefresh := 0, nextRefreshDone := 0, bk_nextPowerDown := 0,
     nextPowerDownDone := 0, bk_nextPowerUp := 0, bk_nextCommand := CMD_NOP, dummyStat := 0,
     subArrayNum := 0, activeSubArrayQueue := [], MATWidth := 512, bk_MATHeight := 512,
     bk_state := DDR3BANK_CLOSED, bk_lastActivate := 0, bk_openRow := 0, bankEnergy := 0,
     bk_activeEnergy := 0, bk_burstEnergy := 0, bk_refreshEnergy := 0, bankPower := 0,
     activePower := 0, burstPower := 0, refreshPower := 0, bandwidth := 0, bk_dataCycles := 0,
     bk_powerCycles := 0, utilization := 0, bk_activeCycles := 0, bk_standbyCycles := 0,
     bk_fastExitActiveCycles := 0, bk_fastExitPrechargeCycles := 0, bk_slowExitPrechargeCycles := 0,
     bk_writeCycle := False, bk_writeMode := WRITE_THROUGH, bk_idleTimer := 0, bk_reads := 0,
     bk_writes := 0, bk_activates := 0, bk_precharges := 0, bk_refreshes := 0, bk_actWaits := 0,
     bk_actWaitTotal := 0, bk_actWaitAverage := Some 0, bk_averageEndurance := 0,
     bk_worstCaseEndurance := 0, bankId := - 1\<rparr>"

text \<open>
  \<^verbatim>\<open>SetConfig\<close>: \<open>mw\<close> is the configured MAT width, \<open>dec\<close> the decoder that the factory makes,
  configured with the parent's translation method and the sub-array field, and \<open>mk i\<close> the
  \<open>i\<close>-th sub-array after its own configuration. A zero MAT height divides by zero.
\<close>

definition DDR3Bank_SetConfig ::
  "Params \<Rightarrow> ncounter_t option \<Rightarrow> bool \<Rightarrow> AddressTranslator \<Rightarrow> (nat \<Rightarrow> SubArray) \<Rightarrow> DDR3Bank \<Rightarrow> DDR3Bank option" where
  "DDR3Bank_SetConfig p mw createChildren dec mk b = do {
     let b = (case mw of None \<Rightarrow> b | Some w \<Rightarrow> b\<lparr>MATWidth := w\<rparr>);
     let b = b\<lparr>bk_MATHeight := MATHeight p\<rparr>;
     cpp_assert (bk_MATHeight b \<noteq> 0);
     let b = b\<lparr>subArrayNum := ROWS p div bk_MATHeight b\<rparr>;
     let b = (if createChildren
           then b\<lparr>bk_decoder := dec\<lparr>defaultField := SUBARRAY_FIELD\<rparr>,
                  bk_children := bk_children b @ map mk [0..<unat (subArrayNum b)]\<rparr>
           else b);
     Some (if InitPD p then b\<lparr>bk_state := DDR3BANK_PDPF\<rparr> else b)
   }"

section \<open>Children\<close>

text \<open>Issuing to, and asking, the \<open>i\<close>-th sub-array.\<close>

definition bank_issue_child :: "Params \<Rightarrow> nat \<Rightarrow> req_ptr \<Rightarrow> DDR3Bank \<times> sim \<Rightarrow> (bool \<times> DDR3Bank \<times> sim) option" where
  "bank_issue_child p i rp st = (case st of (b, s) \<Rightarrow> do {
     (ok, sa, s) \<leftarrow> SubArray_IssueCommand p rp (bk_children b ! i, s);
     Some (ok, b\<lparr>bk_children := (bk_children b)[i := sa]\<rparr>, s)
   })"

definition bank_child_issuable ::
  "Params \<Rightarrow> nat \<Rightarrow> NVMainRequest \<Rightarrow> DDR3Bank \<Rightarrow> sim \<Rightarrow> (bool \<times> FailReasons option \<times> DDR3Bank) option" where
  "bank_child_issuable p i r b s = do {
     (ok, why, sa) \<leftarrow> SubArray_IsIssuable p r (bk_children b ! i) s;
     Some (ok, why, b\<lparr>bk_children := (bk_children b)[i := sa]\<rparr>)
   }"

definition bank_ask ::
  "Params \<Rightarrow> NVMainRequest \<Rightarrow> DDR3Bank \<Rightarrow> sim \<Rightarrow> (bool \<times> FailReasons option \<times> DDR3Bank) option" where
  "bank_ask p r b s = do {
     (i, dec) \<leftarrow> GetChild_req r (bk_decoder b) (bk_children b);
     bank_child_issuable p i r (b\<lparr>bk_decoder := dec\<rparr>) s
   }"

definition bank_forward :: "Params \<Rightarrow> req_ptr \<Rightarrow> DDR3Bank \<times> sim \<Rightarrow> (bool \<times> DDR3Bank \<times> sim) option" where
  "bank_forward p rp st = (case st of (b, s) \<Rightarrow> do {
     r \<leftarrow> requests s rp;
     (i, dec) \<leftarrow> GetChild_req r (bk_decoder b) (bk_children b);
     bank_issue_child p i rp (b\<lparr>bk_decoder := dec\<rparr>, s)
   })"

text \<open>The sub-arrays of a list are asked in turn until one refuses.\<close>

fun bank_ask_all ::
  "Params \<Rightarrow> NVMainRequest \<Rightarrow> ncounter_t list \<Rightarrow> DDR3Bank \<Rightarrow> sim \<Rightarrow> (bool \<times> FailReasons option \<times> DDR3Bank) option" where
  "bank_ask_all p r [] b s = Some (True, None, b)"
| "bank_ask_all p r (c # cs) b s = do {
     i \<leftarrow> GetChild_idx c (bk_children b);
     (ok, why, b) \<leftarrow> bank_child_issuable p i r b s;
     if ok then bank_ask_all p r cs b s else Some (False, why, b)
   }"

section \<open>Power\<close>

definition Bank_PowerDown :: "Params \<Rightarrow> NVMainRequest \<Rightarrow> DDR3Bank \<Rightarrow> sim \<Rightarrow> (bool \<times> DDR3Bank) option" where
  "Bank_PowerDown p r b s =
     (if bk_nextPowerDown b \<le> GetCurrentCycle s \<and> (bk_state b = DDR3BANK_OPEN \<or> bk_state b = DDR3BANK_CLOSED)
      then do {
        let b = b\<lparr>bk_nextPowerUp := max (bk_nextPowerUp b) (GetCurrentCycle s + tPD p)\<rparr>;
        if bk_state b = DDR3BANK_OPEN then do {
          cpp_assert (rtype r = POWERDOWN_PDA);
          Some (True, b\<lparr>bk_state := DDR3BANK_PDA\<rparr>)
        }
        else Some (True, b\<lparr>bk_state := (case rtype r of
              POWERDOWN_PDA \<Rightarrow> DDR3BANK_PDPF
            | POWERDOWN_PDPF \<Rightarrow> DDR3BANK_PDPF
            | POWERDOWN_PDPS \<Rightarrow> DDR3BANK_PDPS
            | _ \<Rightarrow> DDR3BANK_PDPF)\<rparr>)
      }
      else Some (False, b))"

definition Bank_PowerUp :: "Params \<Rightarrow> DDR3Bank \<Rightarrow> sim \<Rightarrow> bool \<times> DDR3Bank" where
  "Bank_PowerUp p b s =
     (let now = GetCurrentCycle s
      in if bk_nextPowerUp b \<le> now
           \<and> (bk_state b = DDR3BANK_PDPF \<or> bk_state b = DDR3BANK_PDPS \<or> bk_state b = DDR3BANK_PDA)
         then (True, b\<lparr>bk_nextPowerDown := max (bk_nextPowerDown b) (now + tXP p),
                bk_nextActivate := max (bk_nextActivate b) (now + tXP p),
                bk_nextPrecharge := max (bk_nextPrecharge b) (now + tXP p),
                bk_nextWrite := max (bk_nextWrite b) (now + tXP p),
                bk_nextRead := max (bk_nextRead b)
                  (now + (if bk_state b = DDR3BANK_PDPS then tXPDLL p else tXP p)),
                bk_state := (if bk_state b = DDR3BANK_PDA then DDR3BANK_OPEN else DDR3BANK_CLOSED)\<rparr>)
         else (False, b))"

section \<open>Commands\<close>

text \<open>The timing updates and the bookkeeping of the open sub-arrays.\<close>

definition bank_read_constraints :: "Params \<Rightarrow> NVMainRequest \<Rightarrow> ncycle_t \<Rightarrow> DDR3Bank \<Rightarrow> DDR3Bank" where
  "bank_read_constraints p r now b =
     (let bursts = burst_gap p * (burstCount r - 1)
      in b\<lparr>bk_nextPowerDown := max (bk_nextPowerDown b)
             (if rtype r = READ_PRECHARGE then now + bursts + tAL p + tRTP p + tRP p
              else bursts + now + tRDPDEN p),
           bk_nextRead := max (bk_nextRead b) (now + burst_gap p * burstCount r),
           bk_nextWrite := max (bk_nextWrite b) (now + bursts + tCAS p + tBURST p + tRTRS p - tCWD p)\<rparr>)"

definition bank_write_constraints :: "Params \<Rightarrow> NVMainRequest \<Rightarrow> ncycle_t \<Rightarrow> DDR3Bank \<Rightarrow> DDR3Bank" where
  "bank_write_constraints p r now b =
     (let bursts = burst_gap p * (burstCount r - 1)
      in b\<lparr>bk_nextPowerDown :=
             (if rtype r = WRITE_PRECHARGE
              then max (bk_nextActivate b) (now + bursts + tAL p + tCWD p + tBURST p + tWR p + tRP p)
              else max (bk_nextPowerDown b) (bursts + now + tWRPDEN p)),
           bk_nextRead := max (bk_nextRead b) (now + bursts + tCWD p + tBURST p + tWTR_L p),
           bk_nextWrite := max (bk_nextWrite b) (now + burst_gap p * burstCount r)\<rparr>)"

definition close_if_idle :: "DDR3Bank \<Rightarrow> DDR3Bank" where
  "close_if_idle b = (if activeSubArrayQueue b = [] then b\<lparr>bk_state := DDR3BANK_CLOSED\<rparr> else b)"

definition deactivate :: "ncounter_t \<Rightarrow> DDR3Bank \<Rightarrow> DDR3Bank" where
  "deactivate sub b = b\<lparr>activeSubArrayQueue := remove1 sub (activeSubArrayQueue b)\<rparr>"

definition Bank_Activate :: "Params \<Rightarrow> req_ptr \<Rightarrow> DDR3Bank \<times> sim \<Rightarrow> (bool \<times> DDR3Bank \<times> sim) option" where
  "Bank_Activate p rp st = (case st of (b, s) \<Rightarrow> do {
     let now = GetCurrentCycle s;
     if now < bk_nextActivate b then Some (False, b, s)
     else if bk_state b \<noteq> DDR3BANK_CLOSED \<and> activeSubArrayQueue b = [] then Some (False, b, s)
     else do {
       r \<leftarrow> requests s rp;
       let b = b\<lparr>bk_nextPowerDown := max (bk_nextPowerDown b) (now + tRCD p)\<rparr>;
       (ok, b, s) \<leftarrow> bank_forward p rp (b, s);
       Some (ok, if ok then b\<lparr>bk_openRow := row (address r), bk_state := DDR3BANK_OPEN,
               activeSubArrayQueue := subarray (address r) # activeSubArrayQueue b,
               bk_activates := bk_activates b + 1\<rparr> else b, s)
     }
   })"

definition Bank_Read :: "Params \<Rightarrow> req_ptr \<Rightarrow> DDR3Bank \<times> sim \<Rightarrow> (bool \<times> DDR3Bank \<times> sim) option" where
  "Bank_Read p rp st = (case st of (b, s) \<Rightarrow> do {
     let now = GetCurrentCycle s;
     if now < bk_nextRead b then Some (False, b, s)
     else if bk_state b \<noteq> DDR3BANK_OPEN then Some (False, b, s)
     else do {
       r \<leftarrow> requests s rp;
       (ok, b, s) \<leftarrow> bank_forward p rp (bank_read_constraints p r now b, s);
       let b = (if ok \<and> rtype r = READ_PRECHARGE
             then close_if_idle (deactivate (subarray (address r)) (b\<lparr>bk_precharges := bk_precharges b + 1\<rparr>))
             else b);
       Some (ok, if ok then b\<lparr>bk_dataCycles := bk_dataCycles b + tBURST p, bk_reads := bk_reads b + 1\<rparr> else b, s)
     }
   })"

definition Bank_Write :: "Params \<Rightarrow> req_ptr \<Rightarrow> DDR3Bank \<times> sim \<Rightarrow> (bool \<times> DDR3Bank \<times> sim) option" where
  "Bank_Write p rp st = (case st of (b, s) \<Rightarrow> do {
     let now = GetCurrentCycle s;
     if now < bk_nextWrite b then Some (False, b, s)
     else if bk_state b \<noteq> DDR3BANK_OPEN then Some (False, b, s)
     else do {
       r \<leftarrow> requests s rp;
       (ok, b, s) \<leftarrow> bank_forward p rp (bank_write_constraints p r now b, s);
       let b = (if ok then b\<lparr>bk_dataCycles := bk_dataCycles b + tBURST p, bk_writeCycle := True,
               bk_writes := bk_writes b + 1\<rparr> else b);
       Some (ok, if ok \<and> rtype r = WRITE_PRECHARGE
             then close_if_idle (deactivate (subarray (address r)) (b\<lparr>bk_precharges := bk_precharges b + 1\<rparr>))
             else b, s)
     }
   })"

text \<open>\<^verbatim>\<open>PRECHARGE_ALL\<close> closes the open sub-arrays from the front of the queue: all but the last with
  a copy of the request, the last with the request itself.\<close>

fun precharge_all ::
  "Params \<Rightarrow> req_ptr \<Rightarrow> ncounter_t list \<Rightarrow> DDR3Bank \<times> sim \<Rightarrow> (bool \<times> DDR3Bank \<times> sim) option" where
  "precharge_all p rp [] (b, s) = Some (True, b, s)"
| "precharge_all p rp [c] (b, s) = do {
     let b = b\<lparr>activeSubArrayQueue := []\<rparr>;
     i \<leftarrow> GetChild_idx c (bk_children b);
     bank_issue_child p i rp (b, s)
   }"
| "precharge_all p rp (c # c' # cs) (b, s) = do {
     let b = b\<lparr>activeSubArrayQueue := c' # cs\<rparr>;
     r \<leftarrow> requests s rp;
     (dummyPrecharge, s) \<leftarrow> copy_request (\<lambda>x. x\<lparr>owner := Some (bk_this b)\<rparr>) r s;
     i \<leftarrow> GetChild_idx c (bk_children b);
     (ok, b, s) \<leftarrow> bank_issue_child p i dummyPrecharge (b, s);
     if ok then precharge_all p rp (c' # cs) (b, s) else Some (False, b, s)
   }"

definition Bank_Precharge :: "Params \<Rightarrow> req_ptr \<Rightarrow> DDR3Bank \<times> sim \<Rightarrow> (bool \<times> DDR3Bank \<times> sim) option" where
  "Bank_Precharge p rp st = (case st of (b, s) \<Rightarrow> do {
     let now = GetCurrentCycle s;
     if now < bk_nextPrecharge b then Some (False, b, s)
     else if bk_state b \<noteq> DDR3BANK_CLOSED \<and> bk_state b \<noteq> DDR3BANK_OPEN then Some (False, b, s)
     else do {
       r \<leftarrow> requests s rp;
       let b = b\<lparr>bk_nextPowerDown := max (bk_nextPowerDown b) (now + tRP p)\<rparr>;
       (ok, b, s) \<leftarrow> (if rtype r = PRECHARGE then do {
           (ok, b, s) \<leftarrow> bank_forward p rp (b, s);
           Some (ok, if ok then deactivate (subarray (address r)) b else b, s)
         }
         else if rtype r = PRECHARGE_ALL then precharge_all p rp (activeSubArrayQueue b) (b, s)
         else Some (False, b, s));
       if ok then Some (True, (close_if_idle b)\<lparr>bk_precharges := bk_precharges b + 1\<rparr>, s)
       else Some (False, b, s)
     }
   })"

definition Bank_Refresh :: "Params \<Rightarrow> req_ptr \<Rightarrow> DDR3Bank \<times> sim \<Rightarrow> (bool \<times> DDR3Bank \<times> sim) option" where
  "Bank_Refresh p rp st = (case st of (b, s) \<Rightarrow> do {
     let now = GetCurrentCycle s;
     if now < bk_nextActivate b then Some (False, b, s)
     else do {
       (ok, b, s) \<leftarrow> bank_forward p rp (b\<lparr>bk_nextPowerDown := max (bk_nextPowerDown b) (now + tRFC p)\<rparr>, s);
       Some (ok, if ok then b\<lparr>bk_refreshes := bk_refreshes b + 1\<rparr> else b, s)
     }
   })"

section \<open>Issuing\<close>

definition Bank_NextIssuable :: "NVMainRequest \<Rightarrow> DDR3Bank \<Rightarrow> (ncycle_t \<times> DDR3Bank) option" where
  "Bank_NextIssuable r b = do {
     let nextCompare = (case rtype r of
           ACTIVATE \<Rightarrow> bk_nextActivate b | REFRESH \<Rightarrow> bk_nextActivate b
         | READ \<Rightarrow> bk_nextRead b | READ_PRECHARGE \<Rightarrow> bk_nextRead b
         | WRITE \<Rightarrow> bk_nextWrite b | WRITE_PRECHARGE \<Rightarrow> bk_nextWrite b
         | PRECHARGE \<Rightarrow> bk_nextPrecharge b | PRECHARGE_ALL \<Rightarrow> bk_nextPrecharge b
         | _ \<Rightarrow> 0);
     (i, dec) \<leftarrow> GetChild_req r (bk_decoder b) (bk_children b);
     Some (max (SubArray_NextIssuable (rtype r) (bk_children b ! i)) nextCompare, b\<lparr>bk_decoder := dec\<rparr>)
   }"

definition bank_power_ask ::
  "Params \<Rightarrow> NVMainRequest \<Rightarrow> bool \<Rightarrow> DDR3Bank \<Rightarrow> sim \<Rightarrow> (bool \<times> FailReasons option \<times> DDR3Bank) option" where
  "bank_power_ask p r ok b s = do {
     (rv, _, b) \<leftarrow> bank_ask_all p r (map word_of_nat [0..<unat (subArrayNum b)]) b s;
     Some (ok \<and> rv, if ok then None else Some BANK_TIMING, b)
   }"

definition Bank_IsIssuable ::
  "Params \<Rightarrow> NVMainRequest \<Rightarrow> DDR3Bank \<Rightarrow> sim \<Rightarrow> (bool \<times> FailReasons option \<times> DDR3Bank) option" where
  "Bank_IsIssuable p r b s =
     (let now = GetCurrentCycle s;
          refuse = Some (False, Some BANK_TIMING, b);
          asleep = (bk_state b = DDR3BANK_PDPF \<or> bk_state b = DDR3BANK_PDPS \<or> bk_state b = DDR3BANK_PDA);
          awake = (bk_state b = DDR3BANK_CLOSED \<or> bk_state b = DDR3BANK_OPEN)
      in if bk_nextCommand b \<noteq> CMD_NOP then Some (False, None, b)
      else case rtype r of
        ACTIVATE \<Rightarrow>
          if now < bk_nextActivate b \<or> asleep
          then Some (False, Some BANK_TIMING, b\<lparr>bk_actWaits := bk_actWaits b + 1,
                 bk_actWaitTotal := bk_actWaitTotal b + (bk_nextActivate b - now)\<rparr>)
          else bank_ask p r b s
      | READ \<Rightarrow> if now < bk_nextRead b \<or> bk_state b \<noteq> DDR3BANK_OPEN then refuse else bank_ask p r b s
      | READ_PRECHARGE \<Rightarrow> if now < bk_nextRead b \<or> bk_state b \<noteq> DDR3BANK_OPEN then refuse else bank_ask p r b s
      | WRITE \<Rightarrow> if now < bk_nextWrite b \<or> bk_state b \<noteq> DDR3BANK_OPEN then refuse else bank_ask p r b s
      | WRITE_PRECHARGE \<Rightarrow> if now < bk_nextWrite b \<or> bk_state b \<noteq> DDR3BANK_OPEN then refuse else bank_ask p r b s
      | PRECHARGE \<Rightarrow> if now < bk_nextPrecharge b \<or> \<not> awake then refuse else bank_ask p r b s
      | PRECHARGE_ALL \<Rightarrow>
          if now < bk_nextPrecharge b \<or> \<not> awake then refuse else bank_ask_all p r (activeSubArrayQueue b) b s
      | POWERDOWN_PDA \<Rightarrow> bank_power_ask p r (bk_nextPowerDown b \<le> now \<and> awake) b s
      | POWERDOWN_PDPF \<Rightarrow> bank_power_ask p r (bk_nextPowerDown b \<le> now \<and> bk_state b = DDR3BANK_CLOSED) b s
      | POWERDOWN_PDPS \<Rightarrow> bank_power_ask p r (bk_nextPowerDown b \<le> now \<and> bk_state b = DDR3BANK_CLOSED) b s
      | POWERUP \<Rightarrow> bank_power_ask p r (bk_nextPowerUp b \<le> now \<and> asleep) b s
      | REFRESH \<Rightarrow> if now < bk_nextActivate b \<or> \<not> awake then refuse else bank_ask p r b s
      | _ \<Rightarrow> bank_ask p r b s)"

definition Bank_IssueCommand :: "Params \<Rightarrow> req_ptr \<Rightarrow> DDR3Bank \<times> sim \<Rightarrow> (bool \<times> DDR3Bank \<times> sim) option" where
  "Bank_IssueCommand p rp st = (case st of (b, s) \<Rightarrow> do {
     r \<leftarrow> requests s rp;
     (ok, _, b) \<leftarrow> Bank_IsIssuable p r b s;
     if \<not> ok then Some (False, b, s)
     else case rtype r of
       ACTIVATE \<Rightarrow> Bank_Activate p rp (b, s)
     | READ \<Rightarrow> Bank_Read p rp (b, s)
     | READ_PRECHARGE \<Rightarrow> Bank_Read p rp (b, s)
     | WRITE \<Rightarrow> Bank_Write p rp (b, s)
     | WRITE_PRECHARGE \<Rightarrow> Bank_Write p rp (b, s)
     | PRECHARGE \<Rightarrow> Bank_Precharge p rp (b, s)
     | PRECHARGE_ALL \<Rightarrow> Bank_Precharge p rp (b, s)
     | REFRESH \<Rightarrow> Bank_Refresh p rp (b, s)
     | POWERDOWN_PDA \<Rightarrow> do { (ok, b) \<leftarrow> Bank_PowerDown p r b s; Some (ok, b, s) }
     | POWERDOWN_PDPF \<Rightarrow> do { (ok, b) \<leftarrow> Bank_PowerDown p r b s; Some (ok, b, s) }
     | POWERDOWN_PDPS \<Rightarrow> do { (ok, b) \<leftarrow> Bank_PowerDown p r b s; Some (ok, b, s) }
     | POWERUP \<Rightarrow> (case Bank_PowerUp p b s of (ok, b) \<Rightarrow> Some (ok, b, s))
     | _ \<Rightarrow> bank_forward p rp (b, s)
   })"

text \<open>The response of the \<open>i\<close>-th sub-array: the result tells whether it goes on to the rank.\<close>

definition bank_child_complete ::
  "Params \<Rightarrow> nat \<Rightarrow> req_ptr \<Rightarrow> DDR3Bank \<times> sim \<Rightarrow> (bool \<times> DDR3Bank \<times> sim) option" where
  "bank_child_complete p i rp st = (case st of (b, s) \<Rightarrow> do {
     (up, sa, s) \<leftarrow> SubArray_RequestComplete p rp (bk_children b ! i, s);
     let b = b\<lparr>bk_children := (bk_children b)[i := sa]\<rparr>;
     if \<not> up then Some (False, b, s)
     else do { (up, s) \<leftarrow> NVMObject_RequestComplete (bk_this b) rp s; Some (up, b, s) }
   })"

section \<open>Statistics\<close>

definition Bank_CalculatePower :: "Params \<Rightarrow> sim \<Rightarrow> DDR3Bank \<Rightarrow> DDR3Bank" where
  "Bank_CalculatePower p s b =
     (let t = real (unat (GetCurrentCycle s))
      in if GetCurrentCycle s = 0 then b\<lparr>bankPower := 0, activePower := 0, burstPower := 0, refreshPower := 0\<rparr>
      else if EnergyModel p = ''current''
      then b\<lparr>bankPower := bankEnergy b * Voltage p / t / 1000, activePower := bk_activeEnergy b * Voltage p / t / 1000,
             burstPower := bk_burstEnergy b * Voltage p / t / 1000,
             refreshPower := bk_refreshEnergy b * Voltage p / t / 1000\<rparr>
      else b\<lparr>bankPower := bankEnergy b / (t / 1000000000), activePower := bk_activeEnergy b / (t / 1000000000),
             burstPower := bk_burstEnergy b / (t / 1000000000),
             refreshPower := bk_refreshEnergy b / (t / 1000000000)\<rparr>)"

fun children_stats :: "SubArray list \<Rightarrow> SubArray list option" where
  "children_stats [] = Some []"
| "children_stats (sa # sas) = do {
     sa \<leftarrow> SubArray_CalculateStats sa;
     sas \<leftarrow> children_stats sas;
     Some (sa # sas)
   }"

text \<open>The energies are summed over the first \<open>subArrayNum\<close> children, the endurance over all.\<close>

definition Bank_CalculateStats :: "Params \<Rightarrow> sim \<Rightarrow> DDR3Bank \<Rightarrow> DDR3Bank option" where
  "Bank_CalculateStats p s b = do {
     sas \<leftarrow> children_stats (bk_children b);
     cpp_assert (unat (subArrayNum b) \<le> length sas);
     cpp_assert (sas \<noteq> []);
     let counted = take (unat (subArrayNum b)) sas;
     let ideal = real (unat (CLK p * RATE p * BusWidth p));
     let u = (if bk_activeCycles b \<noteq> 0
           then real (unat (bk_dataCycles b)) / real (unat (bk_activeCycles b + bk_standbyCycles b)) else 0);
     let b = Bank_CalculatePower p s (b\<lparr>bk_children := sas, utilization := u,
           bankEnergy := sum_list (map subArrayEnergy counted), bk_activeEnergy := sum_list (map activeEnergy counted),
           bk_burstEnergy := sum_list (map burstEnergy counted), bk_refreshEnergy := sum_list (map refreshEnergy counted)\<rparr>);
     Some (b\<lparr>bandwidth := u * ideal, bk_powerCycles := bk_activeCycles b + bk_standbyCycles b,
       bk_actWaitAverage := (if bk_actWaits b = 0 then None
         else Some (real (unat (bk_actWaitTotal b)) / real (unat (bk_actWaits b)))),
       bk_worstCaseEndurance := foldl (\<lambda>w sa. if worstCaseEndurance sa < w then worstCaseEndurance sa else w) (- 1) sas,
       bk_averageEndurance := foldl (\<lambda>t sa. t + averageEndurance sa) 0 sas div word_of_nat (length sas)\<rparr>)
   }"

fun children_idle :: "SubArray list \<Rightarrow> ncounter_t list \<Rightarrow> bool option" where
  "children_idle sas [] = Some True"
| "children_idle sas (c # cs) = do {
     i \<leftarrow> GetChild_idx c sas;
     if SubArray_Idle (sas ! i) then children_idle sas cs else Some False
   }"

definition Bank_Idle :: "DDR3Bank \<Rightarrow> bool option" where
  "Bank_Idle b = children_idle (bk_children b) (map word_of_nat [0..<unat (subArrayNum b)])"

definition Bank_Cycle :: "ncycle_t \<Rightarrow> DDR3Bank \<Rightarrow> DDR3Bank" where
  "Bank_Cycle steps b =
     (case bk_state b of
        DDR3BANK_PDPF \<Rightarrow> b\<lparr>bk_fastExitPrechargeCycles := bk_fastExitPrechargeCycles b + steps\<rparr>
      | DDR3BANK_PDA \<Rightarrow> b\<lparr>bk_fastExitActiveCycles := bk_fastExitActiveCycles b + steps\<rparr>
      | DDR3BANK_PDPS \<Rightarrow> b\<lparr>bk_slowExitPrechargeCycles := bk_slowExitPrechargeCycles b + steps\<rparr>
      | DDR3BANK_OPEN \<Rightarrow> b\<lparr>bk_activeCycles := bk_activeCycles b + steps\<rparr>
      | DDR3BANK_CLOSED \<Rightarrow> b\<lparr>bk_standbyCycles := bk_standbyCycles b + steps\<rparr>
      | DDR3BANK_UNKNOWN \<Rightarrow> b)"

end
