(* ===== verification/Standard_Rank.thy ===== *)
theory Standard_Rank
  imports Ddr3_Bank
begin

text \<open>
  \<^verbatim>\<open>src/NVmain/Ranks/StandardRank/StandardRank.cpp\<close>: a rank of banks. The rank keeps the earliest
  times of activations, reads and writes per bank group (\<^verbatim>\<open>sbg_\<close>) and across groups (\<^verbatim>\<open>dbg_\<close>),
  a ring of the last activations for the row activation window, and its power state. The arrays of
  the code are lists; an index past their end is \<open>None\<close>, as is a remainder by zero.
\<close>

section \<open>State\<close>

datatype StandardRank_State =
  STANDARDRANK_UNKNOWN | STANDARDRANK_OPEN | STANDARDRANK_CLOSED | STANDARDRANK_REFRESHING
  | STANDARDRANK_PDPF | STANDARDRANK_PDA | STANDARDRANK_PDPS

record RankStats =
  rk_activeCycles :: ncounter_t
  rk_standbyCycles :: ncounter_t
  rk_fastExitActiveCycles :: ncounter_t
  rk_fastExitPrechargeCycles :: ncounter_t
  rk_slowExitCycles :: ncounter_t
  lastReset :: ncycle_t
  rrdWaits :: ncounter_t
  rrdWaitTotal :: ncounter_t
  rrdWaitAverage :: "real option"
  fawWaits :: ncounter_t
  fawWaitTotal :: ncounter_t
  fawWaitAverage :: "real option"
  rk_actWaits :: ncounter_t
  rk_actWaitTotal :: ncounter_t
  rk_actWaitAverage :: "real option"
  rk_reads :: ncounter_t
  rk_writes :: ncounter_t
  totalEnergy :: real
  backgroundEnergy :: real
  rk_activateEnergy :: real
  rk_burstEnergy :: real
  rk_refreshEnergy :: real
  totalPower :: real
  backgroundPower :: real
  rk_activatePower :: real
  rk_burstPower :: real
  rk_refreshPower :: real

record StandardRank = RankStats +
  rk_this :: obj_id
  rk_children :: "DDR3Bank list"
  rk_decoder :: AddressTranslator
  psInterval :: u64
  rk_state :: StandardRank_State
  bankCount :: ncounter_t
  bankgroupNum :: ncounter_t
  deviceWidth :: ncounter_t
  deviceCount :: ncounter_t
  rk_busWidth :: ncounter_t
  rk_lastActivate :: "ncycle_t list"
  RAWindex :: ncounter_t
  rawNum :: ncounter_t
  banksPerRefresh :: ncounter_t
  sbg_nextRead :: "ncycle_t list"
  sbg_nextWrite :: "ncycle_t list"
  sbg_nextActivate :: "ncycle_t list"
  dbg_nextRead :: ncycle_t
  dbg_nextWrite :: ncycle_t
  dbg_nextActivate :: ncycle_t
  rk_nextPrecharge :: ncycle_t

text \<open>The constructor; \<open>g\<close> is the memory it is given. The three arrays have sixteen elements.\<close>

definition StandardRank_new :: "obj_id \<Rightarrow> StandardRank \<Rightarrow> StandardRank" where
  "StandardRank_new oid g = g\<lparr>
     rk_this := oid, rk_children := [], rk_activeCycles := 0, rk_standbyCycles := 0,
     rk_fastExitActiveCycles := 0, rk_fastExitPrechargeCycles := 0, rk_slowExitCycles := 0,
     totalEnergy := 0, backgroundEnergy := 0, rk_activateEnergy := 0, rk_burstEnergy := 0, rk_refreshEnergy := 0,
     totalPower := 0, backgroundPower := 0, rk_activatePower := 0, rk_burstPower := 0, rk_refreshPower := 0,
     rk_reads := 0, rk_writes := 0, rk_actWaits := 0, rk_actWaitTotal := 0, rk_actWaitAverage := Some 0,
     rrdWaits := 0, rrdWaitTotal := 0, rrdWaitAverage := Some 0,
     fawWaits := 0, fawWaitTotal := 0, fawWaitAverage := Some 0,
     rk_lastActivate := [], RAWindex := 0, rk_state := STANDARDRANK_CLOSED, psInterval := 0, lastReset := 0,
     sbg_nextRead := take 16 (sbg_nextRead g @ replicate 16 0),
     sbg_nextWrite := take 16 (sbg_nextWrite g @ replicate 16 0),
     sbg_nextActivate := take 16 (sbg_nextActivate g @ replicate 16 0)\<rparr>"

text \<open>
  \<^verbatim>\<open>SetConfig\<close>: \<open>raw\<close> is the configured activation window when there is one, \<open>dec\<close> the decoder
  of the factory with the parent's translation method and \<open>mk i\<close> the \<open>i\<close>-th bank after its own
  configuration. More than sixteen bank groups overrun the arrays.
\<close>

definition StandardRank_SetConfig ::
  "Params \<Rightarrow> bool \<Rightarrow> bool \<Rightarrow> AddressTranslator \<Rightarrow> (nat \<Rightarrow> DDR3Bank) \<Rightarrow> StandardRank \<Rightarrow> StandardRank option" where
  "StandardRank_SetConfig p hasRAW createChildren dec mk k = do {
     let k = k\<lparr>deviceWidth := DeviceWidth p, rk_busWidth := BusWidth p, banksPerRefresh := BanksPerRefresh p,
               bankgroupNum := BANKGROUPS p, rawNum := (if hasRAW then RAW p else 4)\<rparr>;
     cpp_assert (rawNum k \<noteq> 0);
     cpp_assert (deviceWidth k \<noteq> 0);
     let k = k\<lparr>deviceCount := rk_busWidth k div deviceWidth k
                 + (if rk_busWidth k mod deviceWidth k \<noteq> 0 then 1 else 0),
               bankCount := BANKS p\<rparr>;
     let k = (if createChildren
           then k\<lparr>rk_decoder := dec\<lparr>defaultField := BANK_FIELD\<rparr>,
                  rk_children := rk_children k @ map mk [0..<unat (bankCount k)]\<rparr>
           else k);
     cpp_assert (unat (bankgroupNum k) \<le> 16);
     let groups = replicate (unat (bankgroupNum k)) (tCMD p);
     Some (k\<lparr>rk_lastActivate := replicate (unat (rawNum k)) 0,
             sbg_nextRead := groups @ drop (length groups) (sbg_nextRead k),
             sbg_nextWrite := groups @ drop (length groups) (sbg_nextWrite k),
             sbg_nextActivate := groups @ drop (length groups) (sbg_nextActivate k),
             dbg_nextRead := tCMD p, dbg_nextWrite := tCMD p, dbg_nextActivate := tCMD p,
             rk_nextPrecharge := tCMD p, fawWaits := 0, rrdWaits := 0, rk_actWaits := 0,
             fawWaitTotal := 0, rrdWaitTotal := 0, rk_actWaitTotal := 0\<rparr>)
   }"

section \<open>Children\<close>

definition rank_issue_child ::
  "Params \<Rightarrow> nat \<Rightarrow> req_ptr \<Rightarrow> StandardRank \<times> sim \<Rightarrow> (bool \<times> StandardRank \<times> sim) option" where
  "rank_issue_child p i rp st = (case st of (k, s) \<Rightarrow> do {
     (ok, b, s) \<leftarrow> Bank_IssueCommand p rp (rk_children k ! i, s);
     Some (ok, k\<lparr>rk_children := (rk_children k)[i := b]\<rparr>, s)
   })"

definition rank_forward :: "Params \<Rightarrow> req_ptr \<Rightarrow> StandardRank \<times> sim \<Rightarrow> (bool \<times> StandardRank \<times> sim) option" where
  "rank_forward p rp st = (case st of (k, s) \<Rightarrow> do {
     r \<leftarrow> requests s rp;
     (i, dec) \<leftarrow> GetChild_req r (rk_decoder k) (rk_children k);
     rank_issue_child p i rp (k\<lparr>rk_decoder := dec\<rparr>, s)
   })"

definition rank_child_issuable ::
  "Params \<Rightarrow> nat \<Rightarrow> NVMainRequest \<Rightarrow> StandardRank \<Rightarrow> sim \<Rightarrow> (bool \<times> FailReasons option \<times> StandardRank) option" where
  "rank_child_issuable p i r k s = do {
     (ok, why, b) \<leftarrow> Bank_IsIssuable p r (rk_children k ! i) s;
     Some (ok, why, k\<lparr>rk_children := (rk_children k)[i := b]\<rparr>)
   }"

definition rank_ask ::
  "Params \<Rightarrow> NVMainRequest \<Rightarrow> StandardRank \<Rightarrow> sim \<Rightarrow> (bool \<times> FailReasons option \<times> StandardRank) option" where
  "rank_ask p r k s = do {
     (i, dec) \<leftarrow> GetChild_req r (rk_decoder k) (rk_children k);
     rank_child_issuable p i r (k\<lparr>rk_decoder := dec\<rparr>) s
   }"

text \<open>The banks of a list are asked in turn until one refuses.\<close>

fun rank_ask_all ::
  "Params \<Rightarrow> NVMainRequest \<Rightarrow> ncounter_t list \<Rightarrow> StandardRank \<Rightarrow> sim \<Rightarrow> (bool \<times> FailReasons option \<times> StandardRank) option" where
  "rank_ask_all p r [] k s = Some (True, None, k)"
| "rank_ask_all p r (c # cs) k s = do {
     i \<leftarrow> GetChild_idx c (rk_children k);
     (ok, why, k) \<leftarrow> rank_child_issuable p i r k s;
     if ok then rank_ask_all p r cs k s else Some (False, why, k)
   }"

text \<open>All banks are asked; the number of those that agree.\<close>

fun rank_ask_count ::
  "Params \<Rightarrow> NVMainRequest \<Rightarrow> ncounter_t list \<Rightarrow> StandardRank \<Rightarrow> sim \<Rightarrow> (nat \<times> StandardRank) option" where
  "rank_ask_count p r [] k s = Some (0, k)"
| "rank_ask_count p r (c # cs) k s = do {
     i \<leftarrow> GetChild_idx c (rk_children k);
     (ok, why, k) \<leftarrow> rank_child_issuable p i r k s;
     (n, k) \<leftarrow> rank_ask_count p r cs k s;
     Some (if ok then Suc n else n, k)
   }"

definition all_children :: "'c list \<Rightarrow> ncounter_t list" where
  "all_children cs = map word_of_nat [0..<length cs]"

fun banks_idle :: "DDR3Bank list \<Rightarrow> ncounter_t list \<Rightarrow> bool option" where
  "banks_idle bs [] = Some True"
| "banks_idle bs (c # cs) = do {
     i \<leftarrow> GetChild_idx c bs;
     idle \<leftarrow> Bank_Idle (bs ! i);
     if idle then banks_idle bs cs else Some False
   }"

definition Rank_Idle :: "StandardRank \<Rightarrow> bool option" where
  "Rank_Idle k = banks_idle (rk_children k) (map word_of_nat [0..<unat (bankCount k)])"

section \<open>Array access\<close>

text \<open>The bank group of a bank, and the reads of the arrays.\<close>

definition bank_group :: "ncounter_t \<Rightarrow> StandardRank \<Rightarrow> nat option" where
  "bank_group b k = do {
     cpp_assert (bankgroupNum k \<noteq> 0);
     cpp_assert (unat (b mod bankgroupNum k) < 16);
     Some (unat (b mod bankgroupNum k))
   }"

definition raw_next :: "StandardRank \<Rightarrow> nat option" where
  "raw_next k = do {
     cpp_assert (rawNum k \<noteq> 0);
     cpp_assert (unat ((RAWindex k + 1) mod rawNum k) < length (rk_lastActivate k));
     Some (unat ((RAWindex k + 1) mod rawNum k))
   }"

definition raise_at :: "nat \<Rightarrow> ncycle_t \<Rightarrow> ncycle_t list \<Rightarrow> ncycle_t list" where
  "raise_at g t xs = xs[g := max (xs ! g) t]"

text \<open>The ring moves on and records the current cycle.\<close>

definition record_activation :: "ncycle_t \<Rightarrow> nat \<Rightarrow> StandardRank \<Rightarrow> StandardRank" where
  "record_activation now i k = k\<lparr>RAWindex := word_of_nat i, rk_lastActivate := (rk_lastActivate k)[i := now]\<rparr>"

section \<open>Commands\<close>

definition Rank_Activate :: "Params \<Rightarrow> req_ptr \<Rightarrow> StandardRank \<times> sim \<Rightarrow> (bool \<times> StandardRank \<times> sim) option" where
  "Rank_Activate p rp st = (case st of (k, s) \<Rightarrow> do {
     r \<leftarrow> requests s rp;
     let now = GetCurrentCycle s;
     if bankCount k \<le> bank (address r) then Some (False, k, s)
     else do {
       g \<leftarrow> bank_group (bank (address r)) k;
       i \<leftarrow> raw_next k;
       if max (sbg_nextActivate k ! g) (dbg_nextActivate k) \<le> now \<and> rk_lastActivate k ! i + tRAW p \<le> now
       then do {
         (_, k, s) \<leftarrow> rank_forward p rp (k, s);
         let k = (if rk_state k = STANDARDRANK_CLOSED then k\<lparr>rk_state := STANDARDRANK_OPEN\<rparr> else k);
         let k = record_activation now i k;
         Some (True, k\<lparr>sbg_nextActivate := raise_at g (now + tRRDR_L p) (sbg_nextActivate k),
                       dbg_nextActivate := max (dbg_nextActivate k) (now + tRRDR_S p)\<rparr>, s)
       }
       else Some (True, k, s)
     }
   })"

definition rank_read_constraints :: "Params \<Rightarrow> NVMainRequest \<Rightarrow> nat \<Rightarrow> ncycle_t \<Rightarrow> StandardRank \<Rightarrow> StandardRank" where
  "rank_read_constraints p r g now k =
     (let gap = max (tBURST p) (tCCD_S p); turn = tCAS p + tBURST p + tRTRS p - tCWD p
      in k\<lparr>sbg_nextRead := raise_at g (now + max (tBURST p) (tCCD_L p)) (sbg_nextRead k),
           sbg_nextWrite := raise_at g (now + turn) (sbg_nextWrite k),
           dbg_nextRead := max (dbg_nextRead k) (now + gap * burstCount r),
           dbg_nextWrite := max (dbg_nextWrite k) (now + gap * (burstCount r - 1) + turn)\<rparr>)"

definition rank_write_constraints :: "Params \<Rightarrow> NVMainRequest \<Rightarrow> nat \<Rightarrow> ncycle_t \<Rightarrow> StandardRank \<Rightarrow> StandardRank" where
  "rank_write_constraints p r g now k =
     (let gap = max (tBURST p) (tCCD_S p)
      in k\<lparr>sbg_nextRead := raise_at g (now + tCWD p + tBURST p + tWTR_L p) (sbg_nextRead k),
           sbg_nextWrite := raise_at g (now + max (tBURST p) (tCCD_L p)) (sbg_nextWrite k),
           dbg_nextRead := max (dbg_nextRead k) (now + gap * (burstCount r - 1) + tCWD p + tBURST p + tWTR_S p),
           dbg_nextWrite := max (dbg_nextWrite k) (now + gap * burstCount r)\<rparr>)"

text \<open>\<^verbatim>\<open>dupPRE\<close>: a new precharge of the rank's own that comes back when the implicit precharge starts.\<close>

definition insert_precharge :: "obj_id \<Rightarrow> ncycle_t \<Rightarrow> sim \<Rightarrow> sim option" where
  "insert_precharge me due s = do {
     let dupPRE = nextReq s;
     let s = (put_request dupPRE (NVMainRequest_new\<lparr>rtype := PRECHARGE, owner := Some me\<rparr>) s)\<lparr>nextReq := Suc dupPRE\<rparr>;
     insert_response me dupPRE due s
   }"

definition Rank_Read :: "Params \<Rightarrow> req_ptr \<Rightarrow> StandardRank \<times> sim \<Rightarrow> (bool \<times> StandardRank \<times> sim) option" where
  "Rank_Read p rp st = (case st of (k, s) \<Rightarrow> do {
     r \<leftarrow> requests s rp;
     let now = GetCurrentCycle s;
     if bankCount k \<le> bank (address r) then Some (False, k, s)
     else do {
       g \<leftarrow> bank_group (bank (address r)) k;
       if now < max (sbg_nextRead k ! g) (dbg_nextRead k) then Some (False, k, s)
       else do {
         (success, k, s) \<leftarrow> rank_forward p rp (k, s);
         let k = rank_read_constraints p r g now k;
         s \<leftarrow> (if rtype r = READ_PRECHARGE
              then insert_precharge (rk_this k) (burst_gap p * (burstCount r - 1) + now + tAL p + tRTP p) s else Some s);
         Some (success, k, s)
       }
     }
   })"

definition Rank_Write :: "Params \<Rightarrow> req_ptr \<Rightarrow> StandardRank \<times> sim \<Rightarrow> (bool \<times> StandardRank \<times> sim) option" where
  "Rank_Write p rp st = (case st of (k, s) \<Rightarrow> do {
     r \<leftarrow> requests s rp;
     let now = GetCurrentCycle s;
     if bankCount k \<le> bank (address r) then Some (False, k, s)
     else do {
       g \<leftarrow> bank_group (bank (address r)) k;
       if now < max (sbg_nextWrite k ! g) (dbg_nextWrite k) then Some (False, k, s)
       else do {
         (success, k, s) \<leftarrow> rank_forward p rp (k, s);
         let k = rank_write_constraints p r g now k;
         s \<leftarrow> (if rtype r = WRITE_PRECHARGE
              then insert_precharge (rk_this k)
                (now + burst_gap p * (burstCount r - 1) + tAL p + tCWD p + tBURST p + tWR p) s else Some s);
         Some (success, k, s)
       }
     }
   })"

definition Rank_Precharge :: "Params \<Rightarrow> req_ptr \<Rightarrow> StandardRank \<times> sim \<Rightarrow> (bool \<times> StandardRank \<times> sim) option" where
  "Rank_Precharge p rp st = (case st of (k, s) \<Rightarrow> do {
     r \<leftarrow> requests s rp;
     let now = GetCurrentCycle s;
     if bankCount k \<le> bank (address r) then Some (False, k, s)
     else do {
       (success, k, s) \<leftarrow> rank_forward p rp (k, s);
       idle \<leftarrow> Rank_Idle k;
       let k = (if idle then k\<lparr>rk_state := STANDARDRANK_CLOSED\<rparr> else k);
       Some (success, k\<lparr>rk_nextPrecharge := max (rk_nextPrecharge k) (now + tPPD p)\<rparr>, s)
     }
   })"

section \<open>Power\<close>

definition CanPowerDown :: "Params \<Rightarrow> NVMainRequest \<Rightarrow> StandardRank \<Rightarrow> sim \<Rightarrow> (bool \<times> StandardRank) option" where
  "CanPowerDown p r k s =
     (if rk_state k = STANDARDRANK_REFRESHING then Some (False, k)
      else do { (ok, _, k) \<leftarrow> rank_ask_all p r (all_children (rk_children k)) k s; Some (ok, k) })"

definition CanPowerUp :: "Params \<Rightarrow> NVMainRequest \<Rightarrow> StandardRank \<Rightarrow> sim \<Rightarrow> (bool \<times> StandardRank) option" where
  "CanPowerUp p r k s = do {
     (issuableCount, k) \<leftarrow> rank_ask_count p r (all_children (rk_children k)) k s;
     cpp_assert (issuableCount = 0 \<or> issuableCount = length (rk_children k));
     Some (issuableCount = length (rk_children k), k)
   }"

text \<open>A command to every bank; in a build with assertions each must accept it.\<close>

fun rank_issue_all ::
  "Params \<Rightarrow> req_ptr \<Rightarrow> ncounter_t list \<Rightarrow> StandardRank \<times> sim \<Rightarrow> (StandardRank \<times> sim) option" where
  "rank_issue_all p rp [] st = Some st"
| "rank_issue_all p rp (c # cs) st = do {
     i \<leftarrow> GetChild_idx c (rk_children (fst st));
     (rv, k, s) \<leftarrow> rank_issue_child p i rp st;
     cpp_assert rv;
     rank_issue_all p rp cs (k, s)
   }"

definition Rank_PowerDown :: "Params \<Rightarrow> req_ptr \<Rightarrow> StandardRank \<times> sim \<Rightarrow> (bool \<times> StandardRank \<times> sim) option" where
  "Rank_PowerDown p rp st = do {
     (k, s) \<leftarrow> rank_issue_all p rp (all_children (rk_children (fst st))) st;
     r \<leftarrow> requests s rp;
     let k = (case rtype r of
           POWERDOWN_PDA \<Rightarrow> k\<lparr>rk_state := STANDARDRANK_PDA\<rparr>
         | POWERDOWN_PDPF \<Rightarrow> k\<lparr>rk_state := STANDARDRANK_PDPF\<rparr>
         | POWERDOWN_PDPS \<Rightarrow> k\<lparr>rk_state := STANDARDRANK_PDPS\<rparr>
         | _ \<Rightarrow> k);
     s \<leftarrow> insert_response (rk_this k) rp (GetCurrentCycle s + tPD p) s;
     Some (True, k, s)
   }"

definition Rank_PowerUp :: "Params \<Rightarrow> req_ptr \<Rightarrow> StandardRank \<times> sim \<Rightarrow> (bool \<times> StandardRank \<times> sim) option" where
  "Rank_PowerUp p rp st = do {
     (k, s) \<leftarrow> rank_issue_all p rp (all_children (rk_children (fst st))) st;
     let (k, puTimer) = (case rk_state k of
           STANDARDRANK_PDA \<Rightarrow> (k\<lparr>rk_state := STANDARDRANK_OPEN\<rparr>, tXP p)
         | STANDARDRANK_PDPF \<Rightarrow> (k\<lparr>rk_state := STANDARDRANK_CLOSED\<rparr>, tXP p)
         | STANDARDRANK_PDPS \<Rightarrow> (k\<lparr>rk_state := STANDARDRANK_CLOSED\<rparr>, tXPDLL p)
         | _ \<Rightarrow> (k, 1));
     s \<leftarrow> insert_response (rk_this k) rp (GetCurrentCycle s + puTimer) s;
     Some (True, k, s)
   }"

section \<open>Refresh\<close>

text \<open>Each bank of the group gets a copy of the request; its answer is not looked at.\<close>

fun refresh_banks ::
  "Params \<Rightarrow> req_ptr \<Rightarrow> ncounter_t list \<Rightarrow> StandardRank \<times> sim \<Rightarrow> (StandardRank \<times> sim) option" where
  "refresh_banks p rp [] st = Some st"
| "refresh_banks p rp (c # cs) st = do {
     r \<leftarrow> requests (snd st) rp;
     (refReq, s) \<leftarrow> copy_request id r (snd st);
     i \<leftarrow> GetChild_idx c (rk_children (fst st));
     (_, k, s) \<leftarrow> rank_issue_child p i refReq (fst st, s);
     refresh_banks p rp cs (k, s)
   }"

fun raise_groups :: "ncycle_t \<Rightarrow> ncounter_t list \<Rightarrow> StandardRank \<Rightarrow> StandardRank option" where
  "raise_groups t [] k = Some k"
| "raise_groups t (c # cs) k = do {
     g \<leftarrow> bank_group c k;
     raise_groups t cs (k\<lparr>sbg_nextActivate := raise_at g t (sbg_nextActivate k)\<rparr>)
   }"

definition refresh_group :: "ncounter_t \<Rightarrow> StandardRank \<Rightarrow> ncounter_t list" where
  "refresh_group head k = map (\<lambda>i. head + word_of_nat i) [0..<unat (banksPerRefresh k)]"

definition Rank_Refresh :: "Params \<Rightarrow> req_ptr \<Rightarrow> StandardRank \<times> sim \<Rightarrow> (bool \<times> StandardRank \<times> sim) option" where
  "Rank_Refresh p rp st = (case st of (k, s) \<Rightarrow> do {
     r \<leftarrow> requests s rp;
     let now = GetCurrentCycle s;
     let head = bank (address r);
     cpp_assert (head + banksPerRefresh k \<le> bankCount k);
     (k, s) \<leftarrow> refresh_banks p rp (refresh_group head k) (k, s);
     let k = k\<lparr>rk_state := STANDARDRANK_REFRESHING\<rparr>;
     r \<leftarrow> requests s rp;
     let s = put_request rp (r\<lparr>owner := Some (rk_this k)\<rparr>) s;
     s \<leftarrow> insert_response (rk_this k) rp (now + tRFC p) s;
     k \<leftarrow> raise_groups (now + tRRDR_L p) (refresh_group head k) k;
     i \<leftarrow> raw_next k;
     Some (True, record_activation now i (k\<lparr>dbg_nextActivate := max (dbg_nextActivate k) (now + tRRDR_L p)\<rparr>), s)
   })"

section \<open>Issuing\<close>

definition Rank_NextIssuable :: "Params \<Rightarrow> NVMainRequest \<Rightarrow> StandardRank \<Rightarrow> (ncycle_t \<times> StandardRank) option" where
  "Rank_NextIssuable p r k = do {
     nextCompare \<leftarrow> (if rtype r = ACTIVATE \<or> rtype r = REFRESH then do {
           g \<leftarrow> bank_group (bank (address r)) k;
           i \<leftarrow> raw_next k;
           Some (max (max (sbg_nextActivate k ! g) (dbg_nextActivate k)) (rk_lastActivate k ! i + tRAW p))
         }
         else if rtype r = READ \<or> rtype r = READ_PRECHARGE then do {
           g \<leftarrow> bank_group (bank (address r)) k;
           Some (max (sbg_nextRead k ! g) (dbg_nextRead k))
         }
         else if rtype r = WRITE \<or> rtype r = WRITE_PRECHARGE then do {
           g \<leftarrow> bank_group (bank (address r)) k;
           Some (max (sbg_nextWrite k ! g) (dbg_nextWrite k))
         }
         else if rtype r = PRECHARGE \<or> rtype r = PRECHARGE_ALL then Some (rk_nextPrecharge k)
         else None);
     (i, dec) \<leftarrow> GetChild_req r (rk_decoder k) (rk_children k);
     (t, b) \<leftarrow> Bank_NextIssuable r (rk_children k ! i);
     Some (max t nextCompare, k\<lparr>rk_decoder := dec, rk_children := (rk_children k)[i := b]\<rparr>)
   }"

text \<open>The statistics of a refused activation.\<close>

definition count_waits :: "Params \<Rightarrow> ncycle_t \<Rightarrow> nat \<Rightarrow> nat \<Rightarrow> StandardRank \<Rightarrow> StandardRank option" where
  "count_waits p now g i k = do {
     let k = (if now < max (sbg_nextActivate k ! g) (dbg_nextActivate k)
           then k\<lparr>rk_actWaits := rk_actWaits k + 1, rk_actWaitTotal := rk_actWaitTotal k + (sbg_nextActivate k ! g - now)\<rparr>
           else k);
     cpp_assert (unat (RAWindex k) < length (rk_lastActivate k));
     let rrd = rk_lastActivate k ! unat (RAWindex k) + tRRDR_L p;
     let k = (if now < rrd then k\<lparr>rrdWaits := rrdWaits k + 1, rrdWaitTotal := rrdWaitTotal k + (rrd - now)\<rparr> else k);
     let faw = rk_lastActivate k ! i + tRAW p;
     Some (if now < faw then k\<lparr>fawWaits := fawWaits k + 1, fawWaitTotal := fawWaitTotal k + (faw - now)\<rparr> else k)
   }"

definition rank_activate_ask ::
  "Params \<Rightarrow> NVMainRequest \<Rightarrow> StandardRank \<Rightarrow> sim \<Rightarrow> (bool \<times> FailReasons option \<times> StandardRank) option" where
  "rank_activate_ask p r k s = do {
     let now = GetCurrentCycle s;
     g \<leftarrow> bank_group (bank (address r)) k;
     i \<leftarrow> raw_next k;
     (rv, why, k) \<leftarrow> (if now < max (sbg_nextActivate k ! g) (dbg_nextActivate k) \<or> now < rk_lastActivate k ! i + tRAW p
         then Some (False, Some RANK_TIMING, k) else rank_ask p r k s);
     if rv then Some (True, why, k) else do { k \<leftarrow> count_waits p now g i k; Some (False, why, k) }
   }"

text \<open>The largest activation time over the first groups, as the loop of \<^verbatim>\<open>REFRESH\<close> computes it.\<close>

fun max_group :: "StandardRank \<Rightarrow> ncounter_t list \<Rightarrow> ncycle_t \<Rightarrow> ncycle_t option" where
  "max_group k [] m = Some m"
| "max_group k (c # cs) m = do { g \<leftarrow> bank_group c k; max_group k cs (max (sbg_nextActivate k ! g) m) }"

definition rank_refresh_ask ::
  "Params \<Rightarrow> NVMainRequest \<Rightarrow> StandardRank \<Rightarrow> sim \<Rightarrow> (bool \<times> FailReasons option \<times> StandardRank) option" where
  "rank_refresh_ask p r k s = do {
     let now = GetCurrentCycle s;
     maxCycle \<leftarrow> max_group k (refresh_group 0 k) 0;
     i \<leftarrow> raw_next k;
     if now < maxCycle \<or> now < rk_lastActivate k ! i + tRAW p then Some (False, Some RANK_TIMING, k)
     else do {
       cpp_assert (bank (address r) + banksPerRefresh k \<le> bankCount k);
       rank_ask_all p r (refresh_group (bank (address r)) k) k s
     }
   }"

definition Rank_IsIssuable ::
  "Params \<Rightarrow> NVMainRequest \<Rightarrow> StandardRank \<Rightarrow> sim \<Rightarrow> (bool \<times> FailReasons option \<times> StandardRank) option" where
  "Rank_IsIssuable p r k s =
     (let now = GetCurrentCycle s; refuse = Some (False, Some RANK_TIMING, k); ty = rtype r
      in if ty = ACTIVATE then rank_activate_ask p r k s
      else if ty = READ \<or> ty = READ_PRECHARGE then do {
        g \<leftarrow> bank_group (bank (address r)) k;
        if now < max (sbg_nextRead k ! g) (dbg_nextRead k) then refuse else rank_ask p r k s
      }
      else if ty = WRITE \<or> ty = WRITE_PRECHARGE then do {
        g \<leftarrow> bank_group (bank (address r)) k;
        if now < max (sbg_nextWrite k ! g) (dbg_nextWrite k) then refuse else rank_ask p r k s
      }
      else if ty = PRECHARGE \<or> ty = PRECHARGE_ALL then
        (if now < rk_nextPrecharge k then refuse else rank_ask p r k s)
      else if ty = POWERDOWN_PDA \<or> ty = POWERDOWN_PDPF \<or> ty = POWERDOWN_PDPS then do {
        (rv, k) \<leftarrow> CanPowerDown p r k s;
        Some (rv, if rv then None else Some RANK_TIMING, k)
      }
      else if ty = POWERUP then do {
        (rv, k) \<leftarrow> CanPowerUp p r k s;
        Some (rv, if rv then None else Some RANK_TIMING, k)
      }
      else if ty = REFRESH then rank_refresh_ask p r k s
      else rank_ask p r k s)"

text \<open>An unknown command that a bank would take is reported and counted as issued.\<close>

definition Rank_IssueCommand :: "Params \<Rightarrow> req_ptr \<Rightarrow> StandardRank \<times> sim \<Rightarrow> (bool \<times> StandardRank \<times> sim) option" where
  "Rank_IssueCommand p rp st = (case st of (k, s) \<Rightarrow> do {
     r \<leftarrow> requests s rp;
     (ok, _, k) \<leftarrow> Rank_IsIssuable p r k s;
     let ty = rtype r;
     if \<not> ok then Some (False, k, s)
     else if ty = ACTIVATE then Rank_Activate p rp (k, s)
     else if ty = READ \<or> ty = READ_PRECHARGE then Rank_Read p rp (k, s)
     else if ty = WRITE \<or> ty = WRITE_PRECHARGE then Rank_Write p rp (k, s)
     else if ty = PRECHARGE \<or> ty = PRECHARGE_ALL then Rank_Precharge p rp (k, s)
     else if ty = POWERDOWN_PDA \<or> ty = POWERDOWN_PDPF \<or> ty = POWERDOWN_PDPS then Rank_PowerDown p rp (k, s)
     else if ty = POWERUP then Rank_PowerUp p rp (k, s)
     else if ty = REFRESH then Rank_Refresh p rp (k, s)
     else Some (True, k, s)
   })"

text \<open>\<^verbatim>\<open>Notify\<close>: another rank reads or writes over the shared bus.\<close>

definition raise_first :: "nat \<Rightarrow> ncycle_t \<Rightarrow> ncycle_t list \<Rightarrow> ncycle_t list" where
  "raise_first n t xs = map (max t) (take n xs) @ drop n xs"

definition Rank_Notify :: "Params \<Rightarrow> OpType \<Rightarrow> sim \<Rightarrow> StandardRank \<Rightarrow> StandardRank" where
  "Rank_Notify p op s k =
     (let now = GetCurrentCycle s; n = unat (bankgroupNum k);
          raise = (\<lambda>rd wr k. k\<lparr>sbg_nextRead := raise_first n rd (sbg_nextRead k), sbg_nextWrite := raise_first n wr (sbg_nextWrite k),
            dbg_nextRead := max (dbg_nextRead k) rd, dbg_nextWrite := max (dbg_nextWrite k) wr\<rparr>)
      in if op = READ \<or> op = READ_PRECHARGE
         then raise (now + tBURST p + tRTRS p) (now + tCAS p + tBURST p + tRTRS p - tCWD p) k
         else if op = WRITE \<or> op = WRITE_PRECHARGE
         then raise (now + tBURST p + tCWD p + tRTRS p - tCAS p) (now + tBURST p + tOST p) k
         else k)"

text \<open>The result tells whether the request goes on to the parent.\<close>

definition Rank_RequestComplete :: "req_ptr \<Rightarrow> StandardRank \<times> sim \<Rightarrow> (bool \<times> StandardRank \<times> sim) option" where
  "Rank_RequestComplete rp st = (case st of (k, s) \<Rightarrow> do {
     r \<leftarrow> requests s rp;
     if owner r = Some (rk_this k) then do {
       k \<leftarrow> (if rtype r = PRECHARGE \<or> rtype r = REFRESH
            then do { idle \<leftarrow> Rank_Idle k; Some (if idle then k\<lparr>rk_state := STANDARDRANK_CLOSED\<rparr> else k) }
            else Some k);
       s \<leftarrow> delete_request rp s;
       Some (False, k, s)
     }
     else Some (True, k, s)
   })"

text \<open>The response of sub-array \<open>j\<close> of bank \<open>i\<close> climbs to the rank.\<close>

definition rank_child_complete ::
  "Params \<Rightarrow> nat \<Rightarrow> nat \<Rightarrow> req_ptr \<Rightarrow> StandardRank \<times> sim \<Rightarrow> (bool \<times> StandardRank \<times> sim) option" where
  "rank_child_complete p i j rp st = (case st of (k, s) \<Rightarrow> do {
     (up, b, s) \<leftarrow> bank_child_complete p j rp (rk_children k ! i, s);
     let k = k\<lparr>rk_children := (rk_children k)[i := b]\<rparr>;
     if up then Rank_RequestComplete rp (k, s) else Some (False, k, s)
   })"

section \<open>Statistics\<close>

definition background_energy :: "Params \<Rightarrow> StandardRank_State \<Rightarrow> real \<Rightarrow> ncycle_t \<Rightarrow> real" where
  "background_energy p st devices steps =
     (let (current, energy) = (case st of
           STANDARDRANK_PDA \<Rightarrow> (EIDD3P p, Epda p)
         | STANDARDRANK_PDPF \<Rightarrow> (EIDD2P1 p, Epdpf p)
         | STANDARDRANK_PDPS \<Rightarrow> (EIDD2P0 p, Epdps p)
         | STANDARDRANK_REFRESHING \<Rightarrow> (EIDD3N p, Eactstdby p)
         | STANDARDRANK_OPEN \<Rightarrow> (EIDD3N p, Eactstdby p)
         | _ \<Rightarrow> (EIDD2N p, Eprestdby p))
      in if EnergyModel p = ''current'' then current * real (unat steps) * devices else energy * real (unat steps))"

definition Rank_Cycle :: "Params \<Rightarrow> ncycle_t \<Rightarrow> StandardRank \<Rightarrow> StandardRank" where
  "Rank_Cycle p steps k =
     (let k = k\<lparr>rk_children := map (Bank_Cycle steps) (rk_children k),
                backgroundEnergy := backgroundEnergy k
                  + background_energy p (rk_state k) (real (unat (deviceCount k))) steps\<rparr>
      in case rk_state k of
           STANDARDRANK_PDA \<Rightarrow> k\<lparr>rk_fastExitActiveCycles := rk_fastExitActiveCycles k + steps\<rparr>
         | STANDARDRANK_PDPF \<Rightarrow> k\<lparr>rk_fastExitPrechargeCycles := rk_fastExitPrechargeCycles k + steps\<rparr>
         | STANDARDRANK_PDPS \<Rightarrow> k\<lparr>rk_slowExitCycles := rk_slowExitCycles k + steps\<rparr>
         | STANDARDRANK_REFRESHING \<Rightarrow> k\<lparr>rk_activeCycles := rk_activeCycles k + steps\<rparr>
         | STANDARDRANK_OPEN \<Rightarrow> k\<lparr>rk_activeCycles := rk_activeCycles k + steps\<rparr>
         | STANDARDRANK_CLOSED \<Rightarrow> k\<lparr>rk_standbyCycles := rk_standbyCycles k + steps\<rparr>
         | STANDARDRANK_UNKNOWN \<Rightarrow> k)"

fun banks_stats :: "Params \<Rightarrow> sim \<Rightarrow> DDR3Bank list \<Rightarrow> DDR3Bank list option" where
  "banks_stats p s [] = Some []"
| "banks_stats p s (b # bs) = do {
     b \<leftarrow> Bank_CalculateStats p s b;
     bs \<leftarrow> banks_stats p s bs;
     Some (b # bs)
   }"

definition average_of :: "ncounter_t \<Rightarrow> ncounter_t \<Rightarrow> real option" where
  "average_of waited n = (if n = 0 then None else Some (real (unat waited) / real (unat n)))"

definition Rank_CalculateStats :: "Params \<Rightarrow> sim \<Rightarrow> StandardRank \<Rightarrow> StandardRank option" where
  "Rank_CalculateStats p s k = do {
     bs \<leftarrow> banks_stats p s (rk_children k);
     cpp_assert (unat (bankCount k) \<le> length bs);
     let counted = take (unat (bankCount k)) bs;
     let current = (EnergyModel p = ''current'');
     let act = sum_list (map bk_activeEnergy counted);
     let burst = sum_list (map bk_burstEnergy counted);
     let ref = sum_list (map bk_refreshEnergy counted);
     let cycles = real (unat (GetCurrentCycle s - lastReset k));
     let t = (if current then cycles else cycles * (1000 / real (unat (CLK p))));
     let dev = real (unat (deviceCount k));
     let power = (\<lambda>e. if t = 0 then 0 else if current then e * Voltage p / t / 1000 else e / t);
     let scale = (if current then dev else 1);
     let bgPower = (if current then power (backgroundEnergy k / dev) else power (backgroundEnergy k));
     Some (k\<lparr>rk_children := bs,
       rk_reads := sum_list (map bk_reads counted), rk_writes := sum_list (map bk_writes counted),
       rk_activateEnergy := act * scale, rk_burstEnergy := burst * scale, rk_refreshEnergy := ref * scale,
       backgroundPower := bgPower,
       rk_activatePower := power act * scale, rk_burstPower := power burst * scale, rk_refreshPower := power ref * scale,
       totalEnergy := sum_list (map bankEnergy counted) + (act * scale + burst * scale + ref * scale + backgroundEnergy k),
       totalPower := power act * scale + power burst * scale + power ref * scale + bgPower,
       rk_actWaitAverage := average_of (rk_actWaitTotal k) (rk_actWaits k),
       rrdWaitAverage := average_of (rrdWaitTotal k) (rrdWaits k),
       fawWaitAverage := average_of (fawWaitTotal k) (fawWaits k)\<rparr>)
   }"

definition Rank_ResetStats :: "sim \<Rightarrow> StandardRank \<Rightarrow> StandardRank" where
  "Rank_ResetStats s k = k\<lparr>lastReset := GetCurrentCycle s\<rparr>"

end
