(* ===== verification/Sub_Array_Effect.thy ===== *)
theory Sub_Array_Effect
  imports Sub_Array
begin

text \<open>
  What each operation of the sub-array does to the state that decides which command may be issued
  when: the data path, the encoder, the endurance model and the statistics leave it alone, and each
  command changes it by its update of the timing constraints only.
\<close>

section \<open>What the operations leave alone\<close>

text \<open>The fields that decide which command may be issued when.\<close>

definition ctl where
  "ctl sa = ((this sa, state sa, nextCommand sa, openRow sa, isWriting sa, writeMode sa, sa_decdelay sa),
     (nextActivate sa, nextPrecharge sa, nextRead sa, nextWrite sa, nextPowerDown sa),
     (nextActivatePreWrite sa, nextPrechargePreWrite sa, nextReadPreWrite sa, nextWritePreWrite sa,
      nextPowerDownPreWrite sa))"

lemma ctlE:
  assumes "ctl sa' = ctl sa"
  obtains "this sa' = this sa" "state sa' = state sa" "nextCommand sa' = nextCommand sa"
    "openRow sa' = openRow sa" "isWriting sa' = isWriting sa" "writeMode sa' = writeMode sa"
    "sa_decdelay sa' = sa_decdelay sa"
    "nextActivate sa' = nextActivate sa" "nextPrecharge sa' = nextPrecharge sa"
    "nextRead sa' = nextRead sa" "nextWrite sa' = nextWrite sa" "nextPowerDown sa' = nextPowerDown sa"
    "nextActivatePreWrite sa' = nextActivatePreWrite sa"
    "nextPrechargePreWrite sa' = nextPrechargePreWrite sa"
    "nextReadPreWrite sa' = nextReadPreWrite sa" "nextWritePreWrite sa' = nextWritePreWrite sa"
    "nextPowerDownPreWrite sa' = nextPowerDownPreWrite sa"
  using assms unfolding ctl_def by simp

lemma ctl_stats [simp]:
  "ctl (slc_energy p c0 c1 sa) = ctl sa"
  "ctl (insert_starts ts sa) = ctl sa"
  "ctl (average_write t sa) = ctl sa"
  "ctl (burst_write_energy p u sa) = ctl sa"
  by (simp_all add: ctl_def slc_energy_def insert_starts_def average_write_def burst_write_energy_def Let_def)

lemma ctl_updates [simp]:
  "ctl (sa\<lparr>writeIterationStarts := x0\<rparr>) = ctl sa"
  "ctl (sa\<lparr>mlcTimingMap := x1\<rparr>) = ctl sa"
  "ctl (sa\<lparr>worstCaseWrite := x2\<rparr>) = ctl sa"
  "ctl (sa\<lparr>endrModel := x3\<rparr>) = ctl sa"
  "ctl (sa\<lparr>dataEncoder := x4\<rparr>) = ctl sa"
  "ctl (sa\<lparr>writeBackRequests := x5\<rparr>) = ctl sa"
  "ctl (sa\<lparr>averageWriteTime := x6\<rparr>) = ctl sa"
  "ctl (sa\<lparr>measuredWriteTimes := x7\<rparr>) = ctl sa"
  "ctl (sa\<lparr>subArrayEnergy := x8\<rparr>) = ctl sa"
  "ctl (sa\<lparr>burstEnergy := x9\<rparr>) = ctl sa"
  "ctl (sa\<lparr>writeEnergy := x10\<rparr>) = ctl sa"
  "ctl (sa\<lparr>refreshEnergy := x11\<rparr>) = ctl sa"
  "ctl (sa\<lparr>activeEnergy := x12\<rparr>) = ctl sa"
  "ctl (sa\<lparr>reads := x13\<rparr>) = ctl sa"
  "ctl (sa\<lparr>writes := x14\<rparr>) = ctl sa"
  "ctl (sa\<lparr>activates := x15\<rparr>) = ctl sa"
  "ctl (sa\<lparr>precharges := x16\<rparr>) = ctl sa"
  "ctl (sa\<lparr>refreshes := x17\<rparr>) = ctl sa"
  "ctl (sa\<lparr>dataCycles := x18\<rparr>) = ctl sa"
  "ctl (sa\<lparr>writeCycle := x19\<rparr>) = ctl sa"
  "ctl (sa\<lparr>writeRequest := x20\<rparr>) = ctl sa"
  "ctl (sa\<lparr>writeStart := x21\<rparr>) = ctl sa"
  "ctl (sa\<lparr>writeEnd := x22\<rparr>) = ctl sa"
  "ctl (sa\<lparr>writeEventTime := x23\<rparr>) = ctl sa"
  "ctl (sa\<lparr>writeEvent := x24\<rparr>) = ctl sa"
  "ctl (sa\<lparr>lastActivate := x25\<rparr>) = ctl sa"
  "ctl (sa\<lparr>actWaits := x26\<rparr>) = ctl sa"
  "ctl (sa\<lparr>actWaitTotal := x27\<rparr>) = ctl sa"
  "ctl (sa\<lparr>averagePausesPerRequest := x28\<rparr>) = ctl sa"
  "ctl (sa\<lparr>measuredPauses := x29\<rparr>) = ctl sa"
  "ctl (sa\<lparr>cancelCountMap := x30\<rparr>) = ctl sa"
  "ctl (sa\<lparr>worstCaseEndurance := x31\<rparr>) = ctl sa"
  "ctl (sa\<lparr>averageEndurance := x32\<rparr>) = ctl sa"
  "ctl (sa\<lparr>actWaitAverage := x33\<rparr>) = ctl sa"
  "ctl (sa\<lparr>averagePausedRequestProgress := x34\<rparr>) = ctl sa"
  "ctl (sa\<lparr>measuredProgresses := x35\<rparr>) = ctl sa"
  "ctl (sa\<lparr>pausedWrites := x36\<rparr>) = ctl sa"
  "ctl (sa\<lparr>wpPauseMap := x37\<rparr>) = ctl sa"
  "ctl (sa\<lparr>wpCancelMap := x38\<rparr>) = ctl sa"
  "ctl (sa\<lparr>cancelledWrites := x39\<rparr>) = ctl sa"
  "ctl (sa\<lparr>cancelledWriteTime := x40\<rparr>) = ctl sa"
  by (simp_all add: ctl_def)

lemma ctl_cong:
  "ctl a = ctl b \<Longrightarrow> ctl (a\<lparr>isWriting := w\<rparr>) = ctl (b\<lparr>isWriting := w\<rparr>)"
  "ctl a = ctl b \<Longrightarrow> ctl (a\<lparr>state := st\<rparr>) = ctl (b\<lparr>state := st\<rparr>)"
  "ctl a = ctl b \<Longrightarrow> ctl (a\<lparr>openRow := ro\<rparr>) = ctl (b\<lparr>openRow := ro\<rparr>)"
  "ctl a = ctl b \<Longrightarrow> ctl (a\<lparr>nextActivate := t\<rparr>) = ctl (b\<lparr>nextActivate := t\<rparr>)"
  by (simp_all add: ctl_def)

lemmas count_posts = post_any [of "CountBitsMLC1 v bs n" for v bs n] post_any [of "CountBitsMLC2 v bs n" for v bs n]
  post_any [of "zero_bytes is d" for "is" d] post_any [of "unchanged_bits r" for r]
  post_any [of "writeRequest sa" for sa]

lemmas max_absorbs = max.absorb1 max.absorb2 max.absorb3 max.absorb4

lemma mlc2_pulses_post [nvm_post]:
  assumes Q: "\<And>a b n s'. sim_rel s s' \<Longrightarrow> Q (a, b, n, s')"
  shows "post (mlc2_pulses p c00 c01 c10 c11 s) Q"
  unfolding mlc2_pulses_def by (intro nvm_post; rule Q; simp (no_asm_simp))

lemma WriteCellData_post [nvm_post]:
  assumes Q: "\<And>t sa' s'. ctl sa' = ctl sa \<Longrightarrow> sim_rel s s' \<Longrightarrow> Q (t, sa', s')"
  shows "post (WriteCellData p rp (sa, s)) Q"
  unfolding WriteCellData_def by (intro nvm_post count_posts; rule Q; simp (no_asm_simp))

lemma UpdateEndurance_post [nvm_post]:
  assumes Q: "\<And>t sa' s'. ctl sa' = ctl sa \<Longrightarrow> sim_rel s s' \<Longrightarrow> Q (t, sa', s')"
  shows "post (UpdateEndurance p rp (sa, s)) Q"
  unfolding UpdateEndurance_def by (intro nvm_post count_posts; rule Q; simp (no_asm_simp))

lemma Encoder_Write_frame [nvm_frame]:
  assumes "Encoder_Write p r enc = Some (lat, r', enc')"
  shows "same_request r r'"
  using assms
  by (auto simp: same_request_def Encoder_Write_def FlipNWrite_Write_def Let_def bind_eq_Some_conv
      split: DataEncoder.splits)

lemma encode_request_post [nvm_post]:
  assumes Q: "\<And>t sa' s'. ctl sa' = ctl sa \<Longrightarrow> sim_rel s s' \<Longrightarrow> Q (t, sa', s')"
  shows "post (encode_request p rp (sa, s)) Q"
  unfolding encode_request_def
  by (intro nvm_post; rule Q) (auto intro!: sim_rel_put dest: Encoder_Write_frame)

lemma track_read_data_post [nvm_post]:
  assumes Q: "\<And>s'. sim_rel s s' \<Longrightarrow> Q s'"
  shows "post (track_read_data r sa s) Q"
  unfolding track_read_data_def by (intro nvm_post; rule Q; simp)

section \<open>Pausing\<close>

text \<open>The issue times that a command sees after \<^verbatim>\<open>CheckWritePausing\<close>.\<close>

definition restore :: "Params \<Rightarrow> SubArray \<Rightarrow> SubArray" where
  "restore p sa = (if WritePausing p \<and> isWriting sa
     then sa\<lparr>nextActivate := nextActivatePreWrite sa, nextPrecharge := nextPrechargePreWrite sa,
             nextRead := nextReadPreWrite sa, nextWrite := nextWritePreWrite sa,
             nextPowerDown := nextPowerDownPreWrite sa\<rparr>
     else sa)"

lemma restore_off [simp]: "\<not> WritePausing p \<Longrightarrow> restore p sa = sa" "\<not> isWriting sa \<Longrightarrow> restore p sa = sa"
  by (simp_all add: restore_def)

lemma restore_fields [simp]:
  "this (restore p sa) = this sa" "state (restore p sa) = state sa" "openRow (restore p sa) = openRow sa"
  "isWriting (restore p sa) = isWriting sa" "nextCommand (restore p sa) = nextCommand sa"
  by (simp_all add: restore_def)

lemma RemoveEvent_clock: "currentCycle (snd (RemoveEvent ptr due q)) = currentCycle q"
  by (auto simp: RemoveEvent_def Let_def split: option.splits)

lemma remove_write_event_clock [simp]: "currentCycle (remove_write_event ev due q) = currentCycle q"
  by (auto simp: remove_write_event_def Let_def RemoveEvent_clock split: option.splits)

lemma CheckWritePausing_post:
  assumes Q: "\<And>sa' s'. ctl sa' = ctl (restore p sa) \<Longrightarrow> sim_rel s s' \<Longrightarrow> Q (sa', s')"
  shows "post (CheckWritePausing p (sa, s)) Q"
  unfolding CheckWritePausing_def
  apply (intro nvm_post count_posts; rule Q)
  apply (simp (no_asm_simp) add: ctl_def restore_def)
  apply (erule sim_rel_trans [rotated])
  apply (simp (no_asm_simp) add: sim_rel_put)
  apply (simp (no_asm_simp) add: ctl_def restore_def)
  apply (rule sim_rel_refl)
  done

section \<open>The effect of each command on the issue times\<close>

definition activate_effect :: "Params \<Rightarrow> NVMainRequest \<Rightarrow> ncycle_t \<Rightarrow> SubArray \<Rightarrow> SubArray" where
  "activate_effect p r now sa =
     (activate_constraints p now sa)\<lparr>openRow := row (address r), state := SUBARRAY_OPEN\<rparr>"

definition write_effect :: "Params \<Rightarrow> NVMainRequest \<Rightarrow> ncycle_t \<Rightarrow> ncycle_t \<Rightarrow> SubArray \<Rightarrow> SubArray" where
  "write_effect p r now timer sa = (write_constraints p r now timer (save_times sa))\<lparr>isWriting := True\<rparr>"

lemmas constraint_defs = activate_constraints_def read_constraints_def write_constraints_def save_times_def Let_def

lemma constraints_frame [simp]:
  "this (activate_constraints p now sa) = this sa" "this (read_constraints p r now sa) = this sa"
  "this (write_constraints p r now t sa) = this sa" "this (save_times sa) = this sa"
  "writeMode (write_constraints p r now t sa) = writeMode sa" "writeMode (save_times sa) = writeMode sa"
  by (simp_all add: constraint_defs)

lemma activate_constraints_cong:
  "ctl sa' = ctl sa \<Longrightarrow> ctl (activate_constraints p now sa') = ctl (activate_constraints p now sa)"
  by (erule ctlE) (simp add: constraint_defs ctl_def del: max_absorbs)

lemma read_constraints_cong:
  "ctl sa' = ctl sa \<Longrightarrow> ctl (read_constraints p r now sa') = ctl (read_constraints p r now sa)"
  by (erule ctlE) (simp add: constraint_defs ctl_def del: max_absorbs)

lemma write_constraints_cong:
  "ctl sa' = ctl sa \<Longrightarrow> ctl (write_constraints p r now t sa') = ctl (write_constraints p r now t sa)"
  by (erule ctlE) (simp add: constraint_defs ctl_def del: max_absorbs)

lemma save_times_cong: "ctl sa' = ctl sa \<Longrightarrow> ctl (save_times sa') = ctl (save_times sa)"
  by (erule ctlE) (simp add: constraint_defs ctl_def)

lemma same_request_constraints:
  "same_request r r' \<Longrightarrow> read_constraints p r' = read_constraints p r"
  "same_request r r' \<Longrightarrow> write_constraints p r' = write_constraints p r"
  by (rule ext, rule ext, simp add: same_request_def constraint_defs del: max_absorbs)
     (rule ext, rule ext, rule ext, simp add: same_request_def constraint_defs del: max_absorbs)

text \<open>An accepted command makes the change \<open>f\<close> to the sub-array that the pausing check left;
  a rejected one makes no change.\<close>

definition effect :: "(SubArray \<Rightarrow> SubArray) \<Rightarrow> SubArray \<Rightarrow> sim \<Rightarrow> bool \<times> SubArray \<times> sim \<Rightarrow> bool" where
  "effect f sa s res = (case res of (b, sa', s') \<Rightarrow>
     ctl sa' = ctl (if b then f sa else sa) \<and> GetCurrentCycle s' = GetCurrentCycle s)"

lemma sim_rel_keepsE:
  assumes "sim_rel s s'" "requests s' rp = Some r'" "requests s rp = Some r" "rp < nextReq s"
  obtains "GetCurrentCycle s' = GetCurrentCycle s" "row (address r') = row (address r)" "rtype r' = rtype r"
    "burstCount r' = burstCount r" "\<And>p. read_constraints p r' = read_constraints p r"
    "\<And>p. write_constraints p r' = write_constraints p r"
proof -
  have same: "same_request r r'" using sim_rel_request [OF assms(1,4,3)] assms(2) by auto
  show ?thesis
    by (rule that [OF sim_rel_time [OF assms(1)] _ _ _ same_request_constraints [OF same]])
       (use same in \<open>simp_all add: same_request_def\<close>)
qed

lemma Activate_effect:
  assumes r: "requests s rp = Some r" "rp < nextReq s"
  shows "post (SubArray_Activate p rp (sa, s)) (effect (activate_effect p r (GetCurrentCycle s)) (restore p sa) s)"
  unfolding SubArray_Activate_def
  by (intro nvm_post CheckWritePausing_post; erule (1) sim_rel_keepsE [OF _ _ r];
      (drule sim_rel_time)?; frule activate_constraints_cong [of _ _ p "GetCurrentCycle s"]; (erule ctlE)+;
      simp (no_asm) add: effect_def ctl_def activate_effect_def; simp (no_asm_simp) add: put_request_def)

lemma Read_effect:
  assumes r: "requests s rp = Some r" "rp < nextReq s"
  shows "post (SubArray_Read p rp (sa, s)) (effect (read_constraints p r (GetCurrentCycle s)) (restore p sa) s)"
  unfolding SubArray_Read_def
  by (intro nvm_post CheckWritePausing_post; erule (1) sim_rel_keepsE [OF _ _ r];
      ((drule sim_rel_time)+)?; frule read_constraints_cong [of _ _ p r "GetCurrentCycle s"]; (erule ctlE)+;
      simp (no_asm) add: effect_def ctl_def; simp (no_asm_simp) add: put_request_def)

lemma put_request_twice [simp]: "put_request rp a (put_request rp b s) = put_request rp a s"
  by (simp add: put_request_def)

lemma same_request_restart [simp]: "same_request r (restart_flags r') = same_request r r'"
  by (simp add: restart_flags_def Let_def)

lemma encode_and_wear_post [nvm_post]:
  assumes Q: "\<And>lat u sa' s'. ctl sa' = ctl sa \<Longrightarrow> sim_rel s s' \<Longrightarrow> Q (lat, u, sa', s')"
  shows "post (encode_and_wear p rp (sa, s)) Q"
  unfolding encode_and_wear_def
  by (intro nvm_post count_posts; rule Q; (drule (1) sim_rel_trans)?; simp (no_asm_simp))

lemma write_duration_post [nvm_post]:
  assumes Q: "\<And>t lat u sa' s'. ctl sa' = ctl sa \<Longrightarrow> sim_rel s s' \<Longrightarrow> Q (t, lat, u, sa', s')"
  shows "post (write_duration p rp (sa, s)) Q"
  unfolding write_duration_def
  by (intro nvm_post count_posts; rule Q; drule (1) sim_rel_trans;
      (erule sim_rel_trans [rotated])?; simp (no_asm_simp) add: sim_rel_put)

lemma write_effect_ctl:
  "ctl sd = ctl (save_times sa) \<Longrightarrow>
   ctl ((write_constraints p r now t sd)\<lparr>isWriting := True\<rparr>) = ctl (write_effect p r now t sa)"
  unfolding write_effect_def by (intro ctl_cong write_constraints_cong)

lemma write_end_energy [simp]: "writeEnd (burst_write_energy p u sa) = writeEnd sa"
  by (simp add: burst_write_energy_def Let_def)

lemma ctl_average: "ctl (if b then average_write t sa else sa) = ctl sa"
  by simp

lemma Write_effect:
  assumes r: "requests s rp = Some r" "rp < nextReq s"
  shows "post (SubArray_Write p rp (sa, s)) (\<lambda>(b, sa', s').
    effect (write_effect p r (GetCurrentCycle s) (writeEnd sa' - GetCurrentCycle s)) sa s (b, sa', s'))"
  unfolding SubArray_Write_def
  apply (intro nvm_post count_posts; (erule (1) sim_rel_keepsE [OF _ _ r])?; ((drule sim_rel_time)+)?;
      (frule save_times_cong)?; simp (no_asm) add: effect_def)
  apply (simp_all (no_asm_simp) add: Event_alloc_def split del: if_split)
  apply (rule write_effect_ctl, simp (no_asm_simp) add: ctl_average split del: if_split)+
  done

definition precharge_effect :: "ncycle_t \<Rightarrow> SubArray \<Rightarrow> SubArray" where
  "precharge_effect due sa = sa\<lparr>nextActivate := max (nextActivate sa) due, state := SUBARRAY_PRECHARGING\<rparr>"

definition refresh_effect :: "Params \<Rightarrow> ncycle_t \<Rightarrow> SubArray \<Rightarrow> SubArray" where
  "refresh_effect p now sa =
     sa\<lparr>nextActivate := max (nextActivate sa) (now + tRFC p), state := SUBARRAY_REFRESHING\<rparr>"

lemma Refresh_effect:
  "post (SubArray_Refresh p rp (sa, s)) (effect (refresh_effect p (GetCurrentCycle s)) sa s)"
  unfolding SubArray_Refresh_def
  by (intro nvm_post; ((drule sim_rel_time)+)?; simp (no_asm) add: effect_def refresh_effect_def ctl_def;
      simp (no_asm_simp) add: put_request_def)

lemma flush_writes_post [nvm_post]:
  assumes Q: "\<And>t sa' s'. ctl sa' = ctl sa \<Longrightarrow> sim_rel s s' \<Longrightarrow> Q (t, sa', s')"
  shows "post (flush_writes p ws (sa, s)) Q"
  using Q
proof (induction ws arbitrary: sa s Q)
  case Nil
  then show ?case by (simp add: post_def)
next
  case (Cons w ws)
  show ?case
    unfolding flush_writes.simps
    by (intro nvm_post Cons.IH; rule Cons.prems; (drule (1) sim_rel_trans)+; simp (no_asm_simp))
qed

lemma write_effect_saves:
  "isWriting (write_effect p r now t sa)"
  "nextActivatePreWrite (write_effect p r now t sa) = nextActivate sa"
  "nextPrechargePreWrite (write_effect p r now t sa) = nextPrecharge sa"
  "nextReadPreWrite (write_effect p r now t sa) = nextRead sa"
  "nextWritePreWrite (write_effect p r now t sa) = nextWrite sa"
  "nextPowerDownPreWrite (write_effect p r now t sa) = nextPowerDown sa"
  by (simp_all add: write_effect_def constraint_defs del: max_absorbs)

lemma precharge_timer_post [nvm_post]:
  assumes Q: "\<And>t sa' s'. ctl sa' = ctl sa \<Longrightarrow> sim_rel s s' \<Longrightarrow> writeMode sa \<noteq> WRITE_BACK \<longrightarrow> t = max 1 (tRP p) \<Longrightarrow> Q (t, sa', s')"
  shows "post (precharge_timer p rp (sa, s)) Q"
  unfolding precharge_timer_def
  by (intro nvm_post; rule Q; (drule (1) sim_rel_trans)?; simp (no_asm_simp))

lemma Precharge_effect:
  "post (SubArray_Precharge p rp (sa, s)) (\<lambda>(b, sa', s'). \<exists>timer.
     (writeMode sa \<noteq> WRITE_BACK \<longrightarrow> timer = max 1 (tRP p))
     \<and> effect (precharge_effect (GetCurrentCycle s + timer)) sa s (b, sa', s'))"
  unfolding SubArray_Precharge_def
  by (intro nvm_post; ((drule sim_rel_time)+)?; simp (no_asm) add: effect_def precharge_effect_def ctl_def del: max_absorbs;
      (rule exI, rule conjI, assumption, erule ctlE, simp (no_asm_simp) add: put_request_def del: max_absorbs)?; blast?)

text \<open>Completions change no issue time, and the state of the row buffer only when they close it.\<close>

lemma delete_request_post [nvm_post]:
  assumes "\<And>s'. GetCurrentCycle s' = GetCurrentCycle s \<Longrightarrow> Q s'"
  shows "post (delete_request rp s) Q"
  unfolding delete_request_def by (intro nvm_post; rule assms; simp)

definition completed :: "SubArray \<Rightarrow> SubArray \<Rightarrow> bool" where
  "completed sa sa' \<longleftrightarrow> ctl sa' = ctl (sa\<lparr>state := state sa', openRow := openRow sa', isWriting := isWriting sa'\<rparr>)
     \<and> (isWriting sa' \<longrightarrow> isWriting sa)"

lemma completed_complete_write: "completed sa (complete_write rp r sa)"
  unfolding completed_def complete_write_def by (simp add: ctl_def Let_def)

lemma completed_updates [simp]:
  "completed sa (sa'\<lparr>state := st\<rparr>) = completed sa sa'"
  "completed sa (sa'\<lparr>openRow := ro\<rparr>) = completed sa sa'"
  "completed sa (sa'\<lparr>precharges := n\<rparr>) = completed sa sa'"
  "completed sa (sa'\<lparr>refreshes := n\<rparr>) = completed sa sa'"
  by (simp_all add: completed_def ctl_def)

lemma RequestComplete_times:
  "post (SubArray_RequestComplete p rp (sa, s)) (\<lambda>(b, sa', s').
     GetCurrentCycle s' = GetCurrentCycle s \<and> completed sa sa')"
  unfolding SubArray_RequestComplete_def
  by (intro nvm_post; (simp (no_asm) only: split: OpType.split, intro conjI impI nvm_post)?;
      (drule sim_rel_time)?; simp (no_asm_simp) add: completed_complete_write put_request_def)

end
