(* ===== verification/Timed_Module.thy ===== *)
theory Timed_Module
  imports NVM_Prelude
begin

text \<open>
  The contract between a memory module and whoever issues commands to it: for each kind of command
  the module keeps the earliest cycle at which it may be issued, it accepts a command only from that
  cycle on, and nothing that happens in between moves that cycle backwards. Two consequences that
  every module inherits: the earliest times are monotone along a run, and a delay that one command
  imposes on a kind of command is respected by every later command of that kind.
\<close>

locale timed_module =
  fixes step :: "'st \<Rightarrow> 'st \<Rightarrow> bool"
    and issue :: "'c \<Rightarrow> 'st \<Rightarrow> 'st \<Rightarrow> bool"
    and now :: "'st \<Rightarrow> ncycle_t"
    and earliest :: "'c \<Rightarrow> 'st \<Rightarrow> ncycle_t"
  assumes step_earliest: "step st st' \<Longrightarrow> earliest c st \<le> earliest c st'"
    and issue_earliest: "issue c st st' \<Longrightarrow> earliest c st \<le> now st"
begin

lemma run_earliest: "step\<^sup>*\<^sup>* st st' \<Longrightarrow> earliest c st \<le> earliest c st'"
  by (induction rule: rtranclp_induct) (auto intro: order_trans step_earliest)

lemma spacing:
  assumes "t \<le> earliest c st1" "step\<^sup>*\<^sup>* st1 st2" "issue c st2 st3"
  shows "t \<le> now st2"
  using assms(1) run_earliest [OF assms(2), of c] issue_earliest [OF assms(3)] by (blast intro: order_trans)

end

end
