(* ===== verification/Sub_Array_Timing.thy ===== *)
theory Sub_Array_Timing
  imports Sub_Array_Effect Timed_Module
begin

text \<open>
  Properties of the sub-array: that without write pausing the earliest issue times only move forward
  along every run, hence that the timing constraints between commands hold in every reachable state;
  that the sanity checks inside the commands never reject a command that \<^verbatim>\<open>IsIssuable\<close> accepted,
  also with write pausing; and that an accepted command returns.
\<close>

section \<open>Acceptance\<close>

text \<open>The times saved before a write in progress are at most the current ones.\<close>

definition saved :: "SubArray \<Rightarrow> bool" where
  "saved sa \<longleftrightarrow> (isWriting sa \<longrightarrow> nextActivatePreWrite sa \<le> nextActivate sa
     \<and> nextPrechargePreWrite sa \<le> nextPrecharge sa \<and> nextReadPreWrite sa \<le> nextRead sa
     \<and> nextWritePreWrite sa \<le> nextWrite sa \<and> nextPowerDownPreWrite sa \<le> nextPowerDown sa)"

lemma ctl_saved: "ctl sa' = ctl sa \<Longrightarrow> saved sa' = saved sa"
  by (erule ctlE) (simp add: saved_def)

lemma saved_restore: "saved sa \<Longrightarrow> saved (restore p sa)"
  "saved sa \<Longrightarrow> nextActivate (restore p sa) \<le> nextActivate sa"
  "saved sa \<Longrightarrow> nextRead (restore p sa) \<le> nextRead sa"
  by (simp_all add: saved_def restore_def)

lemma saved_effects:
  "saved sa \<Longrightarrow> saved (activate_effect p r now sa)"
  "saved sa \<Longrightarrow> saved (read_constraints p r now sa)"
  "saved (write_effect p r now t sa)"
  "saved sa \<Longrightarrow> saved (precharge_effect due sa)"
  "saved sa \<Longrightarrow> saved (refresh_effect p now sa)"
  by (simp_all add: saved_def activate_effect_def write_effect_def precharge_effect_def refresh_effect_def
      constraint_defs le_max_iff_disj del: max_absorbs)

lemma saved_completed: "saved sa \<Longrightarrow> completed sa sa' \<Longrightarrow> saved sa'"
  unfolding completed_def by (elim conjE ctlE) (simp add: saved_def)

lemma Activate_accepts:
  assumes "nextActivate (restore p sa) \<le> GetCurrentCycle s" "UsePrecharge p \<longrightarrow> state sa = SUBARRAY_CLOSED"
  shows "post (SubArray_Activate p rp (sa, s)) fst"
  unfolding SubArray_Activate_def
  by (intro nvm_post CheckWritePausing_post; (drule sim_rel_time)?; erule ctlE;
      insert assms; auto simp: not_less)

lemma Read_accepts:
  assumes "nextRead (restore p sa) \<le> GetCurrentCycle s" "state sa = SUBARRAY_OPEN"
    and r: "row (address r) = openRow sa" "requests s rp = Some r" "rp < nextReq s"
  shows "post (SubArray_Read p rp (sa, s)) fst"
  unfolding SubArray_Read_def
  by (intro nvm_post CheckWritePausing_post; erule (1) sim_rel_keepsE [OF _ _ r(2,3)]; erule ctlE;
      simp (no_asm); insert assms; simp add: not_less)

lemma Write_accepts:
  assumes "nextWrite sa \<le> GetCurrentCycle s" "state sa = SUBARRAY_OPEN"
    "row (address r) = openRow sa" "requests s rp = Some r"
  shows "post (SubArray_Write p rp (sa, s)) fst"
  unfolding SubArray_Write_def by (intro nvm_post; simp (no_asm); insert assms; simp add: not_less)

lemma Precharge_accepts:
  assumes "nextPrecharge sa \<le> GetCurrentCycle s" "state sa = SUBARRAY_OPEN \<or> state sa = SUBARRAY_CLOSED"
  shows "post (SubArray_Precharge p rp (sa, s)) fst"
  unfolding SubArray_Precharge_def by (intro nvm_post; simp (no_asm); insert assms; auto simp: not_less)

lemma Refresh_accepts:
  assumes "nextActivate sa \<le> GetCurrentCycle s" "UsePrecharge p \<longrightarrow> state sa = SUBARRAY_CLOSED"
  shows "post (SubArray_Refresh p rp (sa, s)) fst"
  unfolding SubArray_Refresh_def by (intro nvm_post; simp (no_asm); insert assms; auto simp: not_less)

text \<open>What \<^verbatim>\<open>IsIssuable\<close> has checked when it accepts a command.\<close>

definition ready :: "Params \<Rightarrow> NVMainRequest \<Rightarrow> SubArray \<Rightarrow> ncycle_t \<Rightarrow> bool" where
  "ready p r sa now \<longleftrightarrow>
     (if rtype r = ACTIVATE \<or> rtype r = REFRESH
      then nextActivate sa \<le> now \<and> (UsePrecharge p \<longrightarrow> state sa = SUBARRAY_CLOSED)
      else if rtype r = READ \<or> rtype r = READ_PRECHARGE
      then nextRead sa \<le> now \<and> state sa = SUBARRAY_OPEN \<and> row (address r) = openRow sa
      else if rtype r = WRITE \<or> rtype r = WRITE_PRECHARGE
      then nextWrite sa \<le> now \<and> state sa = SUBARRAY_OPEN \<and> row (address r) = openRow sa
      else if rtype r = PRECHARGE \<or> rtype r = PRECHARGE_ALL
      then nextPrecharge sa \<le> now \<and> (state sa = SUBARRAY_OPEN \<or> state sa = SUBARRAY_CLOSED)
      else if rtype r = POWERDOWN_PDA \<or> rtype r = POWERDOWN_PDPF \<or> rtype r = POWERDOWN_PDPS
      then nextPowerDown sa \<le> now \<and> \<not> isWriting sa
      else rtype r = POWERUP)"

lemma IsIssuable_post:
  "post (SubArray_IsIssuable p r sa s) (\<lambda>(b, why, sa'). ctl sa' = ctl sa
     \<and> (b \<longrightarrow> sa' = sa \<and> ready p r sa (GetCurrentCycle s)) \<and> (\<not> b \<longrightarrow> nextCommand sa = CMD_NOP \<longrightarrow> why \<noteq> None))"
  unfolding SubArray_IsIssuable_def
  by (intro nvm_post; (simp (no_asm) only: split: OpType.split, intro conjI impI nvm_post
        post_any [of "write_forced p sa s"])?; simp add: ready_def not_less post_def; blast)

lemma IsIssuable_cases:
  assumes "SubArray_IsIssuable p r sa s = Some (b, why, sa')"
  shows "ctl sa' = ctl sa" "b \<Longrightarrow> sa' = sa" "b \<Longrightarrow> ready p r sa (GetCurrentCycle s)"
  using postD [OF IsIssuable_post assms] by simp_all

lemma IssueCommand_unfold:
  assumes "requests s rp = Some r" "SubArray_IssueCommand p rp (sa, s) = Some (b, sa', s')"
  obtains (refused) why where "SubArray_IsIssuable p r sa s = Some (False, why, sa')" "\<not> b" "s' = s"
  | (activate) "ready p r sa (GetCurrentCycle s)" "rtype r = ACTIVATE" "SubArray_Activate p rp (sa, s) = Some (b, sa', s')"
  | (rd) "ready p r sa (GetCurrentCycle s)" "rtype r = READ \<or> rtype r = READ_PRECHARGE"
      "SubArray_Read p rp (sa, s) = Some (b, sa', s')"
  | (wr) "ready p r sa (GetCurrentCycle s)" "rtype r = WRITE \<or> rtype r = WRITE_PRECHARGE"
      "SubArray_Write p rp (sa, s) = Some (b, sa', s')"
  | (precharge) "ready p r sa (GetCurrentCycle s)" "rtype r = PRECHARGE \<or> rtype r = PRECHARGE_ALL"
      "SubArray_Precharge p rp (sa, s) = Some (b, sa', s')"
  | (refresh) "ready p r sa (GetCurrentCycle s)" "rtype r = REFRESH" "SubArray_Refresh p rp (sa, s) = Some (b, sa', s')"
  | (power) "ready p r sa (GetCurrentCycle s)"
      "rtype r \<in> {POWERDOWN_PDA, POWERDOWN_PDPF, POWERDOWN_PDPS, POWERUP}" "b" "sa' = sa" "s' = s"
proof -
  obtain ok why sa1 where i: "SubArray_IsIssuable p r sa s = Some (ok, why, sa1)"
    using assms by (auto simp: SubArray_IssueCommand_def bind_eq_Some_conv)
  show thesis
  proof (cases ok)
    case False
    then show thesis using refused assms i by (simp add: SubArray_IssueCommand_def)
  next
    case True
    note ok = IsIssuable_cases(2,3) [OF i True]
    have "(case rtype r of
       ACTIVATE \<Rightarrow> SubArray_Activate p rp (sa, s)
     | READ \<Rightarrow> SubArray_Read p rp (sa, s)
     | READ_PRECHARGE \<Rightarrow> SubArray_Read p rp (sa, s)
     | WRITE \<Rightarrow> SubArray_Write p rp (sa, s)
     | WRITE_PRECHARGE \<Rightarrow> SubArray_Write p rp (sa, s)
     | PRECHARGE \<Rightarrow> SubArray_Precharge p rp (sa, s)
     | PRECHARGE_ALL \<Rightarrow> SubArray_Precharge p rp (sa, s)
     | REFRESH \<Rightarrow> SubArray_Refresh p rp (sa, s)
     | _ \<Rightarrow> Some (True, sa, s)) = Some (b, sa', s')"
      using assms i True ok(1) by (simp add: SubArray_IssueCommand_def)
    then show thesis
      using ok(2) by (cases "rtype r") (auto intro: activate rd wr precharge refresh power simp: ready_def)
  qed
qed

lemma issue_accepted:
  assumes "saved sa" and r: "requests s rp = Some r" "rp < nextReq s"
    and i: "SubArray_IsIssuable p r sa s = Some (True, why, sa1)"
    and c: "SubArray_IssueCommand p rp (sa, s) = Some (b, sa', s')"
  shows "b"
proof -
  have mono: "nextActivate sa \<le> t \<Longrightarrow> nextActivate (restore p sa) \<le> t"
    "nextRead sa \<le> t \<Longrightarrow> nextRead (restore p sa) \<le> t" for t
    using saved_restore(2,3) [OF assms(1), of p] order_trans by blast+
  from r(1) c show ?thesis
  proof (cases rule: IssueCommand_unfold)
    case refused
    then show ?thesis using i by simp
  next
    case activate
    then show ?thesis using postD [OF Activate_accepts activate(3)] mono(1) by (simp add: ready_def)
  next
    case rd
    then show ?thesis using postD [OF Read_accepts [OF _ _ _ r] rd(3)] mono(2) by (auto simp: ready_def)
  next
    case wr
    then show ?thesis using postD [OF Write_accepts [OF _ _ _ r(1)] wr(3)] by (auto simp: ready_def)
  next
    case precharge
    then show ?thesis using postD [OF Precharge_accepts precharge(3)] by (auto simp: ready_def)
  next
    case refresh
    then show ?thesis using postD [OF Refresh_accepts refresh(3)] by (simp add: ready_def)
  qed
qed

section \<open>The effect of an issued command\<close>

text \<open>
  The sub-array after an accepted command, up to statistics and the data path: \<open>t\<close> is the duration
  of a write and \<open>due\<close> the end of a precharge.
\<close>

definition cmd_effect ::
  "Params \<Rightarrow> NVMainRequest \<Rightarrow> ncycle_t \<Rightarrow> ncycle_t \<Rightarrow> ncycle_t \<Rightarrow> SubArray \<Rightarrow> SubArray" where
  "cmd_effect p r now t due sa =
     (if rtype r = ACTIVATE then activate_effect p r now (restore p sa)
      else if rtype r = READ \<or> rtype r = READ_PRECHARGE then read_constraints p r now (restore p sa)
      else if rtype r = WRITE \<or> rtype r = WRITE_PRECHARGE then write_effect p r now t sa
      else if rtype r = PRECHARGE \<or> rtype r = PRECHARGE_ALL then precharge_effect due sa
      else if rtype r = REFRESH then refresh_effect p now sa
      else sa)"

lemma issue_effect:
  assumes r: "requests s rp = Some r" "rp < nextReq s"
    and c: "SubArray_IssueCommand p rp (sa, s) = Some (b, sa', s')"
  shows "GetCurrentCycle s' = GetCurrentCycle s \<and> (\<exists>due. (writeMode sa \<noteq> WRITE_BACK \<longrightarrow> due = GetCurrentCycle s + max 1 (tRP p))
    \<and> (if b then ctl sa' = ctl (cmd_effect p r (GetCurrentCycle s) (writeEnd sa' - GetCurrentCycle s) due sa)
       else ctl sa' = ctl sa \<or> ctl sa' = ctl (restore p sa)))"
    (is "?clock \<and> ?eff")
  using r(1) c
proof (cases rule: IssueCommand_unfold)
  case refused
  then show ?thesis using IsIssuable_cases(1) [OF refused(1)] by auto
next
  case activate
  then show ?thesis using postD [OF Activate_effect [OF r] activate(3)] by (auto simp: effect_def cmd_effect_def)
next
  case rd
  then show ?thesis using postD [OF Read_effect [OF r] rd(3)] by (auto simp: effect_def cmd_effect_def)
next
  case wr
  then show ?thesis using postD [OF Write_effect [OF r] wr(3)] by (auto simp: effect_def cmd_effect_def)
next
  case precharge
  then show ?thesis using postD [OF Precharge_effect precharge(3)] by (fastforce simp: effect_def cmd_effect_def)
next
  case refresh
  then show ?thesis using postD [OF Refresh_effect refresh(3)] by (auto simp: effect_def cmd_effect_def)
next
  case power
  then show ?thesis by (auto simp: cmd_effect_def)
qed

section \<open>Runs\<close>

text \<open>
  What can happen to a sub-array: a command is issued to it, its parent asks whether one could be, an
  event it scheduled comes back, the statistics are computed, or time passes and other modules change
  the shared state.
\<close>

inductive sa_step :: "Params \<Rightarrow> SubArray \<times> sim \<Rightarrow> SubArray \<times> sim \<Rightarrow> bool" for p where
  sa_issue: "requests s rp = Some r \<Longrightarrow> rp < nextReq s \<Longrightarrow> SubArray_IssueCommand p rp (sa, s) = Some (b, sa', s')
    \<Longrightarrow> sa_step p (sa, s) (sa', s')"
| sa_query: "SubArray_IsIssuable p r sa s = Some (b, why, sa') \<Longrightarrow> sa_step p (sa, s) (sa', s)"
| sa_complete: "SubArray_RequestComplete p rp (sa, s) = Some (b, sa', s') \<Longrightarrow> sa_step p (sa, s) (sa', s')"
| sa_stats: "SubArray_CalculateStats sa = Some sa' \<Longrightarrow> sa_step p (sa, s) (sa', s)"
| sa_elapse: "GetCurrentCycle s \<le> GetCurrentCycle s' \<Longrightarrow> sa_step p (sa, s) (sa, s')"

lemma CalculateStats_ctl: "SubArray_CalculateStats sa = Some sa' \<Longrightarrow> ctl sa' = ctl sa"
  by (auto simp: SubArray_CalculateStats_def bind_eq_Some_conv)

text \<open>The kinds of commands that share an earliest issue time.\<close>

datatype slot = Row_slot | Read_slot | Write_slot | Close_slot | Sleep_slot

definition slot_of :: "OpType \<Rightarrow> slot option" where
  "slot_of ty =
     (if ty = ACTIVATE \<or> ty = REFRESH then Some Row_slot
      else if ty = READ \<or> ty = READ_PRECHARGE then Some Read_slot
      else if ty = WRITE \<or> ty = WRITE_PRECHARGE then Some Write_slot
      else if ty = PRECHARGE \<or> ty = PRECHARGE_ALL then Some Close_slot
      else if ty = POWERDOWN_PDA \<or> ty = POWERDOWN_PDPF \<or> ty = POWERDOWN_PDPS then Some Sleep_slot
      else None)"

fun sa_earliest :: "slot \<Rightarrow> SubArray \<Rightarrow> ncycle_t" where
  "sa_earliest Row_slot sa = nextActivate sa"
| "sa_earliest Read_slot sa = nextRead sa"
| "sa_earliest Write_slot sa = nextWrite sa"
| "sa_earliest Close_slot sa = nextPrecharge sa"
| "sa_earliest Sleep_slot sa = nextPowerDown sa"

lemma ctl_earliest: "ctl sa' = ctl sa \<Longrightarrow> sa_earliest c sa' = sa_earliest c sa"
  by (erule ctlE) (cases c; simp)

lemma ready_earliest: "ready p r sa now \<Longrightarrow> slot_of (rtype r) = Some c \<Longrightarrow> sa_earliest c sa \<le> now"
  by (auto simp: ready_def slot_of_def split: if_splits)

lemma completed_earliest: "completed sa sa' \<Longrightarrow> sa_earliest c sa' = sa_earliest c sa"
  unfolding completed_def by (elim conjE ctlE) (cases c; simp)

lemma effect_earliest:
  "sa_earliest c sa \<le> sa_earliest c (activate_effect p r now sa)"
  "sa_earliest c sa \<le> sa_earliest c (read_constraints p r now sa)"
  "sa_earliest c sa \<le> sa_earliest c (write_effect p r now t sa)"
  "sa_earliest c sa \<le> sa_earliest c (precharge_effect due sa)"
  "sa_earliest c sa \<le> sa_earliest c (refresh_effect p now sa)"
  by (cases c; simp add: activate_effect_def write_effect_def precharge_effect_def refresh_effect_def
      constraint_defs le_max_iff_disj del: max_absorbs)+

lemma issue_cases:
  assumes "requests s rp = Some r" "rp < nextReq s" "SubArray_IssueCommand p rp (sa, s) = Some (b, sa', s')"
  obtains (accepted) t due where "ctl sa' = ctl (cmd_effect p r (GetCurrentCycle s) t due sa)"
  | (untouched) "ctl sa' = ctl sa"
  | (restored) "ctl sa' = ctl (restore p sa)"
  using issue_effect [OF assms] by (cases b) auto

lemma sa_step_saved: "sa_step p st st' \<Longrightarrow> saved (fst st) \<Longrightarrow> saved (fst st')"
proof (induction rule: sa_step.induct)
  case (sa_issue s rp r sa b sa' s')
  have eff: "saved (cmd_effect p r now t due sa)" for now t due
    using sa_issue.prems by (simp add: cmd_effect_def saved_effects saved_restore)
  from sa_issue.hyps show ?case
  proof (cases rule: issue_cases)
    case (accepted t due)
    then show ?thesis using eff ctl_saved [OF accepted] by simp
  next
    case untouched
    then show ?thesis using ctl_saved [OF untouched] sa_issue.prems by simp
  next
    case restored
    then show ?thesis using ctl_saved [OF restored] saved_restore(1) sa_issue.prems by simp
  qed
next
  case (sa_query r sa s b why sa')
  then show ?case using ctl_saved [OF IsIssuable_cases(1)] by simp
next
  case (sa_complete rp sa s b sa' s')
  then show ?case using postD [OF RequestComplete_times sa_complete.hyps] saved_completed by simp
next
  case (sa_stats sa sa' s)
  then show ?case using ctl_saved [OF CalculateStats_ctl] by simp
qed simp

lemma sa_step_earliest:
  assumes "sa_step p st st'" "\<not> WritePausing p"
  shows "sa_earliest c (fst st) \<le> sa_earliest c (fst st')"
  using assms
proof (induction rule: sa_step.induct)
  case (sa_issue s rp r sa b sa' s')
  have mono: "sa_earliest c sa \<le> sa_earliest c (cmd_effect p r now t due sa)" for now t due
    using sa_issue.prems by (simp add: cmd_effect_def effect_earliest)
  from sa_issue.hyps show ?case
  proof (cases rule: issue_cases)
    case (accepted t due)
    then show ?thesis using mono ctl_earliest [OF accepted] by simp
  next
    case untouched
    then show ?thesis using ctl_earliest [OF untouched] by simp
  next
    case restored
    then show ?thesis using ctl_earliest [OF restored] sa_issue.prems by simp
  qed
next
  case (sa_query r sa s b why sa')
  then show ?case using ctl_earliest [OF IsIssuable_cases(1)] by simp
next
  case (sa_complete rp sa s b sa' s')
  then show ?case using postD [OF RequestComplete_times sa_complete.hyps(1)] completed_earliest [of sa sa' c] by simp
next
  case (sa_stats sa sa' s)
  then show ?case using ctl_earliest [OF CalculateStats_ctl] by simp
qed simp

text \<open>A command of a kind is accepted.\<close>

definition sa_accept :: "Params \<Rightarrow> slot \<Rightarrow> SubArray \<times> sim \<Rightarrow> SubArray \<times> sim \<Rightarrow> bool" where
  "sa_accept p c st st' \<longleftrightarrow> (\<exists>rp r. requests (snd st) rp = Some r \<and> slot_of (rtype r) = Some c
     \<and> SubArray_IssueCommand p rp st = Some (True, st'))"

lemma sa_accept_earliest: "sa_accept p c st st' \<Longrightarrow> sa_earliest c (fst st) \<le> GetCurrentCycle (snd st)"
proof -
  assume "sa_accept p c st st'"
  then obtain rp r where a: "requests (snd st) rp = Some r" "slot_of (rtype r) = Some c"
    "SubArray_IssueCommand p rp (fst st, snd st) = Some (True, fst st', snd st')"
    by (auto simp: sa_accept_def)
  from a(1,3) have "ready p r (fst st) (GetCurrentCycle (snd st))" by (cases rule: IssueCommand_unfold) simp_all
  then show ?thesis by (rule ready_earliest [OF _ a(2)])
qed

interpretation sub_array: timed_module "sa_step (p\<lparr>WritePausing := False\<rparr>)" "sa_accept (p\<lparr>WritePausing := False\<rparr>)"
  "\<lambda>st. GetCurrentCycle (snd st)" "\<lambda>c st. sa_earliest c (fst st)" for p
  by unfold_locales (simp_all add: sa_step_earliest sa_accept_earliest)

section \<open>Row commands return\<close>

text \<open>
  The due time of the response to a command that works on the whole row; the sub-array after it.
\<close>

definition row_command :: "Params \<Rightarrow> SubArray \<Rightarrow> OpType \<Rightarrow> ncycle_t option" where
  "row_command p sa ty =
     (if ty = ACTIVATE then Some (tRCD p)
      else if ty = REFRESH then Some (tRFC p)
      else if (ty = PRECHARGE \<or> ty = PRECHARGE_ALL) \<and> writeMode sa \<noteq> WRITE_BACK then Some (max 1 (tRP p))
      else None)"

lemma sim_ok_put: "sim_ok s \<Longrightarrow> requests s rp = Some r \<Longrightarrow> sim_ok (put_request rp r' s)"
  by (auto simp: sim_ok_def put_request_def)

lemma sim_ok_lt: "sim_ok s \<Longrightarrow> requests s rp = Some r \<Longrightarrow> rp < nextReq s"
  by (metis sim_ok_def not_le option.distinct(1))

lemma claim_and_respond:
  assumes "sim_ok s" "requests s rp = Some r"
  shows "\<exists>s'. insert_response me rp due (put_request rp (r\<lparr>owner := Some me\<rparr>) s) = Some s'
    \<and> sim_ok s' \<and> requests s' = (requests s)(rp \<mapsto> r\<lparr>owner := Some me\<rparr>) \<and> GetCurrentCycle s' = GetCurrentCycle s
    \<and> all_events (eventQueue s') = pending_insert
        (plain_event (nextPtr (eventQueue s)) EventResponse me (Some rp) due None) due 0 (all_events (eventQueue s))"
  using insert_response_ok [OF sim_ok_put [OF assms, of "r\<lparr>owner := Some me\<rparr>"], of me rp due]
  by (auto simp: put_request_def)

lemma CheckWritePausing_off: "\<not> WritePausing p \<Longrightarrow> CheckWritePausing p st = Some st"
  by (cases st) (simp add: CheckWritePausing_def)

lemma ready_row_returns:
  assumes ok: "sim_ok s" and r: "requests s rp = Some r" and np: "\<not> WritePausing p" "nextCommand sa = CMD_NOP"
    and d: "row_command p sa (rtype r) = Some d" and ready: "ready p r sa (GetCurrentCycle s)"
  shows "\<exists>sa' s'. SubArray_IssueCommand p rp (sa, s) = Some (True, sa', s') \<and> sim_ok s'
    \<and> requests s' = (requests s)(rp \<mapsto> r\<lparr>owner := Some (this sa)\<rparr>)
    \<and> all_events (eventQueue s') = pending_insert
        (plain_event (nextPtr (eventQueue s)) EventResponse (this sa) (Some rp) (GetCurrentCycle s + d) None)
        (GetCurrentCycle s + d) 0 (all_events (eventQueue s))"
proof -
  from claim_and_respond [OF ok r, of "this sa" "GetCurrentCycle s + d"] obtain s' where
    s': "insert_response (this sa) rp (GetCurrentCycle s + d) (put_request rp (r\<lparr>owner := Some (this sa)\<rparr>) s) = Some s'"
    "sim_ok s'" "requests s' = (requests s)(rp \<mapsto> r\<lparr>owner := Some (this sa)\<rparr>)"
    "all_events (eventQueue s') = pending_insert
        (plain_event (nextPtr (eventQueue s)) EventResponse (this sa) (Some rp) (GetCurrentCycle s + d) None)
        (GetCurrentCycle s + d) 0 (all_events (eventQueue s))"
    by blast
  consider (act) "rtype r = ACTIVATE" "d = tRCD p" | (ref) "rtype r = REFRESH" "d = tRFC p"
    | (pre) "rtype r = PRECHARGE \<or> rtype r = PRECHARGE_ALL" "writeMode sa \<noteq> WRITE_BACK" "d = max 1 (tRP p)"
    using d by (auto simp: row_command_def split: if_splits)
  then have "\<exists>sa'. SubArray_IssueCommand p rp (sa, s) = Some (True, sa', s')"
  proof cases
    case act
    then have g: "\<not> GetCurrentCycle s < nextActivate sa" "\<not> (UsePrecharge p \<and> state sa \<noteq> SUBARRAY_CLOSED)"
      using ready by (auto simp: ready_def not_less)
    have "SubArray_IsIssuable p r sa s = Some (True, None, sa)"
      using act g np by (simp add: SubArray_IsIssuable_def write_forced_def Let_def)
    then show ?thesis
      using act g r s'(1) np(1)
      by (simp add: SubArray_IssueCommand_def SubArray_Activate_def CheckWritePausing_off activate_constraints_def Let_def)
  next
    case ref
    then have g: "\<not> GetCurrentCycle s < nextActivate sa" "\<not> (state sa \<noteq> SUBARRAY_CLOSED \<and> UsePrecharge p)"
      using ready by (auto simp: ready_def not_less)
    have "SubArray_IsIssuable p r sa s = Some (True, None, sa)"
      using ref g np by (simp add: SubArray_IsIssuable_def Let_def)
    then show ?thesis using ref g r s'(1) by (simp add: SubArray_IssueCommand_def SubArray_Refresh_def Let_def)
  next
    case pre
    then have g: "\<not> GetCurrentCycle s < nextPrecharge sa" "\<not> (state sa \<noteq> SUBARRAY_OPEN \<and> state sa \<noteq> SUBARRAY_CLOSED)"
      "\<not> (state sa \<noteq> SUBARRAY_CLOSED \<and> state sa \<noteq> SUBARRAY_OPEN)"
      using ready by (auto simp: ready_def not_less)
    have i: "SubArray_IsIssuable p r sa s = Some (True, None, sa)"
      using pre(1) g np by (elim disjE) (simp_all add: SubArray_IsIssuable_def Let_def)
    have "\<exists>sa'. SubArray_Precharge p rp (sa, s) = Some (True, sa', s')"
      using pre(2,3) g r s'(1) by (simp add: SubArray_Precharge_def precharge_timer_def Let_def)
    then show ?thesis using pre(1) i r by (elim disjE) (simp_all add: SubArray_IssueCommand_def)
  qed
  then show ?thesis using s' by blast
qed

text \<open>The example: a fresh sub-array and a shared state at a given cycle with an activation of row 5
  and a precharge.\<close>

definition cmd_request :: "OpType \<Rightarrow> NVMainRequest" where
  "cmd_request ty = NVMainRequest_new\<lparr>rtype := ty, address := (address NVMainRequest_new)\<lparr>row := 5\<rparr>\<rparr>"

definition sample_sim :: "ncycle_t \<Rightarrow> sim" where
  "sample_sim now = \<lparr>eventQueue = (EventQueue_new 1)\<lparr>currentCycle := now\<rparr>,
     requests = [0 \<mapsto> cmd_request ACTIVATE, 1 \<mapsto> cmd_request PRECHARGE, 2 \<mapsto> cmd_request WRITE], nextReq = 3,
     simInterface = None, rand_state = (id, 0)\<rparr>"

definition sample_array :: SubArray where
  "sample_array = SubArray_new 7 undefined"

lemma sample_sim_ok: "sim_ok (sample_sim now)"
  by (simp add: sim_ok_def sample_sim_def EventQueue_new_def evq_wf_def lists_wf_def front_cycle_def all_events_def)

lemma sample_fields [simp]:
  "GetCurrentCycle (sample_sim now) = now" "nextReq (sample_sim now) = 3"
  "requests (sample_sim now) 0 = Some (cmd_request ACTIVATE)"
  "requests (sample_sim now) (Suc 0) = Some (cmd_request PRECHARGE)"
  "requests (sample_sim now) 2 = Some (cmd_request WRITE)"
  "rtype (cmd_request ty) = ty" "row (address (cmd_request ty)) = 5"
  by (simp_all add: sample_sim_def cmd_request_def)

lemma sample_array_fields [simp]:
  "this sample_array = 7" "state sample_array = SUBARRAY_CLOSED" "nextCommand sample_array = CMD_NOP"
  "writeMode sample_array = WRITE_THROUGH" "isWriting sample_array = False"
  "nextActivate sample_array = 0" "nextPrecharge sample_array = 0" "nextRead sample_array = 0"
  "nextWrite sample_array = 0" "nextPowerDown sample_array = 0"
  by (simp_all add: sample_array_def SubArray_new_def)

definition open_array :: SubArray where
  "open_array = sample_array\<lparr>state := SUBARRAY_OPEN, openRow := 5\<rparr>"

lemma open_array_fields [simp]:
  "state open_array = SUBARRAY_OPEN" "openRow open_array = 5" "nextCommand open_array = CMD_NOP"
  "nextWrite open_array = 0" "isWriting open_array = False" "writeMode open_array = WRITE_THROUGH"
  "dataEncoder open_array = None" "endrModel open_array = None"
  by (simp_all add: open_array_def sample_array_def SubArray_new_def)

definition pausing_params :: Params where
  "pausing_params = default_params\<lparr>WritePausing := True, tWP := 50\<rparr>"

lemma pausing_params_fields [simp]:
  "WritePausing pausing_params" "tWP pausing_params = 50" "WriteAllBits pausing_params" "UniformWrites pausing_params"
  by (simp_all add: pausing_params_def)

lemma cmd_request_fields [simp]:
  "rdata (cmd_request ty) = NVMDataBlock_new" "oldData (cmd_request ty) = NVMDataBlock_new"
  "has_flag (cmd_request ty) f = False"
  by (simp_all add: cmd_request_def NVMainRequest_new_def has_flag_def)

lemma sample_activation:
  "\<exists>sa' s'. SubArray_IssueCommand default_params 0 (sample_array, sample_sim 10) = Some (True, sa', s')
    \<and> nextPrecharge sa' = 34 \<and> state sa' = SUBARRAY_OPEN \<and> nextCommand sa' = CMD_NOP \<and> writeMode sa' = WRITE_THROUGH
    \<and> openRow sa' = 5 \<and> nextWrite sa' = 19 \<and> isWriting sa' = False \<and> nextActivate sa' = 0
    \<and> all_events (eventQueue s') = [plain_event 0 EventResponse 7 (Some 0) 19 None]"
proof -
  have "ready default_params (cmd_request ACTIVATE) sample_array 10"
    "row_command default_params sample_array ACTIVATE = Some 9"
    by (simp_all add: ready_def row_command_def)
  then obtain sa' s' where i:
    "SubArray_IssueCommand default_params 0 (sample_array, sample_sim 10) = Some (True, sa', s')"
    "all_events (eventQueue s') = pending_insert
        (plain_event (nextPtr (eventQueue (sample_sim 10))) EventResponse 7 (Some 0) (10 + 9) None)
        (10 + 9) 0 (all_events (eventQueue (sample_sim 10)))"
    using ready_row_returns [OF sample_sim_ok, of 10 0 "cmd_request ACTIVATE" default_params sample_array 9] by auto
  moreover have "ctl sa' = ctl (cmd_effect default_params (cmd_request ACTIVATE) 10 (writeEnd sa' - 10) 19 sample_array)"
    using issue_effect [of "sample_sim 10" 0, OF _ _ i(1)] by (auto simp: cmd_effect_def)
  ultimately show ?thesis
    by (elim ctlE) (simp add: cmd_effect_def activate_effect_def constraint_defs sample_sim_def EventQueue_new_def
        all_events_def pending_insert_def)
qed

section \<open>Column commands return\<close>

text \<open>
  The configuration of the default parameter file: uniform writes of all bits, no encoder, no
  endurance tracking; the request carries no data or enough of it.
\<close>

definition plain_config :: "Params \<Rightarrow> SubArray \<Rightarrow> bool" where
  "plain_config p sa \<longleftrightarrow> WriteAllBits p \<and> UniformWrites p \<and> dataEncoder sa = None
     \<and> (case endrModel sa of None \<Rightarrow> True | Some m \<Rightarrow> ekind m = NullModel) \<and> writeMode sa = WRITE_THROUGH"

definition data_fits :: "Params \<Rightarrow> NVMainRequest \<Rightarrow> bool" where
  "data_fits p r \<longleftrightarrow> block_wf (rdata r) \<and> block_wf (oldData r)
     \<and> (case rawData (rdata r) of None \<Rightarrow> True | Some bs \<Rightarrow> 4 * unat (write_words p) \<le> length bs)"

lemma write_words_bound: "unat (write_words p) < 2 ^ 58"
proof -
  have "unat (write_words p) \<le> unat (ucast (ucast (tBURST p * RATE p * BusWidth p) :: u32) :: u64)"
    unfolding write_words_def by (simp add: unat_div_distrib)
  also have "\<dots> < 2 ^ 32"
    by (simp add: unsigned_ucast_eq unat_take_bit)
  finally show ?thesis by simp
qed

lemma CountBits_returns: "4 * unat (write_words p) \<le> length bs \<Longrightarrow> \<exists>c. CountBitsMLC1 v bs (write_words p) = Some c"
  using sum_words_eq [of "\<lambda>w. Some (Count32MLC1 w)" popcount "unat (write_words p)" bs, OF _ write_words_bound] Count32_pop popcount_le
  by (auto simp: CountBitsMLC1_def)

lemma WriteCellData_plain:
  assumes "plain_config p sa" "requests s rp = Some r" "data_fits p r"
  shows "\<exists>sa'. WriteCellData p rp (sa, s) = Some (tWP p, sa', s)"
proof (cases "rawData (rdata r)")
  case None
  then show ?thesis using assms by (simp add: WriteCellData_def plain_config_def Let_def)
next
  case (Some bs)
  then have "4 * unat (write_words p) \<le> length bs" using assms(3) by (simp add: data_fits_def)
  from CountBits_returns [OF this, of 0] CountBits_returns [OF this, of 1]
  show ?thesis using assms Some by (auto simp: WriteCellData_def plain_config_def Let_def)
qed

lemma restart_flags_fields [simp]:
  "rdata (restart_flags r) = rdata r" "oldData (restart_flags r) = oldData r"
  by (simp_all add: restart_flags_def clear_flag_def Let_def)

lemma write_duration_plain:
  assumes "plain_config p sa" "requests s rp = Some r" "data_fits p r"
  shows "\<exists>sa' r'. write_duration p rp (sa, s) =
      Some (if has_flag r FLAG_PAUSED then writeProgress r else tWP p, 0, 0, sa', put_request rp r' s)
    \<and> writeMode sa' = WRITE_THROUGH \<and> rdata r' = rdata r \<and> oldData r' = oldData r"
proof -
  have e: "encode_and_wear p rp (sa, s) = Some (0, 0, sa, s)"
    using assms(1,2) by (auto simp: encode_and_wear_def encode_request_def UpdateEndurance_def plain_config_def split: option.splits)
  from WriteCellData_plain [OF assms] obtain sa' where c: "WriteCellData p rp (sa, s) = Some (tWP p, sa', s)" by blast
  have "post (WriteCellData p rp (sa, s)) (\<lambda>(t, sa', s'). ctl sa' = ctl sa)" by (rule WriteCellData_post) simp
  from postD [OF this c] have m: "writeMode sa' = WRITE_THROUGH"
    using assms(1) by (auto elim!: ctlE simp: plain_config_def)
  then have "write_duration p rp (sa, s) = Some (if has_flag r FLAG_PAUSED then writeProgress r else tWP p, 0, 0, sa',
      put_request rp ((restart_flags r)\<lparr>writeProgress := if has_flag r FLAG_PAUSED then writeProgress r else tWP p\<rparr>) s)"
    using assms(2) by (simp add: write_duration_def e c Let_def)
  moreover have "rdata ((restart_flags r)\<lparr>writeProgress := x\<rparr>) = rdata r"
    "oldData ((restart_flags r)\<lparr>writeProgress := x\<rparr>) = oldData r" for x by simp_all
  ultimately show ?thesis using m by blast
qed

lemma Write_returns:
  assumes "plain_config p sa" "requests s rp = Some r" "data_fits p r" "live (eventQueue s)"
  shows "returns (SubArray_Write p rp (sa, s)) (\<lambda>(b, sa', s'). live (eventQueue s') \<and> (b \<longrightarrow> isWriting sa'
    \<and> writeRequest sa' = Some rp \<and> writeStart sa' = GetCurrentCycle s
    \<and> writeEnd sa' = GetCurrentCycle s + (if has_flag r FLAG_PAUSED then writeProgress r else tWP p)))"
proof -
  from write_duration_plain [OF assms(1-3)] obtain sa' r' where
    d: "write_duration p rp (sa, s) = Some (if has_flag r FLAG_PAUSED then writeProgress r else tWP p, 0, 0, sa', put_request rp r' s)"
    "writeMode sa' = WRITE_THROUGH" "rdata r' = rdata r" "oldData r' = oldData r"
    by blast
  have w: "block_wf (rdata r')" "block_wf (oldData r')" using d assms(3) by (simp_all add: data_fits_def)
  have e: "isWriting (burst_write_energy p u x) = isWriting x" "writeRequest (burst_write_energy p u x) = writeRequest x"
    "writeStart (burst_write_energy p u x) = writeStart x" for u x
    by (simp_all add: burst_write_energy_def Let_def)
  show ?thesis
    unfolding SubArray_Write_def
    by (intro nvm_returns returnsI [OF assms(2)] returnsI [OF d(1)] w
          returnsI [of "requests (put_request rp r' s) rp" r'];
        simp (no_asm_simp) add: assms(4) e d(2))
qed

definition store_ok :: "sim \<Rightarrow> bool" where
  "store_ok s \<longleftrightarrow> (case simInterface s of None \<Rightarrow> True | Some si \<Rightarrow> sim_wf si)"

lemma track_read_data_returns [nvm_returns]:
  assumes "block_wf (rdata r)" "store_ok s" "\<And>s'. eventQueue s' = eventQueue s \<Longrightarrow> Q s'"
  shows "returns (track_read_data r sa s) Q"
proof -
  have "\<exists>s'. track_read_data r sa s = Some s' \<and> eventQueue s' = eventQueue s"
    using assms(2) NVMDataBlock_assign_new [OF assms(1), of "\<lambda>_. 0"]
    by (auto simp: track_read_data_def GetDataAtAddress_def SetDataAtAddress_def store_ok_def sim_wf_def split: option.splits)
  then show ?thesis using assms(3) by (auto simp: returns_def)
qed

lemma store_ok_same: "simInterface s' = simInterface s \<Longrightarrow> store_ok s \<Longrightarrow> store_ok s'"
  by (simp add: store_ok_def)

lemma Read_returns:
  assumes "\<not> WritePausing p" "requests s rp = Some r" "data_fits p r" "live (eventQueue s)" "store_ok s"
  shows "returns (SubArray_Read p rp (sa, s)) (\<lambda>(b, sa', s'). live (eventQueue s'))"
proof -
  have w: "block_wf (rdata r)" "block_wf (oldData r)" using assms(3) by (simp_all add: data_fits_def)
  show ?thesis
    unfolding SubArray_Read_def
    by (intro nvm_returns returnsI [OF CheckWritePausing_off [OF assms(1)]] returnsI [OF assms(2)] w store_ok_same [OF _ assms(5)];
        simp (no_asm_simp) add: assms(4))
qed

lemma row_returns:
  assumes "\<not> WritePausing p" "requests s rp = Some r" "live (eventQueue s)"
  shows "returns (SubArray_Activate p rp (sa, s)) (\<lambda>(b, sa', s'). live (eventQueue s'))"
    "returns (SubArray_Refresh p rp (sa, s)) (\<lambda>(b, sa', s'). live (eventQueue s'))"
  unfolding SubArray_Activate_def SubArray_Refresh_def
  by (intro nvm_returns returnsI [OF CheckWritePausing_off [OF assms(1)]] returnsI [OF assms(2)]; simp (no_asm_simp) add: assms)+

lemma precharge_returns:
  assumes "requests s rp = Some r" "live (eventQueue s)" "writeMode sa = WRITE_THROUGH"
  shows "returns (SubArray_Precharge p rp (sa, s)) (\<lambda>(b, sa', s'). live (eventQueue s'))"
proof -
  have t: "precharge_timer p rp (sa, s) = Some (max 1 (tRP p), sa, s)" using assms(3) by (simp add: precharge_timer_def)
  show ?thesis
    unfolding SubArray_Precharge_def
    by (intro nvm_returns returnsI [OF t] returnsI [OF assms(1)]; simp (no_asm_simp) add: assms)
qed

lemma ready_issuable:
  assumes "ready p r sa (GetCurrentCycle s)" "\<not> WritePausing p" "nextCommand sa = CMD_NOP"
  shows "\<exists>why. SubArray_IsIssuable p r sa s = Some (True, why, sa)"
  using assms
  by (cases "rtype r"; simp add: SubArray_IsIssuable_def ready_def write_forced_def not_less Let_def; blast)

lemma issue_returns_lemma:
  assumes c: "plain_config p sa" "nextCommand sa = CMD_NOP" and pause: "\<not> WritePausing p" and q: "live (eventQueue s)" "store_ok s"
    and r: "requests s rp = Some r" "rp < nextReq s" "data_fits p r" and ready: "ready p r sa (GetCurrentCycle s)"
  shows "\<exists>sa' s'. SubArray_IssueCommand p rp (sa, s) = Some (True, sa', s') \<and> live (eventQueue s')"
proof -
  have np: "\<not> WritePausing p" "writeMode sa = WRITE_THROUGH" using c(1) pause by (simp_all add: plain_config_def)
  from ready_issuable [OF ready np(1) c(2)] obtain why where i: "SubArray_IsIssuable p r sa s = Some (True, why, sa)" by blast
  note ret = Read_returns [OF np(1) r(1,3) q, of sa] Write_returns [OF c(1) r(1,3) q(1)]
    row_returns [OF np(1) r(1) q(1), of sa] precharge_returns [OF r(1) q(1) np(2), of p]
  have "\<exists>b sa' s'. SubArray_IssueCommand p rp (sa, s) = Some (b, sa', s') \<and> live (eventQueue s')"
    using ret [THEN returnsD] r(1) i ready q(1)
    by (cases "rtype r") (auto simp: SubArray_IssueCommand_def ready_def)
  then obtain b sa' s' where b: "SubArray_IssueCommand p rp (sa, s) = Some (b, sa', s')" "live (eventQueue s')" by blast
  from r(1) b(1) have "b"
  proof (cases rule: IssueCommand_unfold)
    case refused
    then show ?thesis using i by simp
  next
    case activate
    then show ?thesis using postD [OF Activate_accepts activate(3)] np(1) by (simp add: ready_def)
  next
    case rd
    then show ?thesis using postD [OF Read_accepts [OF _ _ _ r(1,2)] rd(3)] np(1) by (auto simp: ready_def)
  next
    case wr
    then show ?thesis using postD [OF Write_accepts [OF _ _ _ r(1)] wr(3)] by (auto simp: ready_def)
  next
    case precharge
    then show ?thesis using postD [OF Precharge_accepts precharge(3)] by (auto simp: ready_def)
  next
    case refresh
    then show ?thesis using postD [OF Refresh_accepts refresh(3)] by (simp add: ready_def)
  qed
  with b show ?thesis by auto
qed

lemma CheckWritePausing_returns:
  assumes "isWriting sa" "writeRequest sa = Some wp" "requests s wp = Some wr" "writeEnd sa \<noteq> writeStart sa"
    "live (remove_write_event (writeEvent sa) (writeEventTime sa) (eventQueue s))"
  shows "returns (CheckWritePausing p (sa, s)) (\<lambda>_. True)"
  unfolding CheckWritePausing_def
  by (intro nvm_returns returnsI [OF assms(2)] returnsI [OF assms(3)]; simp (no_asm_simp) add: assms)

lemma sample_data_fits: "data_fits p (cmd_request ty)"
  by (simp add: data_fits_def NVMDataBlock_new_def block_wf_def)

lemma open_array_plain: "plain_config default_params open_array"
  by (simp add: plain_config_def)

lemma open_array_pausing: "plain_config pausing_params open_array"
  by (simp add: plain_config_def)

lemma sample_sim_live [simp]: "live (eventQueue (sample_sim now))" "simInterface (sample_sim now) = None"
  by (simp_all add: sample_sim_def)

section \<open>Properties\<close>

text \<open>
  The timing table: the first cycle at which a command of each kind may follow the command \<open>r\<close>
  issued at cycle \<open>now\<close>; \<open>dec\<close> is the decode delay and \<open>t\<close> the duration of the write. Pairs that the
  sub-array leaves unconstrained have the bound zero.
\<close>

definition first_after :: "Params \<Rightarrow> ncycle_t \<Rightarrow> NVMainRequest \<Rightarrow> ncycle_t \<Rightarrow> ncycle_t \<Rightarrow> slot \<Rightarrow> ncycle_t" where
  "first_after p dec r now t c =
     (let bursts = burst_gap p * (burstCount r - 1)
      in case rtype r of
        ACTIVATE \<Rightarrow> (case c of
            Read_slot \<Rightarrow> now + tRCD p - tAL p
          | Write_slot \<Rightarrow> now + tRCD p - tAL p
          | Close_slot \<Rightarrow> now + max (tRCD p) (tRAS p)
          | Sleep_slot \<Rightarrow> now + max (tRCD p) (tRAS p)
          | Row_slot \<Rightarrow> 0)
      | READ \<Rightarrow> (case c of
            Read_slot \<Rightarrow> now + burst_gap p * burstCount r
          | Write_slot \<Rightarrow> now + bursts + tCAS p + tBURST p + tRTRS p - tCWD p + dec
          | Close_slot \<Rightarrow> now + bursts + tAL p + tBURST p + tRTP p - tCCD_L p + dec
          | Sleep_slot \<Rightarrow> now + bursts + tCAS p + tAL p + tBURST p + 1 + dec
          | Row_slot \<Rightarrow> 0)
      | READ_PRECHARGE \<Rightarrow>
          if c = Sleep_slot then now + bursts + tCAS p + tAL p + tBURST p + 1 + dec
          else now + bursts + tAL p + tRTP p + tRP p + dec
      | WRITE \<Rightarrow> (case c of
            Read_slot \<Rightarrow> now + bursts + tCWD p + tBURST p + tWTR_L p + t
          | Write_slot \<Rightarrow> now + burst_gap p * burstCount r + t
          | Close_slot \<Rightarrow> now + bursts + tAL p + tCWD p + tBURST p + t + tWR p
          | Sleep_slot \<Rightarrow> now + bursts + tAL p + tCWD p + tBURST p + t + tWR p
          | Row_slot \<Rightarrow> 0)
      | WRITE_PRECHARGE \<Rightarrow> now + bursts + tAL p + tCWD p + tBURST p + t + tWR p + tRP p
      | PRECHARGE \<Rightarrow> if c = Row_slot then now + max 1 (tRP p) else 0
      | PRECHARGE_ALL \<Rightarrow> if c = Row_slot then now + max 1 (tRP p) else 0
      | REFRESH \<Rightarrow> if c = Row_slot then now + tRFC p else 0
      | _ \<Rightarrow> 0)"

lemma cmd_effect_first_after:
  assumes "\<not> WritePausing p" "writeMode sa \<noteq> WRITE_BACK \<longrightarrow> due = now + max 1 (tRP p)"
    "rtype r = PRECHARGE \<or> rtype r = PRECHARGE_ALL \<longrightarrow> writeMode sa \<noteq> WRITE_BACK"
  shows "first_after p (sa_decdelay sa) r now t c \<le> sa_earliest c (cmd_effect p r now t due sa)"
  using assms
  by (cases "rtype r"; cases c;
      simp (no_asm_simp) add: first_after_def cmd_effect_def activate_effect_def write_effect_def precharge_effect_def refresh_effect_def
        constraint_defs le_max_iff_disj del: max_absorbs)

lemma issue_first_after:
  assumes "\<not> WritePausing p" "requests s rp = Some r" "rp < nextReq s"
    "rtype r = PRECHARGE \<or> rtype r = PRECHARGE_ALL \<longrightarrow> writeMode sa \<noteq> WRITE_BACK"
    "SubArray_IssueCommand p rp (sa, s) = Some (True, sa1, s1)"
  shows "first_after p (sa_decdelay sa) r (GetCurrentCycle s) (writeEnd sa1 - GetCurrentCycle s) c \<le> sa_earliest c sa1"
proof -
  obtain due where due: "writeMode sa \<noteq> WRITE_BACK \<longrightarrow> due = GetCurrentCycle s + max 1 (tRP p)"
    and eff: "ctl sa1 = ctl (cmd_effect p r (GetCurrentCycle s) (writeEnd sa1 - GetCurrentCycle s) due sa)"
    using issue_effect [OF assms(2,3,5)] by auto
  show ?thesis unfolding ctl_earliest [OF eff] by (rule cmd_effect_first_after [OF assms(1) due assms(4)])
qed

text \<open>C14 (command_spacing). Timing safety of the sub-array without write pausing: when a command is
  accepted, then whatever happens (other commands, queries, completions, time passing), a later
  command is accepted only from the cycle on that the timing table names for the pair: row to column
  delay, row active time, read and write to precharge, write recovery and turnaround with the time
  the cell write really took, precharge and refresh to activate.\<close>

theorem command_spacing:
  assumes "\<not> WritePausing p" "requests s rp = Some r" "rp < nextReq s"
    "rtype r = PRECHARGE \<or> rtype r = PRECHARGE_ALL \<longrightarrow> writeMode sa \<noteq> WRITE_BACK"
    "SubArray_IssueCommand p rp (sa, s) = Some (True, sa1, s1)"
    "(sa_step p)\<^sup>*\<^sup>* (sa1, s1) (sa2, s2)"
    "requests s2 rp2 = Some r2" "slot_of (rtype r2) = Some c"
    "SubArray_IssueCommand p rp2 (sa2, s2) = Some (True, sa3, s3)"
  shows "first_after p (sa_decdelay sa) r (GetCurrentCycle s) (writeEnd sa1 - GetCurrentCycle s) c
    \<le> GetCurrentCycle s2"
proof -
  have p: "p\<lparr>WritePausing := False\<rparr> = p" using assms(1) by (cases p) simp
  have "first_after p (sa_decdelay sa) r (GetCurrentCycle s) (writeEnd sa1 - GetCurrentCycle s) c \<le> sa_earliest c sa1"
    by (rule issue_first_after [OF assms(1-5)])
  moreover have "sa_accept p c (sa2, s2) (sa3, s3)" using assms(7-9) by (auto simp: sa_accept_def)
  ultimately show ?thesis
    using sub_array.spacing [of _ c "(sa1, s1)" p "(sa2, s2)" "(sa3, s3)"] assms(6) by (simp add: p)
qed


lemma sample_elapse: "\<exists>sa1 s1. SubArray_IssueCommand default_params 0 (sample_array, sample_sim 10) = Some (True, sa1, s1)
    \<and> (sa_step default_params)\<^sup>*\<^sup>* (sa1, s1) (sa1, sample_sim 40)
    \<and> (\<exists>sa3 s3. SubArray_IssueCommand default_params 1 (sa1, sample_sim 40) = Some (True, sa3, s3))"
proof -
  from sample_activation obtain sa1 s1 where i:
    "SubArray_IssueCommand default_params 0 (sample_array, sample_sim 10) = Some (True, sa1, s1)"
    "nextPrecharge sa1 = 34" "state sa1 = SUBARRAY_OPEN" "nextCommand sa1 = CMD_NOP" "writeMode sa1 = WRITE_THROUGH"
    by blast
  have "GetCurrentCycle s1 = 10" using issue_effect [of "sample_sim 10" 0, OF _ _ i(1)] by simp
  then have "sa_step default_params (sa1, s1) (sa1, sample_sim 40)" by (simp add: sa_elapse)
  moreover have "ready default_params (cmd_request PRECHARGE) sa1 40"
    "row_command default_params sa1 PRECHARGE = Some 9"
    using i by (simp_all add: ready_def row_command_def)
  then have "\<exists>sa3 s3. SubArray_IssueCommand default_params 1 (sa1, sample_sim 40) = Some (True, sa3, s3)"
    using ready_row_returns [OF sample_sim_ok, of 40 1 "cmd_request PRECHARGE" default_params sa1 9] i by auto
  ultimately show ?thesis using i(1) by blast
qed

theorem command_spacing_witness:
  "\<exists>sa1 s1. SubArray_IssueCommand default_params 0 (sample_array, sample_sim 10) = Some (True, sa1, s1)
    \<and> first_after default_params (sa_decdelay sample_array) (cmd_request ACTIVATE) 10 (writeEnd sa1 - 10) Close_slot \<le> 40"
proof -
  from sample_elapse obtain sa1 s1 sa3 s3 where w:
    "SubArray_IssueCommand default_params 0 (sample_array, sample_sim 10) = Some (True, sa1, s1)"
    "(sa_step default_params)\<^sup>*\<^sup>* (sa1, s1) (sa1, sample_sim 40)"
    "SubArray_IssueCommand default_params 1 (sa1, sample_sim 40) = Some (True, sa3, s3)"
    by blast
  from command_spacing [of default_params "sample_sim 10" 0 _ sample_array, OF _ _ _ _ w(1,2) _ _ w(3)]
  have "first_after default_params (sa_decdelay sample_array) (cmd_request ACTIVATE) 10 (writeEnd sa1 - 10) Close_slot \<le> 40"
    by (simp add: slot_of_def)
  with w(1) show ?thesis by blast
qed

text \<open>C23 (sanity_checks_redundant). In every state that a sub-array reaches from its constructor, also
  with write pausing, a command that \<^verbatim>\<open>IsIssuable\<close> accepts passes the sanity checks that the
  command itself repeats: \<^verbatim>\<open>IssueCommand\<close> never returns \<^verbatim>\<open>false\<close> for it.\<close>

theorem sanity_checks_redundant:
  assumes "(sa_step p)\<^sup>*\<^sup>* (SubArray_new oid g, s0) (sa, s)"
    "requests s rp = Some r" "rp < nextReq s"
    "SubArray_IsIssuable p r sa s = Some (True, why, sa1)"
    "SubArray_IssueCommand p rp (sa, s) = Some (b, sa', s')"
  shows "b"
proof -
  have "saved (fst (sa, s))"
    using assms(1) by (induction rule: rtranclp_induct) (auto simp: saved_def SubArray_new_def dest: sa_step_saved)
  then show ?thesis using issue_accepted assms(2-5) by simp
qed


theorem sanity_checks_redundant_witness:
  "\<exists>b sa' s'. SubArray_IssueCommand default_params 0 (sample_array, sample_sim 10) = Some (b, sa', s') \<and> b"
proof -
  obtain b sa' s' where
    i: "SubArray_IssueCommand default_params 0 (sample_array, sample_sim 10) = Some (b, sa', s')"
    using sample_activation by blast
  have "SubArray_IsIssuable default_params (cmd_request ACTIVATE) sample_array (sample_sim 10) = Some (True, None, sample_array)"
    by (simp add: SubArray_IsIssuable_def write_forced_def)
  from sanity_checks_redundant [of default_params 7 undefined "sample_sim 10" sample_array "sample_sim 10" 0, OF _ _ _ this i]
  have b by (simp add: sample_array_def)
  with i show ?thesis by blast
qed

text \<open>On a well-formed shared state an issuable \<^verbatim>\<open>ACTIVATE\<close>,
  \<^verbatim>\<open>REFRESH\<close> or write-through \<^verbatim>\<open>PRECHARGE\<close> returns \<^verbatim>\<open>true\<close>, makes the sub-array the owner of
  the request and adds exactly one event to the queue: the response to the sub-array after the row
  delay, the refresh time or the precharge time.\<close>

lemma row_command_returns:
  assumes "sim_ok s" "requests s rp = Some r" "\<not> WritePausing p" "nextCommand sa = CMD_NOP"
    "row_command p sa (rtype r) = Some d" "ready p r sa (GetCurrentCycle s)"
  shows "\<exists>sa' s'. SubArray_IssueCommand p rp (sa, s) = Some (True, sa', s') \<and> sim_ok s'
    \<and> requests s' = (requests s)(rp \<mapsto> r\<lparr>owner := Some (this sa)\<rparr>)
    \<and> all_events (eventQueue s') = pending_insert
        (plain_event (nextPtr (eventQueue s)) EventResponse (this sa) (Some rp) (GetCurrentCycle s + d) None)
        (GetCurrentCycle s + d) 0 (all_events (eventQueue s))"
  by (rule ready_row_returns [OF assms])


text \<open>C26 (issue_returns). In the default configuration (uniform writes, no encoder, no endurance
  tracking, no pausing) and with a queue without deleted events, every command that satisfies the
  conditions of \<^verbatim>\<open>IsIssuable\<close> is issued: no assertion fails, no undefined access happens,
  \<^verbatim>\<open>IssueCommand\<close> returns \<^verbatim>\<open>true\<close> and the queue again holds no deleted event.\<close>

theorem issue_returns:
  assumes "plain_config p sa" "nextCommand sa = CMD_NOP" "\<not> WritePausing p" "live (eventQueue s)" "store_ok s"
    "requests s rp = Some r" "rp < nextReq s" "data_fits p r" "ready p r sa (GetCurrentCycle s)"
  shows "\<exists>sa' s'. SubArray_IssueCommand p rp (sa, s) = Some (True, sa', s') \<and> live (eventQueue s')"
  by (rule issue_returns_lemma [OF assms])

theorem issue_returns_witness:
  "\<exists>sa' s'. SubArray_IssueCommand default_params 2 (open_array, sample_sim 10) = Some (True, sa', s')"
  using issue_returns [OF open_array_plain, of "sample_sim 10" 2 "cmd_request WRITE"]
  by (auto simp: ready_def sample_data_fits store_ok_def)

text \<open>C30 (pause_undoes_write). Pausing or cancelling a write gives back, for every kind of command, the
  earliest issue time that held before the write was issued.\<close>

theorem pause_undoes_write:
  assumes "WritePausing p" "requests s rp = Some r" "rp < nextReq s"
    "SubArray_Write p rp (sa, s) = Some (True, sa1, s1)"
    "CheckWritePausing p (sa1, s2) = Some (sa2, s3)"
  shows "sa_earliest c sa2 = sa_earliest c sa"
proof -
  from postD [OF Write_effect [OF assms(2,3)] assms(4)] obtain t where
    w: "ctl sa1 = ctl (write_effect p r (GetCurrentCycle s) t sa)" by (auto simp: effect_def)
  have "post (CheckWritePausing p (sa1, s2)) (\<lambda>(sa2, s3). ctl sa2 = ctl (restore p sa1))"
    by (rule CheckWritePausing_post) simp
  from postD [OF this assms(5)] have "ctl sa2 = ctl (restore p sa1)" by simp
  from ctl_earliest [OF this] have "sa_earliest c sa2 = sa_earliest c (restore p sa1)" .
  also have "\<dots> = sa_earliest c sa"
    using w by (elim ctlE) (cases c; simp (no_asm_simp) add: restore_def assms(1) write_effect_saves)
  finally show ?thesis .
qed

theorem pause_undoes_write_witness:
  "\<exists>sa1 s1 sa2 s3. SubArray_Write pausing_params 2 (open_array, sample_sim 10) = Some (True, sa1, s1)
     \<and> CheckWritePausing pausing_params (sa1, sample_sim 20) = Some (sa2, s3)
     \<and> sa_earliest Read_slot sa2 = sa_earliest Read_slot open_array"
proof -
  from returnsD [OF Write_returns [OF open_array_pausing, of "sample_sim 10" 2 "cmd_request WRITE"]] obtain b sa1 s1 where
    w: "SubArray_Write pausing_params 2 (open_array, sample_sim 10) = Some (b, sa1, s1)"
    "b \<longrightarrow> isWriting sa1 \<and> writeRequest sa1 = Some 2 \<and> writeStart sa1 = 10 \<and> writeEnd sa1 = 60"
    by (auto simp: sample_data_fits)
  have b: "b = True"
    using postD [OF Write_accepts [of open_array "sample_sim 10" "cmd_request WRITE" 2] w(1)] by simp
  have "live (remove_write_event ev due (eventQueue (sample_sim 20)))" for ev due
    by (simp add: sample_sim_def remove_write_event_def RemoveEvent_def EventQueue_new_def live_def omap_count_def Let_def
        split: option.splits)
  with b obtain sa2 s3 where c: "CheckWritePausing pausing_params (sa1, sample_sim 20) = Some (sa2, s3)"
    using returnsD [OF CheckWritePausing_returns [of sa1 2 "sample_sim 20" "cmd_request WRITE" pausing_params]] w(2)
    by auto
  have "sa_earliest Read_slot sa2 = sa_earliest Read_slot open_array"
    by (rule pause_undoes_write [OF _ _ _ w(1) [unfolded b] c]) simp_all
  with w(1) b c show ?thesis by blast
qed

end
