(* ===== verification/Module_Children.thy ===== *)
theory Module_Children
  imports NVM_Sim
begin

text \<open>
  The contract between a module and the modules it owns: a child takes steps on its own state and the
  shared one, and time may pass for it. What a module does to its children is then a relation between
  vectors of children: each of them goes through a run of its own.
\<close>

definition kids :: "('c \<times> sim \<Rightarrow> 'c \<times> sim \<Rightarrow> bool) \<Rightarrow> 'c list \<times> sim \<Rightarrow> 'c list \<times> sim \<Rightarrow> bool" where
  "kids step st st' \<longleftrightarrow> length (fst st') = length (fst st) \<and> GetCurrentCycle (snd st) \<le> GetCurrentCycle (snd st')
     \<and> (\<forall>j < length (fst st). step\<^sup>*\<^sup>* (fst st ! j, snd st) (fst st' ! j, snd st'))"

lemma kids_refl [simp]: "kids step st st"
  by (simp add: kids_def)

lemma kids_trans [trans]: "kids step a b \<Longrightarrow> kids step b c \<Longrightarrow> kids step a c"
  unfolding kids_def by (auto intro: order_trans rtranclp_trans)

lemma kids_length: "kids step (cs, s) (cs', s') \<Longrightarrow> length cs' = length cs"
  by (simp add: kids_def)

lemma kids_clock: "kids step (cs, s) (cs', s') \<Longrightarrow> GetCurrentCycle s \<le> GetCurrentCycle s'"
  by (simp add: kids_def)

lemma kids_run: "kids step (cs, s) (cs', s') \<Longrightarrow> j < length cs \<Longrightarrow> step\<^sup>*\<^sup>* (cs ! j, s) (cs' ! j, s')"
  by (simp add: kids_def)

lemma kids_all:
  assumes "length cs' = length cs" "\<And>j. j < length cs \<Longrightarrow> step (cs ! j, s) (cs' ! j, s)"
  shows "kids step (cs, s) (cs', s)"
  using assms by (auto simp: kids_def)

locale module_child =
  fixes step :: "'c \<times> sim \<Rightarrow> 'c \<times> sim \<Rightarrow> bool"
  assumes elapse: "GetCurrentCycle s \<le> GetCurrentCycle s' \<Longrightarrow> step (c, s) (c, s')"
begin

lemma kids_elapse: "GetCurrentCycle s \<le> GetCurrentCycle s' \<Longrightarrow> kids step (cs, s) (cs, s')"
  by (auto simp: kids_def intro: elapse)

lemma kids_one:
  assumes "step (cs ! i, s) (c, s')" "GetCurrentCycle s \<le> GetCurrentCycle s'"
  shows "kids step (cs, s) (cs[i := c], s')"
proof -
  have "step\<^sup>*\<^sup>* (cs ! j, s) (cs[i := c] ! j, s')" if "j < length cs" for j
    using assms that by (cases "i = j") (auto intro: elapse)
  then show ?thesis using assms(2) by (simp add: kids_def)
qed

lemma kids_then_elapse:
  assumes "kids step (cs, s) (cs', s1)" "GetCurrentCycle s' = GetCurrentCycle s1"
  shows "kids step (cs, s) (cs', s')"
  using assms(1) kids_elapse [of s1 s' cs'] assms(2) kids_trans by (metis order_refl)

end

end
