(* ===== verification/Ddr3_Bank_Timing.thy ===== *)
theory Ddr3_Bank_Timing
  imports Ddr3_Bank Sub_Array_Timing Module_Children
begin

text \<open>
  What the bank promises. Every step of a bank is, for each of its sub-arrays, a run of that
  sub-array, so that what holds of a sub-array holds of it inside a bank; the bank's own earliest
  issue times meet the contract of a timed module; the power state agrees with the queue of open
  sub-arrays.
\<close>

section \<open>The heap during a command of a sub-array\<close>

lemma sim_rel_nextReq: "sim_rel s s' \<Longrightarrow> nextReq s \<le> nextReq s'"
  by (simp add: sim_rel_def)

lemma row_commands_heap:
  "post (SubArray_Activate p rp (sa, s)) (\<lambda>(b, sa', s'). nextReq s \<le> nextReq s')"
  "post (SubArray_Precharge p rp (sa, s)) (\<lambda>(b, sa', s'). nextReq s \<le> nextReq s')"
  "post (SubArray_Refresh p rp (sa, s)) (\<lambda>(b, sa', s'). nextReq s \<le> nextReq s')"
  unfolding SubArray_Activate_def SubArray_Precharge_def SubArray_Refresh_def
  by (intro nvm_post CheckWritePausing_post; ((drule sim_rel_nextReq)+)?; simp (no_asm); hypsubst_thin?; simp)+

lemma column_commands_heap:
  "post (SubArray_Read p rp (sa, s)) (\<lambda>(b, sa', s'). nextReq s \<le> nextReq s')"
  "post (SubArray_Write p rp (sa, s)) (\<lambda>(b, sa', s'). nextReq s \<le> nextReq s')"
  subgoal
    unfolding SubArray_Read_def
    by (intro nvm_post CheckWritePausing_post; ((drule sim_rel_nextReq)+)?; simp (no_asm); linarith)
  subgoal
    unfolding SubArray_Write_def
    by (intro nvm_post; ((drule sim_rel_nextReq)+)?; simp (no_asm); (hypsubst_thin)?; (simp; fail)?)
  done

lemma IssueCommand_heap:
  assumes "requests s rp = Some r" "SubArray_IssueCommand p rp (sa, s) = Some (b, sa', s')"
  shows "nextReq s \<le> nextReq s'"
  using assms
  by (cases rule: IssueCommand_unfold)
    (use row_commands_heap column_commands_heap in \<open>fastforce simp: post_def\<close>)+

section \<open>Runs of the children\<close>

interpretation sub_array_child: module_child "sa_step p" for p
  by unfold_locales (rule sa_elapse)

section \<open>Postconditions\<close>

lemma bank_issue_child_post [nvm_post]:
  assumes "rp < nextReq s"
    and "\<And>ok cs s'. kids (sa_step p) (bk_children b, s) (cs, s') \<Longrightarrow> nextReq s \<le> nextReq s'
      \<Longrightarrow> GetCurrentCycle s' = GetCurrentCycle s \<Longrightarrow> Q (ok, b\<lparr>bk_children := cs\<rparr>, s')"
  shows "post (bank_issue_child p i rp (b, s)) Q"
proof (rule post_any)
  fix x
  assume "bank_issue_child p i rp (b, s) = Some x"
  then obtain ok sa s' where c: "SubArray_IssueCommand p rp (bk_children b ! i, s) = Some (ok, sa, s')"
    "x = (ok, b\<lparr>bk_children := (bk_children b)[i := sa]\<rparr>, s')"
    by (auto simp: bank_issue_child_def bind_eq_Some_conv)
  then obtain r where r: "requests s rp = Some r" by (auto simp: SubArray_IssueCommand_def bind_eq_Some_conv)
  have t: "GetCurrentCycle s' = GetCurrentCycle s" using issue_effect [OF r assms(1) c(1)] by simp
  then have "kids (sa_step p) (bk_children b, s) ((bk_children b)[i := sa], s')"
    using sa_issue [OF r assms(1) c(1)] by (intro sub_array_child.kids_one) simp_all
  then show "Q x" using assms(2) IssueCommand_heap [OF r c(1)] t c(2) by simp
qed

lemma bank_child_issuable_post [nvm_post]:
  assumes "\<And>ok why cs. kids (sa_step p) (bk_children b, s) (cs, s) \<Longrightarrow> ok \<longrightarrow> cs = bk_children b
      \<Longrightarrow> Q (ok, why, b\<lparr>bk_children := cs\<rparr>)"
  shows "post (bank_child_issuable p i r b s) Q"
proof (rule post_any)
  fix x
  assume "bank_child_issuable p i r b s = Some x"
  then obtain ok why sa where q: "SubArray_IsIssuable p r (bk_children b ! i) s = Some (ok, why, sa)"
    "x = (ok, why, b\<lparr>bk_children := (bk_children b)[i := sa]\<rparr>)"
    by (auto simp: bank_child_issuable_def bind_eq_Some_conv)
  have "ok \<longrightarrow> (bk_children b)[i := sa] = bk_children b" using IsIssuable_cases(2) [OF q(1)] by simp
  then show "Q x" using assms sub_array_child.kids_one [OF sa_query [OF q(1)]] q(2) by simp
qed

lemma bank_ask_post [nvm_post]:
  assumes "\<And>ok why dec cs. kids (sa_step p) (bk_children b, s) (cs, s) \<Longrightarrow> ok \<longrightarrow> cs = bk_children b
      \<Longrightarrow> defaultField dec = defaultField (bk_decoder b)
      \<Longrightarrow> Q (ok, why, b\<lparr>bk_decoder := dec, bk_children := cs\<rparr>)"
  shows "post (bank_ask p r b s) Q"
  unfolding bank_ask_def by (intro nvm_post; rule assms; simp)

lemma bank_forward_post [nvm_post]:
  assumes "rp < nextReq s"
    and "\<And>ok dec cs s'. kids (sa_step p) (bk_children b, s) (cs, s') \<Longrightarrow> nextReq s \<le> nextReq s'
      \<Longrightarrow> GetCurrentCycle s' = GetCurrentCycle s \<Longrightarrow> defaultField dec = defaultField (bk_decoder b)
      \<Longrightarrow> Q (ok, b\<lparr>bk_decoder := dec, bk_children := cs\<rparr>, s')"
  shows "post (bank_forward p rp (b, s)) Q"
  unfolding bank_forward_def using assms by (intro nvm_post; simp add: assms)

lemma bank_ask_all_post [nvm_post]:
  assumes "\<And>ok why cs. kids (sa_step p) (bk_children b, s) (cs, s) \<Longrightarrow> ok \<longrightarrow> cs = bk_children b
      \<Longrightarrow> Q (ok, why, b\<lparr>bk_children := cs\<rparr>)"
  shows "post (bank_ask_all p r qs b s) Q"
  using assms
proof (induction qs arbitrary: b)
  case Nil
  then show ?case using Nil [of "bk_children b"] by (simp add: post_def)
next
  case (Cons c qs)
  have "post (bank_ask_all p r qs (b\<lparr>bk_children := cs\<rparr>) s) Q"
    if "kids (sa_step p) (bk_children b, s) (cs, s)" "cs = bk_children b" for cs
    by (rule Cons.IH) (simp, rule Cons.prems, erule kids_trans [OF that(1)], simp add: that(2))
  then show ?case unfolding bank_ask_all.simps by (intro nvm_post) (simp_all add: Cons.prems)
qed

lemma precharge_all_post:
  assumes "rp < nextReq s" "qs = activeSubArrayQueue b"
    and "\<And>ok cs qs' s'. kids (sa_step p) (bk_children b, s) (cs, s') \<Longrightarrow> nextReq s \<le> nextReq s'
      \<Longrightarrow> GetCurrentCycle s' = GetCurrentCycle s \<Longrightarrow> ok \<longrightarrow> qs' = []
      \<Longrightarrow> Q (ok, b\<lparr>activeSubArrayQueue := qs', bk_children := cs\<rparr>, s')"
  shows "post (precharge_all p rp qs (b, s)) Q"
  using assms
proof (induction qs arbitrary: b s)
  case Nil
  have "b\<lparr>activeSubArrayQueue := []\<rparr> = b" using Nil(2) by (cases b) simp
  then show ?case using Nil(3) [of "bk_children b" s True "[]"] by (simp add: post_def)
next
  case (Cons c qs)
  note Q = Cons.prems(3)
  show ?case
  proof (cases qs)
    case Nil
    then show ?thesis using Cons.prems(1) by (simp only: precharge_all.simps) (intro nvm_post, simp_all add: Q)
  next
    case q: (Cons c' cs')
    have rest: "post (precharge_all p rp qs (b\<lparr>activeSubArrayQueue := qs, bk_children := cs\<rparr>, s1)) Q"
      if k: "kids (sa_step p) (bk_children b, s) (cs, s1)" "nextReq s \<le> nextReq s1" "GetCurrentCycle s1 = GetCurrentCycle s" for cs s1
      by (rule Cons.IH) (use Cons.prems(1) k in simp, simp, simp, rule Q, use k in \<open>auto elim: kids_trans\<close>)
    have copy: "post (copy_request f r s) (\<lambda>(rq, s1). kids (sa_step p) (bk_children b, s) (bk_children b, s1)
        \<and> nextReq s \<le> nextReq s1 \<and> GetCurrentCycle s1 = GetCurrentCycle s \<and> rq < nextReq s1)" for f r
      by (auto simp: post_def copy_request_def put_request_def bind_eq_Some_conv intro: sub_array_child.kids_elapse)
    show ?thesis
      unfolding q precharge_all.simps
      by (intro post_Let post_bind post_any [of "requests s rp"] post_weaken [OF copy] nvm_post)
        (auto intro!: rest [unfolded q] Q nvm_post elim: kids_trans)
  qed
qed

section \<open>The bank's own times\<close>

text \<open>The kinds of commands for which the bank keeps an earliest issue time; the time for powering
  down is left out, since a write with automatic precharge can move it backwards.\<close>

datatype bank_slot = Bank_row | Bank_read | Bank_write | Bank_close | Bank_wake

definition bank_slot_of :: "OpType \<Rightarrow> bank_slot option" where
  "bank_slot_of ty =
     (if ty = ACTIVATE \<or> ty = REFRESH then Some Bank_row
      else if ty = READ \<or> ty = READ_PRECHARGE then Some Bank_read
      else if ty = WRITE \<or> ty = WRITE_PRECHARGE then Some Bank_write
      else if ty = PRECHARGE \<or> ty = PRECHARGE_ALL then Some Bank_close
      else if ty = POWERUP then Some Bank_wake
      else None)"

fun bank_earliest :: "bank_slot \<Rightarrow> DDR3Bank \<Rightarrow> ncycle_t" where
  "bank_earliest Bank_row b = bk_nextActivate b"
| "bank_earliest Bank_read b = bk_nextRead b"
| "bank_earliest Bank_write b = bk_nextWrite b"
| "bank_earliest Bank_close b = bk_nextPrecharge b"
| "bank_earliest Bank_wake b = bk_nextPowerUp b"

text \<open>The bank's timing table: the first cycle for each kind of command after \<open>r\<close> at cycle \<open>now\<close>;
  \<open>slow\<close> tells whether a power-up leaves the slow-exit state.\<close>

definition bank_first_after :: "Params \<Rightarrow> NVMainRequest \<Rightarrow> bool \<Rightarrow> ncycle_t \<Rightarrow> bank_slot \<Rightarrow> ncycle_t" where
  "bank_first_after p r slow now c =
     (let bursts = burst_gap p * (burstCount r - 1); ty = rtype r
      in if ty = READ \<or> ty = READ_PRECHARGE then
           (if c = Bank_read then now + burst_gap p * burstCount r
            else if c = Bank_write then now + bursts + tCAS p + tBURST p + tRTRS p - tCWD p
            else 0)
         else if ty = WRITE \<or> ty = WRITE_PRECHARGE then
           (if c = Bank_read then now + bursts + tCWD p + tBURST p + tWTR_L p
            else if c = Bank_write then now + burst_gap p * burstCount r
            else 0)
         else if ty = POWERDOWN_PDA \<or> ty = POWERDOWN_PDPF \<or> ty = POWERDOWN_PDPS then
           (if c = Bank_wake then now + tPD p else 0)
         else if ty = POWERUP then
           (if c = Bank_wake then 0
            else if c = Bank_read then now + (if slow then tXPDLL p else tXP p)
            else now + tXP p)
         else 0)"

definition open_inv :: "DDR3Bank \<Rightarrow> bool" where
  "open_inv b \<longleftrightarrow> bk_state b \<noteq> DDR3BANK_UNKNOWN
     \<and> (bk_state b = DDR3BANK_OPEN \<or> bk_state b = DDR3BANK_PDA) = (activeSubArrayQueue b \<noteq> [])"

text \<open>What one command does to the children, to the times and to the power state.\<close>

definition bank_effect :: "Params \<Rightarrow> NVMainRequest \<Rightarrow> DDR3Bank \<times> sim \<Rightarrow> bool \<times> DDR3Bank \<times> sim \<Rightarrow> bool" where
  "bank_effect p r st out = (case (st, out) of ((b, s), (ok, b', s')) \<Rightarrow>
     kids (sa_step p) (bk_children b, s) (bk_children b', s') \<and> GetCurrentCycle s' = GetCurrentCycle s
     \<and> nextReq s \<le> nextReq s' \<and> defaultField (bk_decoder b') = defaultField (bk_decoder b)
     \<and> (\<forall>c. bank_earliest c b \<le> bank_earliest c b')
     \<and> (ok \<longrightarrow> (\<forall>c. bank_first_after p r (bk_state b = DDR3BANK_PDPS) (GetCurrentCycle s) c \<le> bank_earliest c b'))
     \<and> (open_inv b \<longrightarrow> ok \<or> rtype r \<noteq> PRECHARGE_ALL \<longrightarrow> open_inv b'))"

lemma all_bank_slot: "(\<forall>c. P c) = (P Bank_row \<and> P Bank_read \<and> P Bank_write \<and> P Bank_close \<and> P Bank_wake)"
  by (metis bank_slot.exhaust)

lemmas bank_effect_simps = bank_effect_def all_bank_slot bank_first_after_def open_inv_def bank_read_constraints_def
  bank_write_constraints_def close_if_idle_def deactivate_def le_max_iff_disj Let_def

lemma Bank_Activate_effect:
  assumes "requests s rp = Some r" "rp < nextReq s" "rtype r = ACTIVATE"
  shows "post (Bank_Activate p rp (b, s)) (bank_effect p r (b, s))"
  using assms unfolding Bank_Activate_def
  by (intro nvm_post) (auto simp: bank_effect_simps)

lemma Bank_Read_effect:
  assumes "requests s rp = Some r" "rp < nextReq s" "rtype r = READ \<or> rtype r = READ_PRECHARGE"
  shows "post (Bank_Read p rp (b, s)) (bank_effect p r (b, s))"
  using assms unfolding Bank_Read_def
  by (intro nvm_post) (auto simp: bank_effect_simps)

lemma Bank_Refresh_effect:
  assumes "requests s rp = Some r" "rp < nextReq s" "rtype r = REFRESH"
  shows "post (Bank_Refresh p rp (b, s)) (bank_effect p r (b, s))"
  using assms unfolding Bank_Refresh_def
  by (intro nvm_post) (auto simp: bank_effect_simps)

lemma Bank_Write_effect:
  assumes "requests s rp = Some r" "rp < nextReq s" "rtype r = WRITE \<or> rtype r = WRITE_PRECHARGE"
  shows "post (Bank_Write p rp (b, s)) (bank_effect p r (b, s))"
  using assms unfolding Bank_Write_def
  by (intro nvm_post) (auto simp: bank_effect_simps)

lemma Bank_Precharge_effect:
  assumes "requests s rp = Some r" "rp < nextReq s" "rtype r = PRECHARGE \<or> rtype r = PRECHARGE_ALL"
  shows "post (Bank_Precharge p rp (b, s)) (bank_effect p r (b, s))"
  using assms unfolding Bank_Precharge_def
  by (intro nvm_post precharge_all_post) (auto simp: bank_effect_simps)

lemma Bank_PowerDown_effect:
  assumes "rtype r = POWERDOWN_PDA \<or> rtype r = POWERDOWN_PDPF \<or> rtype r = POWERDOWN_PDPS"
  shows "post (Bank_PowerDown p r b s) (\<lambda>(ok, b'). bank_effect p r (b, s) (ok, b', s))"
  using assms unfolding Bank_PowerDown_def
  by (intro nvm_post) (auto simp: bank_effect_simps)

lemma Bank_PowerUp_effect:
  "rtype r = POWERUP \<Longrightarrow> Bank_PowerUp p b s = (ok, b') \<Longrightarrow> bank_effect p r (b, s) (ok, b', s)"
  by (auto simp: Bank_PowerUp_def bank_effect_simps split: if_splits)

text \<open>A query changes only the children, the decoder and the statistics; an accepted command is
  offered at the time and in the state it needs.\<close>

definition bank_ready :: "Params \<Rightarrow> NVMainRequest \<Rightarrow> DDR3Bank \<Rightarrow> ncycle_t \<Rightarrow> bool" where
  "bank_ready p r b now \<longleftrightarrow> (case bank_slot_of (rtype r) of None \<Rightarrow> True | Some c \<Rightarrow> bank_earliest c b \<le> now)
     \<and> (if rtype r = POWERUP then bk_state b \<in> {DDR3BANK_PDPF, DDR3BANK_PDPS, DDR3BANK_PDA}
        else if rtype r \<in> {READ, READ_PRECHARGE, WRITE, WRITE_PRECHARGE} then bk_state b = DDR3BANK_OPEN
        else if rtype r \<in> {POWERDOWN_PDPF, POWERDOWN_PDPS} then bk_state b = DDR3BANK_CLOSED
        else if rtype r \<in> {PRECHARGE, PRECHARGE_ALL, REFRESH, POWERDOWN_PDA} then bk_state b \<in> {DDR3BANK_CLOSED, DDR3BANK_OPEN}
        else rtype r = ACTIVATE \<longrightarrow> bk_state b \<notin> {DDR3BANK_PDPF, DDR3BANK_PDPS, DDR3BANK_PDA})"

definition bank_same :: "DDR3Bank \<Rightarrow> DDR3Bank \<Rightarrow> bool" where
  "bank_same b b' \<longleftrightarrow> defaultField (bk_decoder b') = defaultField (bk_decoder b) \<and> bk_state b' = bk_state b \<and> activeSubArrayQueue b' = activeSubArrayQueue b
     \<and> bk_nextCommand b' = bk_nextCommand b \<and> (\<forall>c. bank_earliest c b' = bank_earliest c b)"

lemma Bank_IsIssuable_post:
  "post (Bank_IsIssuable p r b s) (\<lambda>(ok, why, b'). kids (sa_step p) (bk_children b, s) (bk_children b', s) \<and> bank_same b b'
     \<and> (ok \<longrightarrow> bk_children b' = bk_children b \<and> bank_ready p r b (GetCurrentCycle s)))"
  unfolding Bank_IsIssuable_def bank_power_ask_def
  by (intro nvm_post; (simp (no_asm) only: split: OpType.split, intro conjI impI nvm_post)?;
      auto simp: bank_same_def all_bank_slot bank_ready_def bank_slot_of_def not_less intro!: post_Some)

lemma open_inv_same: "bank_same b b' \<Longrightarrow> open_inv b' = open_inv b"
  by (simp add: open_inv_def bank_same_def)

lemma bank_effect_after_query:
  assumes "kids (sa_step p) (bk_children b, s) (bk_children b1, s)" "bank_same b b1" "bank_effect p r (b1, s) out"
  shows "bank_effect p r (b, s) out"
  using assms open_inv_same [OF assms(2)]
  by (cases out) (auto simp: bank_effect_def bank_same_def intro: kids_trans)

lemma Bank_IssueCommand_unfold:
  assumes "requests s rp = Some r" "Bank_IssueCommand p rp (b, s) = Some (ok, b', s')"
  obtains (refused) why where "Bank_IsIssuable p r b s = Some (False, why, b')" "\<not> ok" "s' = s"
  | (run) why b1 where "Bank_IsIssuable p r b s = Some (True, why, b1)"
      "(case rtype r of
       ACTIVATE \<Rightarrow> Bank_Activate p rp (b1, s)
     | READ \<Rightarrow> Bank_Read p rp (b1, s)
     | READ_PRECHARGE \<Rightarrow> Bank_Read p rp (b1, s)
     | WRITE \<Rightarrow> Bank_Write p rp (b1, s)
     | WRITE_PRECHARGE \<Rightarrow> Bank_Write p rp (b1, s)
     | PRECHARGE \<Rightarrow> Bank_Precharge p rp (b1, s)
     | PRECHARGE_ALL \<Rightarrow> Bank_Precharge p rp (b1, s)
     | REFRESH \<Rightarrow> Bank_Refresh p rp (b1, s)
     | POWERDOWN_PDA \<Rightarrow> do { (ok, b) \<leftarrow> Bank_PowerDown p r b1 s; Some (ok, b, s) }
     | POWERDOWN_PDPF \<Rightarrow> do { (ok, b) \<leftarrow> Bank_PowerDown p r b1 s; Some (ok, b, s) }
     | POWERDOWN_PDPS \<Rightarrow> do { (ok, b) \<leftarrow> Bank_PowerDown p r b1 s; Some (ok, b, s) }
     | POWERUP \<Rightarrow> (case Bank_PowerUp p b1 s of (ok, b) \<Rightarrow> Some (ok, b, s))
     | _ \<Rightarrow> bank_forward p rp (b1, s)) = Some (ok, b', s')"
  using assms unfolding Bank_IssueCommand_def
  by (auto simp: bind_eq_Some_conv split: if_splits)

lemma Bank_IssueCommand_effect:
  assumes r: "requests s rp = Some r" "rp < nextReq s"
    and c: "Bank_IssueCommand p rp (b, s) = Some (ok, b', s')"
  shows "bank_effect p r (b, s) (ok, b', s')" "ok \<Longrightarrow> bank_ready p r b (GetCurrentCycle s)"
proof -
  have "bank_effect p r (b, s) (ok, b', s') \<and> (ok \<longrightarrow> bank_ready p r b (GetCurrentCycle s))"
    using r(1) c
  proof (cases rule: Bank_IssueCommand_unfold)
    case (refused why)
    then show ?thesis
      using postD [OF Bank_IsIssuable_post refused(1)] open_inv_same [of b b']
      by (auto simp: bank_effect_def bank_same_def)
  next
    case (run why b1)
    note q = postD [OF Bank_IsIssuable_post run(1)]
    note effects = Bank_Activate_effect [OF r] Bank_Read_effect [OF r] Bank_Write_effect [OF r]
      Bank_Precharge_effect [OF r] Bank_Refresh_effect [OF r]
    have pd: "post (Bank_PowerDown p r b1 s \<bind> (\<lambda>(ok, b). Some (ok, b, s))) (bank_effect p r (b1, s))"
      if "rtype r = POWERDOWN_PDA \<or> rtype r = POWERDOWN_PDPF \<or> rtype r = POWERDOWN_PDPS"
      using Bank_PowerDown_effect [OF that, of p b1 s] by (auto simp: post_def bind_eq_Some_conv)
    have pu: "bank_effect p r (b1, s) (ok, b', s')" if "rtype r = POWERUP"
      using run(2) Bank_PowerUp_effect [OF that, of p b1 s] that by (auto split: prod.splits)
    have fw: "post (bank_forward p rp (b1, s)) (bank_effect p r (b1, s))"
      if "rtype r \<notin> {READ, READ_PRECHARGE, WRITE, WRITE_PRECHARGE, POWERDOWN_PDA, POWERDOWN_PDPF, POWERDOWN_PDPS, POWERUP}"
      by (intro nvm_post r(2)) (use that in \<open>auto simp: bank_effect_simps\<close>)
    have "bank_effect p r (b1, s) (ok, b', s')"
      using run(2) by (cases "rtype r") (simp_all add: effects [THEN postD] pd [THEN postD] fw [THEN postD] pu)
    then show ?thesis using q bank_effect_after_query [of p b s b1 r "(ok, b', s')"] by auto
  qed
  then show "bank_effect p r (b, s) (ok, b', s')" "ok \<Longrightarrow> bank_ready p r b (GetCurrentCycle s)" by simp_all
qed

section \<open>Runs\<close>

text \<open>What can happen to a bank.\<close>

inductive bank_step :: "Params \<Rightarrow> DDR3Bank \<times> sim \<Rightarrow> DDR3Bank \<times> sim \<Rightarrow> bool" for p where
  bank_issue: "requests s rp = Some r \<Longrightarrow> rp < nextReq s \<Longrightarrow> Bank_IssueCommand p rp (b, s) = Some (ok, b', s')
    \<Longrightarrow> bank_step p (b, s) (b', s')"
| bank_query: "Bank_IsIssuable p r b s = Some (ok, why, b') \<Longrightarrow> bank_step p (b, s) (b', s)"
| bank_next: "Bank_NextIssuable r b = Some (t, b') \<Longrightarrow> bank_step p (b, s) (b', s)"
| bank_complete: "bank_child_complete p i rp (b, s) = Some (up, b', s') \<Longrightarrow> bank_step p (b, s) (b', s')"
| bank_stats: "Bank_CalculateStats p s b = Some b' \<Longrightarrow> bank_step p (b, s) (b', s)"
| bank_cycle: "bank_step p (b, s) (Bank_Cycle n b, s)"
| bank_elapse: "GetCurrentCycle s \<le> GetCurrentCycle s' \<Longrightarrow> bank_step p (b, s) (b, s')"

lemma children_stats_kids: "children_stats cs = Some cs' \<Longrightarrow> kids (sa_step p) (cs, s) (cs', s)"
proof -
  assume a: "children_stats cs = Some cs'"
  have "length cs' = length cs \<and> (\<forall>j < length cs. SubArray_CalculateStats (cs ! j) = Some (cs' ! j))"
    using a by (induction cs arbitrary: cs') (auto simp: bind_eq_Some_conv nth_Cons split: nat.splits)
  then show ?thesis by (auto intro!: kids_all sa_stats)
qed

text \<open>What every step keeps.\<close>

definition bank_keeps :: "Params \<Rightarrow> DDR3Bank \<times> sim \<Rightarrow> DDR3Bank \<times> sim \<Rightarrow> bool" where
  "bank_keeps p st st' \<longleftrightarrow> kids (sa_step p) (bk_children (fst st), snd st) (bk_children (fst st'), snd st')
     \<and> defaultField (bk_decoder (fst st')) = defaultField (bk_decoder (fst st))
     \<and> (\<forall>c. bank_earliest c (fst st) \<le> bank_earliest c (fst st'))"

lemma bank_keeps_refl [simp]: "bank_keeps p st st"
  by (simp add: bank_keeps_def)

lemma bank_keeps_trans: "bank_keeps p a b \<Longrightarrow> bank_keeps p b c \<Longrightarrow> bank_keeps p a c"
  unfolding bank_keeps_def by (auto intro: kids_trans order_trans)

lemma Bank_CalculatePower_fields [simp]:
  "bk_children (Bank_CalculatePower p s b) = bk_children b"
  "bk_decoder (Bank_CalculatePower p s b) = bk_decoder b"
  "bk_nextActivate (Bank_CalculatePower p s b) = bk_nextActivate b"
  "bk_nextRead (Bank_CalculatePower p s b) = bk_nextRead b"
  "bk_nextWrite (Bank_CalculatePower p s b) = bk_nextWrite b"
  "bk_nextPrecharge (Bank_CalculatePower p s b) = bk_nextPrecharge b"
  "bk_nextPowerUp (Bank_CalculatePower p s b) = bk_nextPowerUp b"
  by (simp_all add: Bank_CalculatePower_def Let_def)

lemma Bank_Cycle_fields [simp]:
  "bk_children (Bank_Cycle n b) = bk_children b"
  "bk_decoder (Bank_Cycle n b) = bk_decoder b"
  "bk_nextActivate (Bank_Cycle n b) = bk_nextActivate b"
  "bk_nextRead (Bank_Cycle n b) = bk_nextRead b"
  "bk_nextWrite (Bank_Cycle n b) = bk_nextWrite b"
  "bk_nextPrecharge (Bank_Cycle n b) = bk_nextPrecharge b"
  "bk_nextPowerUp (Bank_Cycle n b) = bk_nextPowerUp b"
  by (simp_all add: Bank_Cycle_def split: DDR3BankState.splits)

lemma CalculateStats_keeps: "Bank_CalculateStats p s b = Some b' \<Longrightarrow> bank_keeps p (b, s) (b', s)"
  by (auto simp: Bank_CalculateStats_def bank_keeps_def all_bank_slot Let_def bind_eq_Some_conv
      simp del: if_split intro: children_stats_kids)

lemma child_complete_keeps:
  assumes "bank_child_complete p i rp (b, s) = Some (up, b', s')"
  shows "bank_keeps p (b, s) (b', s')"
proof -
  obtain u sa s1 where c: "SubArray_RequestComplete p rp (bk_children b ! i, s) = Some (u, sa, s1)"
    "GetCurrentCycle s' = GetCurrentCycle s1" "b' = b\<lparr>bk_children := (bk_children b)[i := sa]\<rparr>"
    using assms
    by (auto simp: bank_child_complete_def bind_eq_Some_conv NVMObject_RequestComplete_def delete_request_def Let_def
        split: if_splits)
  have t: "GetCurrentCycle s1 = GetCurrentCycle s" using postD [OF RequestComplete_times c(1)] by simp
  have "kids (sa_step p) (bk_children b, s) (bk_children b', s1)"
    using sub_array_child.kids_one [OF sa_complete [OF c(1)]] t c(3) by simp
  also have "kids (sa_step p) (bk_children b', s1) (bk_children b', s')" using c(2) by (intro sub_array_child.kids_elapse) simp
  finally show ?thesis using c(3) by (simp add: bank_keeps_def all_bank_slot)
qed

lemma bank_step_keeps: "bank_step p st st' \<Longrightarrow> bank_keeps p st st'"
proof (induction rule: bank_step.induct)
  case (bank_issue s rp r b ok b' s')
  then show ?case using Bank_IssueCommand_effect(1) [OF bank_issue] by (simp add: bank_effect_def bank_keeps_def)
next
  case (bank_query r b s ok why b')
  then show ?case using postD [OF Bank_IsIssuable_post bank_query] by (simp add: bank_keeps_def bank_same_def)
next
  case (bank_next r b t b' s)
  then have "post (Bank_NextIssuable r b) (\<lambda>(t, b'). bank_keeps p (b, s) (b', s))"
    unfolding Bank_NextIssuable_def by (intro nvm_post) (simp_all add: bank_keeps_def all_bank_slot)
  then show ?case using bank_next by (auto simp: post_def)
next
  case (bank_elapse s s' b)
  then show ?case by (simp add: bank_keeps_def sub_array_child.kids_elapse)
qed (simp_all add: CalculateStats_keeps child_complete_keeps, simp add: bank_keeps_def all_bank_slot)

lemma bank_run_keeps: "(bank_step p)\<^sup>*\<^sup>* st st' \<Longrightarrow> bank_keeps p st st'"
  by (induction rule: rtranclp_induct) (auto intro: bank_keeps_trans bank_step_keeps)

text \<open>A command of a kind is accepted by the bank.\<close>

definition bank_accept :: "Params \<Rightarrow> bank_slot \<Rightarrow> DDR3Bank \<times> sim \<Rightarrow> DDR3Bank \<times> sim \<Rightarrow> bool" where
  "bank_accept p c st st' \<longleftrightarrow> (\<exists>rp r. requests (snd st) rp = Some r \<and> rp < nextReq (snd st)
     \<and> bank_slot_of (rtype r) = Some c \<and> Bank_IssueCommand p rp st = Some (True, st'))"

lemma bank_accept_earliest: "bank_accept p c st st' \<Longrightarrow> bank_earliest c (fst st) \<le> GetCurrentCycle (snd st)"
  using Bank_IssueCommand_effect(2) [of "snd st" _ _ p "fst st" True "fst st'" "snd st'"]
  by (cases st; cases st'; fastforce simp: bank_accept_def bank_ready_def)

interpretation ddr3_bank: timed_module "bank_step p" "bank_accept p" "\<lambda>st. GetCurrentCycle (snd st)"
  "\<lambda>c st. bank_earliest c (fst st)" for p
  by unfold_locales (use bank_step_keeps in \<open>auto simp: bank_keeps_def bank_accept_earliest\<close>)

end
