(* ===== verification/Ddr3_Bank_Safety.thy ===== *)
theory Ddr3_Bank_Safety
  imports Ddr3_Bank_Timing
begin

text \<open>
  Properties of the bank: which sub-array a command reaches, the spacing of commands on the bank and
  on one sub-array through the bank, and the power states.
\<close>

section \<open>The sub-array a command reaches\<close>

text \<open>The commands that go to the one sub-array that the address selects.\<close>

definition addressed :: "OpType \<Rightarrow> bool" where
  "addressed ty \<longleftrightarrow> ty \<in> {ACTIVATE, READ, READ_PRECHARGE, WRITE, WRITE_PRECHARGE, PRECHARGE, REFRESH}"

lemma deactivate_fields [simp]:
  "bk_children (deactivate c b) = bk_children b" "bk_children (close_if_idle b) = bk_children b"
  by (simp_all add: deactivate_def close_if_idle_def)

lemma constraints_fields [simp]:
  "bk_children (bank_read_constraints p r now b) = bk_children b" "bk_decoder (bank_read_constraints p r now b) = bk_decoder b"
  "bk_children (bank_write_constraints p r now b) = bk_children b" "bk_decoder (bank_write_constraints p r now b) = bk_decoder b"
  by (simp_all add: bank_read_constraints_def bank_write_constraints_def Let_def)

definition forwarded :: "Params \<Rightarrow> req_ptr \<Rightarrow> DDR3Bank \<times> sim \<Rightarrow> DDR3Bank \<times> sim \<Rightarrow> bool" where
  "forwarded p rp st st' \<longleftrightarrow> (\<exists>b1 b2. bank_forward p rp (b1, snd st) = Some (True, b2, snd st')
     \<and> bk_children b1 = bk_children (fst st) \<and> bk_decoder b1 = bk_decoder (fst st) \<and> bk_children b2 = bk_children (fst st'))"

lemma forwardedI:
  "bank_forward p rp (b1, s) = Some (ok, b2, s') \<Longrightarrow> ok \<Longrightarrow> bk_children b1 = bk_children b \<Longrightarrow> bk_decoder b1 = bk_decoder b
    \<Longrightarrow> bk_children b2 = bk_children b' \<Longrightarrow> forwarded p rp (b, s) (b', s')"
  by (auto simp: forwarded_def)

lemmas forward_posts = post_if post_Let post_bind post_pair post_Some post_None post_any [of "requests s rp" for s rp]
  post_any_triple [of "bank_forward p rp st" for p rp st]

lemma commands_forward:
  "post (Bank_Activate p rp (b, s)) (\<lambda>(ok, b', s'). ok \<longrightarrow> forwarded p rp (b, s) (b', s'))"
  "post (Bank_Read p rp (b, s)) (\<lambda>(ok, b', s'). ok \<longrightarrow> forwarded p rp (b, s) (b', s'))"
  "post (Bank_Write p rp (b, s)) (\<lambda>(ok, b', s'). ok \<longrightarrow> forwarded p rp (b, s) (b', s'))"
  "post (Bank_Refresh p rp (b, s)) (\<lambda>(ok, b', s'). ok \<longrightarrow> forwarded p rp (b, s) (b', s'))"
  unfolding Bank_Activate_def Bank_Read_def Bank_Write_def Bank_Refresh_def
  by (intro forward_posts; simp (no_asm) only: prod.case; rule impI; (erule (1) forwardedI)?; simp)+

lemma precharge_forwards:
  assumes "requests s rp = Some r" "rtype r = PRECHARGE"
  shows "post (Bank_Precharge p rp (b, s)) (\<lambda>(ok, b', s'). ok \<longrightarrow> forwarded p rp (b, s) (b', s'))"
  using assms unfolding Bank_Precharge_def
  by (intro forward_posts post_any_triple [of "precharge_all p rp qs st" for qs st], simp_all (no_asm) only: prod.case)
    (rule impI; (erule (1) forwardedI)?; simp)+

lemma forwarded_child:
  assumes "forwarded p rp (b, s) (b', s')" "requests s rp = Some r" "translated (address r)"
    "defaultField (bk_decoder b) = SUBARRAY_FIELD"
  shows "unat (subarray (address r)) < length (bk_children b)"
    "SubArray_IssueCommand p rp (bk_children b ! unat (subarray (address r)), s)
      = Some (True, bk_children b' ! unat (subarray (address r)), s')"
proof -
  obtain i dec sa where f: "GetChild_req r (bk_decoder b) (bk_children b) = Some (i, dec)"
    "SubArray_IssueCommand p rp (bk_children b ! i, s) = Some (True, sa, s')" "bk_children b' = (bk_children b)[i := sa]"
    using assms(1,2) by (auto simp: forwarded_def bank_forward_def bank_issue_child_def bind_eq_Some_conv)
  have i: "i = unat (subarray (address r))" using GetChild_translated [OF assms(3,4) f(1)] .
  have "i < length (bk_children b)" using f(1) by (auto simp: GetChild_req_def bind_eq_Some_conv split: if_splits)
  then show "unat (subarray (address r)) < length (bk_children b)"
    "SubArray_IssueCommand p rp (bk_children b ! unat (subarray (address r)), s)
      = Some (True, bk_children b' ! unat (subarray (address r)), s')"
    using f(2,3) i by simp_all
qed

lemma bank_reaches_child:
  assumes "requests s rp = Some r" "translated (address r)" "addressed (rtype r)"
    "defaultField (bk_decoder b) = SUBARRAY_FIELD" "Bank_IssueCommand p rp (b, s) = Some (True, b', s')"
  shows "unat (subarray (address r)) < length (bk_children b)"
    "SubArray_IssueCommand p rp (bk_children b ! unat (subarray (address r)), s)
      = Some (True, bk_children b' ! unat (subarray (address r)), s')"
proof -
  from assms(1,5) obtain why b1 where q: "Bank_IsIssuable p r b s = Some (True, why, b1)"
    and f: "forwarded p rp (b1, s) (b', s')"
  proof (cases rule: Bank_IssueCommand_unfold)
    case (run why b1)
    then have "forwarded p rp (b1, s) (b', s')"
      using assms(1,3) by (cases "rtype r") (auto simp: addressed_def dest: commands_forward [THEN postD] precharge_forwards [THEN postD])
    then show thesis using that run(1) by blast
  qed simp
  have same: "bk_children b1 = bk_children b" "defaultField (bk_decoder b1) = SUBARRAY_FIELD"
    using postD [OF Bank_IsIssuable_post q] assms(4) by (simp_all add: bank_same_def)
  show "unat (subarray (address r)) < length (bk_children b)"
    "SubArray_IssueCommand p rp (bk_children b ! unat (subarray (address r)), s)
      = Some (True, bk_children b' ! unat (subarray (address r)), s')"
    using forwarded_child [OF f assms(1,2) same(2)] same(1) by simp_all
qed

section \<open>Addressed commands return\<close>

lemma GetChild_req_translated:
  assumes "translated (address r)" "defaultField dec = SUBARRAY_FIELD" "unat (subarray (address r)) < length cs"
  shows "GetChild_req r dec cs = Some (unat (subarray (address r)), dec)"
  using assms by (simp add: GetChild_req_def TranslateRequest_def)

text \<open>The shared state, the request and the sub-array it selects are such that the sub-array takes it.\<close>

definition child_takes :: "Params \<Rightarrow> req_ptr \<Rightarrow> NVMainRequest \<Rightarrow> DDR3Bank \<Rightarrow> sim \<Rightarrow> bool" where
  "child_takes p rp r b s \<longleftrightarrow> requests s rp = Some r \<and> rp < nextReq s \<and> data_fits p r
     \<and> live (eventQueue s) \<and> store_ok s \<and> \<not> WritePausing p
     \<and> translated (address r) \<and> defaultField (bk_decoder b) = SUBARRAY_FIELD
     \<and> unat (subarray (address r)) < length (bk_children b)
     \<and> (let sa = bk_children b ! unat (subarray (address r)) in plain_config p sa \<and> nextCommand sa = CMD_NOP
         \<and> ready p r sa (GetCurrentCycle s))"

lemma child_takes_cong:
  "bk_children b' = bk_children b \<Longrightarrow> bk_decoder b' = bk_decoder b \<Longrightarrow> child_takes p rp r b' s = child_takes p rp r b s"
  by (simp add: child_takes_def)

lemma bank_forward_returns:
  assumes "child_takes p rp r b s"
  shows "\<exists>b' s'. bank_forward p rp (b, s) = Some (True, b', s')"
  using assms issue_returns_lemma [of p "bk_children b ! unat (subarray (address r))" s rp r]
    GetChild_req_translated [of r "bk_decoder b" "bk_children b"]
  by (fastforce simp: child_takes_def bank_forward_def bank_issue_child_def Let_def)

lemma bank_ask_returns:
  assumes "child_takes p rp r b s"
  shows "\<exists>why. bank_ask p r b s = Some (True, why, b)"
  using assms ready_issuable [of p r "bk_children b ! unat (subarray (address r))" s]
    GetChild_req_translated [of r "bk_decoder b" "bk_children b"]
  by (fastforce simp: child_takes_def bank_ask_def bank_child_issuable_def Let_def)

lemma bank_commands_return:
  assumes fw: "\<And>b'. bk_children b' = bk_children b \<Longrightarrow> bk_decoder b' = bk_decoder b
      \<Longrightarrow> \<exists>b'' s'. bank_forward p rp (b', s) = Some (True, b'', s')"
    and r: "requests s rp = Some r" and b: "bank_ready p r b (GetCurrentCycle s)" "open_inv b"
  shows "rtype r = ACTIVATE \<Longrightarrow> \<exists>b' s'. Bank_Activate p rp (b, s) = Some (True, b', s')"
    "rtype r = READ \<or> rtype r = READ_PRECHARGE \<Longrightarrow> \<exists>b' s'. Bank_Read p rp (b, s) = Some (True, b', s')"
    "rtype r = WRITE \<or> rtype r = WRITE_PRECHARGE \<Longrightarrow> \<exists>b' s'. Bank_Write p rp (b, s) = Some (True, b', s')"
    "rtype r = PRECHARGE \<Longrightarrow> \<exists>b' s'. Bank_Precharge p rp (b, s) = Some (True, b', s')"
    "rtype r = REFRESH \<Longrightarrow> \<exists>b' s'. Bank_Refresh p rp (b, s) = Some (True, b', s')"
proof -
  let ?now = "GetCurrentCycle s"
  show "\<exists>b' s'. Bank_Activate p rp (b, s) = Some (True, b', s')" if ty: "rtype r = ACTIVATE"
  proof -
    have "\<not> ?now < bk_nextActivate b" "\<not> (bk_state b \<noteq> DDR3BANK_CLOSED \<and> activeSubArrayQueue b = [])"
      using b ty by (auto simp: bank_ready_def bank_slot_of_def open_inv_def) (metis DDR3BankState.exhaust)+
    then show ?thesis
      using fw [of "b\<lparr>bk_nextPowerDown := max (bk_nextPowerDown b) (?now + tRCD p)\<rparr>"] r
      by (auto simp: Bank_Activate_def Let_def)
  qed
  show "\<exists>b' s'. Bank_Read p rp (b, s) = Some (True, b', s')" if ty: "rtype r = READ \<or> rtype r = READ_PRECHARGE"
    using fw [of "bank_read_constraints p r ?now b"] r b(1) ty
    by (auto simp: Bank_Read_def Let_def bank_ready_def bank_slot_of_def)
  show "\<exists>b' s'. Bank_Write p rp (b, s) = Some (True, b', s')" if ty: "rtype r = WRITE \<or> rtype r = WRITE_PRECHARGE"
    using fw [of "bank_write_constraints p r ?now b"] r b(1) ty
    by (auto simp: Bank_Write_def Let_def bank_ready_def bank_slot_of_def)
  show "\<exists>b' s'. Bank_Precharge p rp (b, s) = Some (True, b', s')" if ty: "rtype r = PRECHARGE"
    using fw [of "b\<lparr>bk_nextPowerDown := max (bk_nextPowerDown b) (?now + tRP p)\<rparr>"] r b(1) ty
    by (auto simp: Bank_Precharge_def Let_def bank_ready_def bank_slot_of_def)
  show "\<exists>b' s'. Bank_Refresh p rp (b, s) = Some (True, b', s')" if ty: "rtype r = REFRESH"
    using fw [of "b\<lparr>bk_nextPowerDown := max (bk_nextPowerDown b) (?now + tRFC p)\<rparr>"] r b(1) ty
    by (auto simp: Bank_Refresh_def Let_def bank_ready_def bank_slot_of_def)
qed

lemma ready_Bank_IsIssuable:
  assumes "bk_nextCommand b = CMD_NOP" "addressed (rtype r)" "bank_ready p r b (GetCurrentCycle s)"
  shows "Bank_IsIssuable p r b s = bank_ask p r b s"
  using assms
  by (cases "rtype r"; simp add: Bank_IsIssuable_def addressed_def bank_ready_def bank_slot_of_def Let_def not_less [symmetric];
      elim disjE; simp)

lemma bank_issue_returns:
  assumes t: "child_takes p rp r b s"
    and b: "bk_nextCommand b = CMD_NOP" "addressed (rtype r)" "bank_ready p r b (GetCurrentCycle s)" "open_inv b"
  shows "\<exists>b' s'. Bank_IssueCommand p rp (b, s) = Some (True, b', s')"
proof -
  have r: "requests s rp = Some r" using t by (simp add: child_takes_def)
  obtain why where q: "Bank_IsIssuable p r b s = Some (True, why, b)"
    using bank_ask_returns [OF t] ready_Bank_IsIssuable [OF b(1-3)] by auto
  have fw: "\<exists>b'' s'. bank_forward p rp (b', s) = Some (True, b'', s')"
    if "bk_children b' = bk_children b" "bk_decoder b' = bk_decoder b" for b'
    using bank_forward_returns t child_takes_cong [OF that] by blast
  show ?thesis
    using b(2) by (cases "rtype r")
      (simp_all add: addressed_def Bank_IssueCommand_def q r bank_commands_return [OF fw r b(3,4)])
qed

section \<open>The example\<close>

text \<open>A bank with one sub-array and a shared state with translated requests.\<close>

definition bank_request :: "OpType \<Rightarrow> NVMainRequest" where
  "bank_request ty = NVMainRequest_new\<lparr>rtype := ty, address := (NVMAddress_new zero_address)\<lparr>row := 5, translated := True\<rparr>\<rparr>"

definition bank_sim :: "ncycle_t \<Rightarrow> sim" where
  "bank_sim now = \<lparr>eventQueue = (EventQueue_new 1)\<lparr>currentCycle := now\<rparr>,
     requests = [0 \<mapsto> bank_request ACTIVATE, 1 \<mapsto> bank_request PRECHARGE, 2 \<mapsto> bank_request POWERUP], nextReq = 3,
     simInterface = None, rand_state = (id, 0)\<rparr>"

definition sample_bank :: "DDR3BankState \<Rightarrow> DDR3Bank" where
  "sample_bank st = (DDR3Bank_new 3 undefined)\<lparr>bk_children := [sample_array], subArrayNum := 1, bk_state := st,
     bk_decoder := AddressTranslator_new\<lparr>defaultField := SUBARRAY_FIELD\<rparr>\<rparr>"

lemma bank_request_fields [simp]:
  "rtype (bank_request ty) = ty" "translated (address (bank_request ty))" "subarray (address (bank_request ty)) = 0"
  "row (address (bank_request ty)) = 5" "burstCount (bank_request ty) = 1"
  by (simp_all add: bank_request_def NVMainRequest_new_def NVMAddress_new_def zero_address_def)

lemma bank_request_fits: "data_fits p (bank_request ty)"
  by (simp add: bank_request_def data_fits_def NVMainRequest_new_def NVMDataBlock_new_def block_wf_def)

lemma bank_sim_fields [simp]:
  "GetCurrentCycle (bank_sim now) = now" "nextReq (bank_sim now) = 3" "live (eventQueue (bank_sim now))" "store_ok (bank_sim now)"
  "requests (bank_sim now) 0 = Some (bank_request ACTIVATE)" "requests (bank_sim now) (Suc 0) = Some (bank_request PRECHARGE)"
  "requests (bank_sim now) 2 = Some (bank_request POWERUP)"
  by (simp_all add: bank_sim_def store_ok_def)

lemma sample_bank_fields [simp]:
  "bk_children (sample_bank st) = [sample_array]" "bk_state (sample_bank st) = st" "activeSubArrayQueue (sample_bank st) = []"
  "defaultField (bk_decoder (sample_bank st)) = SUBARRAY_FIELD" "bk_nextCommand (sample_bank st) = CMD_NOP"
  "bk_nextActivate (sample_bank st) = 0" "bk_nextPrecharge (sample_bank st) = 0" "bk_nextPowerUp (sample_bank st) = 0"
  "bk_nextPowerDown (sample_bank st) = 0" "subArrayNum (sample_bank st) = 1"
  by (simp_all add: sample_bank_def DDR3Bank_new_def)

lemma sample_array_plain: "plain_config default_params sample_array"
  by (simp add: plain_config_def sample_array_def SubArray_new_def)

lemma sample_bank_takes: "child_takes default_params 0 (bank_request ACTIVATE) (sample_bank st) (bank_sim now)"
  by (simp add: child_takes_def bank_request_fits sample_array_plain ready_def)

lemma sample_bank_open_inv: "open_inv (sample_bank DDR3BANK_CLOSED)" "open_inv (sample_bank DDR3BANK_PDPF)"
  by (simp_all add: open_inv_def)

lemma sample_bank_activation:
  "\<exists>b' s'. Bank_IssueCommand default_params 0 (sample_bank DDR3BANK_CLOSED, bank_sim now) = Some (True, b', s')"
  by (rule bank_issue_returns [OF sample_bank_takes])
    (auto simp: addressed_def bank_ready_def bank_slot_of_def sample_bank_open_inv)

lemma sample_bank_wakes:
  "\<exists>b'. Bank_IssueCommand default_params 2 (sample_bank DDR3BANK_PDPF, bank_sim now) = Some (True, b', bank_sim now)
     \<and> bk_children b' = [sample_array] \<and> bk_nextActivate b' = now + 6 \<and> bk_state b' = DDR3BANK_CLOSED
     \<and> bk_nextCommand b' = CMD_NOP \<and> activeSubArrayQueue b' = [] \<and> defaultField (bk_decoder b') = SUBARRAY_FIELD"
proof -
  have q: "SubArray_IsIssuable default_params (bank_request POWERUP) sample_array (bank_sim now) = Some (True, None, sample_array)"
    by (simp add: SubArray_IsIssuable_def Let_def)
  show ?thesis
    by (simp add: Bank_IssueCommand_def Bank_IsIssuable_def bank_power_ask_def GetChild_idx_def cpp_assert_def
        bank_child_issuable_def q Bank_PowerUp_def Let_def)
qed

lemma Activate_data_path:
  assumes "\<not> WritePausing p"
  shows "post (SubArray_Activate p rp (sa, s))
    (\<lambda>(ok, sa', s'). dataEncoder sa' = dataEncoder sa \<and> endrModel sa' = endrModel sa)"
  unfolding SubArray_Activate_def CheckWritePausing_off [OF assms] Option.bind.simps
  by (intro nvm_post; simp (no_asm); hypsubst_thin?; simp add: activate_constraints_def)

lemma sample_child_activation:
  "\<exists>sa' s'. SubArray_IssueCommand default_params 0 (sample_array, bank_sim 10) = Some (True, sa', s')
    \<and> plain_config default_params sa' \<and> state sa' = SUBARRAY_OPEN \<and> nextPrecharge sa' = 34 \<and> nextCommand sa' = CMD_NOP
    \<and> GetCurrentCycle s' = 10"
proof -
  have rdy: "ready default_params (bank_request ACTIVATE) sample_array (GetCurrentCycle (bank_sim 10))" by (simp add: ready_def)
  obtain sa' s' where i: "SubArray_IssueCommand default_params 0 (sample_array, bank_sim 10) = Some (True, sa', s')"
    using issue_returns_lemma [of default_params sample_array "bank_sim 10" 0, OF sample_array_plain _ _ _ _ _ _ bank_request_fits rdy]
    by auto
  have eff: "ctl sa' = ctl (cmd_effect default_params (bank_request ACTIVATE) 10 (writeEnd sa' - 10) 19 sample_array)"
    "GetCurrentCycle s' = 10"
    using issue_effect [of "bank_sim 10" 0, OF _ _ i] by (auto simp: cmd_effect_def)
  have "SubArray_Activate default_params 0 (sample_array, bank_sim 10) = Some (True, sa', s')"
    using i by (cases rule: IssueCommand_unfold [of "bank_sim 10" 0 "bank_request ACTIVATE", OF _ i]) simp_all
  from postD [OF Activate_data_path this] have "dataEncoder sa' = None" "endrModel sa' = None"
    by (simp_all add: sample_array_def SubArray_new_def)
  then show ?thesis
    using i eff by (elim ctlE) (simp add: cmd_effect_def activate_effect_def constraint_defs plain_config_def)
qed

lemma sample_bank_opens:
  "\<exists>b' s'. Bank_IssueCommand default_params 0 (sample_bank DDR3BANK_CLOSED, bank_sim 10) = Some (True, b', s')
    \<and> GetCurrentCycle s' = 10 \<and> (\<exists>b'' s''. Bank_IssueCommand default_params 1 (b', bank_sim 40) = Some (True, b'', s''))"
proof -
  let ?b = "sample_bank DDR3BANK_CLOSED" and ?r = "bank_request ACTIVATE"
  obtain sa' s' where c: "SubArray_IssueCommand default_params 0 (sample_array, bank_sim 10) = Some (True, sa', s')"
    "plain_config default_params sa'" "state sa' = SUBARRAY_OPEN" "nextPrecharge sa' = 34" "nextCommand sa' = CMD_NOP"
    "GetCurrentCycle s' = 10"
    using sample_child_activation by blast
  have g: "GetChild_req ?r (bk_decoder ?b) [sample_array] = Some (0, bk_decoder ?b)"
    using GetChild_req_translated [of ?r "bk_decoder ?b" "[sample_array]"] by simp
  obtain why where q: "bank_ask default_params ?r ?b (bank_sim 10) = Some (True, why, ?b)"
    using bank_ask_returns [OF sample_bank_takes] by blast
  have fw: "bank_forward default_params 0 (?b\<lparr>bk_nextPowerDown := t\<rparr>, bank_sim 10)
      = Some (True, ?b\<lparr>bk_nextPowerDown := t, bk_children := [sa']\<rparr>, s')" for t
    using g c(1) by (simp add: bank_forward_def bank_issue_child_def)
  let ?b' = "?b\<lparr>bk_nextPowerDown := 19, bk_children := [sa'], bk_openRow := 5, bk_state := DDR3BANK_OPEN,
    activeSubArrayQueue := [0], bk_activates := bk_activates ?b + 1\<rparr>"
  have i: "Bank_IssueCommand default_params 0 (?b, bank_sim 10) = Some (True, ?b', s')"
    using q fw by (simp add: Bank_IssueCommand_def Bank_IsIssuable_def Bank_Activate_def Let_def)
  have "child_takes default_params 1 (bank_request PRECHARGE) ?b' (bank_sim 40)"
    using c by (simp add: child_takes_def bank_request_fits ready_def)
  then have "\<exists>b'' s''. Bank_IssueCommand default_params 1 (?b', bank_sim 40) = Some (True, b'', s'')"
    by (rule bank_issue_returns) (simp_all add: addressed_def bank_ready_def bank_slot_of_def open_inv_def)
  then show ?thesis using i c(6) by blast
qed

section \<open>Properties\<close>



text \<open>C19 (bank_command_spacing). Timing safety of the bank: after an accepted command, whatever happens in
  between, a later read, write, activate, refresh, precharge or power-up is accepted, on any sub-array,
  only from the cycle that the bank's timing table names: burst and turnaround delays of the shared
  data path, the minimum time in power-down and the exit latency of each power-down state.\<close>

theorem bank_command_spacing:
  assumes "requests s rp = Some r" "rp < nextReq s" "Bank_IssueCommand p rp (b, s) = Some (True, b1, s1)"
    "(bank_step p)\<^sup>*\<^sup>* (b1, s1) (b2, s2)"
    "requests s2 rp2 = Some r2" "rp2 < nextReq s2" "bank_slot_of (rtype r2) = Some c"
    "Bank_IssueCommand p rp2 (b2, s2) = Some (True, b3, s3)"
  shows "bank_first_after p r (bk_state b = DDR3BANK_PDPS) (GetCurrentCycle s) c \<le> GetCurrentCycle s2"
proof -
  have "bank_first_after p r (bk_state b = DDR3BANK_PDPS) (GetCurrentCycle s) c \<le> bank_earliest c b1"
    using Bank_IssueCommand_effect(1) [OF assms(1-3)] by (simp add: bank_effect_def)
  moreover have "bank_accept p c (b2, s2) (b3, s3)" using assms(5-8) by (auto simp: bank_accept_def)
  ultimately show ?thesis using ddr3_bank.spacing [of _ c "(b1, s1)" p "(b2, s2)" "(b3, s3)"] assms(4) by simp
qed

theorem bank_command_spacing_witness:
  "bank_first_after default_params (bank_request POWERUP) False 10 Bank_row \<le> 40"
proof -
  obtain b1 where w: "Bank_IssueCommand default_params 2 (sample_bank DDR3BANK_PDPF, bank_sim 10) = Some (True, b1, bank_sim 10)"
    "bk_children b1 = [sample_array]" "bk_nextActivate b1 = 16" "bk_state b1 = DDR3BANK_CLOSED" "bk_nextCommand b1 = CMD_NOP"
    "activeSubArrayQueue b1 = []" "defaultField (bk_decoder b1) = SUBARRAY_FIELD"
    using sample_bank_wakes [of 10] by auto
  have "child_takes default_params 0 (bank_request ACTIVATE) b1 (bank_sim 40)"
    using w by (simp add: child_takes_def bank_request_fits sample_array_plain ready_def)
  then obtain b3 s3 where "Bank_IssueCommand default_params 0 (b1, bank_sim 40) = Some (True, b3, s3)"
    using bank_issue_returns [of default_params 0 "bank_request ACTIVATE" b1 "bank_sim 40"] w
    by (auto simp: addressed_def bank_ready_def bank_slot_of_def open_inv_def)
  moreover have "(bank_step default_params)\<^sup>*\<^sup>* (b1, bank_sim 10) (b1, bank_sim 40)"
    by (intro r_into_rtranclp bank_elapse) simp
  ultimately show ?thesis
    using bank_command_spacing [of "bank_sim 10" 2 "bank_request POWERUP", OF _ _ w(1), of b1 "bank_sim 40" 0 "bank_request ACTIVATE"]
    by (simp add: bank_slot_of_def)
qed



text \<open>A bank in one of the power-down states accepts only a power-up.\<close>

lemma asleep_only_wakes:
  assumes "bk_state b \<in> {DDR3BANK_PDPF, DDR3BANK_PDPS, DDR3BANK_PDA}" "requests s rp = Some r" "rp < nextReq s"
    "Bank_IssueCommand p rp (b, s) = Some (True, b', s')"
  shows "rtype r = POWERUP"
proof (rule ccontr)
  assume n: "rtype r \<noteq> POWERUP"
  have "bank_ready p r b (GetCurrentCycle s)" using Bank_IssueCommand_effect(2) [OF assms(2-4)] by simp
  then have other: "rtype r \<notin> {ACTIVATE, READ, READ_PRECHARGE, WRITE, WRITE_PRECHARGE, PRECHARGE, PRECHARGE_ALL, REFRESH,
      POWERDOWN_PDA, POWERDOWN_PDPF, POWERDOWN_PDPS}"
    using assms(1) n by (auto simp: bank_ready_def split: if_splits)
  from assms(2,4) obtain b1 where "bank_forward p rp (b1, s) = Some (True, b', s')"
    using other n by (cases rule: Bank_IssueCommand_unfold, simp) (cases "rtype r"; simp)
  then obtain sa sa' where i: "SubArray_IssueCommand p rp (sa, s) = Some (True, sa', s')"
    using assms(2) by (auto simp: bank_forward_def bank_issue_child_def bind_eq_Some_conv)
  from assms(2) i have "ready p r sa (GetCurrentCycle s)" by (cases rule: IssueCommand_unfold) simp_all
  then show False using other n by (simp add: ready_def)
qed

text \<open>C24 (open_inv_preserved). A bank is open, or asleep with an open row, exactly when some sub-array is in
  its queue of active ones: true of a new bank, and kept by every command but a
  \<^verbatim>\<open>PRECHARGE_ALL\<close> that a sub-array refuses half way.\<close>

theorem open_inv_preserved:
  assumes "open_inv b" "requests s rp = Some r" "rp < nextReq s"
    "Bank_IssueCommand p rp (b, s) = Some (ok, b', s')" "ok \<or> rtype r \<noteq> PRECHARGE_ALL"
  shows "open_inv (DDR3Bank_new oid g) \<and> open_inv b'"
proof
  show "open_inv (DDR3Bank_new oid g)" by (simp add: open_inv_def DDR3Bank_new_def)
  show "open_inv b'" using Bank_IssueCommand_effect(1) [OF assms(2-4)] assms(1,5) by (auto simp: bank_effect_def)
qed

theorem open_inv_preserved_witness:
  "\<exists>b' s'. Bank_IssueCommand default_params 0 (sample_bank DDR3BANK_CLOSED, bank_sim 10) = Some (True, b', s') \<and> open_inv b'"
proof -
  obtain b' s' where w: "Bank_IssueCommand default_params 0 (sample_bank DDR3BANK_CLOSED, bank_sim 10) = Some (True, b', s')"
    using sample_bank_activation by blast
  from open_inv_preserved [OF sample_bank_open_inv(1) _ _ w, of "bank_request ACTIVATE"] w show ?thesis by auto
qed

text \<open>C25 (bank_command_returns). A command for a sub-array that satisfies the conditions of the bank and of
  the sub-array is accepted: \<^verbatim>\<open>IssueCommand\<close> returns true, without a failed assertion or an
  access out of range on the way.\<close>

theorem bank_command_returns:
  assumes "child_takes p rp r b s" "bk_nextCommand b = CMD_NOP" "addressed (rtype r)"
    "bank_ready p r b (GetCurrentCycle s)" "open_inv b"
  shows "\<exists>b' s'. Bank_IssueCommand p rp (b, s) = Some (True, b', s') \<and> open_inv b'"
proof -
  obtain b' s' where i: "Bank_IssueCommand p rp (b, s) = Some (True, b', s')" using bank_issue_returns [OF assms] by blast
  have "requests s rp = Some r" "rp < nextReq s" using assms(1) by (simp_all add: child_takes_def)
  from Bank_IssueCommand_effect(1) [OF this i] assms(5) have "open_inv b'" by (simp add: bank_effect_def)
  then show ?thesis using i by blast
qed

theorem bank_command_returns_witness:
  "\<exists>b' s'. Bank_IssueCommand default_params 0 (sample_bank DDR3BANK_CLOSED, bank_sim 10) = Some (True, b', s') \<and> open_inv b'"
  by (rule bank_command_returns [OF sample_bank_takes])
    (auto simp: addressed_def bank_ready_def bank_slot_of_def sample_bank_open_inv)

text \<open>The earliest power-down time is not monotone: a write with automatic
  precharge starts it again from the activation time, so that a bank which had to wait until cycle
  120 before it powers down may do so at cycle 55.\<close>

theorem power_down_time_lowered:
  "bk_nextPowerDown (bank_write_constraints default_params (bank_request WRITE_PRECHARGE) 25
     ((sample_bank DDR3BANK_OPEN)\<lparr>bk_nextPowerDown := 120\<rparr>)) = 55"
  by (simp add: bank_write_constraints_def Let_def)

end
