(* ===== verification/Standard_Rank_Timing.thy ===== *)
theory Standard_Rank_Timing
  imports Standard_Rank Ddr3_Bank_Safety
begin

text \<open>
  What the rank promises. Every step of a rank is a run of each of its banks; the arrays and the ring
  keep their shape; the earliest times of each bank group meet the contract of a timed module.
\<close>

interpretation ddr3_bank_child: module_child "bank_step p" for p
  by unfold_locales (rule bank_elapse)

section \<open>Postconditions\<close>

lemma rank_issue_child_post [nvm_post]:
  assumes "rp < nextReq s"
    and "\<And>ok cs s'. kids (bank_step p) (rk_children k, s) (cs, s') \<Longrightarrow> nextReq s \<le> nextReq s'
      \<Longrightarrow> GetCurrentCycle s' = GetCurrentCycle s \<Longrightarrow> Q (ok, k\<lparr>rk_children := cs\<rparr>, s')"
  shows "post (rank_issue_child p i rp (k, s)) Q"
proof (rule post_any)
  fix x
  assume "rank_issue_child p i rp (k, s) = Some x"
  then obtain ok b s' where c: "Bank_IssueCommand p rp (rk_children k ! i, s) = Some (ok, b, s')"
    "x = (ok, k\<lparr>rk_children := (rk_children k)[i := b]\<rparr>, s')"
    by (auto simp: rank_issue_child_def bind_eq_Some_conv)
  then obtain r where r: "requests s rp = Some r" by (auto simp: Bank_IssueCommand_def bind_eq_Some_conv)
  have t: "GetCurrentCycle s' = GetCurrentCycle s" "nextReq s \<le> nextReq s'"
    using Bank_IssueCommand_effect(1) [OF r assms(1) c(1)] by (simp_all add: bank_effect_def)
  have "kids (bank_step p) (rk_children k, s) ((rk_children k)[i := b], s')"
    using bank_issue [OF r assms(1) c(1)] t by (intro ddr3_bank_child.kids_one) simp_all
  then show "Q x" using assms(2) t c(2) by simp
qed

lemma rank_forward_post [nvm_post]:
  assumes "rp < nextReq s"
    and "\<And>ok dec cs s'. kids (bank_step p) (rk_children k, s) (cs, s') \<Longrightarrow> nextReq s \<le> nextReq s'
      \<Longrightarrow> GetCurrentCycle s' = GetCurrentCycle s \<Longrightarrow> defaultField dec = defaultField (rk_decoder k)
      \<Longrightarrow> Q (ok, k\<lparr>rk_decoder := dec, rk_children := cs\<rparr>, s')"
  shows "post (rank_forward p rp (k, s)) Q"
  unfolding rank_forward_def using assms by (intro nvm_post; simp add: assms)

lemma rank_child_issuable_post [nvm_post]:
  assumes "\<And>ok why cs. kids (bank_step p) (rk_children k, s) (cs, s) \<Longrightarrow> Q (ok, why, k\<lparr>rk_children := cs\<rparr>)"
  shows "post (rank_child_issuable p i r k s) Q"
proof (rule post_any)
  fix x
  assume "rank_child_issuable p i r k s = Some x"
  then obtain ok why b where q: "Bank_IsIssuable p r (rk_children k ! i) s = Some (ok, why, b)"
    "x = (ok, why, k\<lparr>rk_children := (rk_children k)[i := b]\<rparr>)"
    by (auto simp: rank_child_issuable_def bind_eq_Some_conv)
  then show "Q x" using assms ddr3_bank_child.kids_one [OF bank_query [OF q(1)]] by simp
qed

lemma rank_ask_post [nvm_post]:
  assumes "\<And>ok why dec cs. kids (bank_step p) (rk_children k, s) (cs, s) \<Longrightarrow> defaultField dec = defaultField (rk_decoder k)
      \<Longrightarrow> Q (ok, why, k\<lparr>rk_decoder := dec, rk_children := cs\<rparr>)"
  shows "post (rank_ask p r k s) Q"
  unfolding rank_ask_def by (intro nvm_post; rule assms; simp)

lemma rank_ask_all_post [nvm_post]:
  assumes "\<And>ok why cs. kids (bank_step p) (rk_children k, s) (cs, s) \<Longrightarrow> Q (ok, why, k\<lparr>rk_children := cs\<rparr>)"
  shows "post (rank_ask_all p r bs k s) Q"
  using assms
proof (induction bs arbitrary: k)
  case Nil
  then show ?case using Nil [of "rk_children k"] by (simp add: post_def)
next
  case (Cons c bs)
  have "post (rank_ask_all p r bs (k\<lparr>rk_children := cs\<rparr>) s) Q" if "kids (bank_step p) (rk_children k, s) (cs, s)" for cs
    by (rule Cons.IH) (simp, rule Cons.prems, erule kids_trans [OF that])
  then show ?case unfolding rank_ask_all.simps by (intro nvm_post) (simp_all add: Cons.prems)
qed

lemma rank_ask_count_post [nvm_post]:
  assumes "\<And>n cs. kids (bank_step p) (rk_children k, s) (cs, s) \<Longrightarrow> Q (n, k\<lparr>rk_children := cs\<rparr>)"
  shows "post (rank_ask_count p r bs k s) Q"
  using assms
proof (induction bs arbitrary: k Q)
  case Nil
  then show ?case using Nil [of "rk_children k"] by (simp add: post_def)
next
  case (Cons c bs)
  have "post (rank_ask_count p r bs (k\<lparr>rk_children := cs\<rparr>) s) (\<lambda>(n, k). Q (f n, k))"
    if "kids (bank_step p) (rk_children k, s) (cs, s)" for cs and f :: "nat \<Rightarrow> nat"
    by (rule Cons.IH) (simp, rule Cons.prems, erule kids_trans [OF that])
  note rest = post_weaken [OF this [of _ "\<lambda>n. if b then Suc n else n" for b]]
  show ?case unfolding rank_ask_count.simps by (intro nvm_post rest) (auto intro: post_Some)
qed

lemma rank_issue_all_post [nvm_post]:
  assumes "rp < nextReq s"
    and "\<And>cs s'. kids (bank_step p) (rk_children k, s) (cs, s') \<Longrightarrow> nextReq s \<le> nextReq s'
      \<Longrightarrow> GetCurrentCycle s' = GetCurrentCycle s \<Longrightarrow> Q (k\<lparr>rk_children := cs\<rparr>, s')"
  shows "post (rank_issue_all p rp bs (k, s)) Q"
  using assms
proof (induction bs arbitrary: k s)
  case Nil
  then show ?case using Nil(2) [of "rk_children k" s] by (simp add: post_def)
next
  case (Cons c bs)
  have "post (rank_issue_all p rp bs (k\<lparr>rk_children := cs\<rparr>, s1)) Q"
    if "kids (bank_step p) (rk_children k, s) (cs, s1)" "nextReq s \<le> nextReq s1" "GetCurrentCycle s1 = GetCurrentCycle s" for cs s1
    by (rule Cons.IH) (use Cons.prems(1) that in simp, simp, rule Cons.prems(2), use that in \<open>auto elim: kids_trans\<close>)
  then show ?case unfolding rank_issue_all.simps fst_conv by (intro nvm_post Cons.prems(1)) simp_all
qed

lemma copy_request_kids:
  "post (copy_request f r s) (\<lambda>(rq, s1). kids (bank_step p) (cs, s) (cs, s1)
     \<and> nextReq s \<le> nextReq s1 \<and> GetCurrentCycle s1 = GetCurrentCycle s \<and> rq < nextReq s1)"
  by (auto simp: post_def copy_request_def put_request_def bind_eq_Some_conv intro: ddr3_bank_child.kids_elapse)

lemma refresh_banks_post [nvm_post]:
  assumes "\<And>cs s'. kids (bank_step p) (rk_children k, s) (cs, s') \<Longrightarrow> nextReq s \<le> nextReq s'
      \<Longrightarrow> GetCurrentCycle s' = GetCurrentCycle s \<Longrightarrow> Q (k\<lparr>rk_children := cs\<rparr>, s')"
  shows "post (refresh_banks p rp bs (k, s)) Q"
  using assms
proof (induction bs arbitrary: k s)
  case Nil
  then show ?case using Nil [of "rk_children k" s] by (simp add: post_def)
next
  case (Cons c bs)
  have rest: "post (refresh_banks p rp bs (k\<lparr>rk_children := cs\<rparr>, s1)) Q"
    if "kids (bank_step p) (rk_children k, s) (cs, s1)" "nextReq s \<le> nextReq s1" "GetCurrentCycle s1 = GetCurrentCycle s" for cs s1
    by (rule Cons.IH) (simp, rule Cons.prems, use that in \<open>auto elim: kids_trans\<close>)
  show ?case
    unfolding refresh_banks.simps fst_conv snd_conv
    by (intro post_bind post_any [of "requests s rp"] post_weaken [OF copy_request_kids [of id _ s p "rk_children k"]])
      (auto intro!: nvm_post rest elim: kids_trans)
qed

lemma insert_precharge_post [nvm_post]:
  assumes "\<And>s'. GetCurrentCycle s' = GetCurrentCycle s \<Longrightarrow> nextReq s \<le> nextReq s' \<Longrightarrow> Q s'"
  shows "post (insert_precharge me due s) Q"
  unfolding insert_precharge_def
  by (intro nvm_post) (auto intro!: assms dest: sim_rel_time sim_rel_nextReq)

section \<open>The shape of the arrays\<close>

definition rank_wf :: "StandardRank \<Rightarrow> bool" where
  "rank_wf k \<longleftrightarrow> length (sbg_nextRead k) = 16 \<and> length (sbg_nextWrite k) = 16 \<and> length (sbg_nextActivate k) = 16
     \<and> bankgroupNum k \<le> 16 \<and> rawNum k \<noteq> 0
     \<and> length (rk_lastActivate k) = unat (rawNum k) \<and> RAWindex k < rawNum k"

text \<open>The fields that fix the shape, and the ring.\<close>

definition same_shape :: "StandardRank \<Rightarrow> StandardRank \<Rightarrow> bool" where
  "same_shape k k' \<longleftrightarrow> length (sbg_nextRead k') = length (sbg_nextRead k)
     \<and> length (sbg_nextWrite k') = length (sbg_nextWrite k) \<and> length (sbg_nextActivate k') = length (sbg_nextActivate k)
     \<and> bankgroupNum k' = bankgroupNum k \<and> rawNum k' = rawNum k \<and> defaultField (rk_decoder k') = defaultField (rk_decoder k)"

definition same_ring :: "StandardRank \<Rightarrow> StandardRank \<Rightarrow> bool" where
  "same_ring k k' \<longleftrightarrow> rk_lastActivate k' = rk_lastActivate k \<and> RAWindex k' = RAWindex k"

lemma same_shape_refl [simp]: "same_shape k k" "same_ring k k"
  by (simp_all add: same_shape_def same_ring_def)

lemma same_shape_trans: "same_shape a b \<Longrightarrow> same_shape b c \<Longrightarrow> same_shape a c"
  by (simp add: same_shape_def)

lemma length_raise [simp]: "length (raise_at g t xs) = length xs" "length (raise_first n t xs) = length xs"
  by (simp_all add: raise_at_def raise_first_def)

lemma record_activation_fields [simp]:
  "sbg_nextRead (record_activation now i k) = sbg_nextRead k" "sbg_nextWrite (record_activation now i k) = sbg_nextWrite k"
  "sbg_nextActivate (record_activation now i k) = sbg_nextActivate k" "dbg_nextRead (record_activation now i k) = dbg_nextRead k"
  "dbg_nextWrite (record_activation now i k) = dbg_nextWrite k" "dbg_nextActivate (record_activation now i k) = dbg_nextActivate k"
  "rk_nextPrecharge (record_activation now i k) = rk_nextPrecharge k" "bankgroupNum (record_activation now i k) = bankgroupNum k"
  "rawNum (record_activation now i k) = rawNum k" "rk_children (record_activation now i k) = rk_children k"
  "rk_decoder (record_activation now i k) = rk_decoder k"
  by (simp_all add: record_activation_def)

text \<open>The activations in the ring, the oldest first.\<close>

definition window :: "StandardRank \<Rightarrow> ncycle_t list" where
  "window k = rotate (Suc (unat (RAWindex k))) (rk_lastActivate k)"

definition ring_next :: "StandardRank \<Rightarrow> nat" where
  "ring_next k = Suc (unat (RAWindex k)) mod unat (rawNum k)"

lemma raw_next_eq:
  assumes "rank_wf k"
  shows "raw_next k = Some (ring_next k)" "ring_next k < unat (rawNum k)" "unat ((RAWindex k + 1) mod rawNum k) = ring_next k"
proof -
  have w: "unat (RAWindex k) < unat (rawNum k)" "length (rk_lastActivate k) = unat (rawNum k)" "rawNum k \<noteq> 0"
    using assms by (simp_all add: rank_wf_def word_less_nat_alt)
  have "unat (RAWindex k + 1) = Suc (unat (RAWindex k))"
    using w(1) unsigned_less [of "rawNum k", where ?'a = nat] by (subst unat_add_lem [THEN iffD1]) auto
  then show n: "unat ((RAWindex k + 1) mod rawNum k) = ring_next k" by (simp add: unat_mod ring_next_def)
  show "ring_next k < unat (rawNum k)" using w by (simp add: ring_next_def)
  then show "raw_next k = Some (ring_next k)"
    unfolding raw_next_def n using w by (simp add: cpp_assert_def)
qed

lemma window_oldest:
  assumes "rank_wf k"
  shows "rk_lastActivate k ! ring_next k = hd (window k)" "length (window k) = unat (rawNum k)"
proof -
  have w: "length (rk_lastActivate k) = unat (rawNum k)" "rk_lastActivate k \<noteq> []"
    using assms by (auto simp: rank_wf_def unat_eq_0)
  show "rk_lastActivate k ! ring_next k = hd (window k)"
    using hd_rotate_conv_nth [OF w(2), of "Suc (unat (RAWindex k))"] w(1) by (simp add: window_def ring_next_def)
  show "length (window k) = unat (rawNum k)" using w(1) by (simp add: window_def)
qed

lemma rotate_update:
  assumes "xs \<noteq> []"
  shows "rotate n (xs[n mod length xs := x]) = x # tl (rotate n xs)"
proof (rule nth_equalityI)
  show "length (rotate n (xs[n mod length xs := x])) = length (x # tl (rotate n xs))" using assms by simp
  fix j
  assume "j < length (rotate n (xs[n mod length xs := x]))"
  then have j: "j < length xs" by simp
  have eq: "(n + j) mod length xs = n mod length xs \<longleftrightarrow> j = 0"
  proof
    assume "(n + j) mod length xs = n mod length xs"
    then have "length xs dvd j" using mod_eq_dvd_iff_nat [of n "n + j" "length xs"] by simp
    then show "j = 0" using j dvd_imp_le by fastforce
  qed simp
  show "rotate n (xs[n mod length xs := x]) ! j = (x # tl (rotate n xs)) ! j"
  proof (cases j)
    case 0
    then show ?thesis using j assms by (simp add: nth_rotate)
  next
    case (Suc i)
    then have "(x # tl (rotate n xs)) ! j = rotate n xs ! j" using j by (simp add: nth_tl)
    then show ?thesis using j eq Suc by (simp add: nth_rotate)
  qed
qed

lemma record_activation_window:
  assumes "rank_wf k"
  shows "window (record_activation now (ring_next k) k) = tl (window k) @ [now]" "rank_wf (record_activation now (ring_next k) k)"
proof -
  let ?L = "rk_lastActivate k" and ?n = "Suc (unat (RAWindex k))"
  have w: "length ?L = unat (rawNum k)" "?L \<noteq> []" using assms by (auto simp: rank_wf_def unat_eq_0)
  have small: "unat (word_of_nat (ring_next k) :: 64 word) = ring_next k"
    using raw_next_eq(2) [OF assms] unsigned_less [of "rawNum k", where ?'a = nat] by (simp add: unat_of_nat take_bit_nat_eq_self)
  have i: "ring_next k = ?n mod length ?L" using w(1) by (simp add: ring_next_def)
  have "rotate (ring_next k) (?L[ring_next k := now]) = rotate ?n (?L[?n mod length ?L := now])"
    using rotate_conv_mod [of ?n "?L[?n mod length ?L := now]"] i by simp
  also have "\<dots> = now # tl (rotate ?n ?L)" by (rule rotate_update [OF w(2)])
  finally show "window (record_activation now (ring_next k) k) = tl (window k) @ [now]"
    using small by (simp add: window_def record_activation_def rotate_Suc)
  show "rank_wf (record_activation now (ring_next k) k)"
    using assms small raw_next_eq(2) [OF assms] by (simp add: rank_wf_def record_activation_def word_less_nat_alt)
qed

section \<open>Earliest times\<close>

definition group_time :: "nat \<Rightarrow> ncycle_t list \<Rightarrow> ncycle_t" where
  "group_time g xs = (if g < length xs then xs ! g else 0)"

text \<open>The kinds of commands with an earliest issue time, by bank group.\<close>

datatype rank_slot = Rank_row nat | Rank_read nat | Rank_write nat | Rank_close

fun rank_earliest :: "rank_slot \<Rightarrow> StandardRank \<Rightarrow> ncycle_t" where
  "rank_earliest (Rank_row g) k = max (group_time g (sbg_nextActivate k)) (dbg_nextActivate k)"
| "rank_earliest (Rank_read g) k = max (group_time g (sbg_nextRead k)) (dbg_nextRead k)"
| "rank_earliest (Rank_write g) k = max (group_time g (sbg_nextWrite k)) (dbg_nextWrite k)"
| "rank_earliest Rank_close k = rk_nextPrecharge k"

definition group_of :: "NVMainRequest \<Rightarrow> StandardRank \<Rightarrow> nat" where
  "group_of r k = unat (bank (address r) mod bankgroupNum k)"

definition rank_slot_of :: "NVMainRequest \<Rightarrow> StandardRank \<Rightarrow> rank_slot option" where
  "rank_slot_of r k =
     (if rtype r = ACTIVATE then Some (Rank_row (group_of r k))
      else if rtype r = READ \<or> rtype r = READ_PRECHARGE then Some (Rank_read (group_of r k))
      else if rtype r = WRITE \<or> rtype r = WRITE_PRECHARGE then Some (Rank_write (group_of r k))
      else if rtype r = PRECHARGE \<or> rtype r = PRECHARGE_ALL then Some Rank_close
      else None)"

text \<open>
  The rank's timing table: the first cycle for each kind of command after \<open>r\<close>, which addresses bank
  group \<open>g\<close>, at cycle \<open>now\<close>. The long delays hold within the group, the short ones everywhere.
\<close>

definition rank_first_after :: "Params \<Rightarrow> NVMainRequest \<Rightarrow> nat \<Rightarrow> ncycle_t \<Rightarrow> rank_slot \<Rightarrow> ncycle_t" where
  "rank_first_after p r g now c =
     (let gap = max (tBURST p) (tCCD_S p); turn = tCAS p + tBURST p + tRTRS p - tCWD p; ty = rtype r;
          both = (\<lambda>g' long short. if g' = g then max long short else short)
      in case c of
        Rank_row g' \<Rightarrow>
          if ty = ACTIVATE then both g' (now + tRRDR_L p) (now + tRRDR_S p)
          else if ty = REFRESH then now + tRRDR_L p else 0
      | Rank_read g' \<Rightarrow>
          if ty = READ \<or> ty = READ_PRECHARGE then both g' (now + max (tBURST p) (tCCD_L p)) (now + gap * burstCount r)
          else if ty = WRITE \<or> ty = WRITE_PRECHARGE
          then both g' (now + tCWD p + tBURST p + tWTR_L p) (now + gap * (burstCount r - 1) + tCWD p + tBURST p + tWTR_S p)
          else 0
      | Rank_write g' \<Rightarrow>
          if ty = READ \<or> ty = READ_PRECHARGE then both g' (now + turn) (now + gap * (burstCount r - 1) + turn)
          else if ty = WRITE \<or> ty = WRITE_PRECHARGE then both g' (now + max (tBURST p) (tCCD_L p)) (now + gap * burstCount r)
          else 0
      | Rank_close \<Rightarrow> if ty = PRECHARGE \<or> ty = PRECHARGE_ALL then now + tPPD p else 0)"

lemma group_time_raise [simp]:
  "group_time g' (raise_at g t xs) = (if g' = g \<and> g < length xs then max (group_time g' xs) t else group_time g' xs)"
  by (auto simp: group_time_def raise_at_def)

lemma group_time_raise_first: "group_time g xs \<le> group_time g (raise_first n t xs)"
  by (auto simp: group_time_def raise_first_def nth_append min_def)

section \<open>Effects\<close>

definition rank_mono :: "StandardRank \<Rightarrow> StandardRank \<Rightarrow> bool" where
  "rank_mono k k' \<longleftrightarrow> same_shape k k' \<and> (\<forall>c. rank_earliest c k \<le> rank_earliest c k')"

lemma rank_mono_refl [simp]: "rank_mono k k"
  by (simp add: rank_mono_def)

lemma rank_mono_trans: "rank_mono a b \<Longrightarrow> rank_mono b c \<Longrightarrow> rank_mono a c"
  unfolding rank_mono_def by (blast intro: order_trans same_shape_trans)

lemma all_rank_slot:
  "(\<forall>c. P c) = ((\<forall>g. P (Rank_row g)) \<and> (\<forall>g. P (Rank_read g)) \<and> (\<forall>g. P (Rank_write g)) \<and> P Rank_close)"
  by (metis rank_slot.exhaust)

lemma same_ring_wf: "same_shape k k' \<Longrightarrow> same_ring k k' \<Longrightarrow> rank_wf k' = rank_wf k"
  by (simp add: rank_wf_def same_shape_def same_ring_def)

lemma same_ring_window: "same_ring k k' \<Longrightarrow> window k' = window k"
  by (simp add: window_def same_ring_def)

definition opens_row :: "OpType \<Rightarrow> bool" where
  "opens_row ty \<longleftrightarrow> ty = ACTIVATE \<or> ty = REFRESH"

definition ring_effect :: "Params \<Rightarrow> ncycle_t \<Rightarrow> bool \<Rightarrow> StandardRank \<Rightarrow> StandardRank \<Rightarrow> bool" where
  "ring_effect p now act k k' \<longleftrightarrow> (rank_wf k \<longrightarrow> rank_wf k'
     \<and> (if act then window k' = tl (window k) @ [now] \<and> hd (window k) + tRAW p \<le> now else window k' = window k))"

lemma same_ring_effect: "same_shape k k' \<Longrightarrow> same_ring k k' \<Longrightarrow> ring_effect p now False k k'"
  by (simp add: ring_effect_def same_ring_wf same_ring_window)

definition rank_effect :: "Params \<Rightarrow> NVMainRequest \<Rightarrow> StandardRank \<times> sim \<Rightarrow> bool \<times> StandardRank \<times> sim \<Rightarrow> bool" where
  "rank_effect p r st out = (case (st, out) of ((k, s), (ok, k', s')) \<Rightarrow>
     kids (bank_step p) (rk_children k, s) (rk_children k', s') \<and> GetCurrentCycle s' = GetCurrentCycle s
     \<and> rank_mono k k' \<and> ring_effect p (GetCurrentCycle s) (ok \<and> opens_row (rtype r)) k k'
     \<and> (ok \<longrightarrow> rank_wf k \<longrightarrow> (\<forall>c. rank_first_after p r (group_of r k) (GetCurrentCycle s) c \<le> rank_earliest c k')))"

lemma bank_group_post [nvm_post]:
  assumes "bankgroupNum k \<noteq> 0 \<Longrightarrow> unat (b mod bankgroupNum k) < 16 \<Longrightarrow> Q (unat (b mod bankgroupNum k))"
  shows "post (bank_group b k) Q"
  unfolding bank_group_def by (intro nvm_post) (rule assms)

lemma raw_next_post [nvm_post]:
  assumes "Q (unat ((RAWindex k + 1) mod rawNum k))"
  shows "post (raw_next k) Q"
  unfolding raw_next_def by (intro nvm_post) (rule assms)

text \<open>Updates that no time depends on.\<close>

lemma rank_frame [simp]:
  "rank_earliest c (k\<lparr>rk_decoder := d\<rparr>) = rank_earliest c k" "rank_earliest c (k\<lparr>rk_children := cs\<rparr>) = rank_earliest c k"
  "rank_earliest c (k\<lparr>rk_state := st\<rparr>) = rank_earliest c k" "rank_earliest c (record_activation now i k) = rank_earliest c k"
  by (cases c; simp)+

lemma rank_mono_frame [simp]:
  "rank_mono k (k'\<lparr>rk_children := cs\<rparr>) = rank_mono k k'" "rank_mono k (k'\<lparr>rk_state := st\<rparr>) = rank_mono k k'"
  "rank_mono k (record_activation now i k') = rank_mono k k'"
  "defaultField d = defaultField (rk_decoder k') \<Longrightarrow> rank_mono k (k'\<lparr>rk_decoder := d\<rparr>) = rank_mono k k'"
  by (simp_all add: rank_mono_def same_shape_def)

lemma same_ring_frame [simp]:
  "same_ring k (k'\<lparr>rk_children := cs\<rparr>) = same_ring k k'" "same_ring k (k'\<lparr>rk_state := st\<rparr>) = same_ring k k'"
  "same_ring k (k'\<lparr>rk_decoder := d\<rparr>) = same_ring k k'"
  by (simp_all add: same_ring_def)

lemma rank_effectI:
  assumes "kids (bank_step p) (rk_children k, s) (rk_children k', s')" "GetCurrentCycle s' = GetCurrentCycle s"
    "rank_mono k k'" "ring_effect p (GetCurrentCycle s) (ok \<and> opens_row (rtype r)) k k'"
    "\<And>c. ok \<Longrightarrow> rank_wf k \<Longrightarrow> rank_first_after p r (group_of r k) (GetCurrentCycle s) c \<le> rank_earliest c k'"
  shows "rank_effect p r (k, s) (ok, k', s')"
  using assms by (simp add: rank_effect_def)

lemma rank_effect_still:
  assumes "\<not> opens_row (rtype r)" "rank_mono k k'" "same_ring k k'"
  shows "ring_effect p now (ok \<and> opens_row (rtype r)) k k'"
  using assms same_ring_effect [of k k' p now] by (simp add: rank_mono_def)

lemma raise_mono: "(x :: ncycle_t) \<le> y \<Longrightarrow> u \<le> v \<Longrightarrow> max x u \<le> max y (max v t)" "(x :: ncycle_t) \<le> y \<Longrightarrow> u \<le> v \<Longrightarrow> max x u \<le> max (max y t') (max v t)"
  by (auto simp: le_max_iff_disj)

lemma constraints_earliest:
  "rank_earliest c k \<le> rank_earliest c (rank_read_constraints p r g now k)"
  "rank_earliest c k \<le> rank_earliest c (rank_write_constraints p r g now k)"
  unfolding rank_read_constraints_def rank_write_constraints_def Let_def
  by (cases c; simp del: max.bounded_iff; intro conjI impI raise_mono; simp)+

lemma constraints_mono:
  "rank_mono k (rank_read_constraints p r g now k)" "rank_mono k (rank_write_constraints p r g now k)"
  using constraints_earliest
  by (simp_all add: rank_mono_def) (simp_all add: same_shape_def rank_read_constraints_def rank_write_constraints_def Let_def)

lemma rank_constraints_frame [simp]:
  "rk_children (rank_read_constraints p r g now k) = rk_children k" "rk_children (rank_write_constraints p r g now k) = rk_children k"
  "same_ring k' (rank_read_constraints p r g now k) = same_ring k' k" "same_ring k' (rank_write_constraints p r g now k) = same_ring k' k"
  by (simp_all add: rank_read_constraints_def rank_write_constraints_def Let_def same_ring_def)

lemma constraints_first:
  assumes "rank_wf k" "g < 16"
  shows "rtype r = READ \<or> rtype r = READ_PRECHARGE \<Longrightarrow> rank_first_after p r g now c \<le> rank_earliest c (rank_read_constraints p r g now k)"
    "rtype r = WRITE \<or> rtype r = WRITE_PRECHARGE \<Longrightarrow> rank_first_after p r g now c \<le> rank_earliest c (rank_write_constraints p r g now k)"
  using assms
  by (cases c; auto simp: rank_first_after_def rank_read_constraints_def rank_write_constraints_def rank_wf_def Let_def le_max_iff_disj)+

lemma rank_wf_frame [simp]:
  "rank_wf (k\<lparr>rk_children := cs\<rparr>) = rank_wf k" "rank_wf (k\<lparr>rk_decoder := d\<rparr>) = rank_wf k" "rank_wf (k\<lparr>rk_state := st\<rparr>) = rank_wf k"
  by (simp_all add: rank_wf_def)

lemma group_less: "rank_wf k \<Longrightarrow> bankgroupNum k \<noteq> 0 \<Longrightarrow> group_of r k < 16"
proof -
  assume "rank_wf k" "bankgroupNum k \<noteq> 0"
  then have "bank (address r) mod bankgroupNum k < bankgroupNum k" "bankgroupNum k \<le> 16"
    by (simp_all add: rank_wf_def word_mod_less_divisor word_gt_0)
  then have "bank (address r) mod bankgroupNum k < 16" by simp
  then show ?thesis by (simp add: group_of_def word_less_nat_alt)
qed

lemma adopt_mono:
  assumes "rank_mono (k\<lparr>rk_decoder := dec, rk_children := cs\<rparr>) k'" "defaultField dec = defaultField (rk_decoder k)"
  shows "rank_mono k k'"
  using assms by (intro rank_mono_trans [OF _ assms(1)]) simp

text \<open>A command that is forwarded to a bank and then changes times but not the ring.\<close>

lemma forwarded_effect:
  assumes "\<not> opens_row (rtype r)" "kids (bank_step p) (rk_children k, s) (cs, s1)" "GetCurrentCycle s1 = GetCurrentCycle s"
    "GetCurrentCycle s' = GetCurrentCycle s" "defaultField dec = defaultField (rk_decoder k)"
    and k': "rk_children k' = cs" "rank_mono (k\<lparr>rk_decoder := dec, rk_children := cs\<rparr>) k'"
      "same_ring (k\<lparr>rk_decoder := dec, rk_children := cs\<rparr>) k'"
      "\<And>c. rank_wf k \<Longrightarrow> rank_first_after p r (group_of r k) (GetCurrentCycle s) c \<le> rank_earliest c k'"
  shows "rank_effect p r (k, s) (ok, k', s')"
proof (rule rank_effectI)
  show "kids (bank_step p) (rk_children k, s) (rk_children k', s')"
    using assms(2-4) k'(1) ddr3_bank_child.kids_then_elapse by simp
  show m: "rank_mono k k'" using adopt_mono [OF k'(2) assms(5)] .
  show "ring_effect p (GetCurrentCycle s) (ok \<and> opens_row (rtype r)) k k'"
    using k'(3) by (intro rank_effect_still [OF assms(1) m]) (simp add: same_ring_def)
qed (use assms k' in simp_all)

lemma refused_effect: "rank_effect p r (k, s) (False, k, s)"
  by (rule rank_effectI) (simp_all add: ring_effect_def)

lemma Rank_Read_effect:
  assumes r: "requests s rp = Some r" "rp < nextReq s" and ty: "rtype r = READ \<or> rtype r = READ_PRECHARGE"
  shows "post (Rank_Read p rp (k, s)) (rank_effect p r (k, s))"
proof -
  have na: "\<not> opens_row (rtype r)" using ty by (auto simp: opens_row_def)
  show ?thesis
    using r refused_effect unfolding Rank_Read_def
    by (intro nvm_post) (auto intro!: forwarded_effect [OF na] constraints_mono constraints_first ty simp: group_of_def)
qed

lemma Rank_Write_effect:
  assumes r: "requests s rp = Some r" "rp < nextReq s" and ty: "rtype r = WRITE \<or> rtype r = WRITE_PRECHARGE"
  shows "post (Rank_Write p rp (k, s)) (rank_effect p r (k, s))"
proof -
  have na: "\<not> opens_row (rtype r)" using ty by (auto simp: opens_row_def)
  show ?thesis
    using r refused_effect unfolding Rank_Write_def
    by (intro nvm_post) (auto intro!: forwarded_effect [OF na] constraints_mono constraints_first ty simp: group_of_def)
qed

lemma first_after_zero:
  "rtype r \<notin> {ACTIVATE, REFRESH, READ, READ_PRECHARGE, WRITE, WRITE_PRECHARGE, PRECHARGE, PRECHARGE_ALL}
    \<Longrightarrow> rank_first_after p r g now c = 0"
  by (cases c) (simp_all add: rank_first_after_def Let_def)

lemma precharge_mono:
  assumes "rank_mono k k'" "rk_nextPrecharge k' \<le> t"
  shows "rank_mono k (k'\<lparr>rk_nextPrecharge := t\<rparr>)"
proof -
  have "rank_earliest c k \<le> rank_earliest c (k'\<lparr>rk_nextPrecharge := t\<rparr>)" for c
    using assms by (cases c) (auto simp: rank_mono_def all_rank_slot le_max_iff_disj)
  then show ?thesis using assms by (simp add: rank_mono_def same_shape_def)
qed

lemma Rank_Precharge_effect:
  assumes r: "requests s rp = Some r" "rp < nextReq s" and ty: "rtype r = PRECHARGE \<or> rtype r = PRECHARGE_ALL"
  shows "post (Rank_Precharge p rp (k, s)) (rank_effect p r (k, s))"
proof -
  have na: "\<not> opens_row (rtype r)" using ty by (auto simp: opens_row_def)
  have first: "rank_first_after p r g now c \<le> rank_earliest c (k'\<lparr>rk_nextPrecharge := max t (now + tPPD p)\<rparr>)" for g now c k' t
    using ty by (cases c) (auto simp: rank_first_after_def Let_def le_max_iff_disj)
  show ?thesis
    using r refused_effect unfolding Rank_Precharge_def
    by (intro nvm_post post_any [of "Rank_Idle k" for k])
      (auto intro!: forwarded_effect [OF na] precharge_mono first simp: same_ring_def)
qed

text \<open>A command to every bank that changes the power state of the rank.\<close>

lemma power_effect:
  assumes "rtype r \<in> {POWERDOWN_PDA, POWERDOWN_PDPF, POWERDOWN_PDPS, POWERUP}"
    "kids (bank_step p) (rk_children k, s) (cs, s1)" "GetCurrentCycle s1 = GetCurrentCycle s" "sim_rel s1 s'"
  shows "rank_effect p r (k, s) (True, k\<lparr>rk_children := cs, rk_state := st\<rparr>, s')"
proof (rule rank_effectI)
  show "kids (bank_step p) (rk_children k, s) (rk_children (k\<lparr>rk_children := cs, rk_state := st\<rparr>), s')"
    using assms(2) ddr3_bank_child.kids_then_elapse sim_rel_time [OF assms(4)] by simp
  have "\<not> opens_row (rtype r)" using assms(1) by (auto simp: opens_row_def)
  then show "ring_effect p (GetCurrentCycle s) (True \<and> opens_row (rtype r)) k (k\<lparr>rk_children := cs, rk_state := st\<rparr>)"
    by (intro rank_effect_still) simp_all
  show "rank_first_after p r (group_of r k) (GetCurrentCycle s) c \<le> rank_earliest c (k\<lparr>rk_children := cs, rk_state := st\<rparr>)" for c
    using assms(1) by (subst first_after_zero) auto
qed (use assms sim_rel_time [OF assms(4)] in simp_all)

lemma Rank_Power_effect:
  assumes r: "rp < nextReq s" and ty: "rtype r \<in> {POWERDOWN_PDA, POWERDOWN_PDPF, POWERDOWN_PDPS, POWERUP}"
  shows "post (Rank_PowerDown p rp (k, s)) (rank_effect p r (k, s))" "post (Rank_PowerUp p rp (k, s)) (rank_effect p r (k, s))"
proof -
  have eff: "rank_effect p r (k, s) (True, k\<lparr>rk_children := cs, rk_state := st\<rparr>, s')"
    if "kids (bank_step p) (rk_children k, s) (cs, s1)" "GetCurrentCycle s1 = GetCurrentCycle s" "sim_rel s1 s'" for cs s1 s' st
    using power_effect [OF ty that] .
  have keep: "rank_effect p r (k, s) (True, k\<lparr>rk_children := cs\<rparr>, s')"
    if "kids (bank_step p) (rk_children k, s) (cs, s1)" "GetCurrentCycle s1 = GetCurrentCycle s" "sim_rel s1 s'" for cs s1 s'
    using eff [OF that, of "rk_state k"] by simp
  show "post (Rank_PowerDown p rp (k, s)) (rank_effect p r (k, s))"
    unfolding Rank_PowerDown_def fst_conv
    by (intro nvm_post r) (auto intro: eff keep split: OpType.split)
  show "post (Rank_PowerUp p rp (k, s)) (rank_effect p r (k, s))"
    unfolding Rank_PowerUp_def fst_conv
    by (intro post_bind rank_issue_all_post r, simp (no_asm) only: prod.case Let_def split: StandardRank_State.split,
        intro conjI impI nvm_post) (auto intro: eff keep)
qed

section \<open>Activation and refresh\<close>

lemma activate_mono:
  assumes "rank_mono k k'" "\<And>g. group_time g (sbg_nextActivate k') \<le> group_time g xs" "length xs = length (sbg_nextActivate k')"
    "dbg_nextActivate k' \<le> t"
  shows "rank_mono k (k'\<lparr>sbg_nextActivate := xs, dbg_nextActivate := t\<rparr>)"
proof -
  have "rank_earliest c k' \<le> rank_earliest c (k'\<lparr>sbg_nextActivate := xs, dbg_nextActivate := t\<rparr>)" for c
  proof (cases c)
    case (Rank_row g)
    then show ?thesis using max.mono [OF assms(2) [of g] assms(4)] by simp
  qed simp_all
  then have "rank_mono k' (k'\<lparr>sbg_nextActivate := xs, dbg_nextActivate := t\<rparr>)"
    using assms(3) by (simp add: rank_mono_def same_shape_def)
  then show ?thesis by (rule rank_mono_trans [OF assms(1)])
qed

lemma record_effect:
  assumes "rank_wf k \<Longrightarrow> hd (window k) + tRAW p \<le> now" "same_shape k k'" "same_ring k k'"
    "rank_wf k \<Longrightarrow> i = ring_next k" "k'' = record_activation now i k'\<lparr>sbg_nextActivate := xs, dbg_nextActivate := t\<rparr>"
    "length xs = length (sbg_nextActivate k')"
  shows "ring_effect p now True k k''"
proof -
  have "rank_wf k'' \<and> window k'' = tl (window k) @ [now]" if w: "rank_wf k"
  proof -
    have w': "rank_wf k'" "window k' = window k" "ring_next k' = ring_next k"
      using w same_ring_wf [OF assms(2,3)] same_ring_window [OF assms(3)] assms(2,3)
      by (simp_all add: ring_next_def same_shape_def same_ring_def)
    note rec = record_activation_window [OF w'(1), of now]
    have "window k'' = window (record_activation now (ring_next k') k')" "rank_wf k'' = rank_wf (record_activation now (ring_next k') k')"
      using assms(4) [OF w] w'(3) assms(5,6) by (simp_all add: window_def rank_wf_def)
    then show ?thesis using rec w'(2) by simp
  qed
  then show ?thesis using assms(1) by (simp add: ring_effect_def)
qed

lemma Rank_Activate_effect:
  assumes r: "requests s rp = Some r" "rp < nextReq s" and ty: "rtype r = ACTIVATE"
    and ready: "max (sbg_nextActivate k ! group_of r k) (dbg_nextActivate k) \<le> GetCurrentCycle s"
      "rk_lastActivate k ! unat ((RAWindex k + 1) mod rawNum k) + tRAW p \<le> GetCurrentCycle s"
  shows "post (Rank_Activate p rp (k, s)) (rank_effect p r (k, s))"
proof -
  let ?now = "GetCurrentCycle s" and ?i = "unat ((RAWindex k + 1) mod rawNum k)"
  have fin: "rank_effect p r (k, s) (True, record_activation ?now ?i k'\<lparr>
      sbg_nextActivate := raise_at (group_of r k) (?now + tRRDR_L p) (sbg_nextActivate k),
      dbg_nextActivate := max (dbg_nextActivate k) (?now + tRRDR_S p)\<rparr>, s')"
    if k: "kids (bank_step p) (rk_children k, s) (cs, s')" "GetCurrentCycle s' = ?now" "defaultField dec = defaultField (rk_decoder k)"
      "group_of r k < 16" and k': "k' = k\<lparr>rk_decoder := dec, rk_children := cs, rk_state := st\<rparr>" for dec cs s' st k'
  proof (rule rank_effectI)
    have ring: "same_shape k k'" "same_ring k k'" using k(3) k' by (simp_all add: same_shape_def same_ring_def)
    have old: "hd (window k) + tRAW p \<le> ?now" "?i = ring_next k" if "rank_wf k"
      using ready(2) raw_next_eq(3) [OF that] window_oldest(1) [OF that] by simp_all
    show "ring_effect p ?now (True \<and> opens_row (rtype r)) k (record_activation ?now ?i k'\<lparr>
        sbg_nextActivate := raise_at (group_of r k) (?now + tRRDR_L p) (sbg_nextActivate k),
        dbg_nextActivate := max (dbg_nextActivate k) (?now + tRRDR_S p)\<rparr>)"
      using record_effect [OF old(1) ring old(2) refl] ty k' by (simp add: opens_row_def)
  qed (use k k' ty in \<open>auto intro!: activate_mono simp: rank_wf_def rank_first_after_def le_max_iff_disj Let_def split: rank_slot.split\<close>)
  note opened = fin [unfolded group_of_def, OF _ _ _ _ refl]
  note unopened = fin [unfolded group_of_def, where st = "rk_state k" and k' = "k\<lparr>rk_decoder := dec, rk_children := cs\<rparr>" for dec cs]
  show ?thesis
    using r refused_effect ready unfolding Rank_Activate_def
    by (intro nvm_post) (auto intro!: opened unopened simp: group_of_def)
qed

lemma raise_groups_post [nvm_post]:
  assumes "\<And>xs. length xs = length (sbg_nextActivate k) \<Longrightarrow> (\<And>g. group_time g (sbg_nextActivate k) \<le> group_time g xs)
      \<Longrightarrow> Q (k\<lparr>sbg_nextActivate := xs\<rparr>)"
  shows "post (raise_groups t bs k) Q"
  using assms
proof (induction bs arbitrary: k)
  case Nil
  then show ?case using Nil [of "sbg_nextActivate k"] by (simp add: post_def)
next
  case (Cons c bs)
  have up: "group_time g (sbg_nextActivate k) \<le> group_time g xs"
    if "\<And>g. group_time g (raise_at g0 t (sbg_nextActivate k)) \<le> group_time g xs" for g0 g xs
    using that [of g] by (auto split: if_splits)
  show ?case
    unfolding raise_groups.simps by (intro nvm_post Cons.IH) (auto intro!: Cons.prems intro: up simp del: group_time_raise)
qed

lemma record_activation_commute:
  "record_activation now i (k\<lparr>sbg_nextActivate := xs, dbg_nextActivate := t\<rparr>)
    = record_activation now i k\<lparr>sbg_nextActivate := xs, dbg_nextActivate := t\<rparr>"
  by (simp add: record_activation_def)

lemma Rank_Refresh_effect:
  assumes r: "requests s rp = Some r" and ty: "rtype r = REFRESH"
    and ready: "rk_lastActivate k ! unat ((RAWindex k + 1) mod rawNum k) + tRAW p \<le> GetCurrentCycle s"
  shows "post (Rank_Refresh p rp (k, s)) (rank_effect p r (k, s))"
proof -
  let ?now = "GetCurrentCycle s" and ?i = "unat ((RAWindex k + 1) mod rawNum k)"
  have fin: "rank_effect p r (k, s) (True, record_activation ?now ?i (k\<lparr>rk_children := cs, rk_state := STANDARDRANK_REFRESHING,
      sbg_nextActivate := xs, dbg_nextActivate := max (dbg_nextActivate k) (?now + tRRDR_L p)\<rparr>), s')"
    if k: "kids (bank_step p) (rk_children k, s) (cs, s1)" "GetCurrentCycle s' = GetCurrentCycle s1" "GetCurrentCycle s1 = ?now"
      "length xs = length (sbg_nextActivate k)" "\<And>g. group_time g (sbg_nextActivate k) \<le> group_time g xs" for cs s1 s' xs
    unfolding record_activation_commute
  proof (rule rank_effectI)
    let ?k' = "k\<lparr>rk_children := cs, rk_state := STANDARDRANK_REFRESHING\<rparr>"
    have ring: "same_shape k ?k'" "same_ring k ?k'" by (simp_all add: same_shape_def same_ring_def)
    have old: "hd (window k) + tRAW p \<le> ?now" "?i = ring_next k" if "rank_wf k"
      using ready raw_next_eq(3) [OF that] window_oldest(1) [OF that] by simp_all
    show "ring_effect p ?now (True \<and> opens_row (rtype r)) k (record_activation ?now ?i ?k'\<lparr>
        sbg_nextActivate := xs, dbg_nextActivate := max (dbg_nextActivate k) (?now + tRRDR_L p)\<rparr>)"
      using record_effect [OF old(1) ring old(2) refl, of xs] ty k(4) by (simp add: opens_row_def)
    show "kids (bank_step p) (rk_children k, s) (rk_children (record_activation ?now ?i ?k'\<lparr>
        sbg_nextActivate := xs, dbg_nextActivate := max (dbg_nextActivate k) (?now + tRRDR_L p)\<rparr>), s')"
      using ddr3_bank_child.kids_then_elapse [OF k(1,2)] by simp
  qed (use k ty in \<open>auto intro!: activate_mono simp: rank_first_after_def le_max_iff_disj Let_def split: rank_slot.split\<close>)
  show ?thesis
    using r unfolding Rank_Refresh_def
    by (intro nvm_post) (auto intro!: fin dest: sim_rel_time)
qed

section \<open>Issuing\<close>

definition rank_same :: "StandardRank \<Rightarrow> StandardRank \<Rightarrow> bool" where
  "rank_same k k' \<longleftrightarrow> same_shape k k' \<and> same_ring k k' \<and> sbg_nextActivate k' = sbg_nextActivate k
     \<and> sbg_nextRead k' = sbg_nextRead k \<and> sbg_nextWrite k' = sbg_nextWrite k \<and> dbg_nextActivate k' = dbg_nextActivate k
     \<and> dbg_nextRead k' = dbg_nextRead k \<and> dbg_nextWrite k' = dbg_nextWrite k \<and> rk_nextPrecharge k' = rk_nextPrecharge k"

definition rank_ready :: "Params \<Rightarrow> NVMainRequest \<Rightarrow> StandardRank \<Rightarrow> ncycle_t \<Rightarrow> bool" where
  "rank_ready p r k now \<longleftrightarrow>
     (rtype r = ACTIVATE \<longrightarrow> max (sbg_nextActivate k ! group_of r k) (dbg_nextActivate k) \<le> now)
     \<and> (opens_row (rtype r) \<longrightarrow> rk_lastActivate k ! unat ((RAWindex k + 1) mod rawNum k) + tRAW p \<le> now)
     \<and> (rtype r = READ \<or> rtype r = READ_PRECHARGE \<longrightarrow> max (sbg_nextRead k ! group_of r k) (dbg_nextRead k) \<le> now)
     \<and> (rtype r = WRITE \<or> rtype r = WRITE_PRECHARGE \<longrightarrow> max (sbg_nextWrite k ! group_of r k) (dbg_nextWrite k) \<le> now)
     \<and> (rtype r = PRECHARGE \<or> rtype r = PRECHARGE_ALL \<longrightarrow> rk_nextPrecharge k \<le> now)"

lemma count_waits_post [nvm_post]:
  assumes "\<And>k'. rank_same k k' \<Longrightarrow> rk_children k' = rk_children k \<Longrightarrow> Q k'"
  shows "post (count_waits p now g i k) Q"
  unfolding count_waits_def
  by (intro nvm_post; rule assms; simp add: rank_same_def same_shape_def same_ring_def)

lemma rank_same_trans: "rank_same a b \<Longrightarrow> rank_same b c \<Longrightarrow> rank_same a c"
  by (simp add: rank_same_def same_shape_def same_ring_def)

lemma rank_same_frame [simp]:
  "rank_same k k" "rank_same k (k'\<lparr>rk_children := cs\<rparr>) = rank_same k k'"
  "defaultField d = defaultField (rk_decoder k') \<Longrightarrow> rank_same k (k'\<lparr>rk_decoder := d\<rparr>) = rank_same k k'"
  by (simp_all add: rank_same_def same_shape_def same_ring_def)

lemma rank_activate_ask_post:
  assumes "rtype r = ACTIVATE"
  shows "post (rank_activate_ask p r k s) (\<lambda>(ok, why, k'). kids (bank_step p) (rk_children k, s) (rk_children k', s) \<and> rank_same k k'
     \<and> (ok \<longrightarrow> rank_ready p r k (GetCurrentCycle s)))"
  unfolding rank_activate_ask_def
  by (intro nvm_post) (auto simp: rank_ready_def opens_row_def group_of_def assms not_less elim!: rank_same_trans [rotated])

lemma max_group_post [nvm_post]: "(\<And>m'. Q m') \<Longrightarrow> post (max_group k bs m) Q"
  by (auto simp: post_def)

lemma rank_refresh_ask_post:
  assumes "rtype r = REFRESH"
  shows "post (rank_refresh_ask p r k s) (\<lambda>(ok, why, k'). kids (bank_step p) (rk_children k, s) (rk_children k', s) \<and> rank_same k k'
     \<and> (ok \<longrightarrow> rank_ready p r k (GetCurrentCycle s)))"
  unfolding rank_refresh_ask_def
  by (intro nvm_post) (auto simp: rank_ready_def opens_row_def assms not_less)

lemma Rank_IsIssuable_post:
  "post (Rank_IsIssuable p r k s) (\<lambda>(ok, why, k'). kids (bank_step p) (rk_children k, s) (rk_children k', s) \<and> rank_same k k'
     \<and> (ok \<longrightarrow> rank_ready p r k (GetCurrentCycle s)))"
  unfolding Rank_IsIssuable_def CanPowerDown_def CanPowerUp_def
  by (intro nvm_post rank_activate_ask_post rank_refresh_ask_post)
    (auto simp: rank_ready_def opens_row_def group_of_def not_less intro!: post_Some)

lemma rank_same_mono: "rank_same k k' \<Longrightarrow> rank_mono k k'"
proof -
  assume a: "rank_same k k'"
  then have "rank_earliest c k' = rank_earliest c k" for c by (cases c) (simp_all add: rank_same_def)
  then show ?thesis using a by (simp add: rank_mono_def rank_same_def)
qed

lemma rank_effect_after_query:
  assumes q: "kids (bank_step p) (rk_children k, s) (rk_children k1, s)" "rank_same k k1" and e: "rank_effect p r (k1, s) (ok, k', s')"
  shows "rank_effect p r (k, s) (ok, k', s')"
proof (rule rank_effectI)
  have same: "same_shape k k1" "same_ring k k1" "group_of r k1 = group_of r k"
    using q(2) by (simp_all add: rank_same_def same_shape_def group_of_def)
  note e' = e [unfolded rank_effect_def, simplified]
  show "kids (bank_step p) (rk_children k, s) (rk_children k', s')" using q(1) e' kids_trans by blast
  show "rank_mono k k'" using rank_mono_trans [OF rank_same_mono [OF q(2)]] e' by blast
  show "ring_effect p (GetCurrentCycle s) (ok \<and> opens_row (rtype r)) k k'"
    using e' same_ring_wf [OF same(1,2)] same_ring_window [OF same(2)] by (auto simp: ring_effect_def)
  show "rank_first_after p r (group_of r k) (GetCurrentCycle s) c \<le> rank_earliest c k'" if "ok" "rank_wf k" for c
    using e' that same_ring_wf [OF same(1,2)] same(3) by simp
qed (use e in \<open>simp add: rank_effect_def\<close>)

lemma rank_same_ready: "rank_same k k' \<Longrightarrow> rank_ready p r k' now = rank_ready p r k now"
  by (simp add: rank_ready_def rank_same_def same_shape_def same_ring_def group_of_def)

lemma Rank_IssueCommand_effect:
  assumes r: "requests s rp = Some r" "rp < nextReq s" and c: "Rank_IssueCommand p rp (k, s) = Some (ok, k', s')"
  shows "rank_effect p r (k, s) (ok, k', s')" "ok \<Longrightarrow> rank_ready p r k (GetCurrentCycle s)"
proof -
  obtain ok1 why k1 where q: "Rank_IsIssuable p r k s = Some (ok1, why, k1)"
    using r(1) c by (auto simp: Rank_IssueCommand_def bind_eq_Some_conv)
  note qp = postD [OF Rank_IsIssuable_post q, simplified]
  have ok1: "ok \<Longrightarrow> ok1" using r(1) c q by (auto simp: Rank_IssueCommand_def Let_def split: if_splits)
  then show "ok \<Longrightarrow> rank_ready p r k (GetCurrentCycle s)" using qp by blast
  have "rank_effect p r (k1, s) (ok, k', s')"
  proof (cases ok1)
    case False
    then show ?thesis using r(1) c q refused_effect by (simp add: Rank_IssueCommand_def)
  next
    case True
    then have rdy: "rank_ready p r k1 (GetCurrentCycle s)" using qp rank_same_ready by blast
    have other: "rank_effect p r (k1, s) (True, k1, s)"
      if "rtype r \<notin> {ACTIVATE, REFRESH, READ, READ_PRECHARGE, WRITE, WRITE_PRECHARGE, PRECHARGE, PRECHARGE_ALL}"
      using that by (intro rank_effectI) (auto simp: first_after_zero opens_row_def ring_effect_def)
    have "post (Rank_IssueCommand p rp (k, s)) (rank_effect p r (k1, s))"
      using r(1) q True rdy other unfolding Rank_IssueCommand_def
      by (simp only: prod.case Option.bind.simps Let_def not_True_eq_False if_False, intro nvm_post Rank_Activate_effect
          Rank_Read_effect Rank_Write_effect Rank_Precharge_effect Rank_Power_effect Rank_Refresh_effect r)
        (auto simp: rank_ready_def opens_row_def)
    then show ?thesis using c by (simp add: post_def)
  qed
  then show "rank_effect p r (k, s) (ok, k', s')" using rank_effect_after_query qp by blast
qed

end
