(* ===== verification/Standard_Rank_Safety.thy ===== *)
theory Standard_Rank_Safety
  imports Standard_Rank_Timing
begin

text \<open>
  Runs of a rank and its properties: refinement to banks and sub-arrays, the shape of the arrays, the
  spacing of commands by bank group and the row activation window.
\<close>

section \<open>Runs\<close>

text \<open>What can happen to a rank, with the times of the activations it records.\<close>

inductive rank_event :: "Params \<Rightarrow> ncycle_t list \<Rightarrow> StandardRank \<times> sim \<Rightarrow> StandardRank \<times> sim \<Rightarrow> bool" for p where
  rank_issue: "requests s rp = Some r \<Longrightarrow> rp < nextReq s \<Longrightarrow> Rank_IssueCommand p rp (k, s) = Some (ok, k', s')
    \<Longrightarrow> rank_event p (if ok \<and> opens_row (rtype r) then [GetCurrentCycle s] else []) (k, s) (k', s')"
| rank_query: "Rank_IsIssuable p r k s = Some (ok, why, k') \<Longrightarrow> rank_event p [] (k, s) (k', s)"
| rank_next: "Rank_NextIssuable p r k = Some (t, k') \<Longrightarrow> rank_event p [] (k, s) (k', s)"
| rank_child: "rank_child_complete p i j rp (k, s) = Some (up, k', s') \<Longrightarrow> rank_event p [] (k, s) (k', s')"
| rank_response: "Rank_RequestComplete rp (k, s) = Some (up, k', s') \<Longrightarrow> rank_event p [] (k, s) (k', s')"
| rank_notify: "rank_event p [] (k, s) (Rank_Notify p op s k, s)"
| rank_cycle: "rank_event p [] (k, s) (Rank_Cycle p n k, s)"
| rank_stats: "Rank_CalculateStats p s k = Some k' \<Longrightarrow> rank_event p [] (k, s) (k', s)"
| rank_reset: "rank_event p [] (k, s) (Rank_ResetStats s k, s)"
| rank_elapse: "GetCurrentCycle s \<le> GetCurrentCycle s' \<Longrightarrow> rank_event p [] (k, s) (k, s')"

inductive rank_trace :: "Params \<Rightarrow> StandardRank \<times> sim \<Rightarrow> ncycle_t list \<Rightarrow> StandardRank \<times> sim \<Rightarrow> bool" for p where
  trace_nil: "rank_trace p st [] st"
| trace_snoc: "rank_trace p st ts st' \<Longrightarrow> rank_event p e st' st'' \<Longrightarrow> rank_trace p st (ts @ e) st''"

definition rank_step :: "Params \<Rightarrow> StandardRank \<times> sim \<Rightarrow> StandardRank \<times> sim \<Rightarrow> bool" where
  "rank_step p st st' \<longleftrightarrow> (\<exists>e. rank_event p e st st')"

lemma trace_step: "rank_trace p st ts st' \<Longrightarrow> (rank_step p)\<^sup>*\<^sup>* st st'"
  by (induction rule: rank_trace.induct) (auto simp: rank_step_def intro: rtranclp.rtrancl_into_rtrancl)

section \<open>The activation window\<close>

text \<open>A sequence of activations after those in the window \<open>w\<close>, the oldest first: each comes at least
  \<open>d\<close> after the one it pushes out of the window.\<close>

fun admits :: "ncycle_t \<Rightarrow> ncycle_t list \<Rightarrow> ncycle_t list \<Rightarrow> bool" where
  "admits d w [] = True"
| "admits d w (t # ts) = (hd w + d \<le> t \<and> admits d (tl w @ [t]) ts)"

definition slide :: "ncycle_t list \<Rightarrow> ncycle_t list \<Rightarrow> ncycle_t list" where
  "slide w ts = foldl (\<lambda>w t. tl w @ [t]) w ts"

lemma slide_simps [simp]: "slide w [] = w" "slide w (ts @ us) = slide (slide w ts) us" "slide w [t] = tl w @ [t]"
  by (simp_all add: slide_def)

lemma admits_append: "admits d w (ts @ us) = (admits d w ts \<and> admits d (slide w ts) us)"
  by (induction d w ts rule: admits.induct) (simp_all add: slide_def)

lemma admits_nth:
  assumes "admits d w ts" "w \<noteq> []" "i < length ts"
  shows "(w @ ts) ! i + d \<le> ts ! i"
  using assms
proof (induction d w ts arbitrary: i rule: admits.induct)
  case (2 d w t ts)
  show ?case
  proof (cases i)
    case 0
    then show ?thesis using 2 by (simp add: nth_append hd_conv_nth)
  next
    case (Suc i')
    then have "((tl w @ [t]) @ ts) ! i' + d \<le> ts ! i'" using 2 by simp
    moreover have "(w @ t # ts) ! Suc i' = ((tl w @ [t]) @ ts) ! i'" using 2(3) by (cases w) simp_all
    ultimately show ?thesis using Suc by simp
  qed
qed simp

text \<open>What every step keeps.\<close>

definition rank_keeps :: "Params \<Rightarrow> ncycle_t list \<Rightarrow> StandardRank \<times> sim \<Rightarrow> StandardRank \<times> sim \<Rightarrow> bool" where
  "rank_keeps p ts st st' \<longleftrightarrow> kids (bank_step p) (rk_children (fst st), snd st) (rk_children (fst st'), snd st')
     \<and> rank_mono (fst st) (fst st')
     \<and> (rank_wf (fst st) \<longrightarrow> rank_wf (fst st') \<and> admits (tRAW p) (window (fst st)) ts
         \<and> window (fst st') = slide (window (fst st)) ts)"

lemma rank_keeps_refl: "rank_keeps p [] st st"
  by (simp add: rank_keeps_def)

lemma rank_keeps_trans: "rank_keeps p ts a b \<Longrightarrow> rank_keeps p us b c \<Longrightarrow> rank_keeps p (ts @ us) a c"
  unfolding rank_keeps_def by (auto simp: admits_append intro: kids_trans rank_mono_trans)

lemma rank_keeps_still:
  assumes "kids (bank_step p) (rk_children k, s) (rk_children k', s')" "rank_mono k k'" "same_ring k k'"
  shows "rank_keeps p [] (k, s) (k', s')"
  using assms same_ring_wf [of k k'] same_ring_window [of k k'] by (simp add: rank_keeps_def rank_mono_def)

lemma effect_keeps:
  assumes "rank_effect p r (k, s) (ok, k', s')"
  shows "rank_keeps p (if ok \<and> opens_row (rtype r) then [GetCurrentCycle s] else []) (k, s) (k', s')"
  using assms by (auto simp: rank_effect_def rank_keeps_def ring_effect_def)

lemma Rank_RequestComplete_keeps:
  assumes "Rank_RequestComplete rp (k, s) = Some (up, k', s')"
  shows "rk_children k' = rk_children k" "rank_mono k k'" "same_ring k k'" "GetCurrentCycle s' = GetCurrentCycle s"
  using assms
  by (auto simp: Rank_RequestComplete_def delete_request_def bind_eq_Some_conv split: if_splits)

lemma child_complete_step: "bank_child_complete p j rp (b, s) = Some (up, b', s') \<Longrightarrow> GetCurrentCycle s' = GetCurrentCycle s"
proof -
  assume a: "bank_child_complete p j rp (b, s) = Some (up, b', s')"
  then obtain u sa s1 where "SubArray_RequestComplete p rp (bk_children b ! j, s) = Some (u, sa, s1)"
    "GetCurrentCycle s' = GetCurrentCycle s1"
    by (auto simp: bank_child_complete_def bind_eq_Some_conv NVMObject_RequestComplete_def delete_request_def Let_def
        split: if_splits)
  then show ?thesis using postD [OF RequestComplete_times] by fastforce
qed

lemma rank_child_complete_keeps:
  assumes "rank_child_complete p i j rp (k, s) = Some (up, k', s')"
  shows "rank_keeps p [] (k, s) (k', s')"
proof -
  obtain u b s1 where c: "bank_child_complete p j rp (rk_children k ! i, s) = Some (u, b, s1)"
    using assms by (auto simp: rank_child_complete_def bind_eq_Some_conv)
  let ?k1 = "k\<lparr>rk_children := (rk_children k)[i := b]\<rparr>"
  have kids: "kids (bank_step p) (rk_children k, s) (rk_children ?k1, s1)"
    using ddr3_bank_child.kids_one [OF bank_complete [OF c]] child_complete_step [OF c] by simp
  have "rk_children k' = rk_children ?k1 \<and> rank_mono ?k1 k' \<and> same_ring ?k1 k' \<and> GetCurrentCycle s' = GetCurrentCycle s1"
  proof (cases u)
    case True
    then have up: "Rank_RequestComplete rp (?k1, s1) = Some (up, k', s')" using assms c by (simp add: rank_child_complete_def)
    show ?thesis by (intro conjI Rank_RequestComplete_keeps [OF up])
  next
    case False
    then show ?thesis using assms c by (simp add: rank_child_complete_def)
  qed
  then show ?thesis
    using ddr3_bank_child.kids_then_elapse [OF kids, of s'] rank_mono_trans [of k ?k1 k']
    by (intro rank_keeps_still) (simp_all add: same_ring_def)
qed

lemma banks_stats_kids: "banks_stats p s bs = Some bs' \<Longrightarrow> kids (bank_step p) (bs, s) (bs', s)"
proof -
  assume a: "banks_stats p s bs = Some bs'"
  have "length bs' = length bs \<and> (\<forall>j < length bs. Bank_CalculateStats p s (bs ! j) = Some (bs' ! j))"
    using a by (induction bs arbitrary: bs') (auto simp: bind_eq_Some_conv nth_Cons split: nat.splits)
  then show ?thesis by (auto intro!: kids_all bank_stats)
qed

lemma stats_frame:
  assumes "Rank_CalculateStats p s k = Some k'"
  shows "banks_stats p s (rk_children k) = Some (rk_children k')" "rank_mono k k'" "same_ring k k'"
  using assms unfolding Rank_CalculateStats_def
  by (auto simp: bind_eq_Some_conv Let_def rank_mono_def all_rank_slot same_shape_def same_ring_def simp del: if_split)

lemma Rank_Cycle_frame [simp]:
  "rk_children (Rank_Cycle p n k) = map (Bank_Cycle n) (rk_children k)" "rank_mono k (Rank_Cycle p n k)" "same_ring k (Rank_Cycle p n k)"
  by (simp_all add: Rank_Cycle_def Let_def rank_mono_def all_rank_slot same_shape_def same_ring_def split: StandardRank_State.split)

lemma Rank_Notify_frame [simp]:
  "rk_children (Rank_Notify p op s k) = rk_children k" "same_ring k (Rank_Notify p op s k)"
  by (simp_all add: Rank_Notify_def Let_def same_ring_def)

lemma Rank_Notify_mono: "rank_mono k (Rank_Notify p op s k)"
proof -
  have "rank_earliest c k \<le> rank_earliest c (Rank_Notify p op s k)" for c
    by (cases c; simp add: Rank_Notify_def Let_def; intro conjI impI raise_mono(1) max.mono group_time_raise_first;
        simp add: le_max_iff_disj group_time_raise_first)
  then show ?thesis by (simp add: rank_mono_def) (simp add: same_shape_def Rank_Notify_def Let_def)
qed

lemma bind_eq_SomeE: "m \<bind> f = Some y \<Longrightarrow> (\<And>x. m = Some x \<Longrightarrow> f x = Some y \<Longrightarrow> P) \<Longrightarrow> P"
  by (auto simp: bind_eq_Some_conv)

lemma Rank_NextIssuable_keeps:
  assumes "Rank_NextIssuable p r k = Some (t, k')"
  shows "rank_keeps p [] (k, s) (k', s)"
proof -
  obtain i dec t' b where n: "GetChild_req r (rk_decoder k) (rk_children k) = Some (i, dec)"
    "Bank_NextIssuable r (rk_children k ! i) = Some (t', b)" "k' = k\<lparr>rk_decoder := dec, rk_children := (rk_children k)[i := b]\<rparr>"
    using assms unfolding Rank_NextIssuable_def by (elim bind_eq_SomeE) (auto elim!: bind_eq_SomeE)
  have "defaultField dec = defaultField (rk_decoder k)"
    using n(1) by (auto simp: GetChild_req_def bind_eq_Some_conv split: if_splits dest: TranslateRequest_field)
  then show ?thesis
    using n(3) ddr3_bank_child.kids_one [OF bank_next [OF n(2)], of s p] by (intro rank_keeps_still) simp_all
qed

lemma rank_event_keeps: "rank_event p e st st' \<Longrightarrow> rank_keeps p e st st'"
proof (induction rule: rank_event.induct)
  case (rank_issue s rp r k ok k' s')
  then show ?case using effect_keeps [OF Rank_IssueCommand_effect(1) [OF rank_issue]] by simp
next
  case (rank_query r k s ok why k')
  then show ?case
    using postD [OF Rank_IsIssuable_post rank_query] rank_same_mono by (intro rank_keeps_still) (auto simp: rank_same_def)
next
  case (rank_next r k t k' s)
  then show ?case by (rule Rank_NextIssuable_keeps)
next
  case (rank_child i j rp k s up k' s')
  then show ?case by (rule rank_child_complete_keeps)
next
  case (rank_response rp k s up k' s')
  note c = Rank_RequestComplete_keeps [OF rank_response]
  show ?case using c by (intro rank_keeps_still) (simp_all add: ddr3_bank_child.kids_elapse)
next
  case (rank_notify k s op)
  then show ?case by (intro rank_keeps_still Rank_Notify_mono) simp_all
next
  case (rank_cycle k s n)
  then show ?case by (intro rank_keeps_still) (auto intro!: kids_all bank_cycle)
next
  case (rank_stats s k k')
  then show ?case using stats_frame [OF rank_stats] by (intro rank_keeps_still banks_stats_kids)
next
  case (rank_reset k s)
  then show ?case by (intro rank_keeps_still) (simp_all add: Rank_ResetStats_def rank_mono_def all_rank_slot same_shape_def same_ring_def)
next
  case (rank_elapse s s' k)
  then show ?case by (intro rank_keeps_still) (simp_all add: ddr3_bank_child.kids_elapse)
qed

lemma rank_trace_keeps: "rank_trace p st ts st' \<Longrightarrow> rank_keeps p ts st st'"
  by (induction rule: rank_trace.induct) (auto intro: rank_keeps_refl rank_keeps_trans rank_event_keeps)

text \<open>A command of a kind is accepted by the rank.\<close>

definition rank_accept :: "Params \<Rightarrow> rank_slot \<Rightarrow> StandardRank \<times> sim \<Rightarrow> StandardRank \<times> sim \<Rightarrow> bool" where
  "rank_accept p c st st' \<longleftrightarrow> (\<exists>rp r. requests (snd st) rp = Some r \<and> rp < nextReq (snd st)
     \<and> rank_slot_of r (fst st) = Some c \<and> Rank_IssueCommand p rp st = Some (True, st'))"

lemma group_time_le: "xs ! g \<le> now \<Longrightarrow> group_time g xs \<le> now"
  by (simp add: group_time_def)

lemma ready_earliest_rank:
  assumes "rank_ready p r k now" "rank_slot_of r k = Some c"
  shows "rank_earliest c k \<le> now"
  using assms by (auto simp: rank_slot_of_def rank_ready_def split: if_splits intro: group_time_le)

lemma rank_accept_earliest: "rank_accept p c st st' \<Longrightarrow> rank_earliest c (fst st) \<le> GetCurrentCycle (snd st)"
proof -
  assume "rank_accept p c st st'"
  then obtain rp r where a: "requests (snd st) rp = Some r" "rp < nextReq (snd st)" "rank_slot_of r (fst st) = Some c"
    "Rank_IssueCommand p rp (fst st, snd st) = Some (True, fst st', snd st')"
    by (auto simp: rank_accept_def)
  then show ?thesis using ready_earliest_rank Rank_IssueCommand_effect(2) [OF a(1,2,4)] by simp
qed

interpretation standard_rank: timed_module "rank_step p" "rank_accept p" "\<lambda>st. GetCurrentCycle (snd st)"
  "\<lambda>c st. rank_earliest c (fst st)" for p
  by unfold_locales (auto simp: rank_step_def rank_keeps_def rank_mono_def rank_accept_earliest dest!: rank_event_keeps)

section \<open>Activations return\<close>

definition bank_takes :: "Params \<Rightarrow> req_ptr \<Rightarrow> NVMainRequest \<Rightarrow> DDR3Bank \<Rightarrow> sim \<Rightarrow> bool" where
  "bank_takes p rp r b s \<longleftrightarrow> child_takes p rp r b s \<and> bk_nextCommand b = CMD_NOP \<and> addressed (rtype r)
     \<and> bank_ready p r b (GetCurrentCycle s) \<and> open_inv b"

lemma bank_takes_returns:
  assumes "bank_takes p rp r b s"
  shows "\<exists>why. Bank_IsIssuable p r b s = Some (True, why, b)" "\<exists>b' s'. Bank_IssueCommand p rp (b, s) = Some (True, b', s')"
  using assms bank_issue_returns [of p rp r b s] bank_ask_returns [of p rp r b s] ready_Bank_IsIssuable [of b r p s]
  by (auto simp: bank_takes_def)

lemma GetChild_bank:
  assumes "translated (address r)" "defaultField dec = BANK_FIELD" "unat (bank (address r)) < length cs"
  shows "GetChild_req r dec cs = Some (unat (bank (address r)), dec)"
  using assms by (simp add: GetChild_req_def TranslateRequest_def)

definition after_activate :: "Params \<Rightarrow> NVMainRequest \<Rightarrow> ncycle_t \<Rightarrow> DDR3Bank \<Rightarrow> StandardRank \<Rightarrow> StandardRank" where
  "after_activate p r now b k =
     record_activation now (ring_next k) (k\<lparr>rk_children := (rk_children k)[unat (bank (address r)) := b],
       rk_state := (if rk_state k = STANDARDRANK_CLOSED then STANDARDRANK_OPEN else rk_state k)\<rparr>)
     \<lparr>sbg_nextActivate := raise_at (group_of r k) (now + tRRDR_L p) (sbg_nextActivate k),
      dbg_nextActivate := max (dbg_nextActivate k) (now + tRRDR_S p)\<rparr>"

lemma rank_activate_result:
  assumes wf: "rank_wf k" "bankgroupNum k \<noteq> 0" and r: "requests s rp = Some r" "rtype r = ACTIVATE"
    and dec: "translated (address r)" "defaultField (rk_decoder k) = BANK_FIELD"
      "unat (bank (address r)) < length (rk_children k)" "bank (address r) < bankCount k"
    and ready: "rank_ready p r k (GetCurrentCycle s)" and b: "bank_takes p rp r (rk_children k ! unat (bank (address r))) s"
  shows "\<exists>b' s'. Bank_IssueCommand p rp (rk_children k ! unat (bank (address r)), s) = Some (True, b', s')
    \<and> Rank_IssueCommand p rp (k, s) = Some (True, after_activate p r (GetCurrentCycle s) b' k, s')"
proof -
  let ?i = "unat (bank (address r))" and ?now = "GetCurrentCycle s"
  obtain why b' s' where q: "Bank_IsIssuable p r (rk_children k ! ?i) s = Some (True, why, rk_children k ! ?i)"
    and c: "Bank_IssueCommand p rp (rk_children k ! ?i, s) = Some (True, b', s')"
    using bank_takes_returns [OF b] by blast
  have g: "bank_group (bank (address r)) k = Some (group_of r k)"
    using wf group_less [OF wf] by (simp add: bank_group_def group_of_def cpp_assert_def)
  note n = raw_next_eq [OF wf(1)]
  have t: "max (sbg_nextActivate k ! group_of r k) (dbg_nextActivate k) \<le> ?now" "rk_lastActivate k ! ring_next k + tRAW p \<le> ?now"
    using ready r(2) n(3) by (simp_all add: rank_ready_def opens_row_def)
  have "Rank_IsIssuable p r k s = Some (True, why, k)"
    using q g n t r(2) GetChild_bank [OF dec(1-3)]
    by (simp add: Rank_IsIssuable_def rank_activate_ask_def rank_ask_def rank_child_issuable_def Let_def not_less [symmetric])
  moreover have "Rank_Activate p rp (k, s) = Some (True, after_activate p r ?now b' k, s')"
    using c g n t r dec(4) GetChild_bank [OF dec(1-3)]
    by (simp add: Rank_Activate_def rank_forward_def rank_issue_child_def after_activate_def record_activation_def Let_def not_le)
  ultimately show ?thesis using r c by (simp add: Rank_IssueCommand_def Let_def)
qed

section \<open>The example\<close>

definition rank_params :: Params where
  "rank_params = default_params\<lparr>RAW := 1, BANKS := 2, BANKGROUPS := 2, BanksPerRefresh := 1\<rparr>"

definition rank_request :: "OpType \<Rightarrow> u64 \<Rightarrow> NVMainRequest" where
  "rank_request ty b = NVMainRequest_new\<lparr>rtype := ty,
     address := (NVMAddress_new zero_address)\<lparr>row := 5, bank := b, translated := True\<rparr>\<rparr>"

definition rank_sim :: "ncycle_t \<Rightarrow> sim" where
  "rank_sim now = \<lparr>eventQueue = (EventQueue_new 1)\<lparr>currentCycle := now\<rparr>,
     requests = [0 \<mapsto> rank_request ACTIVATE 0, 1 \<mapsto> rank_request ACTIVATE 1, 2 \<mapsto> rank_request REFRESH 1], nextReq = 3,
     simInterface = None, rand_state = (id, 0)\<rparr>"

definition sample_rank :: StandardRank where
  "sample_rank = the (StandardRank_SetConfig rank_params True True AddressTranslator_new (\<lambda>_. sample_bank DDR3BANK_CLOSED)
     (StandardRank_new 9 undefined))"

lemma rank_params_fields [simp]:
  "BANKGROUPS rank_params = 2" "BANKS rank_params = 2" "RAW rank_params = 1" "BanksPerRefresh rank_params = 1"
  "tRAW rank_params = 20" "tCMD rank_params = 1" "DeviceWidth rank_params = 8" "tRRDR_L rank_params = 7" "tRRDR_S rank_params = 5"
  "BusWidth rank_params = 64" "\<not> WritePausing rank_params"
  by (simp_all add: rank_params_def)

lemma rank_request_fields [simp]:
  "rtype (rank_request ty b) = ty" "translated (address (rank_request ty b))" "subarray (address (rank_request ty b)) = 0"
  "bank (address (rank_request ty b)) = b"
  by (simp_all add: rank_request_def NVMainRequest_new_def NVMAddress_new_def zero_address_def)

lemma rank_request_fits: "data_fits p (rank_request ty b)"
  by (simp add: rank_request_def data_fits_def NVMainRequest_new_def NVMDataBlock_new_def block_wf_def)

lemma rank_sim_fields [simp]:
  "GetCurrentCycle (rank_sim now) = now" "nextReq (rank_sim now) = 3" "live (eventQueue (rank_sim now))" "store_ok (rank_sim now)"
  "requests (rank_sim now) 0 = Some (rank_request ACTIVATE 0)" "requests (rank_sim now) (Suc 0) = Some (rank_request ACTIVATE 1)"
  "requests (rank_sim now) 2 = Some (rank_request REFRESH 1)"
  by (simp_all add: rank_sim_def store_ok_def)

lemma StandardRank_new_lengths:
  "length (sbg_nextRead (StandardRank_new oid g)) = 16" "length (sbg_nextWrite (StandardRank_new oid g)) = 16"
  "length (sbg_nextActivate (StandardRank_new oid g)) = 16"
  by (simp_all add: StandardRank_new_def)

lemma SetConfig_wf:
  assumes "StandardRank_SetConfig p hasRAW children dec mk (StandardRank_new oid g) = Some k"
  shows "rank_wf k"
proof -
  have "post (StandardRank_SetConfig p hasRAW children dec mk (StandardRank_new oid g)) rank_wf"
    unfolding StandardRank_SetConfig_def
    by (intro nvm_post; hypsubst_thin; simp (no_asm_use) add: rank_wf_def StandardRank_new_lengths word_le_nat_alt word_gt_0 split: if_splits;
      simp add: StandardRank_new_def word_gt_0)
  then show ?thesis using assms by (rule postD)
qed

lemma sample_rank_config:
  "StandardRank_SetConfig rank_params True True AddressTranslator_new (\<lambda>_. sample_bank DDR3BANK_CLOSED)
     (StandardRank_new 9 undefined) = Some sample_rank"
  by (simp add: sample_rank_def StandardRank_SetConfig_def cpp_assert_def Let_def)

lemma sample_rank_wf: "rank_wf sample_rank"
  using SetConfig_wf [OF sample_rank_config] .

lemma sample_rank_fields [simp]:
  "rk_children sample_rank = [sample_bank DDR3BANK_CLOSED, sample_bank DDR3BANK_CLOSED]" "bankgroupNum sample_rank = 2"
  "rawNum sample_rank = 1" "RAWindex sample_rank = 0" "rk_lastActivate sample_rank = [0]" "bankCount sample_rank = 2"
  "dbg_nextActivate sample_rank = 1" "rk_state sample_rank = STANDARDRANK_CLOSED" "banksPerRefresh sample_rank = 1"
  "defaultField (rk_decoder sample_rank) = BANK_FIELD" "rk_this sample_rank = 9"
  "sbg_nextActivate sample_rank ! 0 = 1" "sbg_nextActivate sample_rank ! Suc 0 = 1" "length (sbg_nextActivate sample_rank) = 16"
  by (simp_all add: sample_rank_def StandardRank_SetConfig_def cpp_assert_def Let_def StandardRank_new_def upt_rec nth_append)

lemma sample_bank_takes_rank: "bank_takes rank_params rp (rank_request ACTIVATE b) (sample_bank DDR3BANK_CLOSED) (rank_sim now)"
  if "requests (rank_sim now) rp = Some (rank_request ACTIVATE b)" "rp < 3"
proof -
  have "plain_config rank_params sample_array"
    by (simp add: plain_config_def rank_params_def sample_array_def SubArray_new_def)
  then show ?thesis
    using that by (simp add: bank_takes_def child_takes_def rank_request_fits ready_def addressed_def bank_ready_def
        bank_slot_of_def sample_bank_open_inv)
qed

text \<open>Two activations of different banks, at cycles 30 and 60.\<close>

lemma sample_rank_activations:
  "\<exists>k1 s1 k2 s2. Rank_IssueCommand rank_params 0 (sample_rank, rank_sim 30) = Some (True, k1, s1) \<and> GetCurrentCycle s1 = 30
    \<and> bankgroupNum k1 = 2 \<and> Rank_IssueCommand rank_params 1 (k1, rank_sim 60) = Some (True, k2, s2)"
proof -
  let ?p = rank_params and ?r0 = "rank_request ACTIVATE 0" and ?r1 = "rank_request ACTIVATE 1"
  have "rank_ready ?p ?r0 sample_rank 30" by (simp add: rank_ready_def opens_row_def group_of_def)
  then obtain b1 s1 where a: "Bank_IssueCommand ?p 0 (sample_bank DDR3BANK_CLOSED, rank_sim 30) = Some (True, b1, s1)"
    "Rank_IssueCommand ?p 0 (sample_rank, rank_sim 30) = Some (True, after_activate ?p ?r0 30 b1 sample_rank, s1)"
    using rank_activate_result [of sample_rank "rank_sim 30" 0 ?r0 ?p] sample_rank_wf sample_bank_takes_rank [of 30 0 0]
    by auto
  let ?k1 = "after_activate ?p ?r0 30 b1 sample_rank"
  have eff: "rank_effect ?p ?r0 (sample_rank, rank_sim 30) (True, ?k1, s1)"
    by (rule Rank_IssueCommand_effect(1) [OF _ _ a(2)]) simp_all
  then have wf: "rank_wf ?k1" "GetCurrentCycle s1 = 30" using sample_rank_wf by (simp_all add: rank_effect_def ring_effect_def)
  have f: "bankgroupNum ?k1 = 2" "rawNum ?k1 = 1" "RAWindex ?k1 = 0" "rk_lastActivate ?k1 = [30]" "bankCount ?k1 = 2"
    "rk_children ?k1 = [b1, sample_bank DDR3BANK_CLOSED]" "defaultField (rk_decoder ?k1) = BANK_FIELD" "dbg_nextActivate ?k1 = 35"
    "sbg_nextActivate ?k1 ! Suc 0 = 1"
    by (simp_all add: after_activate_def record_activation_def ring_next_def raise_at_def group_of_def)
  have "rank_ready ?p ?r1 ?k1 60" using f by (simp add: rank_ready_def opens_row_def group_of_def)
  then have "\<exists>k2 s2. Rank_IssueCommand ?p 1 (?k1, rank_sim 60) = Some (True, k2, s2)"
    using rank_activate_result [of ?k1 "rank_sim 60" 1 ?r1 ?p] wf(1) f sample_bank_takes_rank [of 60 1 1] by auto
  then show ?thesis using a(2) wf(2) f(1) by blast
qed

section \<open>Properties\<close>



text \<open>C1 (activation_window). The row activation window: in every run, an activation or refresh comes at
  least \<^verbatim>\<open>tRAW\<close> cycles after the activation that is \<^verbatim>\<open>rawNum\<close> before it, so that no more than
  \<^verbatim>\<open>rawNum\<close> activations fall into a window of that length.\<close>

theorem activation_window:
  assumes "rank_trace p (k, s) ts (k', s')" "rank_wf k" "j + unat (rawNum k) < length ts"
  shows "ts ! j + tRAW p \<le> ts ! (j + unat (rawNum k))"
proof -
  have a: "admits (tRAW p) (window k) ts" using rank_trace_keeps [OF assms(1)] assms(2) by (simp add: rank_keeps_def)
  have w: "length (window k) = unat (rawNum k)" "window k \<noteq> []"
    using window_oldest(2) [OF assms(2)] assms(2) by (auto simp: rank_wf_def unat_eq_0)
  show ?thesis using admits_nth [OF a w(2) assms(3)] w(1) by (simp add: nth_append)
qed

lemma sample_rank_trace: "\<exists>k s. rank_trace rank_params (sample_rank, rank_sim 30) [30, 60] (k, s)"
proof -
  obtain k1 s1 k2 s2 where a: "Rank_IssueCommand rank_params 0 (sample_rank, rank_sim 30) = Some (True, k1, s1)"
    "GetCurrentCycle s1 = 30" "Rank_IssueCommand rank_params 1 (k1, rank_sim 60) = Some (True, k2, s2)"
    using sample_rank_activations by blast
  have "rank_trace rank_params (sample_rank, rank_sim 30) ([] @ [30]) (k1, s1)"
    using rank_issue [OF _ _ a(1), of "rank_request ACTIVATE 0"] by (intro trace_snoc [OF trace_nil]) (simp add: opens_row_def)
  then have "rank_trace rank_params (sample_rank, rank_sim 30) (([] @ [30]) @ []) (k1, rank_sim 60)"
    by (rule trace_snoc) (intro rank_elapse, simp add: a(2))
  then have "rank_trace rank_params (sample_rank, rank_sim 30) ((([] @ [30]) @ []) @ [60]) (k2, s2)"
    by (rule trace_snoc) (use rank_issue [OF _ _ a(3), of "rank_request ACTIVATE 1"] in \<open>simp add: opens_row_def\<close>)
  then show ?thesis by auto
qed

theorem activation_window_witness:
  "\<exists>k s. rank_trace rank_params (sample_rank, rank_sim 30) [30, 60] (k, s)
    \<and> [30, 60] ! 0 + tRAW rank_params \<le> [30, 60 :: ncycle_t] ! 1"
proof -
  obtain k s where t: "rank_trace rank_params (sample_rank, rank_sim 30) [30, 60] (k, s)" using sample_rank_trace by blast
  from activation_window [OF t sample_rank_wf, of 0] t show ?thesis by auto
qed



text \<open>C34 (rank_shape). The arrays and the ring of a configured rank have and keep their shape: sixteen entries
  per array, no more groups than entries, a ring of \<^verbatim>\<open>rawNum\<close> entries with an index inside it.\<close>

theorem rank_shape:
  assumes "StandardRank_SetConfig p hasRAW children dec mk (StandardRank_new oid g) = Some k" "rank_trace p' (k, s) ts (k', s')"
  shows "rank_wf k'"
  using rank_trace_keeps [OF assms(2)] SetConfig_wf [OF assms(1)] by (simp add: rank_keeps_def)

theorem rank_shape_witness:
  "\<exists>k s. rank_trace rank_params (sample_rank, rank_sim 30) [30, 60] (k, s) \<and> rank_wf k"
  using rank_shape [OF sample_rank_config] sample_rank_trace by blast


end
