(* ===== verification/Rank_Bus.thy ===== *)
theory Rank_Bus
  imports Standard_Rank_Safety
begin

text \<open>
  \<^verbatim>\<open>src/NVmain/Interconnect/OffChipBus/OffChipBus.cpp\<close> and \<^verbatim>\<open>OnChipBus/OnChipBus.cpp\<close>: the
  interconnect between a memory controller and the ranks of its channel. The two classes have the same
  code, line for line, but for the response, which the off-chip bus delays; \<open>offChipDelay\<close> is absent
  for the on-chip bus. The bus selects the rank with its decoder and tells the other ranks about every
  command it has sent, so that they keep the time that switching the data bus between ranks takes.
\<close>

section \<open>State\<close>

record RankBus =
  bus_this :: obj_id
  bus_parent :: obj_id
  bus_children :: "StandardRank list"
  bus_decoder :: AddressTranslator
  numRanks :: ncounter_t
  offChipDelay :: "ncycle_t option"

text \<open>\<^verbatim>\<open>SetConfig\<close>: \<open>dec\<close> is the decoder of the factory with the parent's translation method, \<open>mk i\<close>
  the \<open>i\<close>-th rank after its own configuration.\<close>

definition RankBus_SetConfig ::
  "Params \<Rightarrow> bool \<Rightarrow> AddressTranslator \<Rightarrow> (nat \<Rightarrow> StandardRank) \<Rightarrow> RankBus \<Rightarrow> RankBus" where
  "RankBus_SetConfig p createChildren dec mk u =
     (let u = u\<lparr>offChipDelay := map_option (\<lambda>_. OffChipLatency p) (offChipDelay u), numRanks := RANKS p\<rparr>
      in if createChildren
         then u\<lparr>bus_decoder := SetDefaultField RANK_FIELD dec,
                bus_children := bus_children u @ map mk [0..<unat (numRanks u)]\<rparr>
         else u)"

section \<open>Commands\<close>

definition Bus_IsIssuable ::
  "Params \<Rightarrow> NVMainRequest \<Rightarrow> RankBus \<Rightarrow> sim \<Rightarrow> (bool \<times> FailReasons option \<times> RankBus) option" where
  "Bus_IsIssuable p r u s = do {
     (i, dec) \<leftarrow> GetChild_req r (bus_decoder u) (bus_children u);
     (ok, why, k) \<leftarrow> Rank_IsIssuable p r (bus_children u ! i) s;
     Some (ok, why, u\<lparr>bus_decoder := dec, bus_children := (bus_children u)[i := k]\<rparr>)
   }"

definition bus_forward :: "Params \<Rightarrow> req_ptr \<Rightarrow> RankBus \<times> sim \<Rightarrow> (bool \<times> RankBus \<times> sim) option" where
  "bus_forward p rp st = (case st of (u, s) \<Rightarrow> do {
     r \<leftarrow> requests s rp;
     (i, dec) \<leftarrow> GetChild_req r (bus_decoder u) (bus_children u);
     (ok, k, s) \<leftarrow> Rank_IssueCommand p rp (bus_children u ! i, s);
     Some (ok, u\<lparr>bus_decoder := dec, bus_children := (bus_children u)[i := k]\<rparr>, s)
   })"

text \<open>Every rank but the one that the request goes to is told about it.\<close>

fun notify_others :: "Params \<Rightarrow> req_ptr \<Rightarrow> sim \<Rightarrow> ncounter_t list \<Rightarrow> RankBus \<Rightarrow> RankBus option" where
  "notify_others p rp s [] u = Some u"
| "notify_others p rp s (c # cs) u = do {
     r \<leftarrow> requests s rp;
     (i, dec) \<leftarrow> GetChild_req r (bus_decoder u) (bus_children u);
     j \<leftarrow> GetChild_idx c (bus_children u);
     notify_others p rp s cs (u\<lparr>bus_decoder := dec, bus_children := (if i \<noteq> j
       then (bus_children u)[j := Rank_Notify p (rtype r) s (bus_children u ! j)] else bus_children u)\<rparr>)
   }"

definition Bus_IssueCommand :: "Params \<Rightarrow> req_ptr \<Rightarrow> RankBus \<times> sim \<Rightarrow> (bool \<times> RankBus \<times> sim) option" where
  "Bus_IssueCommand p rp st = (case st of (u, s) \<Rightarrow> do {
     r \<leftarrow> requests s rp;
     (ok, _, u) \<leftarrow> Bus_IsIssuable p r u s;
     cpp_assert ok;
     (success, u, s) \<leftarrow> bus_forward p rp (u, s);
     u \<leftarrow> (if success then notify_others p rp s (all_children (bus_children u)) u else Some u);
     Some (success, u, s)
   })"

text \<open>\<^verbatim>\<open>NVMObject::NextIssuable\<close>: the bus has no constraints of its own.\<close>

definition Bus_NextIssuable :: "Params \<Rightarrow> NVMainRequest \<Rightarrow> RankBus \<Rightarrow> (ncycle_t \<times> RankBus) option" where
  "Bus_NextIssuable p r u = do {
     (i, dec) \<leftarrow> GetChild_req r (bus_decoder u) (bus_children u);
     (t, k) \<leftarrow> Rank_NextIssuable p r (bus_children u ! i);
     Some (t, u\<lparr>bus_decoder := dec, bus_children := (bus_children u)[i := k]\<rparr>)
   }"

text \<open>The result tells whether the request goes on to the parent at once.\<close>

definition Bus_RequestComplete :: "req_ptr \<Rightarrow> RankBus \<times> sim \<Rightarrow> (bool \<times> RankBus \<times> sim) option" where
  "Bus_RequestComplete rp st = (case st of (u, s) \<Rightarrow>
     (case offChipDelay u of
        Some d \<Rightarrow> do {
          s \<leftarrow> insert_response (bus_parent u) rp (GetCurrentCycle s + d) s;
          Some (False, u, s)
        }
      | None \<Rightarrow> do { (up, s) \<leftarrow> NVMObject_RequestComplete (bus_this u) rp s; Some (up, u, s) }))"

text \<open>The response of sub-array \<open>l\<close> of bank \<open>j\<close> of rank \<open>i\<close>, and a response to the rank itself.\<close>

definition bus_child_complete ::
  "Params \<Rightarrow> nat \<Rightarrow> nat \<Rightarrow> nat \<Rightarrow> req_ptr \<Rightarrow> RankBus \<times> sim \<Rightarrow> (bool \<times> RankBus \<times> sim) option" where
  "bus_child_complete p i j l rp st = (case st of (u, s) \<Rightarrow> do {
     (up, k, s) \<leftarrow> rank_child_complete p j l rp (bus_children u ! i, s);
     let u = u\<lparr>bus_children := (bus_children u)[i := k]\<rparr>;
     if up then Bus_RequestComplete rp (u, s) else Some (False, u, s)
   })"

definition bus_rank_complete ::
  "nat \<Rightarrow> req_ptr \<Rightarrow> RankBus \<times> sim \<Rightarrow> (bool \<times> RankBus \<times> sim) option" where
  "bus_rank_complete i rp st = (case st of (u, s) \<Rightarrow> do {
     (up, k, s) \<leftarrow> Rank_RequestComplete rp (bus_children u ! i, s);
     let u = u\<lparr>bus_children := (bus_children u)[i := k]\<rparr>;
     if up then Bus_RequestComplete rp (u, s) else Some (False, u, s)
   })"

definition Bus_Cycle :: "Params \<Rightarrow> ncycle_t \<Rightarrow> RankBus \<Rightarrow> RankBus" where
  "Bus_Cycle p steps u = u\<lparr>bus_children := map (Rank_Cycle p steps) (bus_children u)\<rparr>"

fun ranks_stats :: "Params \<Rightarrow> sim \<Rightarrow> StandardRank list \<Rightarrow> StandardRank list option" where
  "ranks_stats p s [] = Some []"
| "ranks_stats p s (k # ks) = do {
     k \<leftarrow> Rank_CalculateStats p s k;
     ks \<leftarrow> ranks_stats p s ks;
     Some (k # ks)
   }"

definition Bus_CalculateStats :: "Params \<Rightarrow> sim \<Rightarrow> RankBus \<Rightarrow> RankBus option" where
  "Bus_CalculateStats p s u = do {
     ks \<leftarrow> ranks_stats p s (bus_children u);
     Some (u\<lparr>bus_children := ks\<rparr>)
   }"

end
