(* ===== verification/Memory_Controller.thy ===== *)
theory Memory_Controller
  imports Rank_Bus
begin

text \<open>
  \<^verbatim>\<open>src/NVmain/src/MemoryController.cpp\<close>: the queues, the row bookkeeping and the refresh logic that all
  memory controllers inherit. Transactions wait in transaction queues; a scheduler picks one and
  \<^verbatim>\<open>IssueMemoryCommands\<close> turns it into commands at the end of a command queue; \<^verbatim>\<open>CycleCommandQueues\<close>
  sends the heads of the command queues to the interconnect.

  The parallel arrays of the code that are indexed by rank and bank, or by rank, bank and sub-array,
  are one array of records here; a queue holds the addresses of its requests. The number of queues is
  the length of the list of queues. Reading an array past its end, dividing by zero, a failed
  assertion, the use of a deleted request and the exit of the deadlock timer are \<open>None\<close>.
\<close>

section \<open>State\<close>

datatype QueueModel = PerRankQueues | PerBankQueues | PerSubArrayQueues

abbreviation transactionQueuePriority :: int where "transactionQueuePriority \<equiv> 30"
abbreviation commandQueuePriority :: int where "commandQueuePriority \<equiv> 40"
abbreviation refreshPriority :: int where "refreshPriority \<equiv> 20"
abbreviation cleanupPriority :: int where "cleanupPriority \<equiv> - 10"

text \<open>The callbacks of the controller, by number.\<close>

abbreviation (input) cb_CommandQueue :: nat where "cb_CommandQueue \<equiv> 0"
abbreviation (input) cb_Cleanup :: nat where "cb_Cleanup \<equiv> 1"
abbreviation (input) cb_Refresh :: nat where "cb_Refresh \<equiv> 2"

record SubCtl =
  activeSubArray :: bool
  effectiveRow :: ncounter_t
  effectiveMuxedRow :: ncounter_t
  starvationCounter :: ncounter_t

record BankCtl =
  activateQueued :: bool
  refreshQueued :: bool
  bankNeedRefresh :: bool
  subs :: "SubCtl list"

record MemoryController =
  mc_this :: obj_id
  mc_child :: RankBus
  mc_decoder :: AddressTranslator
  mc_id :: ncounter_t
  lastCommandWake :: ncycle_t
  wakeupCount :: ncounter_t
  lastIssueCycle :: ncycle_t
  transactionQueues :: "req_ptr list list"
  commandQueues :: "req_ptr list list"
  queueModel :: QueueModel
  bankCtl :: "BankCtl list list"
  starvationThreshold :: ncounter_t
  mc_subArrayNum :: ncounter_t
  rankPowerDown :: "bool list"
  curQueue :: ncounter_t
  delayedRefreshCounter :: "ncounter_t list list"
  m_tREFI :: ncycle_t
  m_refreshBankNum :: ncounter_t
  handledRefresh :: ncycle_t
  nextRefreshRank :: ncounter_t
  nextRefreshBank :: ncounter_t
  simulation_cycles :: ncounter_t

type_synonym mcs = "MemoryController \<times> sim"

text \<open>The constructor on memory \<open>g\<close>.\<close>

definition MemoryController_new :: "obj_id \<Rightarrow> MemoryController \<Rightarrow> MemoryController" where
  "MemoryController_new oid g = g\<lparr>mc_this := oid, transactionQueues := [], commandQueues := [],
     lastCommandWake := 0, wakeupCount := 0, lastIssueCycle := 0, starvationThreshold := 4, mc_subArrayNum := 1,
     bankCtl := [], delayedRefreshCounter := [], curQueue := 0, nextRefreshRank := 0, nextRefreshBank := 0,
     handledRefresh := max_cycle\<rparr>"

definition InitQueues :: "nat \<Rightarrow> MemoryController \<Rightarrow> MemoryController" where
  "InitQueues numQueues mc = mc\<lparr>transactionQueues := replicate numQueues []\<rparr>"

definition MC_SetID :: "u32 \<Rightarrow> MemoryController \<Rightarrow> MemoryController" where
  "MC_SetID i mc = mc\<lparr>mc_id := ucast i\<rparr>"

section \<open>Array access\<close>

definition bank_ctl :: "ncounter_t \<Rightarrow> ncounter_t \<Rightarrow> MemoryController \<Rightarrow> BankCtl option" where
  "bank_ctl rk bk mc =
     (if unat rk < length (bankCtl mc) \<and> unat bk < length (bankCtl mc ! unat rk)
      then Some (bankCtl mc ! unat rk ! unat bk) else None)"

definition put_bank :: "ncounter_t \<Rightarrow> ncounter_t \<Rightarrow> BankCtl \<Rightarrow> MemoryController \<Rightarrow> MemoryController" where
  "put_bank rk bk c mc = mc\<lparr>bankCtl := (bankCtl mc)[unat rk := (bankCtl mc ! unat rk)[unat bk := c]]\<rparr>"

definition sub_ctl :: "ncounter_t \<Rightarrow> BankCtl \<Rightarrow> SubCtl option" where
  "sub_ctl sa c = (if unat sa < length (subs c) then Some (subs c ! unat sa) else None)"

definition put_sub :: "ncounter_t \<Rightarrow> SubCtl \<Rightarrow> BankCtl \<Rightarrow> BankCtl" where
  "put_sub sa x c = c\<lparr>subs := (subs c)[unat sa := x]\<rparr>"

definition push_command :: "ncounter_t \<Rightarrow> req_ptr \<Rightarrow> MemoryController \<Rightarrow> MemoryController" where
  "push_command q rp mc = mc\<lparr>commandQueues := (commandQueues mc)[unat q := commandQueues mc ! unat q @ [rp]]\<rparr>"

section \<open>Queues\<close>

definition WasIssued :: "NVMainRequest \<Rightarrow> bool" where
  "WasIssued r = has_flag r FLAG_ISSUED"

text \<open>With per-bank queues only the schemes 1 and 2 give a queue.\<close>

definition GetCommandQueueId :: "Params \<Rightarrow> NVMAddress \<Rightarrow> MemoryController \<Rightarrow> ncounter_t option" where
  "GetCommandQueueId p a mc = do {
     let queueId = (case queueModel mc of
           PerRankQueues \<Rightarrow> rank a
         | PerBankQueues \<Rightarrow>
             if ScheduleScheme p = 1 then bank a * RANKS p + rank a
             else if ScheduleScheme p = 2 then rank a * BANKS p + bank a
             else - 1
         | PerSubArrayQueues \<Rightarrow> rank a * BANKS p * mc_subArrayNum mc + bank a * mc_subArrayNum mc + subarray a);
     cpp_assert (unat queueId < length (commandQueues mc));
     Some queueId
   }"

definition bank_queue :: "Params \<Rightarrow> ncounter_t \<Rightarrow> ncounter_t \<Rightarrow> MemoryController \<Rightarrow> ncounter_t option" where
  "bank_queue p rk bk mc = GetCommandQueueId p (NVMAddress_of zero_address 0 0 bk rk 0 0) mc"

definition EffectivelyEmpty :: "nat \<Rightarrow> MemoryController \<Rightarrow> sim \<Rightarrow> bool option" where
  "EffectivelyEmpty q mc s = do {
     cpp_assert (q < length (commandQueues mc));
     case commandQueues mc ! q of
       [] \<Rightarrow> Some True
     | [rp] \<Rightarrow> do { r \<leftarrow> requests s rp; Some (WasIssued r) }
     | _ \<Rightarrow> Some False
   }"

fun queue_wants :: "Params \<Rightarrow> nat \<Rightarrow> MemoryController \<Rightarrow> sim \<Rightarrow> req_ptr list \<Rightarrow> bool option" where
  "queue_wants p q mc s [] = Some False"
| "queue_wants p q mc s (rp # rps) = do {
     r \<leftarrow> requests s rp;
     i \<leftarrow> GetCommandQueueId p (address r) mc;
     if unat i = q then Some True else queue_wants p q mc s rps
   }"

text \<open>The break leaves the inner loop only: every transaction queue is searched.\<close>

fun queues_want :: "Params \<Rightarrow> nat \<Rightarrow> MemoryController \<Rightarrow> sim \<Rightarrow> req_ptr list list \<Rightarrow> bool option" where
  "queues_want p q mc s [] = Some False"
| "queues_want p q mc s (l # ls) = do {
     b \<leftarrow> queue_wants p q mc s l;
     b' \<leftarrow> queues_want p q mc s ls;
     Some (b \<or> b')
   }"

definition TransactionAvailable :: "Params \<Rightarrow> nat \<Rightarrow> MemoryController \<Rightarrow> sim \<Rightarrow> bool option" where
  "TransactionAvailable p q mc s = queues_want p q mc s (transactionQueues mc)"

definition insert_cycle :: "obj_id \<Rightarrow> ncycle_t \<Rightarrow> sim \<Rightarrow> sim option" where
  "insert_cycle me due s = do {
     q \<leftarrow> InsertEvent EventCycle me None due None transactionQueuePriority (eventQueue s);
     Some (s\<lparr>eventQueue := q\<rparr>)
   }"

definition insert_callback :: "obj_id \<Rightarrow> nat \<Rightarrow> ncycle_t \<Rightarrow> nat option \<Rightarrow> int \<Rightarrow> sim \<Rightarrow> sim option" where
  "insert_callback me cb due d pr s = do {
     q \<leftarrow> InsertCallback me cb due d pr (eventQueue s);
     Some (s\<lparr>eventQueue := q\<rparr>)
   }"

definition Prequeue :: "nat \<Rightarrow> req_ptr \<Rightarrow> MemoryController \<Rightarrow> MemoryController option" where
  "Prequeue q rp mc = do {
     cpp_assert (q < length (transactionQueues mc));
     Some (mc\<lparr>transactionQueues := (transactionQueues mc)[q := rp # transactionQueues mc ! q]\<rparr>)
   }"

text \<open>The request is translated anew for this channel; the channel stays what it was. Without a
  translation method the six local variables are not set.\<close>

definition retranslate :: "NVMainRequest \<Rightarrow> AddressTranslator \<Rightarrow> (NVMainRequest \<times> AddressTranslator) option" where
  "retranslate r dec = do {
     (f, dec) \<leftarrow> TranslateAll (physicalAddress (address r)) (\<lambda>_. 0) dec;
     Some (r\<lparr>address := SetTranslatedAddress (f MEM_ROW) (f MEM_COL) (f MEM_BANK) (f MEM_RANK)
             (channel (address r)) (f MEM_SUBARRAY) (address r)\<rparr>, dec)
   }"

definition Enqueue :: "Params \<Rightarrow> nat \<Rightarrow> req_ptr \<Rightarrow> mcs \<Rightarrow> mcs option" where
  "Enqueue p queueNum rp st = (case st of (mc, s) \<Rightarrow> do {
     r \<leftarrow> requests s rp;
     (r, dec) \<leftarrow> retranslate r (mc_decoder mc);
     let s = put_request rp r s;
     cpp_assert (queueNum < length (transactionQueues mc));
     let mc = mc\<lparr>mc_decoder := dec,
               transactionQueues := (transactionQueues mc)[queueNum := transactionQueues mc ! queueNum @ [rp]]\<rparr>;
     queueId \<leftarrow> GetCommandQueueId p (address r) mc;
     free \<leftarrow> EffectivelyEmpty (unat queueId) mc s;
     if free then do {
       ev \<leftarrow> FindEvent EventCycle (mc_this mc) None (GetCurrentCycle s) (eventQueue s);
       s \<leftarrow> (if ev = None then insert_cycle (mc_this mc) (GetCurrentCycle s) s else Some s);
       Some (mc, s)
     }
     else Some (mc, s)
   })"

section \<open>Making requests\<close>

text \<open>A new request at a fresh address, with the assignments \<open>f\<close> that follow its constructor.\<close>

definition new_request :: "(NVMainRequest \<Rightarrow> NVMainRequest) \<Rightarrow> sim \<Rightarrow> req_ptr \<times> sim" where
  "new_request f s = (nextReq s, (put_request (nextReq s) (f NVMainRequest_new) s)\<lparr>nextReq := Suc (nextReq s)\<rparr>)"

text \<open>The assignments of the functions that take the fields of an address, which they also encode.\<close>

definition make_at ::
  "OpType \<Rightarrow> ncounter_t \<Rightarrow> ncounter_t \<Rightarrow> ncounter_t \<Rightarrow> ncounter_t \<Rightarrow> ncounter_t \<Rightarrow> mcs \<Rightarrow> (req_ptr \<times> mcs) option" where
  "make_at ty rw cl bk rk sa st = (case st of (mc, s) \<Rightarrow> do {
     (addr, dec) \<leftarrow> ReverseTranslate (parts_of (rw, cl, bk, rk, mc_id mc, sa)) (mc_decoder mc);
     let (rp, s) = new_request (\<lambda>r. r\<lparr>rtype := ty,
           address := SetTranslatedAddress rw cl bk rk (mc_id mc) sa (SetPhysicalAddress addr (address r)),
           issueCycle := GetCurrentCycle s, owner := Some (mc_this mc)\<rparr>) s;
     Some (rp, mc\<lparr>mc_decoder := dec\<rparr>, s)
   })"

text \<open>The assignments of the functions that take the address of the triggering request.\<close>

definition make_for :: "OpType \<Rightarrow> u64 \<Rightarrow> NVMainRequest \<Rightarrow> mcs \<Rightarrow> req_ptr \<times> mcs" where
  "make_for ty fl trigger st = (case st of (mc, s) \<Rightarrow>
     let (rp, s) = new_request (\<lambda>r. r\<lparr>rtype := ty, issueCycle := GetCurrentCycle s,
           address := NVMAddress_assign (address trigger) (address r), owner := Some (mc_this mc), flags := flags r OR fl\<rparr>) s
     in (rp, mc, s))"

definition MakeActivateRequest :: "u64 \<Rightarrow> NVMainRequest \<Rightarrow> mcs \<Rightarrow> req_ptr \<times> mcs" where
  "MakeActivateRequest = make_for ACTIVATE"

definition MakeActivateRequest_at ::
  "ncounter_t \<Rightarrow> ncounter_t \<Rightarrow> ncounter_t \<Rightarrow> ncounter_t \<Rightarrow> ncounter_t \<Rightarrow> mcs \<Rightarrow> (req_ptr \<times> mcs) option" where
  "MakeActivateRequest_at = make_at ACTIVATE"

definition MakePrechargeRequest_for :: "NVMainRequest \<Rightarrow> mcs \<Rightarrow> req_ptr \<times> mcs" where
  "MakePrechargeRequest_for = make_for PRECHARGE 0"

definition MakePrechargeRequest ::
  "ncounter_t \<Rightarrow> ncounter_t \<Rightarrow> ncounter_t \<Rightarrow> ncounter_t \<Rightarrow> ncounter_t \<Rightarrow> mcs \<Rightarrow> (req_ptr \<times> mcs) option" where
  "MakePrechargeRequest = make_at PRECHARGE"

definition MakePrechargeAllRequest_for :: "NVMainRequest \<Rightarrow> mcs \<Rightarrow> req_ptr \<times> mcs" where
  "MakePrechargeAllRequest_for = make_for PRECHARGE_ALL 0"

definition MakePrechargeAllRequest ::
  "ncounter_t \<Rightarrow> ncounter_t \<Rightarrow> ncounter_t \<Rightarrow> ncounter_t \<Rightarrow> ncounter_t \<Rightarrow> mcs \<Rightarrow> (req_ptr \<times> mcs) option" where
  "MakePrechargeAllRequest = make_at PRECHARGE_ALL"

definition MakeRefreshRequest ::
  "ncounter_t \<Rightarrow> ncounter_t \<Rightarrow> ncounter_t \<Rightarrow> ncounter_t \<Rightarrow> ncounter_t \<Rightarrow> mcs \<Rightarrow> (req_ptr \<times> mcs) option" where
  "MakeRefreshRequest = make_at REFRESH"

definition MakePowerdownRequest :: "OpType \<Rightarrow> ncounter_t \<Rightarrow> mcs \<Rightarrow> (req_ptr \<times> mcs) option" where
  "MakePowerdownRequest pdOp rk = make_at pdOp 0 0 0 rk 0"

definition MakePowerupRequest :: "ncounter_t \<Rightarrow> mcs \<Rightarrow> (req_ptr \<times> mcs) option" where
  "MakePowerupRequest rk = make_at POWERUP 0 0 0 rk 0"

text \<open>The request that asks whether a transaction can be served from a cache; it does not outlive the
  question, so that only its value matters.\<close>

definition MakeCachedRequest :: "NVMainRequest \<Rightarrow> obj_id \<Rightarrow> NVMainRequest option" where
  "MakeCachedRequest trigger me = do {
     cpp_assert (rtype trigger = READ \<or> rtype trigger = WRITE);
     c \<leftarrow> NVMainRequest_assign (\<lambda>_. 0) trigger NVMainRequest_new;
     Some (c\<lparr>rtype := (if rtype trigger = READ then CACHED_READ else CACHED_WRITE), owner := Some me\<rparr>)
   }"

definition implicit_precharge :: "ncycle_t \<Rightarrow> NVMainRequest \<Rightarrow> NVMainRequest" where
  "implicit_precharge now r =
     r\<lparr>rtype := (if rtype r = READ then READ_PRECHARGE else if rtype r = WRITE then WRITE_PRECHARGE else rtype r),
       issueCycle := now\<rparr>"

section \<open>Refresh bookkeeping\<close>

text \<open>The refresh group of a bank.\<close>

definition refresh_slot :: "Params \<Rightarrow> ncounter_t \<Rightarrow> ncounter_t \<Rightarrow> MemoryController \<Rightarrow> nat option" where
  "refresh_slot p bk rk mc = do {
     cpp_assert (BanksPerRefresh p \<noteq> 0);
     cpp_assert (unat rk < length (delayedRefreshCounter mc)
       \<and> unat (bk div BanksPerRefresh p) < length (delayedRefreshCounter mc ! unat rk));
     Some (unat (bk div BanksPerRefresh p))
   }"

definition NeedRefresh :: "Params \<Rightarrow> ncounter_t \<Rightarrow> ncounter_t \<Rightarrow> MemoryController \<Rightarrow> bool option" where
  "NeedRefresh p bk rk mc =
     (if UseRefresh p then do {
        g \<leftarrow> refresh_slot p bk rk mc;
        Some (DelayedRefreshThreshold p \<le> delayedRefreshCounter mc ! unat rk ! g)
      }
      else Some False)"

definition add_refresh :: "Params \<Rightarrow> ncounter_t \<Rightarrow> ncounter_t \<Rightarrow> ncounter_t \<Rightarrow> MemoryController \<Rightarrow> MemoryController option" where
  "add_refresh p n bk rk mc = do {
     g \<leftarrow> refresh_slot p bk rk mc;
     Some (mc\<lparr>delayedRefreshCounter := (delayedRefreshCounter mc)[unat rk :=
       (delayedRefreshCounter mc ! unat rk)[g := delayedRefreshCounter mc ! unat rk ! g + n]]\<rparr>)
   }"

definition IncrementRefreshCounter :: "Params \<Rightarrow> ncounter_t \<Rightarrow> ncounter_t \<Rightarrow> MemoryController \<Rightarrow> MemoryController option" where
  "IncrementRefreshCounter p bk rk mc = add_refresh p 1 bk rk mc"

definition DecrementRefreshCounter :: "Params \<Rightarrow> ncounter_t \<Rightarrow> ncounter_t \<Rightarrow> MemoryController \<Rightarrow> MemoryController option" where
  "DecrementRefreshCounter p bk rk mc = add_refresh p (- 1) bk rk mc"

text \<open>A change to each bank of a list, in turn.\<close>

fun change_banks ::
  "(BankCtl \<Rightarrow> BankCtl option) \<Rightarrow> ncounter_t \<Rightarrow> ncounter_t list \<Rightarrow> MemoryController \<Rightarrow> MemoryController option" where
  "change_banks f rk [] mc = Some mc"
| "change_banks f rk (bk # bks) mc = do {
     c \<leftarrow> bank_ctl rk bk mc;
     c \<leftarrow> f c;
     change_banks f rk bks (put_bank rk bk c mc)
   }"

text \<open>The banks of a refresh group, from its head on; the refresh itself counts on modulo the number of banks.\<close>

definition group_banks :: "Params \<Rightarrow> ncounter_t \<Rightarrow> ncounter_t list option" where
  "group_banks p bk = do {
     cpp_assert (BanksPerRefresh p \<noteq> 0);
     let head = bk div BanksPerRefresh p * BanksPerRefresh p;
     Some (map (\<lambda>i. head + word_of_nat i) [0..<unat (BanksPerRefresh p)])
   }"

definition covered_banks :: "Params \<Rightarrow> ncounter_t \<Rightarrow> ncounter_t list" where
  "covered_banks p j = map (\<lambda>i. (word_of_nat i + j) mod BANKS p) [0..<unat (BanksPerRefresh p)]"

definition SetRefresh :: "Params \<Rightarrow> ncounter_t \<Rightarrow> ncounter_t \<Rightarrow> MemoryController \<Rightarrow> MemoryController option" where
  "SetRefresh p bk rk mc = do {
     bs \<leftarrow> group_banks p bk;
     change_banks (\<lambda>c. Some (c\<lparr>bankNeedRefresh := True\<rparr>)) rk bs mc
   }"

definition ResetRefresh :: "Params \<Rightarrow> ncounter_t \<Rightarrow> ncounter_t \<Rightarrow> MemoryController \<Rightarrow> MemoryController option" where
  "ResetRefresh p bk rk mc = do {
     bs \<leftarrow> group_banks p bk;
     change_banks (\<lambda>c. Some (c\<lparr>bankNeedRefresh := False\<rparr>)) rk bs mc
   }"

definition ResetRefreshQueued :: "Params \<Rightarrow> ncounter_t \<Rightarrow> ncounter_t \<Rightarrow> MemoryController \<Rightarrow> MemoryController option" where
  "ResetRefreshQueued p bk rk mc = do {
     bs \<leftarrow> group_banks p bk;
     change_banks (\<lambda>c. do { cpp_assert (refreshQueued c); Some (c\<lparr>refreshQueued := False\<rparr>) }) rk bs mc
   }"

fun queues_empty :: "Params \<Rightarrow> ncounter_t \<Rightarrow> ncounter_t list \<Rightarrow> MemoryController \<Rightarrow> sim \<Rightarrow> bool option" where
  "queues_empty p rk [] mc s = Some True"
| "queues_empty p rk (bk # bks) mc s = do {
     q \<leftarrow> bank_queue p rk bk mc;
     e \<leftarrow> EffectivelyEmpty (unat q) mc s;
     if e then queues_empty p rk bks mc s else Some False
   }"

definition IsRefreshBankQueueEmpty :: "Params \<Rightarrow> ncounter_t \<Rightarrow> ncounter_t \<Rightarrow> MemoryController \<Rightarrow> sim \<Rightarrow> bool option" where
  "IsRefreshBankQueueEmpty p bk rk mc s = do { bs \<leftarrow> group_banks p bk; queues_empty p rk bs mc s }"

section \<open>Refresh and wake-up\<close>

definition close_sub :: "Params \<Rightarrow> SubCtl \<Rightarrow> SubCtl" where
  "close_sub p x = x\<lparr>activeSubArray := False, effectiveRow := ROWS p, effectiveMuxedRow := ROWS p\<rparr>"

definition close_bank :: "Params \<Rightarrow> BankCtl \<Rightarrow> BankCtl" where
  "close_bank p c = c\<lparr>subs := map (close_sub p) (subs c), activateQueued := False\<rparr>"

text \<open>The open banks of the group get a \<^verbatim>\<open>PRECHARGE_ALL\<close>.\<close>

fun precharge_banks :: "Params \<Rightarrow> ncounter_t \<Rightarrow> ncounter_t list \<Rightarrow> mcs \<Rightarrow> mcs option" where
  "precharge_banks p rk [] st = Some st"
| "precharge_banks p rk (bk # bks) st = do {
     q \<leftarrow> bank_queue p rk bk (fst st);
     c \<leftarrow> bank_ctl rk bk (fst st);
     st \<leftarrow> (if activateQueued c then do {
         (rp, mc, s) \<leftarrow> MakePrechargeAllRequest 0 0 bk rk 0 st;
         Some (put_bank rk bk (close_bank p c) (push_command q rp mc), s)
       }
       else Some st);
     precharge_banks p rk bks st
   }"

definition round_robin :: "Params \<Rightarrow> MemoryController \<Rightarrow> MemoryController" where
  "round_robin p mc =
     (let b = nextRefreshBank mc + BanksPerRefresh p; k = nextRefreshRank mc + 1
      in if BANKS p \<le> b then mc\<lparr>nextRefreshBank := 0, nextRefreshRank := (if k = RANKS p then 0 else k)\<rparr>
         else mc\<lparr>nextRefreshBank := b\<rparr>)"

text \<open>The refresh of the group at bank \<open>j\<close> of rank \<open>i\<close>, up to the wake-up.\<close>

definition queue_refresh :: "Params \<Rightarrow> ncounter_t \<Rightarrow> ncounter_t \<Rightarrow> mcs \<Rightarrow> mcs option" where
  "queue_refresh p i j st = do {
     (cmdRefresh, mc, s) \<leftarrow> MakeRefreshRequest 0 0 j i 0 st;
     let bs = covered_banks p j;
     (mc, s) \<leftarrow> (if UsePrecharge p then precharge_banks p i bs (mc, s) else Some (mc, s));
     q \<leftarrow> bank_queue p i j mc;
     r \<leftarrow> requests s cmdRefresh;
     let s = put_request cmdRefresh (r\<lparr>issueCycle := GetCurrentCycle s\<rparr>) s;
     let mc = push_command q cmdRefresh mc;
     mc \<leftarrow> change_banks (\<lambda>c. Some (c\<lparr>refreshQueued := True\<rparr>)) i bs mc;
     mc \<leftarrow> DecrementRefreshCounter p j i mc;
     need \<leftarrow> NeedRefresh p j i mc;
     mc \<leftarrow> (if need then Some mc else ResetRefresh p j i mc);
     Some ((round_robin p mc)\<lparr>handledRefresh := GetCurrentCycle s\<rparr>, s)
   }"

text \<open>\<^verbatim>\<open>HandleRefresh\<close>, given how the controller schedules its next wake-up: the first group, from the one
  whose turn it is, that needs a refresh gets one.\<close>

fun handle_groups :: "Params \<Rightarrow> (mcs \<Rightarrow> mcs option) \<Rightarrow> (nat \<times> nat) list \<Rightarrow> mcs \<Rightarrow> (bool \<times> mcs) option" where
  "handle_groups p wake [] st = Some (False, st)"
| "handle_groups p wake ((rankIdx, bankIdx) # gs) st = do {
     let i = (nextRefreshRank (fst st) + word_of_nat rankIdx) mod RANKS p;
     cpp_assert (BANKS p \<noteq> 0);
     let j = (nextRefreshBank (fst st) + word_of_nat bankIdx * BanksPerRefresh p) mod BANKS p;
     need \<leftarrow> NeedRefresh p j i (fst st);
     if need then do {
       st \<leftarrow> queue_refresh p i j st;
       st \<leftarrow> wake st;
       Some (True, st)
     }
     else handle_groups p wake gs st
   }"

definition HandleRefresh_with :: "Params \<Rightarrow> (mcs \<Rightarrow> mcs option) \<Rightarrow> mcs \<Rightarrow> (bool \<times> mcs) option" where
  "HandleRefresh_with p wake st = handle_groups p wake
     (List.product [0..<unat (RANKS p)] [0..<unat (m_refreshBankNum (fst st))]) st"

definition ScheduleCommandWake_with :: "(mcs \<Rightarrow> (ncycle_t \<times> mcs) option) \<Rightarrow> mcs \<Rightarrow> mcs option" where
  "ScheduleCommandWake_with next st = do {
     (nextWakeup, mc, s) \<leftarrow> next st;
     ev \<leftarrow> FindCallback (mc_this mc) cb_CommandQueue nextWakeup None commandQueuePriority (eventQueue s);
     s \<leftarrow> (if ev = None then insert_callback (mc_this mc) cb_CommandQueue nextWakeup None commandQueuePriority s else Some s);
     Some (mc, s)
   }"

text \<open>The body of the loop of \<^verbatim>\<open>NextIssuable\<close>: a refresh that is due and can be queued is handled on the
  way, then the head of the queue is asked for its time.\<close>

definition refresh_if_due ::
  "Params \<Rightarrow> (mcs \<Rightarrow> mcs option) \<Rightarrow> ncounter_t \<Rightarrow> ncounter_t \<Rightarrow> ncycle_t \<Rightarrow> mcs \<Rightarrow> (ncycle_t \<times> mcs) option" where
  "refresh_if_due p wake rk bk t st = do {
     need \<leftarrow> NeedRefresh p bk rk (fst st);
     empty \<leftarrow> (if need then IsRefreshBankQueueEmpty p bk rk (fst st) (snd st) else Some False);
     if need \<and> empty
     then (if lastIssueCycle (fst st) \<noteq> GetCurrentCycle (snd st)
           then do { (_, st) \<leftarrow> HandleRefresh_with p wake st; Some (t, st) }
           else Some (GetCurrentCycle (snd st) + 1, st))
     else Some (t, st)
   }"

definition head_time :: "Params \<Rightarrow> ncounter_t \<Rightarrow> ncycle_t \<Rightarrow> mcs \<Rightarrow> (ncycle_t \<times> mcs) option" where
  "head_time p q t st =
     (case commandQueues (fst st) ! unat q of
        [] \<Rightarrow> Some (t, st)
      | rp # _ \<Rightarrow> do {
          r \<leftarrow> requests (snd st) rp;
          (t', u) \<leftarrow> Bus_NextIssuable p r (mc_child (fst st));
          Some (min t t', (fst st)\<lparr>mc_child := u\<rparr>, snd st)
        })"

fun next_loop ::
  "Params \<Rightarrow> (mcs \<Rightarrow> mcs option) \<Rightarrow> (nat \<times> nat) list \<Rightarrow> ncycle_t \<Rightarrow> mcs \<Rightarrow> (ncycle_t \<times> mcs) option" where
  "next_loop p wake [] t st = Some (t, st)"
| "next_loop p wake ((rk, bk) # bs) t st = do {
     q \<leftarrow> bank_queue p (word_of_nat rk) (word_of_nat bk) (fst st);
     (t, st) \<leftarrow> refresh_if_due p wake (word_of_nat rk) (word_of_nat bk) t st;
     (t, st) \<leftarrow> head_time p q t st;
     next_loop p wake bs t st
   }"

text \<open>
  \<^verbatim>\<open>NextIssuable\<close> handles refreshes, which schedules a wake-up, which calls \<^verbatim>\<open>NextIssuable\<close>: the depth of
  this recursion is bounded by the refreshes that are due, since each level handles one. The fuel is
  their number; \<open>Memory_Controller_Refresh\<close> shows that it is never used up.
\<close>

fun NextIssuable_fuel :: "nat \<Rightarrow> Params \<Rightarrow> mcs \<Rightarrow> (ncycle_t \<times> mcs) option" where
  "NextIssuable_fuel 0 p st = None"
| "NextIssuable_fuel (Suc n) p st = do {
     (t, mc, s) \<leftarrow> next_loop p (ScheduleCommandWake_with (NextIssuable_fuel n p))
       (List.product [0..<unat (RANKS p)] [0..<unat (BANKS p)]) max_cycle st;
     Some (if t \<le> GetCurrentCycle s then GetCurrentCycle s + 1 else t, mc, s)
   }"

definition refresh_debt :: "MemoryController \<Rightarrow> nat" where
  "refresh_debt mc = sum_list (map unat (concat (delayedRefreshCounter mc)))"

definition NextIssuable :: "Params \<Rightarrow> mcs \<Rightarrow> (ncycle_t \<times> mcs) option" where
  "NextIssuable p st = NextIssuable_fuel (Suc (refresh_debt (fst st))) p st"

definition ScheduleCommandWake :: "Params \<Rightarrow> mcs \<Rightarrow> mcs option" where
  "ScheduleCommandWake p = ScheduleCommandWake_with (NextIssuable p)"

definition HandleRefresh :: "Params \<Rightarrow> mcs \<Rightarrow> (bool \<times> mcs) option" where
  "HandleRefresh p = HandleRefresh_with p (ScheduleCommandWake p)"

definition ProcessRefreshPulse :: "Params \<Rightarrow> req_ptr \<Rightarrow> mcs \<Rightarrow> mcs option" where
  "ProcessRefreshPulse p rp st = (case st of (mc, s) \<Rightarrow> do {
     r \<leftarrow> requests s rp;
     cpp_assert (rtype r = REFRESH);
     let bk = bank (address r);
     let rk = rank (address r);
     mc \<leftarrow> IncrementRefreshCounter p bk rk mc;
     need \<leftarrow> NeedRefresh p bk rk mc;
     mc \<leftarrow> (if need then SetRefresh p bk rk mc else Some mc);
     s \<leftarrow> insert_callback (mc_this mc) cb_Refresh (GetCurrentCycle s + m_tREFI mc) (Some rp) refreshPriority s;
     Some (mc, s)
   })"

section \<open>Callbacks\<close>

definition MC_wake_step :: "mcs \<Rightarrow> ncycle_t \<times> mcs" where
  "MC_wake_step st = (case st of (mc, s) \<Rightarrow>
     (GetCurrentCycle s - lastCommandWake mc, mc\<lparr>lastCommandWake := GetCurrentCycle s\<rparr>, s))"

definition child_cycle :: "Params \<Rightarrow> ncycle_t \<Rightarrow> MemoryController \<Rightarrow> MemoryController" where
  "child_cycle p steps mc = mc\<lparr>mc_child := Bus_Cycle p steps (mc_child mc)\<rparr>"

definition RefreshCallback :: "Params \<Rightarrow> req_ptr \<Rightarrow> mcs \<Rightarrow> mcs option" where
  "RefreshCallback p rp st = do {
     let (realSteps, mc, s) = MC_wake_step st;
     let mc = mc\<lparr>wakeupCount := wakeupCount mc + 1\<rparr>;
     st \<leftarrow> ProcessRefreshPulse p rp (mc, s);
     (_, mc, s) \<leftarrow> HandleRefresh p st;
     Some (child_cycle p realSteps mc, s)
   }"

fun keep_unissued :: "sim \<Rightarrow> req_ptr list \<Rightarrow> req_ptr list option" where
  "keep_unissued s [] = Some []"
| "keep_unissued s (rp # rps) = do {
     r \<leftarrow> requests s rp;
     rest \<leftarrow> keep_unissued s rps;
     Some (if WasIssued r then rest else rp # rest)
   }"

fun clean_queues :: "sim \<Rightarrow> req_ptr list list \<Rightarrow> req_ptr list list option" where
  "clean_queues s [] = Some []"
| "clean_queues s (q # qs) = do { q \<leftarrow> keep_unissued s q; qs \<leftarrow> clean_queues s qs; Some (q # qs) }"

definition CleanupCallback :: "mcs \<Rightarrow> mcs option" where
  "CleanupCallback st = (case st of (mc, s) \<Rightarrow> do {
     qs \<leftarrow> clean_queues s (commandQueues mc);
     Some (mc\<lparr>commandQueues := qs\<rparr>, s)
   })"

text \<open>The requests that the controller has made are its own to delete; the result tells whether the
  request goes on to the parent.\<close>

definition MC_RequestComplete :: "req_ptr \<Rightarrow> mcs \<Rightarrow> (bool \<times> mcs) option" where
  "MC_RequestComplete rp st = (case st of (mc, s) \<Rightarrow> do {
     r \<leftarrow> requests s rp;
     if owner r = Some (mc_this mc) then do { s \<leftarrow> delete_request rp s; Some (False, mc, s) }
     else Some (True, mc, s)
   })"

end
