(* ===== verification/Memory_Scheduling.thy ===== *)
theory Memory_Scheduling
  imports Memory_Controller
begin

text \<open>
  The second half of \<^verbatim>\<open>src/NVmain/src/MemoryController.cpp\<close>: how a transaction is chosen, how it becomes
  commands, how the commands leave their queues, power management, and the configuration.
\<close>

section \<open>The tree below the controller\<close>

definition child_issuable :: "Params \<Rightarrow> NVMainRequest \<Rightarrow> mcs \<Rightarrow> (bool \<times> MemoryController) option" where
  "child_issuable p r st = (case st of (mc, s) \<Rightarrow> do {
     (ok, _, u) \<leftarrow> Bus_IsIssuable p r (mc_child mc) s;
     Some (ok, mc\<lparr>mc_child := u\<rparr>)
   })"

text \<open>\<^verbatim>\<open>FindChild( req, SubArray )\<close>: down the tree with the decoders on the way; the controller itself has one
  child, and its own decoder must name it.\<close>

definition find_rank :: "NVMainRequest \<Rightarrow> MemoryController \<Rightarrow> (nat \<times> MemoryController) option" where
  "find_rank r mc = do {
     (_, dec) \<leftarrow> GetChild_req r (mc_decoder mc) [()];
     (i, dec') \<leftarrow> GetChild_req r (bus_decoder (mc_child mc)) (bus_children (mc_child mc));
     Some (i, mc\<lparr>mc_decoder := dec, mc_child := (mc_child mc)\<lparr>bus_decoder := dec'\<rparr>\<rparr>)
   }"

definition find_subarray :: "NVMainRequest \<Rightarrow> MemoryController \<Rightarrow> (SubArray \<times> MemoryController) option" where
  "find_subarray r mc = do {
     (i, mc) \<leftarrow> find_rank r mc;
     let k = bus_children (mc_child mc) ! i;
     (j, dec) \<leftarrow> GetChild_req r (rk_decoder k) (rk_children k);
     let b = rk_children k ! j;
     (l, dec') \<leftarrow> GetChild_req r (bk_decoder b) (bk_children b);
     let k = k\<lparr>rk_decoder := dec, rk_children := (rk_children k)[j := b\<lparr>bk_decoder := dec'\<rparr>]\<rparr>;
     Some (bk_children b ! l, mc\<lparr>mc_child := (mc_child mc)\<lparr>bus_children := (bus_children (mc_child mc))[i := k]\<rparr>\<rparr>)
   }"

section \<open>Choosing a transaction\<close>

fun row_mates :: "sim \<Rightarrow> NVMainRequest \<Rightarrow> req_ptr list \<Rightarrow> bool option" where
  "row_mates s r [] = Some False"
| "row_mates s r (rp # rps) = do {
     x \<leftarrow> requests s rp;
     if rank (address x) = rank (address r) \<and> bank (address x) = bank (address r) \<and> row (address x) = row (address r)
       \<and> subarray (address x) = subarray (address r)
     then Some True else row_mates s r rps
   }"

definition IsLastRequest :: "Params \<Rightarrow> req_ptr list \<Rightarrow> NVMainRequest \<Rightarrow> sim \<Rightarrow> bool option" where
  "IsLastRequest p queue r s =
     (if ClosePage p = 0 then Some False
      else if ClosePage p = 1 then do { hit \<leftarrow> row_mates s r queue; Some (\<not> hit) }
      else Some True)"

definition mux_level :: "Params \<Rightarrow> NVMainRequest \<Rightarrow> ncounter_t option" where
  "mux_level p r = do { cpp_assert (RBSize p \<noteq> 0); Some (col (address r) div RBSize p) }"

text \<open>The row of the request is in the row buffer of its sub-array, as far as the controller knows.\<close>

definition row_open :: "NVMainRequest \<Rightarrow> ncounter_t \<Rightarrow> BankCtl \<Rightarrow> bool option" where
  "row_open r mux c =
     (if \<not> activateQueued c then Some False
      else do {
        x \<leftarrow> sub_ctl (subarray (address r)) c;
        Some (activeSubArray x \<and> effectiveRow x = row (address r) \<and> effectiveMuxedRow x = mux)
      })"

type_synonym predicate = "NVMainRequest \<Rightarrow> bool"

definition request_bank :: "NVMainRequest \<Rightarrow> MemoryController \<Rightarrow> BankCtl option" where
  "request_bank r mc = bank_ctl (rank (address r)) (bank (address r)) mc"

text \<open>A transaction whose command queue is not empty is passed over.\<close>

definition if_queue_empty :: "Params \<Rightarrow> NVMainRequest \<Rightarrow> MemoryController \<Rightarrow> bool option \<Rightarrow> bool option" where
  "if_queue_empty p r mc m = do {
     q \<leftarrow> GetCommandQueueId p (address r) mc;
     if commandQueues mc ! unat q \<noteq> [] then Some False else m
   }"

definition schedulable :: "predicate \<Rightarrow> NVMainRequest \<Rightarrow> BankCtl \<Rightarrow> sim \<Rightarrow> bool" where
  "schedulable pred r c s \<longleftrightarrow> \<not> bankNeedRefresh c \<and> \<not> refreshQueued c \<and> arrivalCycle r \<noteq> GetCurrentCycle s \<and> pred r"

definition is_starved :: "Params \<Rightarrow> predicate \<Rightarrow> mcs \<Rightarrow> NVMainRequest \<Rightarrow> bool option" where
  "is_starved p pred st r = (case st of (mc, s) \<Rightarrow> if_queue_empty p r mc (do {
     mux \<leftarrow> mux_level p r;
     c \<leftarrow> request_bank r mc;
     open \<leftarrow> row_open r mux c;
     if activateQueued c then do {
       x \<leftarrow> sub_ctl (subarray (address r)) c;
       Some (\<not> open \<and> starvationThreshold mc \<le> starvationCounter x \<and> schedulable pred r c s)
     }
     else Some False
   }))"

definition is_row_hit :: "Params \<Rightarrow> predicate \<Rightarrow> mcs \<Rightarrow> NVMainRequest \<Rightarrow> bool option" where
  "is_row_hit p pred st r = (case st of (mc, s) \<Rightarrow> if_queue_empty p r mc (do {
     mux \<leftarrow> mux_level p r;
     c \<leftarrow> request_bank r mc;
     open \<leftarrow> row_open r mux c;
     Some (open \<and> schedulable pred r c s)
   }))"

definition is_oldest_ready :: "Params \<Rightarrow> predicate \<Rightarrow> mcs \<Rightarrow> NVMainRequest \<Rightarrow> bool option" where
  "is_oldest_ready p pred st r = (case st of (mc, s) \<Rightarrow> if_queue_empty p r mc (do {
     c \<leftarrow> request_bank r mc;
     Some (activateQueued c \<and> schedulable pred r c s)
   }))"

definition is_closed_bank :: "Params \<Rightarrow> predicate \<Rightarrow> mcs \<Rightarrow> NVMainRequest \<Rightarrow> bool option" where
  "is_closed_bank p pred st r = (case st of (mc, s) \<Rightarrow> if_queue_empty p r mc (do {
     c \<leftarrow> request_bank r mc;
     Some (\<not> activateQueued c \<and> schedulable pred r c s)
   }))"

text \<open>The first match is taken out of the queue.\<close>

fun pick :: "(req_ptr \<Rightarrow> bool option) \<Rightarrow> req_ptr list \<Rightarrow> (req_ptr \<times> req_ptr list) option option" where
  "pick m [] = Some None"
| "pick m (x # xs) = do {
     b \<leftarrow> m x;
     if b then Some (Some (x, xs))
     else do { z \<leftarrow> pick m xs; Some (map_option (\<lambda>(y, ys). (y, x # ys)) z) }
   }"

definition take_request :: "Params \<Rightarrow> nat \<Rightarrow> req_ptr \<Rightarrow> req_ptr list \<Rightarrow> mcs \<Rightarrow> mcs option" where
  "take_request p qi rp rest st = (case st of (mc, s) \<Rightarrow> do {
     r \<leftarrow> requests s rp;
     last \<leftarrow> IsLastRequest p rest r s;
     Some (mc\<lparr>transactionQueues := (transactionQueues mc)[qi := rest]\<rparr>,
       if last then put_request rp (set_flag FLAG_LAST_REQUEST r) s else s)
   })"

text \<open>The common form of \<^verbatim>\<open>FindStarvedRequest\<close>, \<^verbatim>\<open>FindRowBufferHit\<close>, \<^verbatim>\<open>FindOldestReadyRequest\<close> and
  \<^verbatim>\<open>FindClosedBankRequest\<close>; they differ in the condition.\<close>

definition find_request ::
  "(mcs \<Rightarrow> NVMainRequest \<Rightarrow> bool option) \<Rightarrow> Params \<Rightarrow> nat \<Rightarrow> mcs \<Rightarrow> (req_ptr option \<times> mcs) option" where
  "find_request cond p qi st = do {
     z \<leftarrow> pick (\<lambda>rp. do { r \<leftarrow> requests (snd st) rp; cond st r }) (transactionQueues (fst st) ! qi);
     case z of
       None \<Rightarrow> Some (None, st)
     | Some (rp, rest) \<Rightarrow> do { st \<leftarrow> take_request p qi rp rest st; Some (Some rp, st) }
   }"

definition FindStarvedRequest :: "Params \<Rightarrow> predicate \<Rightarrow> nat \<Rightarrow> mcs \<Rightarrow> (req_ptr option \<times> mcs) option" where
  "FindStarvedRequest p pred = find_request (is_starved p pred) p"

definition FindRowBufferHit :: "Params \<Rightarrow> predicate \<Rightarrow> nat \<Rightarrow> mcs \<Rightarrow> (req_ptr option \<times> mcs) option" where
  "FindRowBufferHit p pred = find_request (is_row_hit p pred) p"

definition FindOldestReadyRequest :: "Params \<Rightarrow> predicate \<Rightarrow> nat \<Rightarrow> mcs \<Rightarrow> (req_ptr option \<times> mcs) option" where
  "FindOldestReadyRequest p pred = find_request (is_oldest_ready p pred) p"

definition FindClosedBankRequest :: "Params \<Rightarrow> predicate \<Rightarrow> nat \<Rightarrow> mcs \<Rightarrow> (req_ptr option \<times> mcs) option" where
  "FindClosedBankRequest p pred = find_request (is_closed_bank p pred) p"

text \<open>The search for a cached address asks the children, who count the questions; the request it takes
  is not marked as the last of its row.\<close>

fun cached_scan ::
  "Params \<Rightarrow> predicate \<Rightarrow> req_ptr list \<Rightarrow> mcs \<Rightarrow> ((req_ptr \<times> req_ptr list) option \<times> MemoryController) option" where
  "cached_scan p pred [] st = Some (None, fst st)"
| "cached_scan p pred (rp # rps) st = do {
     r \<leftarrow> requests (snd st) rp;
     q \<leftarrow> GetCommandQueueId p (address r) (fst st);
     cached \<leftarrow> MakeCachedRequest r (mc_this (fst st));
     (ok, mc) \<leftarrow> (if commandQueues (fst st) ! unat q = [] then child_issuable p cached st else Some (False, fst st));
     if ok \<and> arrivalCycle r \<noteq> GetCurrentCycle (snd st) \<and> pred r then Some (Some (rp, rps), mc)
     else do {
       (z, mc) \<leftarrow> cached_scan p pred rps (mc, snd st);
       Some (map_option (\<lambda>(y, ys). (y, rp # ys)) z, mc)
     }
   }"

definition FindCachedAddress :: "Params \<Rightarrow> predicate \<Rightarrow> nat \<Rightarrow> mcs \<Rightarrow> (req_ptr option \<times> mcs) option" where
  "FindCachedAddress p pred qi st = do {
     (z, mc) \<leftarrow> cached_scan p pred (transactionQueues (fst st) ! qi) st;
     Some (case z of
       None \<Rightarrow> (None, mc, snd st)
     | Some (rp, rest) \<Rightarrow> (Some rp, mc\<lparr>transactionQueues := (transactionQueues mc)[qi := rest]\<rparr>, snd st))
   }"

text \<open>A read behind a write that can be paused: it is taken, or the scheduler stalls until the write is
  between two iterations.\<close>

datatype stalled = No_read | Stall | Take_read req_ptr "req_ptr list"

fun behind :: "req_ptr \<Rightarrow> stalled \<Rightarrow> stalled" where
  "behind x (Take_read y ys) = Take_read y (x # ys)"
| "behind x z = z"

definition can_pause :: "Params \<Rightarrow> predicate \<Rightarrow> NVMainRequest \<Rightarrow> SubArray \<Rightarrow> mcs \<Rightarrow> (bool \<times> MemoryController) option" where
  "can_pause p pred r arr st = do {
     let testActivate = NVMainRequest_new\<lparr>rtype := ACTIVATE, issueCycle := GetCurrentCycle (snd st),
           address := NVMAddress_assign (address r) (address NVMainRequest_new), owner := Some (mc_this (fst st)),
           flags := flags NVMainRequest_new OR FLAG_PRIORITY\<rparr>;
     c \<leftarrow> request_bank r (fst st);
     if \<not> bankNeedRefresh c \<and> \<not> refreshQueued c \<and> isWriting arr then do {
       (hit, mc) \<leftarrow> child_issuable p r st;
       (ok, mc) \<leftarrow> (if hit then Some (True, mc) else child_issuable p testActivate (mc, snd st));
       Some (ok \<and> arrivalCycle r \<noteq> GetCurrentCycle (snd st) \<and> pred r, mc)
     }
     else Some (False, fst st)
   }"

fun stalled_scan :: "Params \<Rightarrow> predicate \<Rightarrow> req_ptr list \<Rightarrow> mcs \<Rightarrow> (stalled \<times> MemoryController) option" where
  "stalled_scan p pred [] st = Some (No_read, fst st)"
| "stalled_scan p pred (rp # rps) st = do {
     r \<leftarrow> requests (snd st) rp;
     (found, arr, mc) \<leftarrow> (if rtype r \<noteq> READ then Some (False, None, fst st)
       else do {
         q \<leftarrow> GetCommandQueueId p (address r) (fst st);
         if commandQueues (fst st) ! unat q \<noteq> [] then Some (False, None, fst st)
         else do {
           (arr, mc) \<leftarrow> find_subarray r (fst st);
           (ok, mc) \<leftarrow> can_pause p pred r arr (mc, snd st);
           Some (ok, Some arr, mc)
         }
       });
     case (found, arr) of
       (True, Some sa) \<Rightarrow>
         Some (if \<not> BetweenWriteIterations sa (snd st) \<and> pauseMode p = PauseMode_Normal then Stall else Take_read rp rps, mc)
     | _ \<Rightarrow> do { (z, mc) \<leftarrow> stalled_scan p pred rps (mc, snd st); Some (behind rp z, mc) }
   }"

definition FindWriteStalledRead :: "Params \<Rightarrow> predicate \<Rightarrow> nat \<Rightarrow> mcs \<Rightarrow> (bool \<times> req_ptr option \<times> mcs) option" where
  "FindWriteStalledRead p pred qi st =
     (if \<not> WritePausing p then Some (False, None, st)
      else do {
        (z, mc) \<leftarrow> stalled_scan p pred (transactionQueues (fst st) ! qi) st;
        case z of
          No_read \<Rightarrow> Some (False, None, mc, snd st)
        | Stall \<Rightarrow> Some (True, None, mc, snd st)
        | Take_read rp rest \<Rightarrow> do { st \<leftarrow> take_request p qi rp rest (mc, snd st); Some (True, Some rp, st) }
      })"

section \<open>From a transaction to commands\<close>

text \<open>\<^verbatim>\<open>issueCycle\<close> of the transaction, and the transaction itself, at the end of its command queue; the last
  request of a row closes it.\<close>

definition push_request :: "ncounter_t \<Rightarrow> req_ptr \<Rightarrow> mcs \<Rightarrow> mcs option" where
  "push_request q rp st = (case st of (mc, s) \<Rightarrow> do {
     r \<leftarrow> requests s rp;
     Some (push_command q rp mc, put_request rp (r\<lparr>issueCycle := GetCurrentCycle s\<rparr>) s)
   })"

definition push_closing :: "ncounter_t \<Rightarrow> req_ptr \<Rightarrow> mcs \<Rightarrow> mcs option" where
  "push_closing q rp st = (case st of (mc, s) \<Rightarrow> do {
     r \<leftarrow> requests s rp;
     Some (push_command q rp mc, put_request rp (implicit_precharge (GetCurrentCycle s) r) s)
   })"

definition push_activate :: "ncounter_t \<Rightarrow> bool \<Rightarrow> NVMainRequest \<Rightarrow> mcs \<Rightarrow> mcs" where
  "push_activate q writing r st =
     (let (act, mc, s) = MakeActivateRequest (if writing then FLAG_PRIORITY else 0) r st in (push_command q act mc, s))"

definition set_sub :: "NVMainRequest \<Rightarrow> bool \<Rightarrow> SubCtl \<Rightarrow> BankCtl \<Rightarrow> MemoryController \<Rightarrow> MemoryController" where
  "set_sub r act x c mc =
     put_bank (rank (address r)) (bank (address r)) ((put_sub (subarray (address r)) x c)\<lparr>activateQueued := act\<rparr>) mc"

definition closes :: "Params \<Rightarrow> NVMainRequest \<Rightarrow> bool" where
  "closes p r \<longleftrightarrow> has_flag r FLAG_LAST_REQUEST \<and> UsePrecharge p"

text \<open>A closed bank: activate, then the transaction.\<close>

definition issue_closed_bank ::
  "Params \<Rightarrow> ncounter_t \<Rightarrow> ncounter_t \<Rightarrow> bool \<Rightarrow> req_ptr \<Rightarrow> NVMainRequest \<Rightarrow> BankCtl \<Rightarrow> mcs \<Rightarrow> mcs option" where
  "issue_closed_bank p q mux writing rp r c st = do {
     x \<leftarrow> sub_ctl (subarray (address r)) c;
     let x = x\<lparr>activeSubArray := True, effectiveRow := row (address r), effectiveMuxedRow := mux, starvationCounter := 0\<rparr>;
     let st = push_activate q writing r st;
     if closes p r then do {
       (mc, s) \<leftarrow> push_closing q rp st;
       Some (set_sub r False (close_sub p x) c mc, s)
     }
     else do {
       (mc, s) \<leftarrow> push_request q rp st;
       Some (set_sub r True x c mc, s)
     }
   }"

text \<open>A row buffer miss in an open bank: precharge the sub-array if it is open, activate, then the transaction.\<close>

definition issue_row_miss ::
  "Params \<Rightarrow> ncounter_t \<Rightarrow> ncounter_t \<Rightarrow> bool \<Rightarrow> req_ptr \<Rightarrow> NVMainRequest \<Rightarrow> BankCtl \<Rightarrow> mcs \<Rightarrow> mcs option" where
  "issue_row_miss p q mux writing rp r c st = do {
     x \<leftarrow> sub_ctl (subarray (address r)) c;
     st \<leftarrow> (if activeSubArray x \<and> UsePrecharge p then do {
         (pre, mc, s) \<leftarrow> MakePrechargeRequest (effectiveRow x) 0 (bank (address r)) (rank (address r)) (subarray (address r)) st;
         Some (push_command q pre mc, s)
       }
       else Some st);
     let st = push_activate q writing r st;
     (mc, s) \<leftarrow> push_request q rp st;
     let x = x\<lparr>starvationCounter := 0, activeSubArray := True, effectiveRow := row (address r), effectiveMuxedRow := mux\<rparr>;
     Some (set_sub r True x c mc, s)
   }"

text \<open>A row buffer hit: the transaction alone. When it closes the last open sub-array the bank is closed.\<close>

definition issue_row_hit :: "Params \<Rightarrow> ncounter_t \<Rightarrow> req_ptr \<Rightarrow> NVMainRequest \<Rightarrow> BankCtl \<Rightarrow> mcs \<Rightarrow> mcs option" where
  "issue_row_hit p q rp r c st = do {
     x \<leftarrow> sub_ctl (subarray (address r)) c;
     let x = x\<lparr>starvationCounter := starvationCounter x + 1\<rparr>;
     if closes p r then do {
       cpp_assert (ClosePage p \<noteq> 2);
       (mc, s) \<leftarrow> push_closing q rp st;
       let idle = (\<forall>y \<in> set (subs (put_sub (subarray (address r)) (close_sub p x) c)). \<not> activeSubArray y);
       Some (set_sub r (\<not> idle) (close_sub p x) c mc, s)
     }
     else do {
       (mc, s) \<leftarrow> push_request q rp st;
       Some (set_sub r True x c mc, s)
     }
   }"

definition IssueMemoryCommands :: "Params \<Rightarrow> req_ptr \<Rightarrow> mcs \<Rightarrow> (bool \<times> mcs) option" where
  "IssueMemoryCommands p rp st = (case st of (mc, s) \<Rightarrow> do {
     r \<leftarrow> requests s rp;
     (arr, mc) \<leftarrow> find_subarray r mc;
     mux \<leftarrow> mux_level p r;
     q \<leftarrow> GetCommandQueueId p (address r) mc;
     cached \<leftarrow> MakeCachedRequest r (mc_this mc);
     (ok, mc) \<leftarrow> child_issuable p cached (mc, s);
     c \<leftarrow> request_bank r mc;
     open \<leftarrow> row_open r mux c;
     if ok \<and> \<not> open then do { st \<leftarrow> push_request q rp (mc, s); Some (True, st) }
     else if commandQueues mc ! unat q = [] \<and> \<not> activateQueued c then do {
       st \<leftarrow> issue_closed_bank p q mux (isWriting arr) rp r c (mc, s);
       st \<leftarrow> ScheduleCommandWake p st;
       Some (True, st)
     }
     else if commandQueues mc ! unat q = [] \<and> \<not> open then do {
       st \<leftarrow> issue_row_miss p q mux (isWriting arr) rp r c (mc, s);
       st \<leftarrow> ScheduleCommandWake p st;
       Some (True, st)
     }
     else if open then do {
       st \<leftarrow> issue_row_hit p q rp r c (mc, s);
       st \<leftarrow> ScheduleCommandWake p st;
       Some (True, st)
     }
     else Some (False, mc, s)
   })"

section \<open>The command queues\<close>

definition MoveCurrentQueue :: "Params \<Rightarrow> MemoryController \<Rightarrow> MemoryController" where
  "MoveCurrentQueue p mc =
     (if ScheduleScheme p \<noteq> 0
      then let n = curQueue mc + 1 in mc\<lparr>curQueue := (if word_of_nat (length (commandQueues mc)) < n then 0 else n)\<rparr>
      else mc)"

text \<open>The head of a queue is sent; it leaves the queue in the next cycle.\<close>

definition issue_head :: "Params \<Rightarrow> nat \<Rightarrow> req_ptr \<Rightarrow> mcs \<Rightarrow> mcs option" where
  "issue_head p q rp st = (case st of (mc, s) \<Rightarrow> do {
     let now = GetCurrentCycle s;
     (_, u, s) \<leftarrow> Bus_IssueCommand p rp (mc_child mc, s);
     let mc = mc\<lparr>mc_child := u\<rparr>;
     r \<leftarrow> requests s rp;
     let s = put_request rp (set_flag FLAG_ISSUED r) s;
     mc \<leftarrow> (if rtype r = REFRESH then ResetRefreshQueued p (bank (address r)) (rank (address r)) mc else Some mc);
     let mc = mc\<lparr>lastIssueCycle := now\<rparr>;
     ev \<leftarrow> FindCallback (mc_this mc) cb_Cleanup (now + 1) None cleanupPriority (eventQueue s);
     s \<leftarrow> (if ev = None then insert_callback (mc_this mc) cb_Cleanup (now + 1) None cleanupPriority s else Some s);
     avail \<leftarrow> (if length (commandQueues mc ! q) = 1 then TransactionAvailable p q mc s else Some False);
     s \<leftarrow> (if avail then insert_cycle (mc_this mc) (now + 1) s else Some s);
     Some (MoveCurrentQueue p mc, s)
   })"

fun cycle_queues :: "Params \<Rightarrow> nat list \<Rightarrow> mcs \<Rightarrow> mcs option" where
  "cycle_queues p [] st = Some st"
| "cycle_queues p (idx # idxs) st = do {
     let q = unat ((curQueue (fst st) + word_of_nat idx) mod word_of_nat (length (commandQueues (fst st))));
     case commandQueues (fst st) ! q of
       [] \<Rightarrow> cycle_queues p idxs st
     | rp # _ \<Rightarrow> do {
         r \<leftarrow> requests (snd st) rp;
         (ok, mc) \<leftarrow> (if lastIssueCycle (fst st) \<noteq> GetCurrentCycle (snd st) then child_issuable p r st else Some (False, fst st));
         if ok then issue_head p q rp (mc, snd st)
         else do {
           cpp_assert (GetCurrentCycle (snd st) - issueCycle r \<le> DeadlockTimer p);
           cycle_queues p idxs (mc, snd st)
         }
       }
   }"

definition CycleCommandQueues :: "Params \<Rightarrow> mcs \<Rightarrow> mcs option" where
  "CycleCommandQueues p st =
     (if handledRefresh (fst st) = GetCurrentCycle (snd st) then Some st
      else cycle_queues p [0..<length (commandQueues (fst st))] st)"

definition CommandQueueCallback :: "Params \<Rightarrow> mcs \<Rightarrow> mcs option" where
  "CommandQueueCallback p st = do {
     let (realSteps, st) = MC_wake_step st;
     (nextWakeup, mc, s) \<leftarrow> NextIssuable p st;
     let mc = mc\<lparr>wakeupCount := wakeupCount mc + 1\<rparr>;
     ev \<leftarrow> FindCallback (mc_this mc) cb_CommandQueue nextWakeup None commandQueuePriority (eventQueue s);
     s \<leftarrow> (if ev = None \<and> nextWakeup \<noteq> max_cycle
          then insert_callback (mc_this mc) cb_CommandQueue nextWakeup None commandQueuePriority s else Some s);
     (mc, s) \<leftarrow> CycleCommandQueues p (mc, s);
     Some (child_cycle p realSteps mc, s)
   }"

fun recheck_queues :: "Params \<Rightarrow> nat list \<Rightarrow> mcs \<Rightarrow> mcs option" where
  "recheck_queues p [] st = Some st"
| "recheck_queues p (q # qs) st = do {
     free \<leftarrow> EffectivelyEmpty q (fst st) (snd st);
     avail \<leftarrow> (if free then TransactionAvailable p q (fst st) (snd st) else Some False);
     if avail then do {
       s \<leftarrow> insert_cycle (mc_this (fst st)) (GetCurrentCycle (snd st) + 1) (snd st);
       Some (fst st, s)
     }
     else recheck_queues p qs st
   }"

definition MC_Cycle :: "Params \<Rightarrow> mcs \<Rightarrow> mcs option" where
  "MC_Cycle p st = do {
     ev \<leftarrow> FindEvent EventCycle (mc_this (fst st)) None (GetCurrentCycle (snd st) + 1) (eventQueue (snd st));
     if ev \<noteq> None then Some st else recheck_queues p [0..<length (commandQueues (fst st))] st
   }"

definition MC_CalculateStats :: "Params \<Rightarrow> mcs \<Rightarrow> MemoryController option" where
  "MC_CalculateStats p st = (case st of (mc, s) \<Rightarrow> do {
     let mc = child_cycle p (GetCurrentCycle s - lastCommandWake mc) mc;
     let mc = mc\<lparr>simulation_cycles := GetCurrentCycle s\<rparr>;
     u \<leftarrow> Bus_CalculateStats p s (mc_child mc);
     Some (mc\<lparr>mc_child := u\<rparr>)
   })"

section \<open>Power management\<close>

definition RankQueueEmpty :: "Params \<Rightarrow> ncounter_t \<Rightarrow> MemoryController \<Rightarrow> bool option" where
  "RankQueueEmpty p rk mc = foldr (\<lambda>bk m. do {
       q \<leftarrow> bank_queue p rk (word_of_nat bk) mc;
       if commandQueues mc ! unat q = [] then m else Some False
     }) [0..<unat (BANKS p)] (Some True)"

text \<open>A request that is sent if \<open>wanted\<close> and the children agree, and deleted otherwise; then the power flag
  of the rank.\<close>

definition power_command :: "Params \<Rightarrow> bool \<Rightarrow> bool \<Rightarrow> ncounter_t \<Rightarrow> req_ptr \<Rightarrow> mcs \<Rightarrow> mcs option" where
  "power_command p wanted down rk rp st = (case st of (mc, s) \<Rightarrow> do {
     r \<leftarrow> requests s rp;
     (ok, mc) \<leftarrow> (if wanted then child_issuable p r (mc, s) else Some (False, mc));
     if ok then do {
       (_, u, s) \<leftarrow> Bus_IssueCommand p rp (mc_child mc, s);
       cpp_assert (unat rk < length (rankPowerDown mc));
       Some (mc\<lparr>mc_child := u, rankPowerDown := (rankPowerDown mc)[unat rk := down]\<rparr>, s)
     }
     else do { s \<leftarrow> delete_request rp s; Some (mc, s) }
   })"

definition MC_PowerDown :: "Params \<Rightarrow> ncounter_t \<Rightarrow> mcs \<Rightarrow> mcs option" where
  "MC_PowerDown p rk st = do {
     (rp, mc, s) \<leftarrow> MakePowerdownRequest (if PowerDownMode p = ''SLOWEXIT'' then POWERDOWN_PDPS else POWERDOWN_PDPF) rk st;
     r \<leftarrow> requests s rp;
     (i, mc) \<leftarrow> find_rank r mc;
     idle \<leftarrow> Rank_Idle (bus_children (mc_child mc) ! i);
     (rp, mc, s) \<leftarrow> (if idle then Some (rp, mc, s)
       else do { s \<leftarrow> delete_request rp s; MakePowerdownRequest POWERDOWN_PDA rk (mc, s) });
     empty \<leftarrow> RankQueueEmpty p rk mc;
     power_command p empty True rk rp (mc, s)
   }"

definition MC_PowerUp :: "Params \<Rightarrow> ncounter_t \<Rightarrow> mcs \<Rightarrow> mcs option" where
  "MC_PowerUp p rk st = do {
     (rp, mc, s) \<leftarrow> MakePowerupRequest rk st;
     empty \<leftarrow> RankQueueEmpty p rk mc;
     power_command p (\<not> empty) False rk rp (mc, s)
   }"

fun any_need :: "Params \<Rightarrow> ncounter_t \<Rightarrow> nat list \<Rightarrow> MemoryController \<Rightarrow> bool option" where
  "any_need p rk [] mc = Some False"
| "any_need p rk (g # gs) mc = do {
     need \<leftarrow> NeedRefresh p (word_of_nat g * BanksPerRefresh p) rk mc;
     if need then Some True else any_need p rk gs mc
   }"

fun low_power_ranks :: "Params \<Rightarrow> nat list \<Rightarrow> mcs \<Rightarrow> mcs option" where
  "low_power_ranks p [] st = Some st"
| "low_power_ranks p (i # is) st = do {
     let rk = word_of_nat i;
     need \<leftarrow> (if UseRefresh p then any_need p rk [0..<unat (m_refreshBankNum (fst st))] (fst st) else Some False);
     cpp_assert (i < length (rankPowerDown (fst st)));
     st \<leftarrow> (if need then do {
         (rp, st) \<leftarrow> MakePowerupRequest rk st;
         power_command p (rankPowerDown (fst st) ! i) False rk rp st
       }
       else if rankPowerDown (fst st) ! i then MC_PowerUp p rk st else MC_PowerDown p rk st);
     low_power_ranks p is st
   }"

definition HandleLowPower :: "Params \<Rightarrow> mcs \<Rightarrow> mcs option" where
  "HandleLowPower p st = low_power_ranks p [0..<unat (RANKS p)] st"

section \<open>Configuration\<close>

definition initial_bank :: "Params \<Rightarrow> ncounter_t \<Rightarrow> BankCtl" where
  "initial_bank p n = \<lparr>activateQueued = False, refreshQueued = False, bankNeedRefresh = False,
     subs = replicate (unat n) \<lparr>activeSubArray = False, effectiveRow = ROWS p, effectiveMuxedRow = ROWS p, starvationCounter = 0\<rparr>\<rparr>"

definition queue_config :: "Params \<Rightarrow> string option \<Rightarrow> ncounter_t \<Rightarrow> QueueModel \<times> ncounter_t" where
  "queue_config p key subarrays =
     (if key = Some ''PerRank'' then (PerRankQueues, RANKS p)
      else if key = Some ''PerSubArray'' then (PerSubArrayQueues, RANKS p * BANKS p * subarrays)
      else (PerBankQueues, RANKS p * BANKS p))"

text \<open>The decoder of the controller: the layout of its channel, with the number of channels of the parent.\<close>

definition channel_method :: "Params \<Rightarrow> ncounter_t \<Rightarrow> ncounter_t \<Rightarrow> u64 \<Rightarrow> TranslationMethod \<Rightarrow> TranslationMethod option" where
  "channel_method p rows subarrays channels g =
     (let bits = (\<lambda>n :: u64. word_of_int (mlog2 (sint (ucast n :: u32))) :: u32)
      in SetAddressMappingScheme (AddressMappingScheme p)
           (SetCount rows (COLS p) (BANKS p) (RANKS p) channels subarrays
             (SetBitWidths (bits rows) (bits (COLS p)) (bits (BANKS p)) (bits (RANKS p)) (bits channels) (bits subarrays)
               (TranslationMethod_new g))))"

text \<open>The first refresh pulse of every group, staggered over the refresh interval.\<close>

fun first_pulses :: "ncycle_t \<Rightarrow> Params \<Rightarrow> (nat \<times> nat) list \<Rightarrow> mcs \<Rightarrow> mcs option" where
  "first_pulses stagger p [] st = Some st"
| "first_pulses stagger p ((i, j) # gs) st = do {
     (rp, mc, s) \<leftarrow> MakeRefreshRequest 0 0 (word_of_nat j * BanksPerRefresh p) (word_of_nat i) 0 st;
     let offset = (word_of_nat i * m_refreshBankNum mc + word_of_nat j) * stagger;
     s \<leftarrow> insert_callback (mc_this mc) cb_Refresh (GetCurrentCycle s + m_tREFI mc + offset) (Some rp) refreshPriority s;
     first_pulses stagger p gs (mc, s)
   }"

definition refresh_config :: "Params \<Rightarrow> mcs \<Rightarrow> mcs option" where
  "refresh_config p st = (case st of (mc, s) \<Rightarrow> do {
     cpp_assert (BanksPerRefresh p \<le> BANKS p);
     cpp_assert (BanksPerRefresh p \<noteq> 0);
     let groups = BANKS p div BanksPerRefresh p;
     cpp_assert (RefreshRows p \<noteq> 0);
     cpp_assert (ROWS p div RefreshRows p \<noteq> 0);
     let tREFI = tREFW p div (ROWS p div RefreshRows p);
     cpp_assert (RANKS p * groups \<noteq> 0);
     let stagger = tREFI div (RANKS p * groups);
     first_pulses stagger p (List.product [0..<unat (RANKS p)] [0..<unat groups])
       (mc\<lparr>m_refreshBankNum := groups, m_tREFI := tREFI,
           delayedRefreshCounter := replicate (unat (RANKS p)) (replicate (unat groups) 0)\<rparr>, s)
   })"

text \<open>\<^verbatim>\<open>SetConfig\<close> on the values of the configuration: \<open>mat\<close> tells whether \<^verbatim>\<open>MATHeight\<close> is configured, \<open>key\<close> is
  the queue model; \<open>dec\<close> is the decoder of the factory after its own configuration, \<open>channels\<close> the
  channels of the parent's translation method and \<open>bus\<close> the interconnect after its own configuration.\<close>

definition MC_SetConfig ::
  "Params \<Rightarrow> bool \<Rightarrow> string option \<Rightarrow> bool \<Rightarrow> AddressTranslator \<Rightarrow> u64 \<Rightarrow> TranslationMethod \<Rightarrow> RankBus \<Rightarrow> mcs \<Rightarrow> mcs option" where
  "MC_SetConfig p mat key createChildren dec channels g bus st = (case st of (mc, s) \<Rightarrow> do {
     cpp_assert (mat \<longrightarrow> MATHeight p \<noteq> 0);
     let subarrays = (if mat then ROWS p div MATHeight p else 1);
     mc \<leftarrow> (if createChildren then do {
         m \<leftarrow> channel_method p (if mat then MATHeight p else ROWS p) subarrays channels g;
         Some (mc\<lparr>mc_decoder := SetTranslationMethod m (SetDefaultField NO_FIELD dec), mc_child := bus\<rparr>)
       }
       else Some mc);
     let (model, count) = queue_config p key subarrays;
     let mc = mc\<lparr>mc_subArrayNum := subarrays, queueModel := model, commandQueues := replicate (unat count) [],
           bankCtl := replicate (unat (RANKS p)) (replicate (unat (BANKS p)) (initial_bank p subarrays)),
           rankPowerDown := replicate (unat (RANKS p)) (UseLowPower p \<and> InitPD p)\<rparr>;
     if UseRefresh p then refresh_config p (mc, s) else Some (mc, s)
   })"

end
