(* ===== verification/Fcfs_Schedulers.thy ===== *)
theory Fcfs_Schedulers
  imports Memory_Scheduling
begin

text \<open>
  \<^verbatim>\<open>src/NVmain/MemControl/FCFS/FCFS.cpp\<close> and \<^verbatim>\<open>MemControl/FRFCFS/FRFCFS.cpp\<close>: first-come-first-serve and
  first-ready-first-come-first-serve scheduling on one transaction queue. Both controllers keep the same
  statistics; \<open>starvation_precharges\<close> and \<open>write_pauses\<close> belong to the second only.
\<close>

section \<open>State\<close>

record Scheduler =
  sch_mc :: MemoryController
  queueSize :: nat
  averageLatency :: real
  averageQueueLatency :: real
  averageTotalLatency :: real
  measuredLatencies :: ncounter_t
  measuredQueueLatencies :: ncounter_t
  measuredTotalLatencies :: ncounter_t
  mem_reads :: ncounter_t
  mem_writes :: ncounter_t
  rb_hits :: ncounter_t
  rb_miss :: ncounter_t
  starvation_precharges :: ncounter_t
  write_pauses :: ncounter_t

definition scheduler_new :: "MemoryController \<Rightarrow> Scheduler \<Rightarrow> Scheduler" where
  "scheduler_new mc g = g\<lparr>sch_mc := InitQueues 1 mc, queueSize := 32, averageLatency := 0, averageQueueLatency := 0,
     averageTotalLatency := 0, measuredLatencies := 0, measuredQueueLatencies := 0, measuredTotalLatencies := 0,
     mem_reads := 0, mem_writes := 0, rb_hits := 0, rb_miss := 0\<rparr>"

definition FCFS_new :: "obj_id \<Rightarrow> MemoryController \<Rightarrow> Scheduler \<Rightarrow> Scheduler" where
  "FCFS_new oid gmc g = scheduler_new (MemoryController_new oid gmc) g"

definition FRFCFS_new :: "obj_id \<Rightarrow> MemoryController \<Rightarrow> Scheduler \<Rightarrow> Scheduler" where
  "FRFCFS_new oid gmc g = (scheduler_new ((MemoryController_new oid gmc)\<lparr>starvationThreshold := 4\<rparr>) g)
     \<lparr>write_pauses := 0, starvation_precharges := 0\<rparr>"

text \<open>The keys \<^verbatim>\<open>StarvationThreshold\<close> and \<^verbatim>\<open>QueueSize\<close> of the configuration, where present; both pass through
  \<^verbatim>\<open>unsigned int\<close>.\<close>

definition scheduler_config :: "int option \<Rightarrow> int option \<Rightarrow> Scheduler \<Rightarrow> Scheduler" where
  "scheduler_config starvation limit c =
     (let c = (case starvation of None \<Rightarrow> c
           | Some v \<Rightarrow> c\<lparr>sch_mc := (sch_mc c)\<lparr>starvationThreshold := ucast (word_of_int v :: u32)\<rparr>\<rparr>)
      in case limit of None \<Rightarrow> c | Some v \<Rightarrow> c\<lparr>queueSize := unat (word_of_int v :: u32)\<rparr>)"

section \<open>Requests\<close>

definition scheduler_IsIssuable :: "Scheduler \<Rightarrow> bool option" where
  "scheduler_IsIssuable c = do {
     cpp_assert (0 < length (transactionQueues (sch_mc c)));
     Some (length (transactionQueues (sch_mc c) ! 0) < queueSize c)
   }"

definition count_request :: "NVMainRequest \<Rightarrow> Scheduler \<Rightarrow> Scheduler" where
  "count_request r c = (if rtype r = READ then c\<lparr>mem_reads := mem_reads c + 1\<rparr> else c\<lparr>mem_writes := mem_writes c + 1\<rparr>)"

definition FCFS_IssueCommand :: "Params \<Rightarrow> req_ptr \<Rightarrow> Scheduler \<times> sim \<Rightarrow> (bool \<times> Scheduler \<times> sim) option" where
  "FCFS_IssueCommand p rp st = (case st of (c, s) \<Rightarrow> do {
     room \<leftarrow> scheduler_IsIssuable c;
     if \<not> room then Some (False, c, s)
     else do {
       r \<leftarrow> requests s rp;
       let c = count_request r c;
       (mc, s) \<leftarrow> Enqueue p 0 rp (sch_mc c, s);
       Some (True, c\<lparr>sch_mc := mc\<rparr>, s)
     }
   })"

definition FRFCFS_IssueCommand :: "Params \<Rightarrow> req_ptr \<Rightarrow> Scheduler \<times> sim \<Rightarrow> (bool \<times> Scheduler \<times> sim) option" where
  "FRFCFS_IssueCommand p rp st = (case st of (c, s) \<Rightarrow> do {
     room \<leftarrow> scheduler_IsIssuable c;
     if \<not> room then Some (False, c, s)
     else do {
       r \<leftarrow> requests s rp;
       (mc, s) \<leftarrow> Enqueue p 0 rp (sch_mc c, put_request rp (r\<lparr>arrivalCycle := GetCurrentCycle s\<rparr>) s);
       Some (True, count_request r (c\<lparr>sch_mc := mc\<rparr>), s)
     }
   })"

section \<open>Responses\<close>

definition running_average :: "real \<Rightarrow> ncounter_t \<Rightarrow> ncycle_t \<Rightarrow> ncycle_t \<Rightarrow> real" where
  "running_average avg n till since = (avg * real (unat n) + real (unat till) - real (unat since)) / real (unat (n + 1))"

definition record_latencies :: "NVMainRequest \<Rightarrow> Scheduler \<Rightarrow> Scheduler option" where
  "record_latencies r c = do {
     cpp_assert (measuredLatencies c + 1 \<noteq> 0 \<and> measuredQueueLatencies c + 1 \<noteq> 0 \<and> measuredTotalLatencies c + 1 \<noteq> 0);
     Some (c\<lparr>averageLatency := running_average (averageLatency c) (measuredLatencies c) (completionCycle r) (issueCycle r),
       measuredLatencies := measuredLatencies c + 1,
       averageQueueLatency := running_average (averageQueueLatency c) (measuredQueueLatencies c) (issueCycle r) (arrivalCycle r),
       measuredQueueLatencies := measuredQueueLatencies c + 1,
       averageTotalLatency := running_average (averageTotalLatency c) (measuredTotalLatencies c) (completionCycle r) (arrivalCycle r),
       measuredTotalLatencies := measuredTotalLatencies c + 1\<rparr>)
   }"

definition FCFS_RequestComplete :: "req_ptr \<Rightarrow> Scheduler \<times> sim \<Rightarrow> (bool \<times> Scheduler \<times> sim) option" where
  "FCFS_RequestComplete rp st = (case st of (c, s) \<Rightarrow> do {
     r \<leftarrow> requests s rp;
     (c, s) \<leftarrow> (if rtype r = READ \<or> rtype r = READ_PRECHARGE \<or> rtype r = WRITE \<or> rtype r = WRITE_PRECHARGE
       then do {
         let r = r\<lparr>status := MEM_REQUEST_COMPLETE, completionCycle := GetCurrentCycle s\<rparr>;
         c \<leftarrow> record_latencies r c;
         Some (c, put_request rp r s)
       }
       else Some (c, s));
     (up, mc, s) \<leftarrow> MC_RequestComplete rp (sch_mc c, s);
     Some (up, c\<lparr>sch_mc := mc\<rparr>, s)
   })"

text \<open>A cancelled or paused write goes back to the head of the queue.\<close>

definition FRFCFS_RequestComplete :: "req_ptr \<Rightarrow> Scheduler \<times> sim \<Rightarrow> (bool \<times> Scheduler \<times> sim) option" where
  "FRFCFS_RequestComplete rp st = (case st of (c, s) \<Rightarrow> do {
     r \<leftarrow> requests s rp;
     if (rtype r = WRITE \<or> rtype r = WRITE_PRECHARGE) \<and> (has_flag r FLAG_CANCELLED \<or> has_flag r FLAG_PAUSED)
     then do { mc \<leftarrow> Prequeue 0 rp (sch_mc c); Some (False, c\<lparr>sch_mc := mc\<rparr>, s) }
     else FCFS_RequestComplete rp (c, s)
   })"

section \<open>Scheduling\<close>

abbreviation DummyPredicate :: predicate where
  "DummyPredicate \<equiv> \<lambda>_. True"

text \<open>The chosen transaction becomes commands, then the command queues and the wake-up for the next cycle.\<close>

definition run_choice :: "Params \<Rightarrow> req_ptr option \<Rightarrow> Scheduler \<times> sim \<Rightarrow> (Scheduler \<times> sim) option" where
  "run_choice p nextRequest st = (case st of (c, s) \<Rightarrow> do {
     st \<leftarrow> (case nextRequest of
         None \<Rightarrow> Some (sch_mc c, s)
       | Some rp \<Rightarrow> do { (_, st) \<leftarrow> IssueMemoryCommands p rp (sch_mc c, s); Some st });
     st \<leftarrow> CycleCommandQueues p st;
     (mc, s) \<leftarrow> MC_Cycle p st;
     Some (c\<lparr>sch_mc := mc\<rparr>, s)
   })"

definition FCFS_choose :: "Params \<Rightarrow> mcs \<Rightarrow> (req_ptr option \<times> mcs) option" where
  "FCFS_choose p st = do {
     (z, st) \<leftarrow> FindOldestReadyRequest p DummyPredicate 0 st;
     if z \<noteq> None then Some (z, st) else FindClosedBankRequest p DummyPredicate 0 st
   }"

definition FCFS_Cycle :: "Params \<Rightarrow> Scheduler \<times> sim \<Rightarrow> (Scheduler \<times> sim) option" where
  "FCFS_Cycle p st = (case st of (c, s) \<Rightarrow> do {
     (z, mc, s) \<leftarrow> FCFS_choose p (sch_mc c, s);
     run_choice p z (c\<lparr>sch_mc := mc\<rparr>, s)
   })"

text \<open>What decided the choice of \<^verbatim>\<open>FRFCFS\<close>.\<close>

datatype choice = Starved | Row_hit | Cached | Pause_write | Oldest | Closed_bank | No_choice

definition FRFCFS_choose :: "Params \<Rightarrow> mcs \<Rightarrow> (choice \<times> req_ptr option \<times> mcs) option" where
  "FRFCFS_choose p st = do {
     (z, st) \<leftarrow> FindStarvedRequest p DummyPredicate 0 st;
     if z \<noteq> None then Some (Starved, z, st)
     else do {
       (z, st) \<leftarrow> FindRowBufferHit p DummyPredicate 0 st;
       if z \<noteq> None then Some (Row_hit, z, st)
       else do {
         (z, st) \<leftarrow> FindCachedAddress p DummyPredicate 0 st;
         if z \<noteq> None then Some (Cached, z, st)
         else do {
           (rv, z, st) \<leftarrow> FindWriteStalledRead p DummyPredicate 0 st;
           if rv then Some (Pause_write, z, st)
           else do {
             (z, st) \<leftarrow> FindOldestReadyRequest p DummyPredicate 0 st;
             if z \<noteq> None then Some (Oldest, z, st)
             else do {
               (z, st) \<leftarrow> FindClosedBankRequest p DummyPredicate 0 st;
               Some (if z \<noteq> None then Closed_bank else No_choice, z, st)
             }
           }
         }
       }
     }
   }"

definition count_choice :: "choice \<Rightarrow> req_ptr option \<Rightarrow> Scheduler \<Rightarrow> Scheduler" where
  "count_choice ch z c =
     (case ch of
        Starved \<Rightarrow> c\<lparr>rb_miss := rb_miss c + 1, starvation_precharges := starvation_precharges c + 1\<rparr>
      | Row_hit \<Rightarrow> c\<lparr>rb_hits := rb_hits c + 1\<rparr>
      | Pause_write \<Rightarrow> if z \<noteq> None then c\<lparr>write_pauses := write_pauses c + 1\<rparr> else c
      | Oldest \<Rightarrow> c\<lparr>rb_miss := rb_miss c + 1\<rparr>
      | Closed_bank \<Rightarrow> c\<lparr>rb_miss := rb_miss c + 1\<rparr>
      | _ \<Rightarrow> c)"

definition FRFCFS_Cycle :: "Params \<Rightarrow> Scheduler \<times> sim \<Rightarrow> (Scheduler \<times> sim) option" where
  "FRFCFS_Cycle p st = (case st of (c, s) \<Rightarrow> do {
     (ch, z, mc, s) \<leftarrow> FRFCFS_choose p (sch_mc c, s);
     run_choice p z (count_choice ch z (c\<lparr>sch_mc := mc\<rparr>), s)
   })"

definition scheduler_CalculateStats :: "Params \<Rightarrow> Scheduler \<times> sim \<Rightarrow> Scheduler option" where
  "scheduler_CalculateStats p st = (case st of (c, s) \<Rightarrow> do {
     mc \<leftarrow> MC_CalculateStats p (sch_mc c, s);
     Some (c\<lparr>sch_mc := mc\<rparr>)
   })"

end
