(* ===== verification/Request_Heap.thy ===== *)
theory Request_Heap
  imports Standard_Rank_Safety
begin

text \<open>
  What issuing a command does to the heap of requests, on every level of the tree: no request that was
  there is deleted, and its kind and its address stay what they were. Whoever keeps requests in queues
  while commands are issued relies on it.
\<close>

section \<open>Sub-arrays\<close>

lemma put_then:
  "sim_rel (put_request rp r' s1) s' \<Longrightarrow> requests s1 rp = Some r \<Longrightarrow> same_request r r' \<Longrightarrow> sim_rel s s1 \<Longrightarrow> sim_rel s s'"
  by (rule sim_rel_trans [of s "put_request rp r' s1"]) (rule sim_rel_put)

lemma row_commands_rel:
  "post (SubArray_Activate p rp (sa, s)) (\<lambda>(b, sa', s'). sim_rel s s')"
  "post (SubArray_Precharge p rp (sa, s)) (\<lambda>(b, sa', s'). sim_rel s s')"
  "post (SubArray_Refresh p rp (sa, s)) (\<lambda>(b, sa', s'). sim_rel s s')"
  unfolding SubArray_Activate_def SubArray_Precharge_def SubArray_Refresh_def
  by (intro nvm_post CheckWritePausing_post; simp (no_asm_use) only: prod.case; hypsubst_thin?;
      ((erule (1) put_then)?, simp, simp?)?)+

lemma alloc_then: "sim_rel (s1\<lparr>eventQueue := snd (Event_alloc (eventQueue s1))\<rparr>) s' \<Longrightarrow> sim_rel s s1 \<Longrightarrow> sim_rel s s'"
  by (rule sim_rel_trans [of s "s1\<lparr>eventQueue := snd (Event_alloc (eventQueue s1))\<rparr>"]) (simp_all add: Event_alloc_def)

lemma column_commands_rel:
  "post (SubArray_Read p rp (sa, s)) (\<lambda>(b, sa', s'). sim_rel s s')"
  "post (SubArray_Write p rp (sa, s)) (\<lambda>(b, sa', s'). sim_rel s s')"
  subgoal
    unfolding SubArray_Read_def
    by (intro nvm_post CheckWritePausing_post; simp (no_asm_use) only: prod.case; ((drule (1) sim_rel_trans)+)?; assumption?)
  subgoal
    unfolding SubArray_Write_def
    by (intro nvm_post; simp (no_asm_use) only: prod.case; hypsubst_thin?; ((drule (1) sim_rel_trans)+)?; (simp (no_asm_simp))?; (erule (1) alloc_then)?)
  done

lemma IssueCommand_rel:
  assumes "requests s rp = Some r" "SubArray_IssueCommand p rp (sa, s) = Some (b, sa', s')"
  shows "sim_rel s s'"
  using assms
  by (cases rule: IssueCommand_unfold)
    (use row_commands_rel column_commands_rel in \<open>fastforce simp: post_def\<close>)+

section \<open>Banks\<close>

lemmas flow_posts = post_Some post_None post_bind post_if post_Let post_pair post_case_option post_cpp_assert

lemma bank_issue_child_rel:
  assumes "\<And>ok b' s'. sim_rel s s' \<Longrightarrow> Q (ok, b', s')"
  shows "post (bank_issue_child p i rp (b, s)) Q"
proof (rule post_any)
  fix x
  assume "bank_issue_child p i rp (b, s) = Some x"
  then obtain r ok sa s' where "requests s rp = Some r" "SubArray_IssueCommand p rp (bk_children b ! i, s) = Some (ok, sa, s')"
    "x = (ok, b\<lparr>bk_children := (bk_children b)[i := sa]\<rparr>, s')"
    by (auto simp: bank_issue_child_def SubArray_IssueCommand_def bind_eq_Some_conv)
  then show "Q x" using IssueCommand_rel assms by blast
qed

lemma bank_forward_rel:
  assumes "\<And>ok b' s'. sim_rel s s' \<Longrightarrow> Q (ok, b', s')"
  shows "post (bank_forward p rp (b, s)) Q"
  unfolding bank_forward_def
  by (intro flow_posts post_any [of "requests s rp"] post_any_pair [of "GetChild_req r d cs" for r d cs] bank_issue_child_rel assms)

lemma precharge_all_rel: "post (precharge_all p rp qs (b, s)) (\<lambda>(ok, b', s'). sim_rel s s')"
proof (induction qs arbitrary: b s)
  case (Cons c qs)
  show ?case
  proof (cases qs)
    case Nil
    then show ?thesis
      by (simp only: precharge_all.simps)
        (intro flow_posts post_any [of "GetChild_idx c ds" for ds] bank_issue_child_rel; simp)
  next
    case q: (Cons c' cs)
    show ?thesis
      unfolding q precharge_all.simps
      by (intro flow_posts post_any [of "requests s rp"] copy_request_post post_any [of "GetChild_idx c ds" for ds]
          bank_issue_child_rel post_weaken [OF Cons.IH [unfolded q]]; clarify?; ((drule (1) sim_rel_trans)+)?; simp)
  qed
qed (simp add: post_def)

lemma bank_commands_rel:
  "post (Bank_Activate p rp (b, s)) (\<lambda>(ok, b', s'). sim_rel s s')"
  "post (Bank_Read p rp (b, s)) (\<lambda>(ok, b', s'). sim_rel s s')"
  "post (Bank_Write p rp (b, s)) (\<lambda>(ok, b', s'). sim_rel s s')"
  "post (Bank_Refresh p rp (b, s)) (\<lambda>(ok, b', s'). sim_rel s s')"
  "post (Bank_Precharge p rp (b, s)) (\<lambda>(ok, b', s'). sim_rel s s')"
  unfolding Bank_Activate_def Bank_Read_def Bank_Write_def Bank_Refresh_def Bank_Precharge_def
  by (intro flow_posts post_any [of "requests s rp"] bank_forward_rel post_weaken [OF precharge_all_rel];
      (clarify; intro flow_posts)?; simp)+

lemma Bank_IssueCommand_rel: "post (Bank_IssueCommand p rp (b, s)) (\<lambda>(ok, b', s'). sim_rel s s')"
proof -
  have "post (bank_forward p rp (b, s)) (\<lambda>(ok, b', s'). sim_rel s s')" for b by (rule bank_forward_rel) simp
  moreover have "post (Bank_PowerDown p r b s \<bind> (\<lambda>(ok, b). Some (ok, b, s))) (\<lambda>(ok, b', s'). sim_rel s s')" for r b
    by (intro flow_posts post_any_pair [of "Bank_PowerDown p r b s"]) simp
  moreover have "post (case Bank_PowerUp p b s of (ok, b) \<Rightarrow> Some (ok, b, s)) (\<lambda>(ok, b', s'). sim_rel s s')" for b
    by (auto intro: post_Some split: prod.split)
  ultimately show ?thesis
    unfolding Bank_IssueCommand_def
    by (intro flow_posts post_any [of "requests s rp"] post_any_triple [of "Bank_IsIssuable p r b s" for r];
        simp add: bank_commands_rel split: OpType.split)
qed

section \<open>Ranks\<close>

lemma rank_issue_child_rel:
  assumes "\<And>ok k' s'. sim_rel s s' \<Longrightarrow> Q (ok, k', s')"
  shows "post (rank_issue_child p i rp (k, s)) Q"
  unfolding rank_issue_child_def
  by (intro flow_posts post_weaken [OF Bank_IssueCommand_rel]) (auto intro: assms flow_posts)

lemma rank_forward_rel:
  assumes "\<And>ok k' s'. sim_rel s s' \<Longrightarrow> Q (ok, k', s')"
  shows "post (rank_forward p rp (k, s)) Q"
  unfolding rank_forward_def
  by (intro flow_posts post_any [of "requests s rp"] post_any_pair [of "GetChild_req r d cs" for r d cs] rank_issue_child_rel assms)

lemma rank_issue_all_rel: "post (rank_issue_all p rp bs (k, s)) (\<lambda>(k', s'). sim_rel s s')"
proof (induction bs arbitrary: k s)
  case (Cons c bs)
  show ?case
    unfolding rank_issue_all.simps
    by (intro flow_posts post_any [of "GetChild_idx c ds" for ds] rank_issue_child_rel post_weaken [OF Cons.IH];
        clarify; drule (1) sim_rel_trans; simp)
qed (simp add: post_def)

lemma refresh_banks_rel: "post (refresh_banks p rp bs (k, s)) (\<lambda>(k', s'). sim_rel s s')"
proof (induction bs arbitrary: k s)
  case (Cons c bs)
  show ?case
    unfolding refresh_banks.simps fst_conv snd_conv
    by (intro flow_posts post_any [of "requests s rp"] copy_request_post post_any [of "GetChild_idx c ds" for ds]
        rank_issue_child_rel post_weaken [OF Cons.IH]; clarify; ((drule (1) sim_rel_trans)+)?; simp)
qed (simp add: post_def)

lemma insert_precharge_rel:
  assumes "\<And>s'. sim_rel s s' \<Longrightarrow> Q s'"
  shows "post (insert_precharge me due s) Q"
  unfolding insert_precharge_def
proof (intro flow_posts insert_response_post assms; hypsubst_thin)
  fix s'
  let ?s = "(put_request (nextReq s) (NVMainRequest_new\<lparr>rtype := PRECHARGE, owner := Some me\<rparr>) s)\<lparr>nextReq := Suc (nextReq s)\<rparr>"
  assume a: "sim_rel ?s s'"
  have "sim_rel s ?s" by (auto simp: sim_rel_def put_request_def)
  then show "sim_rel s s'" using a by (rule sim_rel_trans)
qed

lemma rank_commands_rel:
  "post (Rank_Activate p rp (k, s)) (\<lambda>(ok, k', s'). sim_rel s s')"
  "post (Rank_Read p rp (k, s)) (\<lambda>(ok, k', s'). sim_rel s s')"
  "post (Rank_Write p rp (k, s)) (\<lambda>(ok, k', s'). sim_rel s s')"
  "post (Rank_Precharge p rp (k, s)) (\<lambda>(ok, k', s'). sim_rel s s')"
  unfolding Rank_Activate_def Rank_Read_def Rank_Write_def Rank_Precharge_def
  by (intro flow_posts post_any [of "requests s rp"] post_any [of "bank_group b k" for b k] post_any [of "raw_next k" for k]
      post_any [of "Rank_Idle k" for k] rank_forward_rel insert_precharge_rel;
      simp (no_asm) only: prod.case; (erule (1) sim_rel_trans)?; simp?)+

lemma rank_power_rel:
  "post (Rank_PowerDown p rp (k, s)) (\<lambda>(ok, k', s'). sim_rel s s')"
  "post (Rank_PowerUp p rp (k, s)) (\<lambda>(ok, k', s'). sim_rel s s')"
  subgoal
    unfolding Rank_PowerDown_def
    by (intro post_bind post_weaken [OF rank_issue_all_rel]; clarify;
        intro flow_posts post_any [of "requests s rp" for s] insert_response_post; simp (no_asm) only: prod.case; erule (1) sim_rel_trans)
  subgoal
    unfolding Rank_PowerUp_def
    by (intro post_bind post_weaken [OF rank_issue_all_rel]; clarify; intro post_Let; clarsimp split: prod.split;
        intro conjI impI flow_posts insert_response_post; simp (no_asm) only: prod.case; erule (1) sim_rel_trans)
  done

lemma Rank_Refresh_rel: "post (Rank_Refresh p rp (k, s)) (\<lambda>(ok, k', s'). sim_rel s s')"
  unfolding Rank_Refresh_def
  by (intro flow_posts post_any [of "requests s rp" for s] post_weaken [OF refresh_banks_rel]; clarify?;
      intro flow_posts post_any [of "requests s rp" for s] insert_response_post post_any [of "raise_groups t b k" for t b k]
        post_any [of "raw_next k" for k]; hypsubst_thin; simp (no_asm) only: prod.case; erule (1) put_then; simp)

lemma Rank_IssueCommand_rel: "post (Rank_IssueCommand p rp (k, s)) (\<lambda>(ok, k', s'). sim_rel s s')"
  unfolding Rank_IssueCommand_def
  by (intro flow_posts post_any [of "requests s rp"] post_any_triple [of "Rank_IsIssuable p r k s" for r]
      rank_commands_rel rank_power_rel Rank_Refresh_rel) simp_all

end
