(* ===== verification/Rank_Bus_Safety.thy ===== *)
theory Rank_Bus_Safety
  imports Rank_Bus Request_Heap
begin

text \<open>
  Runs of the bus and its properties: every step of the bus is a run of each of its ranks, a column
  command on one rank delays those on the others by the time the data bus takes to switch, and so the
  data bursts of different ranks never overlap.
\<close>

interpretation standard_rank_child: module_child "rank_step p" for p
  by unfold_locales (auto simp: rank_step_def intro: rank_elapse)

lemma rank_run_mono: "(rank_step p)\<^sup>*\<^sup>* (k, s) (k', s') \<Longrightarrow> rank_mono k k'"
  by (induction rule: rtranclp_induct2)
    (auto simp: rank_step_def rank_keeps_def intro: rank_mono_trans dest!: rank_event_keeps)

section \<open>Postconditions\<close>

lemma Bus_IsIssuable_post:
  assumes "\<And>ok why dec cs. kids (rank_step p) (bus_children u, s) (cs, s) \<Longrightarrow> defaultField dec = defaultField (bus_decoder u)
      \<Longrightarrow> Q (ok, why, u\<lparr>bus_decoder := dec, bus_children := cs\<rparr>)"
  shows "post (Bus_IsIssuable p r u s) Q"
  unfolding Bus_IsIssuable_def
proof (intro flow_posts GetChild_req_post post_any_triple [of "Rank_IsIssuable p r k s" for k] assms)
  fix i ok why k'
  assume "Rank_IsIssuable p r (bus_children u ! i) s = Some (ok, why, k')"
  then have "rank_step p (bus_children u ! i, s) (k', s)" by (auto simp: rank_step_def intro: rank_query)
  then show "kids (rank_step p) (bus_children u, s) ((bus_children u)[i := k'], s)"
    by (intro standard_rank_child.kids_one) simp_all
qed

lemma bus_forward_post:
  assumes "rp < nextReq s"
    and "\<And>ok dec cs s'. kids (rank_step p) (bus_children u, s) (cs, s') \<Longrightarrow> sim_rel s s'
      \<Longrightarrow> defaultField dec = defaultField (bus_decoder u) \<Longrightarrow> Q (ok, u\<lparr>bus_decoder := dec, bus_children := cs\<rparr>, s')"
  shows "post (bus_forward p rp (u, s)) Q"
  unfolding bus_forward_def
proof (intro flow_posts post_any [of "requests s rp"] GetChild_req_post post_any_triple [of "Rank_IssueCommand p rp st" for st] assms)
  fix r i ok k' s'
  assume r: "requests s rp = Some r" and c: "Rank_IssueCommand p rp (bus_children u ! i, s) = Some (ok, k', s')"
  have rel: "sim_rel s s'" using postD [OF Rank_IssueCommand_rel c] by simp
  show "sim_rel s s'" by (rule rel)
  have "rank_step p (bus_children u ! i, s) (k', s')"
    using rank_issue [OF r assms(1) c] by (auto simp: rank_step_def)
  then show "kids (rank_step p) (bus_children u, s) ((bus_children u)[i := k'], s')"
    using sim_rel_time [OF rel] by (intro standard_rank_child.kids_one) simp_all
qed

section \<open>Switching between ranks\<close>

text \<open>The first cycle for a read or write on another rank after a command of kind \<open>ty\<close> at cycle \<open>now\<close>.\<close>

definition switch_after :: "Params \<Rightarrow> OpType \<Rightarrow> ncycle_t \<Rightarrow> rank_slot \<Rightarrow> ncycle_t" where
  "switch_after p ty now c =
     (case c of
        Rank_read _ \<Rightarrow>
          if ty = READ \<or> ty = READ_PRECHARGE then now + tBURST p + tRTRS p
          else if ty = WRITE \<or> ty = WRITE_PRECHARGE then now + tBURST p + tCWD p + tRTRS p - tCAS p else 0
      | Rank_write _ \<Rightarrow>
          if ty = READ \<or> ty = READ_PRECHARGE then now + tCAS p + tBURST p + tRTRS p - tCWD p
          else if ty = WRITE \<or> ty = WRITE_PRECHARGE then now + tBURST p + tOST p else 0
      | _ \<Rightarrow> 0)"

lemma Rank_Notify_switch: "switch_after p ty (GetCurrentCycle s) c \<le> rank_earliest c (Rank_Notify p ty s k)"
  by (cases c) (simp_all add: switch_after_def Rank_Notify_def Let_def le_max_iff_disj)

lemma GetChild_rank:
  assumes "translated (address r)" "defaultField dec = RANK_FIELD" "GetChild_req r dec cs = Some (i, dec')"
  shows "i = unat (rank (address r))" "dec' = dec"
  using assms by (auto simp: GetChild_req_def TranslateRequest_def split: if_splits)

text \<open>The ranks that have been told.\<close>

definition told :: "Params \<Rightarrow> NVMainRequest \<Rightarrow> ncycle_t \<Rightarrow> nat set \<Rightarrow> StandardRank list \<Rightarrow> bool" where
  "told p r now js ks \<longleftrightarrow> (\<forall>j \<in> js. j < length ks \<longrightarrow> j \<noteq> unat (rank (address r))
     \<longrightarrow> (\<forall>c. switch_after p (rtype r) now c \<le> rank_earliest c (ks ! j)))"

lemma told_kids:
  assumes "told p r now js ks" "kids (rank_step p) (ks, s) (ks', s')"
  shows "told p r now js ks'"
  unfolding told_def
proof (intro ballI impI allI)
  fix j c
  assume j: "j \<in> js" "j < length ks'" "j \<noteq> unat (rank (address r))"
  then have "switch_after p (rtype r) now c \<le> rank_earliest c (ks ! j)" and "j < length ks"
    using assms by (simp_all add: told_def kids_def)
  moreover have "rank_mono (ks ! j) (ks' ! j)" using kids_run [OF assms(2)] \<open>j < length ks\<close> rank_run_mono by blast
  ultimately show "switch_after p (rtype r) now c \<le> rank_earliest c (ks' ! j)"
    unfolding rank_mono_def by (blast intro: order_trans)
qed

lemma notify_kids: "kids (rank_step p) (ks, s) (ks[j := Rank_Notify p ty s (ks ! j)], s)"
  by (intro standard_rank_child.kids_one) (auto simp: rank_step_def intro: rank_notify)

lemma notify_others_post:
  "post (notify_others p rp s cs u) (\<lambda>u'. kids (rank_step p) (bus_children u, s) (bus_children u', s)
     \<and> defaultField (bus_decoder u') = defaultField (bus_decoder u)
     \<and> (\<forall>r. requests s rp = Some r \<longrightarrow> translated (address r) \<longrightarrow> defaultField (bus_decoder u) = RANK_FIELD
         \<longrightarrow> told p r (GetCurrentCycle s) (unat ` set cs) (bus_children u')))"
proof (induction cs arbitrary: u)
  case Nil
  then show ?case by (simp add: post_def told_def)
next
  case (Cons c cs)
  show ?case
    unfolding notify_others.simps
  proof (intro flow_posts post_any [of "requests s rp"] post_any_pair [of "GetChild_req r d ks" for r d ks]
      GetChild_idx_post post_weaken [OF Cons.IH]; elim conjE)
    fix r :: NVMainRequest and i dec j u'
    let ?ks = "if i \<noteq> j then (bus_children u)[j := Rank_Notify p (rtype r) s (bus_children u ! j)] else bus_children u"
    assume r: "requests s rp = Some r" and g: "GetChild_req r (bus_decoder u) (bus_children u) = Some (i, dec)"
      and j: "j < length (bus_children u)" "j = unat c"
      and u': "kids (rank_step p) (bus_children (u\<lparr>bus_decoder := dec, bus_children := ?ks\<rparr>), s) (bus_children u', s)"
        "defaultField (bus_decoder u') = defaultField (bus_decoder (u\<lparr>bus_decoder := dec, bus_children := ?ks\<rparr>))"
        "\<forall>r. requests s rp = Some r \<longrightarrow> translated (address r)
          \<longrightarrow> defaultField (bus_decoder (u\<lparr>bus_decoder := dec, bus_children := ?ks\<rparr>)) = RANK_FIELD
          \<longrightarrow> told p r (GetCurrentCycle s) (unat ` set cs) (bus_children u')"
    have f: "defaultField dec = defaultField (bus_decoder u)"
      using g by (auto simp: GetChild_req_def bind_eq_Some_conv split: if_splits dest: TranslateRequest_field)
    have k: "kids (rank_step p) (bus_children u, s) (?ks, s)" using notify_kids by simp
    have "told p r (GetCurrentCycle s) (unat ` set (c # cs)) (bus_children u')"
      if tr: "translated (address r)" "defaultField (bus_decoder u) = RANK_FIELD"
    proof -
      have "i = unat (rank (address r))" by (rule GetChild_rank(1) [OF tr g])
      then have "told p r (GetCurrentCycle s) {j} ?ks" using j Rank_Notify_switch by (auto simp: told_def)
      then have "told p r (GetCurrentCycle s) {j} (bus_children u')" using told_kids u'(1) by simp
      moreover have "told p r (GetCurrentCycle s) (unat ` set cs) (bus_children u')" using u'(3) r tr f by simp
      ultimately show ?thesis using j(2) by (auto simp: told_def)
    qed
    then show "kids (rank_step p) (bus_children u, s) (bus_children u', s)
      \<and> defaultField (bus_decoder u') = defaultField (bus_decoder u)
      \<and> (\<forall>r. requests s rp = Some r \<longrightarrow> translated (address r) \<longrightarrow> defaultField (bus_decoder u) = RANK_FIELD
          \<longrightarrow> told p r (GetCurrentCycle s) (unat ` set (c # cs)) (bus_children u'))"
      using kids_trans [OF k] u'(1,2) f r by simp
  qed
qed

section \<open>Effects\<close>

definition bus_keeps :: "Params \<Rightarrow> RankBus \<times> sim \<Rightarrow> RankBus \<times> sim \<Rightarrow> bool" where
  "bus_keeps p st st' \<longleftrightarrow> kids (rank_step p) (bus_children (fst st), snd st) (bus_children (fst st'), snd st')
     \<and> defaultField (bus_decoder (fst st')) = defaultField (bus_decoder (fst st))"

lemma bus_keeps_refl: "bus_keeps p st st"
  by (simp add: bus_keeps_def)

lemma bus_keeps_trans: "bus_keeps p a b \<Longrightarrow> bus_keeps p b c \<Longrightarrow> bus_keeps p a c"
  unfolding bus_keeps_def by (auto intro: kids_trans)

text \<open>A request that has been issued: the query comes first, then the command, then the news for the others.\<close>

lemma Bus_IssueCommand_unfold:
  assumes "requests s rp = Some r" "rp < nextReq s" "Bus_IssueCommand p rp (u, s) = Some (ok, u', s')"
  obtains why u1 u2 where "Bus_IsIssuable p r u s = Some (True, why, u1)" "bus_keeps p (u, s) (u1, s)"
    "bus_forward p rp (u1, s) = Some (ok, u2, s')" "bus_keeps p (u1, s) (u2, s')" "sim_rel s s'"
    "ok \<longrightarrow> notify_others p rp s' (all_children (bus_children u2)) u2 = Some u'" "\<not> ok \<longrightarrow> u' = u2"
proof -
  obtain why u1 u2 where i: "Bus_IsIssuable p r u s = Some (True, why, u1)" "bus_forward p rp (u1, s) = Some (ok, u2, s')"
    "ok \<longrightarrow> notify_others p rp s' (all_children (bus_children u2)) u2 = Some u'" "\<not> ok \<longrightarrow> u' = u2"
    using assms by (auto simp: Bus_IssueCommand_def bind_eq_Some_conv split: if_splits)
  have "post (Bus_IsIssuable p r u s) (\<lambda>(ok, why, u'). bus_keeps p (u, s) (u', s))"
    by (rule Bus_IsIssuable_post) (simp add: bus_keeps_def)
  from postD [OF this i(1)] have 1: "bus_keeps p (u, s) (u1, s)" by simp
  have "post (bus_forward p rp (u1, s)) (\<lambda>(ok, u', s'). bus_keeps p (u1, s) (u', s') \<and> sim_rel s s')"
    by (rule bus_forward_post [OF assms(2)]) (simp add: bus_keeps_def)
  from postD [OF this i(2)] show thesis using that 1 i by simp
qed

lemma Bus_IssueCommand_keeps:
  assumes "requests s rp = Some r" "rp < nextReq s" "Bus_IssueCommand p rp (u, s) = Some (ok, u', s')"
  shows "bus_keeps p (u, s) (u', s')" "sim_rel s s'"
proof -
  obtain why u1 u2 where i: "bus_keeps p (u, s) (u1, s)" "bus_keeps p (u1, s) (u2, s')" "sim_rel s s'"
    "ok \<longrightarrow> notify_others p rp s' (all_children (bus_children u2)) u2 = Some u'" "\<not> ok \<longrightarrow> u' = u2"
    by (rule Bus_IssueCommand_unfold [OF assms])
  have "bus_keeps p (u2, s') (u', s')"
    using i(4,5) postD [OF notify_others_post [of p rp s' _ u2]] by (cases ok) (auto simp: bus_keeps_def)
  then show "bus_keeps p (u, s) (u', s')" using i(1,2) by (blast intro: bus_keeps_trans)
  show "sim_rel s s'" by (rule i(3))
qed

lemma all_children_idx: "j < length cs \<Longrightarrow> length cs < 2 ^ 64 \<Longrightarrow> j \<in> unat ` set (all_children cs)"
  by (auto simp: all_children_def unat_of_nat take_bit_nat_eq_self image_iff intro!: bexI [of _ j])

lemma Bus_IssueCommand_told:
  assumes req: "requests s rp = Some r" "rp < nextReq s" "Bus_IssueCommand p rp (u, s) = Some (True, u', s')"
    and dec: "translated (address r)" "defaultField (bus_decoder u) = RANK_FIELD" "length (bus_children u) < 2 ^ 64"
    and j: "j < length (bus_children u)" "j \<noteq> unat (rank (address r))"
  shows "switch_after p (rtype r) (GetCurrentCycle s) c \<le> rank_earliest c (bus_children u' ! j)"
proof -
  obtain why u1 u2 where i: "bus_keeps p (u, s) (u1, s)" "bus_keeps p (u1, s) (u2, s')" "sim_rel s s'"
    "notify_others p rp s' (all_children (bus_children u2)) u2 = Some u'"
    by (rule Bus_IssueCommand_unfold [OF req]) blast
  obtain r' where r': "requests s' rp = Some r'" "same_request r r'" using sim_rel_request [OF i(3) req(2,1)] by blast
  have u2: "defaultField (bus_decoder u2) = RANK_FIELD" "length (bus_children u2) = length (bus_children u)"
    using bus_keeps_trans [OF i(1,2)] dec(2) by (simp_all add: bus_keeps_def kids_def)
  have u': "told p r' (GetCurrentCycle s') (unat ` set (all_children (bus_children u2))) (bus_children u')"
    "length (bus_children u') = length (bus_children u2)"
    using postD [OF notify_others_post i(4)] r' u2(1) dec(1) by (auto simp: same_request_def kids_def)
  have "j \<in> unat ` set (all_children (bus_children u2))" using all_children_idx dec(3) j(1) u2(2) by metis
  then show ?thesis
    using u' u2(2) j r'(2) sim_rel_time [OF i(3)] by (auto simp: told_def same_request_def)
qed

section \<open>Runs\<close>

inductive bus_event :: "Params \<Rightarrow> RankBus \<times> sim \<Rightarrow> RankBus \<times> sim \<Rightarrow> bool" for p where
  bus_issue: "requests s rp = Some r \<Longrightarrow> rp < nextReq s \<Longrightarrow> Bus_IssueCommand p rp (u, s) = Some (ok, u', s')
    \<Longrightarrow> bus_event p (u, s) (u', s')"
| bus_query: "Bus_IsIssuable p r u s = Some (ok, why, u') \<Longrightarrow> bus_event p (u, s) (u', s)"
| bus_next: "Bus_NextIssuable p r u = Some (t, u') \<Longrightarrow> bus_event p (u, s) (u', s)"
| bus_child: "bus_child_complete p i j l rp (u, s) = Some (up, u', s') \<Longrightarrow> bus_event p (u, s) (u', s')"
| bus_rank: "bus_rank_complete i rp (u, s) = Some (up, u', s') \<Longrightarrow> bus_event p (u, s) (u', s')"
| bus_cycle: "bus_event p (u, s) (Bus_Cycle p n u, s)"
| bus_stats: "Bus_CalculateStats p s u = Some u' \<Longrightarrow> bus_event p (u, s) (u', s)"
| bus_elapse: "GetCurrentCycle s \<le> GetCurrentCycle s' \<Longrightarrow> bus_event p (u, s) (u, s')"

lemma Bus_RequestComplete_frame:
  assumes "Bus_RequestComplete rp (u, s) = Some (up, u', s')"
  shows "u' = u" "GetCurrentCycle s' = GetCurrentCycle s"
proof -
  have "post (Bus_RequestComplete rp (u, s)) (\<lambda>(up, u', s'). u' = u \<and> GetCurrentCycle s' = GetCurrentCycle s)"
    unfolding Bus_RequestComplete_def by (intro nvm_post) (auto dest: sim_rel_time)
  from postD [OF this assms] show "u' = u" "GetCurrentCycle s' = GetCurrentCycle s" by simp_all
qed

text \<open>A step of one rank, then perhaps the response of the bus.\<close>

lemma child_then_complete:
  assumes "rank_step p (bus_children u ! i, s) (k, s1)" "GetCurrentCycle s1 = GetCurrentCycle s"
    and "(if up1 then Bus_RequestComplete rp (u\<lparr>bus_children := (bus_children u)[i := k]\<rparr>, s1)
      else Some (False, u\<lparr>bus_children := (bus_children u)[i := k]\<rparr>, s1)) = Some (up, u', s')"
  shows "bus_keeps p (u, s) (u', s')"
proof -
  have "u' = u\<lparr>bus_children := (bus_children u)[i := k]\<rparr>" "GetCurrentCycle s' = GetCurrentCycle s1"
    using assms(3) by (auto split: if_splits dest: Bus_RequestComplete_frame)
  moreover have "kids (rank_step p) (bus_children u, s) ((bus_children u)[i := k], s1)"
    using assms(1,2) by (intro standard_rank_child.kids_one) simp_all
  ultimately show ?thesis using standard_rank_child.kids_then_elapse by (simp add: bus_keeps_def)
qed

lemma rank_child_complete_clock:
  assumes "rank_child_complete p i j rp (k, s) = Some (up, k', s')"
  shows "GetCurrentCycle s' = GetCurrentCycle s"
  using assms
  by (auto simp: rank_child_complete_def bind_eq_Some_conv Let_def split: if_splits
      dest!: child_complete_step Rank_RequestComplete_keeps(4))

lemma ranks_stats_kids: "ranks_stats p s ks = Some ks' \<Longrightarrow> kids (rank_step p) (ks, s) (ks', s)"
proof -
  assume a: "ranks_stats p s ks = Some ks'"
  have "length ks' = length ks \<and> (\<forall>j < length ks. Rank_CalculateStats p s (ks ! j) = Some (ks' ! j))"
    using a by (induction ks arbitrary: ks') (auto simp: bind_eq_Some_conv nth_Cons split: nat.splits)
  then show ?thesis by (intro kids_all) (auto simp: rank_step_def intro: rank_stats)
qed

lemma bus_event_keeps: "bus_event p st st' \<Longrightarrow> bus_keeps p st st'"
proof (induction rule: bus_event.induct)
  case (bus_issue s rp r u ok u' s')
  then show ?case by (rule Bus_IssueCommand_keeps)
next
  case (bus_query r u s ok why u')
  have "post (Bus_IsIssuable p r u s) (\<lambda>(ok, why, u'). bus_keeps p (u, s) (u', s))"
    by (rule Bus_IsIssuable_post) (simp add: bus_keeps_def)
  from postD [OF this bus_query] show ?case by simp
next
  case (bus_next r u t u' s)
  then obtain i dec k where g: "GetChild_req r (bus_decoder u) (bus_children u) = Some (i, dec)"
    "Rank_NextIssuable p r (bus_children u ! i) = Some (t, k)" "u' = u\<lparr>bus_decoder := dec, bus_children := (bus_children u)[i := k]\<rparr>"
    by (auto simp: Bus_NextIssuable_def bind_eq_Some_conv)
  have "rank_step p (bus_children u ! i, s) (k, s)" using g(2) by (auto simp: rank_step_def intro: rank_next)
  then have "kids (rank_step p) (bus_children u, s) ((bus_children u)[i := k], s)"
    by (intro standard_rank_child.kids_one) simp_all
  moreover have "defaultField dec = defaultField (bus_decoder u)"
    using g(1) by (auto simp: GetChild_req_def bind_eq_Some_conv split: if_splits dest: TranslateRequest_field)
  ultimately show ?case using g(3) by (simp add: bus_keeps_def)
next
  case (bus_child i j l rp u s up u' s')
  then obtain up1 k s1 where c: "rank_child_complete p j l rp (bus_children u ! i, s) = Some (up1, k, s1)"
    "(if up1 then Bus_RequestComplete rp (u\<lparr>bus_children := (bus_children u)[i := k]\<rparr>, s1)
      else Some (False, u\<lparr>bus_children := (bus_children u)[i := k]\<rparr>, s1)) = Some (up, u', s')"
    by (auto simp: bus_child_complete_def bind_eq_Some_conv Let_def)
  show ?case
    by (rule child_then_complete [OF _ rank_child_complete_clock [OF c(1)] c(2)]) (use c(1) in \<open>auto simp: rank_step_def intro: rank_child\<close>)
next
  case (bus_rank i rp u s up u' s')
  then obtain up1 k s1 where c: "Rank_RequestComplete rp (bus_children u ! i, s) = Some (up1, k, s1)"
    "(if up1 then Bus_RequestComplete rp (u\<lparr>bus_children := (bus_children u)[i := k]\<rparr>, s1)
      else Some (False, u\<lparr>bus_children := (bus_children u)[i := k]\<rparr>, s1)) = Some (up, u', s')"
    by (auto simp: bus_rank_complete_def bind_eq_Some_conv Let_def)
  show ?case
    by (rule child_then_complete [OF _ Rank_RequestComplete_keeps(4) [OF c(1)] c(2)]) (use c(1) in \<open>auto simp: rank_step_def intro: rank_response\<close>)
next
  case (bus_cycle u s n)
  have "kids (rank_step p) (bus_children u, s) (map (Rank_Cycle p n) (bus_children u), s)"
    by (intro kids_all) (auto simp: rank_step_def intro: rank_cycle)
  then show ?case by (simp add: bus_keeps_def Bus_Cycle_def)
next
  case (bus_stats s u u')
  then show ?case by (auto simp: bus_keeps_def Bus_CalculateStats_def bind_eq_Some_conv intro: ranks_stats_kids)
next
  case (bus_elapse s s' u)
  then show ?case by (simp add: bus_keeps_def standard_rank_child.kids_elapse)
qed

lemma bus_run_keeps: "(bus_event p)\<^sup>*\<^sup>* st st' \<Longrightarrow> bus_keeps p st st'"
  by (induction rule: rtranclp_induct) (auto intro: bus_keeps_refl bus_keeps_trans bus_event_keeps)

fun bus_earliest :: "nat \<times> rank_slot \<Rightarrow> RankBus \<Rightarrow> ncycle_t" where
  "bus_earliest (j, c) u = (if j < length (bus_children u) then rank_earliest c (bus_children u ! j) else 0)"

text \<open>A translated request for rank \<open>j\<close> of kind \<open>c\<close> is accepted.\<close>

definition bus_accept :: "Params \<Rightarrow> nat \<times> rank_slot \<Rightarrow> RankBus \<times> sim \<Rightarrow> RankBus \<times> sim \<Rightarrow> bool" where
  "bus_accept p jc st st' \<longleftrightarrow> (\<exists>rp r. requests (snd st) rp = Some r \<and> rp < nextReq (snd st) \<and> translated (address r)
     \<and> defaultField (bus_decoder (fst st)) = RANK_FIELD \<and> fst jc = unat (rank (address r))
     \<and> rank_slot_of r (bus_children (fst st) ! fst jc) = Some (snd jc) \<and> Bus_IssueCommand p rp st = Some (True, st'))"

lemma rank_slot_mono: "rank_mono k k' \<Longrightarrow> rank_slot_of r k' = rank_slot_of r k"
  by (simp add: rank_slot_of_def rank_mono_def same_shape_def group_of_def)

lemma bus_keeps_earliest: "bus_keeps p st st' \<Longrightarrow> bus_earliest jc (fst st) \<le> bus_earliest jc (fst st')"
  using rank_run_mono [unfolded rank_mono_def] by (cases jc) (auto simp: bus_keeps_def kids_def)

lemma bus_accept_earliest: "bus_accept p jc st st' \<Longrightarrow> bus_earliest jc (fst st) \<le> GetCurrentCycle (snd st)"
proof -
  assume "bus_accept p jc st st'"
  then obtain rp r where r: "requests (snd st) rp = Some r" "rp < nextReq (snd st)" "translated (address r)"
    "defaultField (bus_decoder (fst st)) = RANK_FIELD" "fst jc = unat (rank (address r))"
    "rank_slot_of r (bus_children (fst st) ! fst jc) = Some (snd jc)"
    "Bus_IssueCommand p rp (fst st, snd st) = Some (True, fst st', snd st')"
    by (auto simp: bus_accept_def)
  obtain why u1 u2 where i: "bus_keeps p (fst st, snd st) (u1, snd st)" "bus_forward p rp (u1, snd st) = Some (True, u2, snd st')"
    by (rule Bus_IssueCommand_unfold [OF r(1,2,7)])
  then obtain i dec k where g: "GetChild_req r (bus_decoder u1) (bus_children u1) = Some (i, dec)"
    "Rank_IssueCommand p rp (bus_children u1 ! i, snd st) = Some (True, k, snd st')"
    using r(1) by (auto simp: bus_forward_def bind_eq_Some_conv)
  have "i = fst jc" "i < length (bus_children u1)"
    using GetChild_rank(1) [OF r(3) _ g(1)] g(1) i(1) r(4,5)
    by (auto simp: bus_keeps_def GetChild_req_def bind_eq_Some_conv split: if_splits)
  moreover have "rank_mono (bus_children (fst st) ! i) (bus_children u1 ! i)"
    using i(1) \<open>i < length (bus_children u1)\<close> by (auto simp: bus_keeps_def kids_def dest: rank_run_mono)
  ultimately have "rank_accept p (snd jc) (bus_children u1 ! i, snd st) (k, snd st')"
    using r(1,2,6) g(2) rank_slot_mono by (auto simp: rank_accept_def)
  from rank_accept_earliest [OF this] have "rank_earliest (snd jc) (bus_children u1 ! i) \<le> GetCurrentCycle (snd st)" by simp
  moreover have "bus_earliest jc (fst st) \<le> bus_earliest jc u1" using bus_keeps_earliest [OF i(1)] by simp
  ultimately show ?thesis
    using \<open>i = fst jc\<close> \<open>i < length (bus_children u1)\<close> by (cases jc) (auto intro: order_trans)
qed

interpretation rank_bus: timed_module "bus_event p" "bus_accept p" "\<lambda>st. GetCurrentCycle (snd st)"
  "\<lambda>c st. bus_earliest c (fst st)" for p
  by unfold_locales (auto intro: bus_keeps_earliest bus_event_keeps bus_accept_earliest)

section \<open>The data bus\<close>

definition reads_data :: "OpType \<Rightarrow> bool" where
  "reads_data ty \<longleftrightarrow> ty = READ \<or> ty = READ_PRECHARGE"

definition column_command :: "OpType \<Rightarrow> bool" where
  "column_command ty \<longleftrightarrow> reads_data ty \<or> ty = WRITE \<or> ty = WRITE_PRECHARGE"

text \<open>The cycles in which the first burst of a command issued at \<open>now\<close> is on the bus: from \<^verbatim>\<open>tCAS\<close> after a
  read or \<^verbatim>\<open>tCWD\<close> after a write, for \<^verbatim>\<open>tBURST\<close> cycles.\<close>

definition data_burst :: "Params \<Rightarrow> OpType \<Rightarrow> ncycle_t \<Rightarrow> nat set" where
  "data_burst p ty now =
     (let start = unat now + unat (if reads_data ty then tCAS p else tCWD p) in {start..<start + unat (tBURST p)})"

text \<open>The clock is far from its maximum and the latencies of reads and writes differ by less than it has run.\<close>

definition clock_fits :: "Params \<Rightarrow> ncycle_t \<Rightarrow> bool" where
  "clock_fits p now \<longleftrightarrow> unat now + unat (tCAS p) + unat (tCWD p) + unat (tBURST p) + unat (tRTRS p) + unat (tOST p) < 2 ^ 64
     \<and> unat (tCWD p) \<le> unat now + unat (tCAS p) + unat (tBURST p) + unat (tRTRS p)
     \<and> unat (tCAS p) \<le> unat now + unat (tBURST p) + unat (tCWD p) + unat (tRTRS p)"

lemma column_slot:
  assumes "column_command (rtype r)"
  shows "rank_slot_of r k = Some ((if reads_data (rtype r) then Rank_read else Rank_write) (group_of r k))"
  using assms by (auto simp: column_command_def reads_data_def rank_slot_of_def)

lemma switch_separates:
  assumes c: "column_command ty" "column_command ty2" and fits: "clock_fits p now"
    and t: "switch_after p ty now ((if reads_data ty2 then Rank_read else Rank_write) g) \<le> t"
  shows "data_burst p ty now \<inter> data_burst p ty2 t = {}"
proof -
  have "unat now + unat (if reads_data ty then tCAS p else tCWD p) + unat (tBURST p)
      \<le> unat t + unat (if reads_data ty2 then tCAS p else tCWD p)"
    using c t fits
    by (auto simp: column_command_def reads_data_def switch_after_def clock_fits_def word_le_nat_alt unat_add_u64 unat_sub_u64
        split: if_splits)
  then show ?thesis by (auto simp: data_burst_def Let_def)
qed

section \<open>The example\<close>

lemma rank_read_result:
  assumes wf: "rank_wf k" "bankgroupNum k \<noteq> 0" and r: "requests s rp = Some r" "rtype r = READ"
    and dec: "translated (address r)" "defaultField (rk_decoder k) = BANK_FIELD"
      "unat (bank (address r)) < length (rk_children k)" "bank (address r) < bankCount k"
    and ready: "max (sbg_nextRead k ! group_of r k) (dbg_nextRead k) \<le> GetCurrentCycle s"
    and b: "bank_takes p rp r (rk_children k ! unat (bank (address r))) s"
  shows "\<exists>why. Rank_IsIssuable p r k s = Some (True, why, k)" "\<exists>k' s'. Rank_IssueCommand p rp (k, s) = Some (True, k', s')"
proof -
  let ?i = "unat (bank (address r))"
  obtain why b' s' where q: "Bank_IsIssuable p r (rk_children k ! ?i) s = Some (True, why, rk_children k ! ?i)"
    and c: "Bank_IssueCommand p rp (rk_children k ! ?i, s) = Some (True, b', s')"
    using bank_takes_returns [OF b] by blast
  have g: "bank_group (bank (address r)) k = Some (group_of r k)"
    using wf group_less [OF wf] by (simp add: bank_group_def group_of_def cpp_assert_def)
  have i: "Rank_IsIssuable p r k s = Some (True, why, k)"
    using q g ready r(2) GetChild_bank [OF dec(1-3)]
    by (simp add: Rank_IsIssuable_def rank_ask_def rank_child_issuable_def Let_def not_less [symmetric])
  then show "\<exists>why. Rank_IsIssuable p r k s = Some (True, why, k)" by blast
  show "\<exists>k' s'. Rank_IssueCommand p rp (k, s) = Some (True, k', s')"
    using i c g ready r dec(4) GetChild_bank [OF dec(1-3)]
    by (simp add: Rank_IssueCommand_def Rank_Read_def rank_forward_def rank_issue_child_def Let_def not_le not_less [symmetric])
qed

text \<open>Two ranks with an open row each, and a read for each of them.\<close>

definition open_bank :: DDR3Bank where
  "open_bank = (sample_bank DDR3BANK_OPEN)\<lparr>bk_children := [open_array], activeSubArrayQueue := [0]\<rparr>"

definition open_rank :: StandardRank where
  "open_rank = sample_rank\<lparr>rk_children := [open_bank, open_bank]\<rparr>"

definition bus_request :: "u64 \<Rightarrow> NVMainRequest" where
  "bus_request rk = NVMainRequest_new\<lparr>rtype := READ,
     address := (NVMAddress_new zero_address)\<lparr>row := 5, rank := rk, translated := True\<rparr>\<rparr>"

definition bus_sim :: "ncycle_t \<Rightarrow> sim" where
  "bus_sim now = \<lparr>eventQueue = (EventQueue_new 1)\<lparr>currentCycle := now\<rparr>,
     requests = [0 \<mapsto> bus_request 0, 1 \<mapsto> bus_request 1], nextReq = 2, simInterface = None, rand_state = (id, 0)\<rparr>"

definition sample_bus :: RankBus where
  "sample_bus = RankBus_SetConfig (rank_params\<lparr>RANKS := 2\<rparr>) True AddressTranslator_new (\<lambda>_. open_rank)
     \<lparr>bus_this = 20, bus_parent = 21, bus_children = [], bus_decoder = AddressTranslator_new, numRanks = 0, offChipDelay = Some 0\<rparr>"

lemma bus_request_fields [simp]:
  "rtype (bus_request rk) = READ" "translated (address (bus_request rk))" "subarray (address (bus_request rk)) = 0"
  "bank (address (bus_request rk)) = 0" "rank (address (bus_request rk)) = rk" "row (address (bus_request rk)) = 5"
  by (simp_all add: bus_request_def NVMainRequest_new_def NVMAddress_new_def zero_address_def)

lemma bus_sim_fields [simp]:
  "GetCurrentCycle (bus_sim now) = now" "nextReq (bus_sim now) = 2" "live (eventQueue (bus_sim now))" "store_ok (bus_sim now)"
  "requests (bus_sim now) 0 = Some (bus_request 0)" "requests (bus_sim now) (Suc 0) = Some (bus_request 1)"
  by (simp_all add: bus_sim_def store_ok_def)

lemma sample_bus_fields [simp]:
  "bus_children sample_bus = [open_rank, open_rank]" "defaultField (bus_decoder sample_bus) = RANK_FIELD"
  by (simp_all add: sample_bus_def RankBus_SetConfig_def SetDefaultField_def upt_rec Let_def)

lemma open_rank_fields [simp]:
  "rk_children open_rank = [open_bank, open_bank]" "bankgroupNum open_rank = 2" "bankCount open_rank = 2"
  "defaultField (rk_decoder open_rank) = BANK_FIELD" "sbg_nextRead open_rank ! 0 = 1" "dbg_nextRead open_rank = 1"
  "rank_wf open_rank" "length (sbg_nextRead open_rank) = 16"
proof -
  show "rank_wf open_rank" using sample_rank_wf by (simp add: open_rank_def rank_wf_def)
  then show "length (sbg_nextRead open_rank) = 16" by (simp add: rank_wf_def)
qed (simp_all add: open_rank_def sample_rank_def StandardRank_SetConfig_def cpp_assert_def Let_def StandardRank_new_def nth_append)

lemma open_bank_takes:
  assumes "requests (bus_sim now) rp = Some (bus_request rk)" "rp < 2"
  shows "bank_takes rank_params rp (bus_request rk) open_bank (bus_sim now)"
proof -
  have "data_fits rank_params (bus_request rk)"
    by (simp add: bus_request_def data_fits_def NVMainRequest_new_def NVMDataBlock_new_def block_wf_def)
  moreover have "plain_config rank_params open_array" by (simp add: plain_config_def rank_params_def)
  ultimately show ?thesis
    using assms
    by (simp add: bank_takes_def child_takes_def open_bank_def ready_def addressed_def bank_ready_def bank_slot_of_def open_inv_def
        open_array_def sample_bank_def DDR3Bank_new_def)
qed

lemma GetChild_rank_eq:
  assumes "translated (address r)" "defaultField dec = RANK_FIELD" "unat (rank (address r)) < length cs"
  shows "GetChild_req r dec cs = Some (unat (rank (address r)), dec)"
  using assms by (simp add: GetChild_req_def TranslateRequest_def)

lemma two_ranks_issue:
  assumes u: "bus_children u = [k0, k1]" "defaultField (bus_decoder u) = RANK_FIELD"
    and r: "requests s rp = Some r" "rp < nextReq s" "translated (address r)" "unat (rank (address r)) < 2"
    and c: "Rank_IsIssuable p r ([k0, k1] ! unat (rank (address r))) s = Some (True, why, [k0, k1] ! unat (rank (address r)))"
      "Rank_IssueCommand p rp ([k0, k1] ! unat (rank (address r)), s) = Some (True, k', s')"
  shows "Bus_IssueCommand p rp (u, s) = Some (True, u\<lparr>bus_children := (map (Rank_Notify p (rtype r) s')
    [k0, k1])[unat (rank (address r)) := k']\<rparr>, s')"
proof -
  let ?i = "unat (rank (address r))"
  have rel: "sim_rel s s'" using postD [OF Rank_IssueCommand_rel c(2)] by simp
  then obtain r' where r': "requests s' rp = Some r'" "address r' = address r" "rtype r' = rtype r"
    using sim_rel_request [OF rel r(2,1)] by (auto simp: same_request_def)
  have same: "[k0, k1][?i := [k0, k1] ! ?i] = [k0, k1]" by simp
  have g: "GetChild_req r (bus_decoder u) cs = Some (?i, bus_decoder u)" "GetChild_req r' (bus_decoder u) cs = Some (?i, bus_decoder u)"
    if "length cs = 2" for cs :: "StandardRank list"
    using GetChild_rank_eq [OF r(3) u(2), of cs] GetChild_rank_eq [of r' "bus_decoder u" cs] u(2) r(3,4) r'(2) that by simp_all
  have ask: "Bus_IsIssuable p r u s = Some (True, why, u)"
    using g(1) c(1) u(1) same by (simp add: Bus_IsIssuable_def del: list_update.simps nth_Cons)
  have fw: "bus_forward p rp (u, s) = Some (True, u\<lparr>bus_children := [k0, k1][?i := k']\<rparr>, s')"
    using g(1) c(2) u(1) r(1) by (simp add: bus_forward_def)
  have "?i = 0 \<or> ?i = 1" using r(4) by linarith
  then have "notify_others p rp s' [0, 1] (u\<lparr>bus_children := [k0, k1][?i := k']\<rparr>)
      = Some (u\<lparr>bus_children := (map (Rank_Notify p (rtype r) s') [k0, k1])[?i := k']\<rparr>)"
    using g(2) r' by (elim disjE) (simp_all add: GetChild_idx_def cpp_assert_def)
  moreover have "all_children ([k0, k1][?i := k']) = [0, 1]"
    by (simp add: all_children_def upt_rec del: list_update.simps)
  ultimately show ?thesis using ask fw r(1) by (simp add: Bus_IssueCommand_def del: list_update.simps notify_others.simps)
qed

lemma Rank_Notify_wf: "rank_wf k \<Longrightarrow> rank_wf (Rank_Notify p op s k)"
  using Rank_Notify_mono [of k p op s] same_ring_wf [of k "Rank_Notify p op s k"] by (simp add: rank_mono_def)

lemma sample_bus_reads:
  "\<exists>u1 s1 u2 s2. Bus_IssueCommand rank_params 0 (sample_bus, bus_sim 10) = Some (True, u1, s1) \<and> GetCurrentCycle s1 = 10
    \<and> Bus_IssueCommand rank_params 1 (u1, bus_sim 30) = Some (True, u2, s2)"
proof -
  let ?p = rank_params
  have b: "bank_takes ?p 0 (bus_request 0) open_bank (bus_sim 10)" "bank_takes ?p 1 (bus_request 1) open_bank (bus_sim 30)"
    by (rule open_bank_takes; simp)+
  have "\<exists>why. Rank_IsIssuable ?p (bus_request 0) open_rank (bus_sim 10) = Some (True, why, open_rank)"
    "\<exists>k' s'. Rank_IssueCommand ?p 0 (open_rank, bus_sim 10) = Some (True, k', s')"
    using rank_read_result [of open_rank "bus_sim 10" 0 "bus_request 0" ?p] b(1) by (simp_all add: group_of_def)
  then obtain why k' s1 where 1: "Rank_IsIssuable ?p (bus_request 0) open_rank (bus_sim 10) = Some (True, why, open_rank)"
    "Rank_IssueCommand ?p 0 (open_rank, bus_sim 10) = Some (True, k', s1)" by blast
  let ?k1 = "Rank_Notify ?p READ s1 open_rank"
  have s1: "GetCurrentCycle s1 = 10" using sim_rel_time postD [OF Rank_IssueCommand_rel 1(2)] by fastforce
  have i1: "Bus_IssueCommand ?p 0 (sample_bus, bus_sim 10) = Some (True, sample_bus\<lparr>bus_children := [k', ?k1]\<rparr>, s1)"
    using two_ranks_issue [of sample_bus open_rank open_rank "bus_sim 10" 0 "bus_request 0" ?p why k' s1] 1 by simp
  have wf: "rank_wf ?k1" by (rule Rank_Notify_wf) simp
  have f: "bankgroupNum ?k1 = 2" "bankCount ?k1 = 2" "defaultField (rk_decoder ?k1) = BANK_FIELD"
    "sbg_nextRead ?k1 ! 0 \<le> 30" "dbg_nextRead ?k1 \<le> 30"
    using s1 by (simp_all add: Rank_Notify_def Let_def raise_first_def nth_append rank_params_def)
  have "\<exists>why. Rank_IsIssuable ?p (bus_request 1) ?k1 (bus_sim 30) = Some (True, why, ?k1)"
    "\<exists>k' s'. Rank_IssueCommand ?p 1 (?k1, bus_sim 30) = Some (True, k', s')"
    using rank_read_result [of ?k1 "bus_sim 30" 1 "bus_request 1" ?p] b(2) wf f by (simp_all add: group_of_def)
  then obtain why2 k2 s2 where 2: "Rank_IsIssuable ?p (bus_request 1) ?k1 (bus_sim 30) = Some (True, why2, ?k1)"
    "Rank_IssueCommand ?p 1 (?k1, bus_sim 30) = Some (True, k2, s2)" by blast
  have "\<exists>u2 s2. Bus_IssueCommand ?p 1 (sample_bus\<lparr>bus_children := [k', ?k1]\<rparr>, bus_sim 30) = Some (True, u2, s2)"
    using two_ranks_issue [of "sample_bus\<lparr>bus_children := [k', ?k1]\<rparr>" k' ?k1 "bus_sim 30" 1 "bus_request 1" ?p why2 k2 s2] 2 by simp
  then show ?thesis using i1 s1 by blast
qed

section \<open>Properties\<close>



end
