(* ===== verification/Memory_Controller_Refresh.thy ===== *)
theory Memory_Controller_Refresh
  imports Fcfs_Schedulers Rank_Bus_Safety
begin

text \<open>
  The recursion between \<^verbatim>\<open>NextIssuable\<close>, \<^verbatim>\<open>HandleRefresh\<close> and \<^verbatim>\<open>ScheduleCommandWake\<close> ends: every level
  pays one of the refreshes that are due. So the fuel of the model is never used up and the functions
  satisfy the equations that the code has.
\<close>

section \<open>What does not touch the refresh counters\<close>

lemma make_at_post:
  assumes "\<And>rp dec s'. rp = nextReq (snd st) \<Longrightarrow> nextReq s' = Suc rp \<Longrightarrow> eventQueue s' = eventQueue (snd st)
      \<Longrightarrow> (\<exists>r. requests s' = (requests (snd st))(rp \<mapsto> r) \<and> rtype r = ty \<and> translated (address r)
        \<and> GetTranslatedAddress (address r) = (rw, cl, bk, rk, mc_id (fst st), sa) \<and> owner r = Some (mc_this (fst st)))
      \<Longrightarrow> Q (rp, (fst st)\<lparr>mc_decoder := dec\<rparr>, s')"
  shows "post (make_at ty rw cl bk rk sa st) Q"
proof (cases st)
  case (Pair mc s)
  show ?thesis
    unfolding make_at_def Pair prod.case
  proof (rule post_bind, rule post_any_pair, rule post_pair)
    fix addr dec
    let ?r = "NVMainRequest_new\<lparr>rtype := ty,
           address := SetTranslatedAddress rw cl bk rk (mc_id mc) sa (SetPhysicalAddress addr (address NVMainRequest_new)),
           issueCycle := GetCurrentCycle s, owner := Some (mc_this mc)\<rparr>"
    have "Q (nextReq s, (fst st)\<lparr>mc_decoder := dec\<rparr>, (put_request (nextReq s) ?r s)\<lparr>nextReq := Suc (nextReq s)\<rparr>)"
      by (rule assms) (auto simp: Pair put_request_def SetTranslatedAddress_def GetTranslatedAddress_def)
    then show "post (let (rp, s) = new_request (\<lambda>r. r\<lparr>rtype := ty,
           address := SetTranslatedAddress rw cl bk rk (mc_id mc) sa (SetPhysicalAddress addr (address r)),
           issueCycle := GetCurrentCycle s, owner := Some (mc_this mc)\<rparr>) s in Some (rp, mc\<lparr>mc_decoder := dec\<rparr>, s)) Q"
      by (simp add: new_request_def Pair post_def)
  qed
qed

lemmas make_defs = MakePrechargeRequest_def MakePrechargeAllRequest_def MakeRefreshRequest_def MakePowerdownRequest_def
  MakePowerupRequest_def

lemma debt_updates [simp]:
  "refresh_debt (mc\<lparr>mc_decoder := dec\<rparr>) = refresh_debt mc" "refresh_debt (mc\<lparr>mc_child := u\<rparr>) = refresh_debt mc"
  "refresh_debt (push_command q rp mc) = refresh_debt mc" "refresh_debt (put_bank rk bk c mc) = refresh_debt mc"
  "refresh_debt (round_robin p mc) = refresh_debt mc" "refresh_debt (mc\<lparr>handledRefresh := t\<rparr>) = refresh_debt mc"
  by (simp_all add: refresh_debt_def push_command_def put_bank_def round_robin_def Let_def)

lemma same_counters [simp]:
  "delayedRefreshCounter (push_command q rp mc) = delayedRefreshCounter mc"
  "delayedRefreshCounter (put_bank rk bk c mc) = delayedRefreshCounter mc"
  "delayedRefreshCounter (round_robin p mc) = delayedRefreshCounter mc"
  by (simp_all add: push_command_def put_bank_def round_robin_def Let_def)

lemma change_banks_counters: "change_banks f rk bs mc = Some mc' \<Longrightarrow> delayedRefreshCounter mc' = delayedRefreshCounter mc"
  by (induction bs arbitrary: mc) (auto simp: bind_eq_Some_conv)

lemma precharge_banks_counters:
  "precharge_banks p rk bs st = Some st' \<Longrightarrow> delayedRefreshCounter (fst st') = delayedRefreshCounter (fst st)"
proof (induction bs arbitrary: st)
  case (Cons bk bs)
  have one: "post (make_at ty rw cl b k sa st) (\<lambda>(rp, mc, s). delayedRefreshCounter mc = delayedRefreshCounter (fst st))"
    for ty rw cl b k sa st
    by (rule make_at_post) simp
  from Cons.prems obtain q c st1 where c: "precharge_banks p rk bs st1 = Some st'"
    "(if activateQueued c then do {
         (rp, mc, s) \<leftarrow> MakePrechargeAllRequest 0 0 bk rk 0 st;
         Some (put_bank rk bk (close_bank p c) (push_command q rp mc), s)
       } else Some st) = Some st1"
    by (auto simp: bind_eq_Some_conv)
  then have "delayedRefreshCounter (fst st1) = delayedRefreshCounter (fst st)"
    using postD [OF one] by (fastforce simp: make_defs bind_eq_Some_conv split: if_splits)
  then show ?case using Cons.IH [OF c(1)] by simp
qed simp

section \<open>Each refresh pays its debt\<close>

lemma sum_list_update_nat: "i < length xs \<Longrightarrow> sum_list (xs[i := y]) + xs ! i = sum_list xs + (y :: nat)"
  by (induction xs arbitrary: i) (auto split: nat.split)

lemma debt_put:
  assumes "i < length cs" "g < length (cs ! i)"
  shows "sum_list (map unat (concat (cs[i := (cs ! i)[g := v]]))) + unat (cs ! i ! g) = sum_list (map unat (concat cs)) + unat (v :: ncounter_t)"
  using assms
proof (induction cs arbitrary: i)
  case (Cons c cs)
  then show ?case
    using sum_list_update_nat [of g "map unat c" "unat v"] by (cases i) (auto simp: map_update)
qed simp

lemma DecrementRefreshCounter_debt:
  assumes "DecrementRefreshCounter p j i mc = Some mc'" "NeedRefresh p j i mc = Some True" "DelayedRefreshThreshold p \<noteq> 0"
  shows "Suc (refresh_debt mc') = refresh_debt mc"
proof -
  obtain g where g: "refresh_slot p j i mc = Some g" "mc' = mc\<lparr>delayedRefreshCounter := (delayedRefreshCounter mc)[unat i :=
       (delayedRefreshCounter mc ! unat i)[g := delayedRefreshCounter mc ! unat i ! g + (- 1)]]\<rparr>"
    "DelayedRefreshThreshold p \<le> delayedRefreshCounter mc ! unat i ! g"
    using assms(1,2) by (auto simp: DecrementRefreshCounter_def add_refresh_def NeedRefresh_def bind_eq_Some_conv split: if_splits)
  let ?v = "delayedRefreshCounter mc ! unat i ! g"
  have "?v \<noteq> 0" using g(3) assms(3) by (metis word_le_0_iff)
  then have v: "Suc (unat (?v + (- 1))) = unat ?v" using unat_minus_one [of ?v] by (simp add: unat_eq_0 Suc_diff_1 unat_gt_0)
  have "unat i < length (delayedRefreshCounter mc)" "g < length (delayedRefreshCounter mc ! unat i)"
    using g(1) by (auto simp: refresh_slot_def bind_eq_Some_conv)
  from debt_put [OF this, of "?v + (- 1)"] v show ?thesis using g(2) by (simp add: refresh_debt_def)
qed

lemma NeedRefresh_cong: "delayedRefreshCounter mc' = delayedRefreshCounter mc \<Longrightarrow> NeedRefresh p j i mc' = NeedRefresh p j i mc"
  by (simp add: NeedRefresh_def refresh_slot_def)

lemma debt_cong: "delayedRefreshCounter mc' = delayedRefreshCounter mc \<Longrightarrow> refresh_debt mc' = refresh_debt mc"
  by (simp add: refresh_debt_def)

lemma queue_refresh_debt:
  assumes "queue_refresh p i j st = Some st'" "NeedRefresh p j i (fst st) = Some True" "DelayedRefreshThreshold p \<noteq> 0"
  shows "Suc (refresh_debt (fst st')) = refresh_debt (fst st)"
proof -
  have one: "post (MakeRefreshRequest 0 0 j i 0 st) (\<lambda>(rp, mc, s). delayedRefreshCounter mc = delayedRefreshCounter (fst st))"
    unfolding make_defs by (rule make_at_post) simp
  obtain rp mc1 s1 bs mc2 s2 q mc3 mc4 need mc5 where m: "MakeRefreshRequest 0 0 j i 0 st = Some (rp, mc1, s1)"
    "(if UsePrecharge p then precharge_banks p i bs (mc1, s1) else Some (mc1, s1)) = Some (mc2, s2)"
    "change_banks (\<lambda>c. Some (c\<lparr>refreshQueued := True\<rparr>)) i bs (push_command q rp mc2) = Some mc3"
    "DecrementRefreshCounter p j i mc3 = Some mc4" "(if need then Some mc4 else ResetRefresh p j i mc4) = Some mc5"
    "refresh_debt (fst st') = refresh_debt mc5"
    using assms(1) unfolding queue_refresh_def Let_def by (elim bind_eq_SomeE) (auto elim!: bind_eq_SomeE split: prod.splits)
  have 1: "delayedRefreshCounter mc1 = delayedRefreshCounter (fst st)" using postD [OF one m(1)] by simp
  have 2: "delayedRefreshCounter mc2 = delayedRefreshCounter mc1"
    using m(2) precharge_banks_counters [of p i bs "(mc1, s1)"] by (auto split: if_splits)
  have 3: "delayedRefreshCounter mc3 = delayedRefreshCounter mc2" using change_banks_counters [OF m(3)] by simp
  have 5: "delayedRefreshCounter mc5 = delayedRefreshCounter mc4"
    using m(5) change_banks_counters by (auto simp: ResetRefresh_def bind_eq_Some_conv split: if_splits)
  have same: "delayedRefreshCounter mc3 = delayedRefreshCounter (fst st)" using 1 2 3 by simp
  from DecrementRefreshCounter_debt [OF m(4) _ assms(3)] assms(2) show ?thesis
    using NeedRefresh_cong [OF same] debt_cong [OF same] debt_cong [OF 5] m(6) by simp
qed

section \<open>The recursion\<close>

text \<open>A wake-up that never increases the debt.\<close>

definition pays :: "(mcs \<Rightarrow> mcs option) \<Rightarrow> bool" where
  "pays wake \<longleftrightarrow> (\<forall>st st'. wake st = Some st' \<longrightarrow> refresh_debt (fst st') \<le> refresh_debt (fst st))"

lemma handle_groups_debt:
  assumes "pays wake" "DelayedRefreshThreshold p \<noteq> 0" "handle_groups p wake gs st = Some (ok, st')"
  shows "refresh_debt (fst st') \<le> refresh_debt (fst st)"
  using assms(3)
proof (induction gs)
  case (Cons g gs)
  obtain a b where g: "g = (a, b)" by fastforce
  from Cons.prems obtain need where need: "NeedRefresh p ((nextRefreshBank (fst st) + word_of_nat b * BanksPerRefresh p) mod BANKS p)
      ((nextRefreshRank (fst st) + word_of_nat a) mod RANKS p) (fst st) = Some need"
    by (auto simp: g bind_eq_Some_conv Let_def)
  show ?case
  proof (cases need)
    case True
    with Cons.prems need obtain st1 where "queue_refresh p ((nextRefreshRank (fst st) + word_of_nat a) mod RANKS p)
        ((nextRefreshBank (fst st) + word_of_nat b * BanksPerRefresh p) mod BANKS p) st = Some st1" "wake st1 = Some st'"
      by (auto simp: g bind_eq_Some_conv Let_def)
    then have "Suc (refresh_debt (fst st1)) = refresh_debt (fst st)" "refresh_debt (fst st') \<le> refresh_debt (fst st1)"
      using queue_refresh_debt [OF _ need [unfolded eqTrueI [OF True]] assms(2)] assms(1) by (blast, simp only: pays_def)
    then show ?thesis by simp
  next
    case False
    then show ?thesis using Cons need by (auto simp: g bind_eq_Some_conv Let_def)
  qed
qed simp

lemma handle_groups_cong:
  assumes "\<And>st'. refresh_debt (fst st') < d \<Longrightarrow> wake st' = wake' st'" "DelayedRefreshThreshold p \<noteq> 0" "refresh_debt (fst st) \<le> d"
  shows "handle_groups p wake gs st = handle_groups p wake' gs st"
proof (induction gs)
  case (Cons g gs)
  obtain a b where g: "g = (a, b)" by fastforce
  have "wake st1 = wake' st1" if "queue_refresh p i j st = Some st1" "NeedRefresh p j i (fst st) = Some True" for i j st1
    using queue_refresh_debt [OF that assms(2)] assms(1,3) by simp
  then show ?case using Cons by (auto simp: g Let_def intro!: bind_option_cong)
qed simp

lemma refresh_if_due_debt:
  assumes "pays wake" "DelayedRefreshThreshold p \<noteq> 0" "refresh_if_due p wake rk bk t st = Some (t', st')"
  shows "refresh_debt (fst st') \<le> refresh_debt (fst st)"
  using assms(3) handle_groups_debt [OF assms(1,2), of _ st]
  by (auto simp: refresh_if_due_def HandleRefresh_with_def bind_eq_Some_conv split: if_splits)

lemma head_time_debt: "head_time p q t st = Some (t', st') \<Longrightarrow> refresh_debt (fst st') = refresh_debt (fst st)"
  by (auto simp: head_time_def bind_eq_Some_conv split: list.splits)

lemma next_loop_debt:
  assumes "pays wake" "DelayedRefreshThreshold p \<noteq> 0" "next_loop p wake bs t st = Some (t', st')"
  shows "refresh_debt (fst st') \<le> refresh_debt (fst st)"
  using assms(3)
proof (induction bs arbitrary: t st)
  case (Cons b bs)
  then obtain rk bk t1 st1 q t2 st2 where "refresh_if_due p wake rk bk t st = Some (t1, st1)" "head_time p q t1 st1 = Some (t2, st2)"
    "next_loop p wake bs t2 st2 = Some (t', st')"
    by (cases b) (auto simp: bind_eq_Some_conv)
  then show ?case
    using refresh_if_due_debt [OF assms(1,2)] head_time_debt Cons.IH by (metis order_trans)
qed simp

lemma next_loop_cong:
  assumes wake: "\<And>st'. refresh_debt (fst st') < d \<Longrightarrow> wake st' = wake' st'" "pays wake'" and th: "DelayedRefreshThreshold p \<noteq> 0"
    and d: "refresh_debt (fst st) \<le> d"
  shows "next_loop p wake bs t st = next_loop p wake' bs t st"
  using d
proof (induction bs arbitrary: t st)
  case (Cons b bs)
  obtain rk bk where b: "b = (rk, bk)" by fastforce
  have "HandleRefresh_with p wake st = HandleRefresh_with p wake' st"
    unfolding HandleRefresh_with_def by (rule handle_groups_cong [OF wake(1) th Cons.prems])
  then have h: "refresh_if_due p wake (word_of_nat rk) (word_of_nat bk) t st = refresh_if_due p wake' (word_of_nat rk) (word_of_nat bk) t st"
    by (simp only: refresh_if_due_def)
  have "next_loop p wake bs t2 st2 = next_loop p wake' bs t2 st2"
    if "refresh_if_due p wake' (word_of_nat rk) (word_of_nat bk) t st = Some (t1, st1)" "head_time p q t1 st1 = Some (t2, st2)" for q t1 st1 t2 st2
    using refresh_if_due_debt [OF wake(2) th that(1)] head_time_debt [OF that(2)] Cons.prems by (intro Cons.IH) simp
  then show ?case unfolding b next_loop.simps h by (intro bind_option_cong refl; clarify; intro bind_option_cong refl; clarify; blast)
qed simp

lemma wake_pays:
  assumes "\<And>st t st'. next st = Some (t, st') \<Longrightarrow> refresh_debt (fst st') \<le> refresh_debt (fst st)"
  shows "pays (ScheduleCommandWake_with next)"
  using assms by (fastforce simp: pays_def ScheduleCommandWake_with_def bind_eq_Some_conv)

lemma NextIssuable_fuel_debt:
  assumes "DelayedRefreshThreshold p \<noteq> 0" "NextIssuable_fuel n p st = Some (t, st')"
  shows "refresh_debt (fst st') \<le> refresh_debt (fst st)"
  using assms(2)
proof (induction n arbitrary: st t st')
  case (Suc n)
  then have "pays (ScheduleCommandWake_with (NextIssuable_fuel n p))" by (intro wake_pays) blast
  then show ?case using Suc.prems next_loop_debt [OF _ assms(1)] by (fastforce simp: bind_eq_Some_conv)
qed simp

lemma fuel_irrelevant:
  assumes "DelayedRefreshThreshold p \<noteq> 0"
  shows "refresh_debt (fst st) < m \<Longrightarrow> refresh_debt (fst st) < n \<Longrightarrow> NextIssuable_fuel m p st = NextIssuable_fuel n p st"
proof (induction m arbitrary: n st)
  case (Suc m)
  then obtain n' where n: "n = Suc n'" by (cases n) simp_all
  have "ScheduleCommandWake_with (NextIssuable_fuel m p) st' = ScheduleCommandWake_with (NextIssuable_fuel n' p) st'"
    if "refresh_debt (fst st') < refresh_debt (fst st)" for st'
  proof -
    have "NextIssuable_fuel m p st' = NextIssuable_fuel n' p st'" using Suc.IH [of st' n'] Suc.prems that by (simp add: n)
    then show ?thesis by (simp only: ScheduleCommandWake_with_def)
  qed
  then have "next_loop p (ScheduleCommandWake_with (NextIssuable_fuel m p)) bs t st
      = next_loop p (ScheduleCommandWake_with (NextIssuable_fuel n' p)) bs t st" for bs t
    by (rule next_loop_cong) (auto intro: wake_pays NextIssuable_fuel_debt [OF assms] simp: assms)
  then show ?case by (simp add: n)
qed simp

lemma NextIssuable_pays:
  assumes "DelayedRefreshThreshold p \<noteq> 0"
  shows "pays (ScheduleCommandWake p)"
  unfolding ScheduleCommandWake_def 
  by (intro wake_pays) (simp only: NextIssuable_def, erule NextIssuable_fuel_debt [OF assms])

section \<open>Properties\<close>

text \<open>A controller of one rank with two banks, with the refresh counters \<open>ds\<close> and empty queues.\<close>

definition ctl_params :: Params where
  "ctl_params = rank_params\<lparr>RANKS := 1, ClosePage := 0\<rparr>"

definition sample_controller :: "ncounter_t list \<Rightarrow> MemoryController" where
  "sample_controller ds = (MemoryController_new 30 undefined)\<lparr>mc_id := 0, mc_decoder := default_translator, mc_child := sample_bus,
     commandQueues := [[], []], transactionQueues := [[]], queueModel := PerBankQueues,
     bankCtl := [[initial_bank ctl_params 1, initial_bank ctl_params 1]], delayedRefreshCounter := [ds], m_refreshBankNum := 2\<rparr>"

lemma ctl_params_fields [simp]:
  "RANKS ctl_params = 1" "BANKS ctl_params = 2" "BanksPerRefresh ctl_params = 1" "DelayedRefreshThreshold ctl_params = 1"
  "UseRefresh ctl_params" "UsePrecharge ctl_params" "ScheduleScheme ctl_params = 1" "ClosePage ctl_params = 0"
  by (simp_all add: ctl_params_def rank_params_def)

lemma sample_controller_fields [simp]:
  "mc_this (sample_controller ds) = 30" "mc_child (sample_controller ds) = sample_bus" "mc_decoder (sample_controller ds) = default_translator"
  "commandQueues (sample_controller ds) = [[], []]" "transactionQueues (sample_controller ds) = [[]]"
  "queueModel (sample_controller ds) = PerBankQueues" "delayedRefreshCounter (sample_controller ds) = [ds]"
  "bankCtl (sample_controller ds) = [[initial_bank ctl_params 1, initial_bank ctl_params 1]]"
  by (simp_all add: sample_controller_def MemoryController_new_def)



end
