(* ===== verification/Memory_Controller_Rows.thy ===== *)
theory Memory_Controller_Rows
  imports Memory_Controller_Refresh
begin

text \<open>
  The row bookkeeping of the controller against a specification: a bank is a vector of sub-arrays, each of
  which has at most one open row, and \<open>row_step\<close> says which command is legal in which state. The
  commands that the controller puts into its queues, for transactions as well as for refreshes, are
  legal one after the other for every bank, and its arrays hold the state that they lead to.
\<close>

section \<open>The specification\<close>

type_synonym row_state = "ncounter_t option list"

definition row_step :: "Params \<Rightarrow> NVMainRequest \<Rightarrow> row_state \<Rightarrow> row_state option" where
  "row_step p r rows =
     (let i = unat (subarray (address r)); rw = row (address r); hit = (i < length rows \<and> rows ! i = Some rw)
      in case rtype r of
        ACTIVATE \<Rightarrow> if i < length rows \<and> (UsePrecharge p \<longrightarrow> rows ! i = None) then Some (rows[i := Some rw]) else None
      | READ \<Rightarrow> if hit then Some rows else None
      | WRITE \<Rightarrow> if hit then Some rows else None
      | READ_PRECHARGE \<Rightarrow> if hit then Some (rows[i := None]) else None
      | WRITE_PRECHARGE \<Rightarrow> if hit then Some (rows[i := None]) else None
      | PRECHARGE \<Rightarrow> if i < length rows then Some (rows[i := None]) else None
      | PRECHARGE_ALL \<Rightarrow> Some (map (\<lambda>_. None) rows)
      | REFRESH \<Rightarrow> if UsePrecharge p \<longrightarrow> list_all (\<lambda>x. x = None) rows then Some rows else None
      | _ \<Rightarrow> None)"

fun row_run :: "Params \<Rightarrow> row_state \<Rightarrow> NVMainRequest list \<Rightarrow> row_state option" where
  "row_run p rows [] = Some rows"
| "row_run p rows (r # rs) = do { rows \<leftarrow> row_step p r rows; row_run p rows rs }"

lemma row_run_append: "row_run p rows (rs @ rs') = row_run p rows rs \<bind> (\<lambda>rows. row_run p rows rs')"
  by (induction rs arbitrary: rows) (auto split: bind_splits)

text \<open>What the controller believes about a bank; a bank without a queued activation has no open sub-array.\<close>

definition rows_of :: "BankCtl \<Rightarrow> row_state" where
  "rows_of c = map (\<lambda>x. if activeSubArray x then Some (effectiveRow x) else None) (subs c)"

definition ctl_wf :: "BankCtl \<Rightarrow> bool" where
  "ctl_wf c \<longleftrightarrow> activateQueued c \<or> list_all (\<lambda>x. \<not> activeSubArray x) (subs c)"

text \<open>A command concerns the bank it addresses; a refresh, all banks that it covers.\<close>

definition concerns :: "Params \<Rightarrow> ncounter_t \<Rightarrow> ncounter_t \<Rightarrow> NVMainRequest \<Rightarrow> bool" where
  "concerns p rk bk r \<longleftrightarrow> rank (address r) = rk
     \<and> (if rtype r = REFRESH then bk \<in> set (covered_banks p (bank (address r))) else bank (address r) = bk)"

definition legal :: "Params \<Rightarrow> NVMainRequest list \<Rightarrow> MemoryController \<Rightarrow> MemoryController \<Rightarrow> bool" where
  "legal p rs mc mc' \<longleftrightarrow> (\<forall>rk bk c. bank_ctl rk bk mc = Some c \<longrightarrow> ctl_wf c \<longrightarrow>
     (\<exists>c'. bank_ctl rk bk mc' = Some c' \<and> ctl_wf c'
       \<and> row_run p (rows_of c) (filter (concerns p rk bk) rs) = Some (rows_of c')))"

text \<open>The command queues have grown by a sequence of commands, which are on the heap; the transaction queues are
  the same.\<close>

type_synonym command_log = "(ncounter_t \<times> req_ptr \<times> NVMainRequest) list"

definition grown :: "command_log \<Rightarrow> MemoryController \<Rightarrow> MemoryController \<Rightarrow> bool" where
  "grown cmds mc mc' \<longleftrightarrow> (\<forall>(q, rp, r) \<in> set cmds. unat q < length (commandQueues mc))
     \<and> transactionQueues mc' = transactionQueues mc
     \<and> commandQueues mc' = foldl (\<lambda>qs (q, rp, r). qs[unat q := qs ! unat q @ [rp]]) (commandQueues mc) cmds"

definition recorded :: "command_log \<Rightarrow> sim \<Rightarrow> bool" where
  "recorded cmds s \<longleftrightarrow> (\<forall>(q, rp, r) \<in> set cmds. rp < nextReq s
     \<and> (\<exists>r'. requests s rp = Some r' \<and> rtype r' = rtype r \<and> address r' = address r))"

definition queues :: "Params \<Rightarrow> command_log \<Rightarrow> mcs \<Rightarrow> mcs \<Rightarrow> bool" where
  "queues p cmds st st' \<longleftrightarrow> grown cmds (fst st) (fst st') \<and> recorded cmds (snd st')
     \<and> legal p (map (snd \<circ> snd) cmds) (fst st) (fst st')"

section \<open>Composition\<close>

lemma legal_trans: "legal p rs a b \<Longrightarrow> legal p rs' b c \<Longrightarrow> legal p (rs @ rs') a c"
  unfolding legal_def by (fastforce simp: row_run_append)

lemma recorded_rel: "recorded cmds s \<Longrightarrow> sim_rel s s' \<Longrightarrow> recorded cmds s'"
  unfolding recorded_def
proof (clarify, intro conjI)
  fix q rp r
  assume a: "\<forall>(q, rp, r) \<in> set cmds. rp < nextReq s \<and> (\<exists>r'. requests s rp = Some r' \<and> rtype r' = rtype r \<and> address r' = address r)"
    and rel: "sim_rel s s'" and l: "(q, rp, r) \<in> set cmds"
  from a l obtain r' where r': "rp < nextReq s" "requests s rp = Some r'" "rtype r' = rtype r" "address r' = address r" by blast
  show "rp < nextReq s'" using r'(1) sim_rel_nextReq [OF rel] by simp
  show "\<exists>r'. requests s' rp = Some r' \<and> rtype r' = rtype r \<and> address r' = address r"
    using sim_rel_request [OF rel r'(1,2)] r'(3,4) by (auto simp: same_request_def)
qed

lemma grown_length: "grown cmds mc mc' \<Longrightarrow> length (commandQueues mc') = length (commandQueues mc)"
proof -
  have "length (foldl (\<lambda>qs (q, rp, r). qs[unat (q :: ncounter_t) := qs ! unat q @ [rp :: req_ptr]]) qs (cmds :: command_log)) = length qs" for qs
    by (induction cmds arbitrary: qs) auto
  then show "grown cmds mc mc' \<Longrightarrow> length (commandQueues mc') = length (commandQueues mc)" by (simp add: grown_def)
qed

lemma queues_trans:
  assumes "queues p cmds a b" "queues p cmds' b c" "sim_rel (snd b) (snd c)"
  shows "queues p (cmds @ cmds') a c"
proof -
  have "grown (cmds @ cmds') (fst a) (fst c)"
    using assms(1,2) grown_length [of cmds "fst a" "fst b"] by (auto simp: queues_def grown_def)
  moreover have "recorded (cmds @ cmds') (snd c)"
    using assms recorded_rel [of cmds "snd b" "snd c"] by (auto simp: queues_def recorded_def)
  ultimately show ?thesis using assms(1,2) by (auto simp: queues_def intro: legal_trans)
qed

section \<open>Banks\<close>

lemma bank_ctl_put:
  assumes "bank_ctl rk' bk' mc = Some c0" "bankCtl mc1 = bankCtl mc"
  shows "bank_ctl rk bk (put_bank rk' bk' c mc1) = (if rk = rk' \<and> bk = bk' then Some c else bank_ctl rk bk mc)"
proof -
  have "unat rk' < length (bankCtl mc)" "unat bk' < length (bankCtl mc ! unat rk')"
    using assms(1) by (auto simp: bank_ctl_def split: if_splits)
  then show ?thesis
    using assms(2)
    by (cases "rk = rk'"; cases "bk = bk'") (auto simp: bank_ctl_def put_bank_def nth_list_update word_unat_eq_iff)
qed

lemma bank_ctl_cong: "bankCtl mc' = bankCtl mc \<Longrightarrow> bank_ctl rk bk mc' = bank_ctl rk bk mc"
  by (simp add: bank_ctl_def)

text \<open>Changes that leave the rows alone.\<close>

definition same_rows :: "MemoryController \<Rightarrow> MemoryController \<Rightarrow> bool" where
  "same_rows mc mc' \<longleftrightarrow> (\<forall>rk bk. map_option (\<lambda>c. (activateQueued c, subs c)) (bank_ctl rk bk mc')
     = map_option (\<lambda>c. (activateQueued c, subs c)) (bank_ctl rk bk mc))"

lemma same_rows_refl [simp]: "same_rows mc mc"
  by (simp add: same_rows_def)

lemma same_rows_trans: "same_rows a b \<Longrightarrow> same_rows b c \<Longrightarrow> same_rows a c"
  by (simp add: same_rows_def)

lemma same_rowsD:
  assumes "same_rows mc mc'" "bank_ctl rk bk mc = Some c"
  shows "\<exists>c'. bank_ctl rk bk mc' = Some c' \<and> activateQueued c' = activateQueued c \<and> subs c' = subs c"
proof -
  have "map_option (\<lambda>c. (activateQueued c, subs c)) (bank_ctl rk bk mc') = Some (activateQueued c, subs c)"
    using assms by (simp add: same_rows_def)
  then show ?thesis by auto
qed

lemma same_rows_legal:
  assumes "same_rows mc mc'"
  shows "legal p [] mc mc'"
  unfolding legal_def
proof (intro allI impI)
  fix rk bk c
  assume c: "bank_ctl rk bk mc = Some c" "ctl_wf c"
  obtain c' where "bank_ctl rk bk mc' = Some c'" "activateQueued c' = activateQueued c" "subs c' = subs c"
    using same_rowsD [OF assms c(1)] by blast
  then show "\<exists>c'. bank_ctl rk bk mc' = Some c' \<and> ctl_wf c' \<and> row_run p (rows_of c) (filter (concerns p rk bk) []) = Some (rows_of c')"
    using c(2) by (simp add: rows_of_def ctl_wf_def)
qed

lemma change_banks_rows:
  assumes "\<And>c c'. f c = Some c' \<Longrightarrow> activateQueued c' = activateQueued c \<and> subs c' = subs c" "change_banks f rk bs mc = Some mc'"
  shows "same_rows mc mc'" "commandQueues mc' = commandQueues mc" "transactionQueues mc' = transactionQueues mc"
proof -
  have "same_rows mc mc' \<and> commandQueues mc' = commandQueues mc \<and> transactionQueues mc' = transactionQueues mc"
    using assms(2)
  proof (induction bs arbitrary: mc)
    case (Cons bk bs)
    then obtain c c' where c: "bank_ctl rk bk mc = Some c" "f c = Some c'" "change_banks f rk bs (put_bank rk bk c' mc) = Some mc'"
      by (auto simp: bind_eq_Some_conv)
    have "same_rows mc (put_bank rk bk c' mc)"
      using bank_ctl_put [OF c(1) refl] assms(1) [OF c(2)] c(1) by (simp add: same_rows_def)
    moreover have "commandQueues (put_bank rk bk c' mc) = commandQueues mc" "transactionQueues (put_bank rk bk c' mc) = transactionQueues mc"
      by (simp_all add: put_bank_def)
    ultimately show ?case using Cons.IH [OF c(3)] same_rows_trans by auto
  qed simp
  then show "same_rows mc mc'" "commandQueues mc' = commandQueues mc" "transactionQueues mc' = transactionQueues mc" by simp_all
qed

lemma legal_one_bank:
  assumes "bank_ctl rk bk mc = Some c" "bankCtl mc1 = bankCtl mc"
    and "\<And>r. r \<in> set rs \<Longrightarrow> rank (address r) = rk \<and> bank (address r) = bk \<and> rtype r \<noteq> REFRESH"
    and "ctl_wf c \<Longrightarrow> ctl_wf c' \<and> row_run p (rows_of c) rs = Some (rows_of c')"
  shows "legal p rs mc (put_bank rk bk c' mc1)"
proof -
  have "filter (concerns p rk' bk') rs = (if rk' = rk \<and> bk' = bk then rs else [])" for rk' bk'
    using assms(3) by (auto simp: concerns_def filter_empty_conv filter_id_conv)
  then show ?thesis using assms(1,4) by (auto simp: legal_def bank_ctl_put [OF assms(1,2)])
qed


section \<open>Lawful steps\<close>

text \<open>A step that keeps the heap, queues legal commands and records their effect on the banks; the commands
  are requests from \<open>n\<close> on.\<close>

definition lawful :: "Params \<Rightarrow> req_ptr \<Rightarrow> mcs \<Rightarrow> mcs \<Rightarrow> bool" where
  "lawful p n st st' \<longleftrightarrow> sim_rel (snd st) (snd st') \<and> (\<exists>cmds. queues p cmds st st' \<and> (\<forall>(q, rp, r) \<in> set cmds. n \<le> rp))"

lemma lawful_trans [trans]:
  assumes "lawful p n a b" "lawful p n b c"
  shows "lawful p n a c"
proof -
  obtain cmds cmds' where c: "queues p cmds a b" "\<forall>(q, rp, r) \<in> set cmds. n \<le> rp" "queues p cmds' b c" "\<forall>(q, rp, r) \<in> set cmds'. n \<le> rp"
    using assms unfolding lawful_def by blast
  have "queues p (cmds @ cmds') a c" using queues_trans [OF c(1,3)] assms(2) by (simp add: lawful_def)
  moreover have "\<forall>(q, rp, r) \<in> set (cmds @ cmds'). n \<le> rp" using c(2,4) by auto
  moreover have "sim_rel (snd a) (snd c)" using assms unfolding lawful_def by (blast intro: sim_rel_trans)
  ultimately show ?thesis unfolding lawful_def by blast
qed

lemma lawful_next: "lawful p n st st' \<Longrightarrow> n \<le> nextReq (snd st) \<Longrightarrow> n \<le> nextReq (snd st')"
  unfolding lawful_def by (blast dest: sim_rel_nextReq intro: order_trans)

lemma lawful_still:
  assumes "sim_rel s s'" "commandQueues mc' = commandQueues mc" "transactionQueues mc' = transactionQueues mc" "same_rows mc mc'"
  shows "lawful p n (mc, s) (mc', s')"
  using assms same_rows_legal [OF assms(4)] unfolding lawful_def queues_def
  by (auto simp: grown_def recorded_def intro!: exI [of _ "[]"])

lemma lawful_refl [simp]: "lawful p n st st"
  by (cases st) (simp add: lawful_still)

lemma same_rows_cong: "bankCtl mc' = bankCtl mc \<Longrightarrow> same_rows mc mc'"
  by (simp add: same_rows_def bank_ctl_def)

lemma lawful_push:
  assumes "sim_rel s s'" "requests s' rp = Some r" "rp < nextReq s'" "n \<le> rp" "legal p [r] mc mc'"
    and "unat q < length (commandQueues mc)" "transactionQueues mc' = transactionQueues mc"
    and "commandQueues mc' = (commandQueues mc)[unat (q :: ncounter_t) := commandQueues mc ! unat q @ [rp]]"
  shows "lawful p n (mc, s) (mc', s')"
proof -
  have "queues p [(q, rp, r)] (mc, s) (mc', s')" using assms by (simp add: queues_def grown_def recorded_def)
  moreover have "\<forall>(q, rp, r) \<in> set [(q, rp, r)]. n \<le> rp" using assms(4) by simp
  ultimately show ?thesis using assms(1) unfolding lawful_def snd_conv by blast
qed

lemma rows_close_bank [simp]: "rows_of (close_bank p c) = map (\<lambda>_. None) (rows_of c)" "ctl_wf (close_bank p c)"
  by (simp_all add: rows_of_def close_bank_def close_sub_def ctl_wf_def list_all_iff)

lemma fresh_rel:
  assumes "rp = nextReq s" "nextReq s' = Suc rp" "eventQueue s' = eventQueue s" "requests s' = (requests s)(rp \<mapsto> r)"
  shows "sim_rel s s'"
  using assms by (auto simp: sim_rel_def)

lemma make_atE:
  assumes "make_at ty rw cl bk rk sa (mc, s) = Some (rp, mc1, s1)"
  obtains r dec where "rp = nextReq s" "nextReq s1 = Suc rp" "eventQueue s1 = eventQueue s" "mc1 = mc\<lparr>mc_decoder := dec\<rparr>"
    "requests s1 = (requests s)(rp \<mapsto> r)" "rtype r = ty" "bank (address r) = bk" "rank (address r) = rk"
    "row (address r) = rw" "subarray (address r) = sa"
proof -
  have "post (make_at ty rw cl bk rk sa (mc, s)) (\<lambda>(rp, mc1, s1). rp = nextReq s \<and> nextReq s1 = Suc rp \<and> eventQueue s1 = eventQueue s
      \<and> (\<exists>dec. mc1 = mc\<lparr>mc_decoder := dec\<rparr>) \<and> (\<exists>r. requests s1 = (requests s)(rp \<mapsto> r) \<and> rtype r = ty
        \<and> bank (address r) = bk \<and> rank (address r) = rk \<and> row (address r) = rw \<and> subarray (address r) = sa))"
    by (rule make_at_post) (auto simp: GetTranslatedAddress_def)
  from postD [OF this assms] show thesis using that by auto
qed

lemma queue_bound: "GetCommandQueueId p a mc = Some q \<Longrightarrow> unat q < length (commandQueues mc)"
  by (auto simp: GetCommandQueueId_def bind_eq_Some_conv Let_def cpp_assert_def split: if_splits)

lemma push_command_fields [simp]:
  "bankCtl (push_command q rp mc) = bankCtl mc"
  "commandQueues (push_command q rp mc) = (commandQueues mc)[unat q := commandQueues mc ! unat q @ [rp]]"
  "commandQueues (put_bank rk bk c mc) = commandQueues mc"
  "transactionQueues (push_command q rp mc) = transactionQueues mc" "transactionQueues (put_bank rk bk c mc) = transactionQueues mc"
  by (simp_all add: push_command_def put_bank_def)

lemma bank_ctl_keep [simp]:
  "bank_ctl rk bk (push_command q rp mc) = bank_ctl rk bk mc"
  "bank_ctl rk bk (mc\<lparr>mc_decoder := dec\<rparr>) = bank_ctl rk bk mc"
  by (simp_all add: bank_ctl_def push_command_def)

subsection \<open>Refreshes\<close>

definition bank_closed :: "ncounter_t \<Rightarrow> ncounter_t \<Rightarrow> MemoryController \<Rightarrow> bool" where
  "bank_closed rk bk mc \<longleftrightarrow> (\<forall>c. bank_ctl rk bk mc = Some c \<longrightarrow> \<not> activateQueued c)"

text \<open>One bank: after the step it is closed, and no bank has been opened.\<close>

lemma precharge_bank_lawful:
  assumes "bank_ctl rk bk mc = Some c" "activateQueued c"
    and "MakePrechargeAllRequest 0 0 bk rk 0 (mc, s) = Some (rp, mc1, s1)"
    and "unat q < length (commandQueues mc)" "n \<le> nextReq s"
  shows "lawful p n (mc, s) (put_bank rk bk (close_bank p c) (push_command q rp mc1), s1)"
    and "bank_closed rk' bk' mc \<or> rk' = rk \<and> bk' = bk
      \<Longrightarrow> bank_closed rk' bk' (put_bank rk bk (close_bank p c) (push_command q rp mc1))"
    and "requests s rp0 = Some r0 \<Longrightarrow> rp0 < nextReq s \<Longrightarrow> requests s1 rp0 = Some r0"
proof -
  obtain r dec where r: "rp = nextReq s" "nextReq s1 = Suc rp" "eventQueue s1 = eventQueue s" "mc1 = mc\<lparr>mc_decoder := dec\<rparr>"
    "requests s1 = (requests s)(rp \<mapsto> r)" "rtype r = PRECHARGE_ALL" "bank (address r) = bk" "rank (address r) = rk"
    using assms(3) unfolding make_defs by (rule make_atE)
  have "legal p [r] mc (put_bank rk bk (close_bank p c) (push_command q rp mc1))"
    by (rule legal_one_bank [OF assms(1)]) (simp_all add: r(4,6-8) row_step_def)
  then show "lawful p n (mc, s) (put_bank rk bk (close_bank p c) (push_command q rp mc1), s1)"
    using assms(4,5) by (intro lawful_push [where q = q and r = r] fresh_rel [OF r(1,2,3,5)]) (simp_all add: r)
  show "bank_closed rk' bk' (put_bank rk bk (close_bank p c) (push_command q rp mc1))" if "bank_closed rk' bk' mc \<or> rk' = rk \<and> bk' = bk"
    using that bank_ctl_put [OF assms(1), of "push_command q rp mc1" rk' bk' "close_bank p c"]
    by (auto simp: bank_closed_def r(4) close_bank_def)
  show "requests s1 rp0 = Some r0" if "requests s rp0 = Some r0" "rp0 < nextReq s" using that r by simp
qed

lemma precharge_banks_lawful:
  assumes "precharge_banks p rk bs st = Some st'" "n \<le> nextReq (snd st)"
  shows "lawful p n st st' \<and> (\<forall>rk' bk'. bank_closed rk' bk' (fst st) \<or> rk' = rk \<and> bk' \<in> set bs \<longrightarrow> bank_closed rk' bk' (fst st'))"
  using assms
proof (induction bs arbitrary: st)
  case (Cons bk bs)
  obtain mc s where st: "st = (mc, s)" by fastforce
  from Cons.prems(1) obtain q c st1 where q: "unat q < length (commandQueues mc)"
    and c: "bank_ctl rk bk mc = Some c" "precharge_banks p rk bs st1 = Some st'"
    "(if activateQueued c then do {
         (rp, mc, s) \<leftarrow> MakePrechargeAllRequest 0 0 bk rk 0 (mc, s);
         Some (put_bank rk bk (close_bank p c) (push_command q rp mc), s)
       } else Some (mc, s)) = Some st1"
    by (auto simp: bind_eq_Some_conv st bank_queue_def dest: queue_bound)
  have 1: "lawful p n (mc, s) st1 \<and> (\<forall>rk' bk'. bank_closed rk' bk' mc \<or> rk' = rk \<and> bk' = bk \<longrightarrow> bank_closed rk' bk' (fst st1))"
  proof (cases "activateQueued c")
    case True
    with c(3) obtain rp mc1 s1 where "MakePrechargeAllRequest 0 0 bk rk 0 (mc, s) = Some (rp, mc1, s1)"
      "st1 = (put_bank rk bk (close_bank p c) (push_command q rp mc1), s1)"
      by (auto simp: bind_eq_Some_conv)
    then show ?thesis using precharge_bank_lawful [OF c(1) True _ q] Cons.prems(2) by (fastforce simp: st)
  next
    case False
    then show ?thesis using c(1,3) by (auto simp: bank_closed_def)
  qed
  then have "n \<le> nextReq (snd st1)" using lawful_next [of p n "(mc, s)" st1] Cons.prems(2) by (simp add: st)
  then show ?case using 1 Cons.IH [OF c(2)] by (auto simp: st intro: lawful_trans)
qed simp

text \<open>A refresh goes to the end of the queue of its first bank; the banks it covers have been closed.\<close>

lemma refresh_legal:
  assumes "rtype r = REFRESH" "rank (address r) = i" "bank (address r) = j" "same_rows mc mc'"
    and "UsePrecharge p \<Longrightarrow> \<forall>bk \<in> set (covered_banks p j). bank_closed i bk mc"
  shows "legal p [r] mc mc'"
  unfolding legal_def
proof (intro allI impI)
  fix rk bk c
  assume c: "bank_ctl rk bk mc = Some c" "ctl_wf c"
  obtain c' where c': "bank_ctl rk bk mc' = Some c'" "activateQueued c' = activateQueued c" "subs c' = subs c"
    using same_rowsD [OF assms(4) c(1)] by blast
  have "list_all (\<lambda>x. x = None) (rows_of c)" if "concerns p rk bk r" "UsePrecharge p"
    using that assms(1-3,5) c by (auto simp: concerns_def bank_closed_def ctl_wf_def rows_of_def list_all_iff)
  then have "row_run p (rows_of c) (filter (concerns p rk bk) [r]) = Some (rows_of c)"
    using assms(1) by (simp add: row_step_def)
  then show "\<exists>c'. bank_ctl rk bk mc' = Some c' \<and> ctl_wf c'
      \<and> row_run p (rows_of c) (filter (concerns p rk bk) [r]) = Some (rows_of c')"
    using c' c(2) by (simp add: rows_of_def ctl_wf_def)
qed

lemma ResetRefresh_rows:
  assumes "ResetRefresh p bk rk mc = Some mc'"
  shows "same_rows mc mc'" "commandQueues mc' = commandQueues mc" "transactionQueues mc' = transactionQueues mc"
proof -
  obtain bs where "change_banks (\<lambda>c. Some (c\<lparr>bankNeedRefresh := False\<rparr>)) rk bs mc = Some mc'"
    using assms by (auto simp: ResetRefresh_def bind_eq_Some_conv)
  from change_banks_rows [OF _ this] show "same_rows mc mc'" "commandQueues mc' = commandQueues mc" "transactionQueues mc' = transactionQueues mc"
    by auto
qed

lemma DecrementRefreshCounter_rows:
  "DecrementRefreshCounter p bk rk mc = Some mc' \<Longrightarrow> bankCtl mc' = bankCtl mc \<and> commandQueues mc' = commandQueues mc \<and> transactionQueues mc' = transactionQueues mc"
  by (auto simp: DecrementRefreshCounter_def add_refresh_def bind_eq_Some_conv)

lemma round_robin_rows:
  "bankCtl ((round_robin p mc)\<lparr>handledRefresh := t\<rparr>) = bankCtl mc" "commandQueues ((round_robin p mc)\<lparr>handledRefresh := t\<rparr>) = commandQueues mc"
  "transactionQueues ((round_robin p mc)\<lparr>handledRefresh := t\<rparr>) = transactionQueues mc"
  by (simp_all add: round_robin_def Let_def)

lemma queue_refresh_lawful:
  assumes "queue_refresh p i j st = Some st'" "n \<le> nextReq (snd st)"
  shows "lawful p n st st'"
proof -
  obtain mc s where st: "st = (mc, s)" by fastforce
  obtain rp mc1 s1 st2 q r mc3 mc4 need mc5 where m: "MakeRefreshRequest 0 0 j i 0 (mc, s) = Some (rp, mc1, s1)"
    "(if UsePrecharge p then precharge_banks p i (covered_banks p j) (mc1, s1) else Some (mc1, s1)) = Some st2"
    "requests (snd st2) rp = Some r" "bank_queue p i j (fst st2) = Some q"
    "change_banks (\<lambda>c. Some (c\<lparr>refreshQueued := True\<rparr>)) i (covered_banks p j) (push_command q rp (fst st2)) = Some mc3"
    "DecrementRefreshCounter p j i mc3 = Some mc4" "(if need then Some mc4 else ResetRefresh p j i mc4) = Some mc5"
    "st' = ((round_robin p mc5)\<lparr>handledRefresh := GetCurrentCycle (snd st2)\<rparr>,
       put_request rp (r\<lparr>issueCycle := GetCurrentCycle (snd st2)\<rparr>) (snd st2))"
    using assms(1) unfolding queue_refresh_def Let_def st
    by (elim bind_eq_SomeE) (auto elim!: bind_eq_SomeE split: prod.splits simp: put_request_def)
  obtain r1 dec where r1: "rp = nextReq s" "nextReq s1 = Suc rp" "eventQueue s1 = eventQueue s" "mc1 = mc\<lparr>mc_decoder := dec\<rparr>"
    "requests s1 = (requests s)(rp \<mapsto> r1)" "rtype r1 = REFRESH" "bank (address r1) = j" "rank (address r1) = i"
    using m(1) unfolding make_defs by (rule make_atE)
  have 1: "lawful p n (mc, s) (mc1, s1)"
    by (rule lawful_still [OF fresh_rel [OF r1(1-3,5)]]) (simp_all add: r1(4) same_rows_cong)
  have 2: "lawful p n (mc1, s1) st2" "UsePrecharge p \<Longrightarrow> \<forall>bk \<in> set (covered_banks p j). bank_closed i bk (fst st2)"
    using m(2) precharge_banks_lawful [of p i "covered_banks p j" "(mc1, s1)" st2 n] assms(2) r1(1,2) by (auto simp: st split: if_splits)
  have rel: "sim_rel s1 (snd st2)" using 2(1) by (simp add: lawful_def)
  have r: "rtype r = REFRESH" "bank (address r) = j" "rank (address r) = i" "rp < nextReq (snd st2)"
    using sim_rel_request [OF rel, of rp r1] m(3) r1 sim_rel_nextReq [OF rel] by (auto simp: same_request_def)
  have rows: "same_rows (fst st2) (fst st')"
  proof -
    have a: "same_rows (fst st2) mc3" using change_banks_rows(1) [OF _ m(5)] by (auto simp: same_rows_def)
    moreover have b: "same_rows mc3 mc4" using DecrementRefreshCounter_rows [OF m(6)] by (simp add: same_rows_cong)
    moreover have c: "same_rows mc4 mc5" using m(7) ResetRefresh_rows by (auto split: if_splits)
    moreover have d: "same_rows mc5 (fst st')" by (simp add: m(8) round_robin_rows same_rows_cong)
    ultimately show ?thesis by (meson same_rows_trans)
  qed
  have "lawful p n (fst st2, snd st2) (fst st', snd st')"
  proof (rule lawful_push [where q = q and rp = rp and r = "r\<lparr>issueCycle := GetCurrentCycle (snd st2)\<rparr>"])
    show "sim_rel (snd st2) (snd st')" using m(3) by (auto simp: m(8) same_request_def intro!: sim_rel_put)
    show "legal p [r\<lparr>issueCycle := GetCurrentCycle (snd st2)\<rparr>] (fst st2) (fst st')" by (rule refresh_legal [OF _ _ _ rows 2(2)]) (simp_all add: r)
    have q3: "commandQueues mc3 = commandQueues (push_command q rp (fst st2))" "transactionQueues mc3 = transactionQueues (fst st2)"
      using change_banks_rows(2,3) [OF _ m(5)] by auto
    have q5: "commandQueues mc5 = commandQueues mc4" "transactionQueues mc5 = transactionQueues mc4"
      using m(7) ResetRefresh_rows(2,3) by (auto split: if_splits)
    show "transactionQueues (fst st') = transactionQueues (fst st2)"
      using q3(2) q5(2) DecrementRefreshCounter_rows [OF m(6)] by (simp add: m(8) round_robin_rows)
    from q3(1) q5(1) show "commandQueues (fst st') = (commandQueues (fst st2))[unat q := commandQueues (fst st2) ! unat q @ [rp]]"
      using DecrementRefreshCounter_rows [OF m(6)] by (simp add: m(8) round_robin_rows)
  qed (use assms(2) queue_bound m(4) r(4) in \<open>simp_all add: m(8) r1(1) st put_request_def bank_queue_def\<close>)
  then show ?thesis using 1 2(1) lawful_trans st by (metis prod.collapse)
qed

subsection \<open>Waking up\<close>

lemma insert_callback_post:
  assumes "\<And>s'. sim_rel s s' \<Longrightarrow> Q s'"
  shows "post (insert_callback me cb due d pr s) Q"
  unfolding insert_callback_def InsertCallback_def
  by (simp add: Event_alloc_def, intro nvm_post assms, simp)

definition lawful_wake :: "Params \<Rightarrow> (mcs \<Rightarrow> mcs option) \<Rightarrow> bool" where
  "lawful_wake p wake \<longleftrightarrow> (\<forall>n st st'. wake st = Some st' \<longrightarrow> n \<le> nextReq (snd st) \<longrightarrow> lawful p n st st')"

lemma handle_groups_lawful:
  assumes "lawful_wake p wake" "handle_groups p wake gs st = Some (ok, st')" "n \<le> nextReq (snd st)"
  shows "lawful p n st st'"
  using assms(2)
proof (induction gs)
  case (Cons g gs)
  obtain a b where g: "g = (a, b)" by fastforce
  from Cons.prems consider i j st1 where "queue_refresh p i j st = Some st1" "wake st1 = Some st'"
    | "handle_groups p wake gs st = Some (ok, st')"
    by (auto simp: g bind_eq_Some_conv Let_def split: if_splits)
  then show ?case
  proof cases
    case 1
    have a: "lawful p n st st1" using queue_refresh_lawful [OF 1(1) assms(3)] .
    then have "lawful p n st1 st'" using assms(1,3) 1(2) lawful_next unfolding lawful_wake_def by blast
    then show ?thesis using a lawful_trans by blast
  qed (use Cons.IH in blast)
qed simp

lemma refresh_if_due_lawful:
  assumes "lawful_wake p wake" "refresh_if_due p wake rk bk t st = Some (t', st')" "n \<le> nextReq (snd st)"
  shows "lawful p n st st'"
  using assms(2) handle_groups_lawful [OF assms(1) _ assms(3)]
  by (auto simp: refresh_if_due_def HandleRefresh_with_def bind_eq_Some_conv split: if_splits)

lemma head_time_lawful: "head_time p q t st = Some (t', st') \<Longrightarrow> lawful p n st st'"
  by (cases st) (auto simp: head_time_def bind_eq_Some_conv intro!: lawful_still same_rows_cong split: list.splits)

lemma next_loop_lawful:
  assumes "lawful_wake p wake" "next_loop p wake bs t st = Some (t', st')" "n \<le> nextReq (snd st)"
  shows "lawful p n st st'"
  using assms(2,3)
proof (induction bs arbitrary: t st)
  case (Cons b bs)
  then obtain rk bk t1 st1 q t2 st2 where m: "refresh_if_due p wake rk bk t st = Some (t1, st1)" "head_time p q t1 st1 = Some (t2, st2)"
    "next_loop p wake bs t2 st2 = Some (t', st')"
    by (cases b) (auto simp: bind_eq_Some_conv)
  have a: "lawful p n st st2"
    using refresh_if_due_lawful [OF assms(1) m(1) Cons.prems(2)] head_time_lawful [OF m(2)] lawful_trans by blast
  then show ?case using Cons.IH [OF m(3) lawful_next [OF a Cons.prems(2)]] lawful_trans by blast
qed simp

lemma wake_lawful:
  assumes "\<And>n st t st'. next st = Some (t, st') \<Longrightarrow> n \<le> nextReq (snd st) \<Longrightarrow> lawful p n st st'"
  shows "lawful_wake p (ScheduleCommandWake_with next)"
  unfolding lawful_wake_def
proof (intro allI impI)
  fix n st st'
  assume n: "n \<le> nextReq (snd st)" and "ScheduleCommandWake_with next st = Some st'"
  from this(2) obtain t mc s s' b where m: "next st = Some (t, mc, s)" "st' = (mc, s')"
    "(if b then insert_callback (mc_this mc) cb_CommandQueue t None commandQueuePriority s else Some s) = Some s'"
    unfolding ScheduleCommandWake_with_def by (elim bind_eq_SomeE; clarify; elim bind_eq_SomeE; simp only: option.inject) blast
  have "sim_rel s s'"
    using m(3) postD [OF insert_callback_post [of s "sim_rel s"]] by (auto split: if_splits)
  then have "lawful p n (mc, s) (mc, s')" by (rule lawful_still) simp_all
  then show "lawful p n st st'" using assms [OF m(1) n] lawful_trans unfolding m(2) by blast
qed

lemma NextIssuable_fuel_lawful: "NextIssuable_fuel k p st = Some (t, st') \<Longrightarrow> n \<le> nextReq (snd st) \<Longrightarrow> lawful p n st st'"
proof (induction k arbitrary: n st t st')
  case (Suc k)
  then have "lawful_wake p (ScheduleCommandWake_with (NextIssuable_fuel k p))" by (intro wake_lawful) blast
  then show ?case using Suc.prems next_loop_lawful by (fastforce simp: bind_eq_Some_conv)
qed simp

lemma ScheduleCommandWake_lawful: "lawful_wake p (ScheduleCommandWake p)"
  unfolding ScheduleCommandWake_def
  by (intro wake_lawful) (simp only: NextIssuable_def, erule (1) NextIssuable_fuel_lawful)

end
