(* ===== verification/Transaction_Rows.thy ===== *)
theory Transaction_Rows
  imports Memory_Controller_Rows
begin

text \<open>
  What \<^verbatim>\<open>IssueMemoryCommands\<close> does with a transaction, against the specification of the rows: the
  commands it queues are legal for the bank, the transaction is one of them, and it is refused only
  when its command queue is busy.
\<close>

section \<open>Asking the tree\<close>

text \<open>No module of the tree answers for a cache, so that the path for cached requests is never taken.\<close>

lemma subarray_no_cache:
  assumes "rtype r = CACHED_READ \<or> rtype r = CACHED_WRITE"
  shows "post (SubArray_IsIssuable p r sa s) (\<lambda>(ok, why, sa'). \<not> ok)"
  using assms by (elim disjE; simp add: SubArray_IsIssuable_def Let_def post_def)

lemma bank_no_cache:
  assumes "rtype r = CACHED_READ \<or> rtype r = CACHED_WRITE"
  shows "post (Bank_IsIssuable p r b s) (\<lambda>(ok, why, b'). \<not> ok)"
proof -
  have "post (bank_ask p r b s) (\<lambda>(ok, why, b'). \<not> ok)"
    unfolding bank_ask_def bank_child_issuable_def
    by (intro flow_posts post_any_pair [of "GetChild_req r d cs" for d cs] post_weaken [OF subarray_no_cache [OF assms]])
      (auto intro: post_Some)
  then show ?thesis using assms by (elim disjE; simp add: Bank_IsIssuable_def Let_def post_def; blast)
qed

lemma bus_no_cache:
  assumes "rtype r = CACHED_READ \<or> rtype r = CACHED_WRITE"
  shows "post (Bus_IsIssuable p r u s) (\<lambda>(ok, why, u'). \<not> ok)"
proof -
  have ask: "post (rank_ask p r k s) (\<lambda>(ok, why, k'). \<not> ok)" for k
    unfolding rank_ask_def rank_child_issuable_def
    by (intro flow_posts post_any_pair [of "GetChild_req r d cs" for d cs] post_weaken [OF bank_no_cache [OF assms]])
      (auto intro: post_Some)
  have same: "Rank_IsIssuable p r k s = rank_ask p r k s" for k
    using assms by (auto simp: Rank_IsIssuable_def Let_def)
  show ?thesis
    unfolding Bus_IsIssuable_def same
    by (intro flow_posts post_any_pair [of "GetChild_req r d cs" for d cs] post_weaken [OF ask]) (auto intro: post_Some)
qed

lemma MakeCachedRequestD:
  "MakeCachedRequest r me = Some x \<Longrightarrow> (rtype r = READ \<or> rtype r = WRITE) \<and> (rtype x = CACHED_READ \<or> rtype x = CACHED_WRITE)"
  by (auto simp: MakeCachedRequest_def bind_eq_Some_conv)

text \<open>Questions change the children and the decoders only.\<close>

definition asked :: "MemoryController \<Rightarrow> MemoryController \<Rightarrow> bool" where
  "asked mc mc' \<longleftrightarrow> (\<exists>u dec. mc' = mc\<lparr>mc_child := u, mc_decoder := dec\<rparr>)"

lemma asked_refl [simp]: "asked mc mc"
  unfolding asked_def by (rule exI [of _ "mc_child mc"], rule exI [of _ "mc_decoder mc"]) simp

lemma asked_trans: "asked a b \<Longrightarrow> asked b c \<Longrightarrow> asked a c"
  unfolding asked_def by (clarify, simp, blast)

lemma asked_update: "asked a b \<Longrightarrow> asked a (b\<lparr>mc_child := u\<rparr>)" "asked a b \<Longrightarrow> asked a (b\<lparr>mc_decoder := dec\<rparr>)"
proof -
  assume "asked a b"
  then obtain v d where b: "b = a\<lparr>mc_child := v, mc_decoder := d\<rparr>" by (auto simp: asked_def)
  show "asked a (b\<lparr>mc_child := u\<rparr>)" unfolding asked_def by (rule exI [of _ u], rule exI [of _ d]) (simp add: b)
  show "asked a (b\<lparr>mc_decoder := dec\<rparr>)" unfolding asked_def by (rule exI [of _ v], rule exI [of _ dec]) (simp add: b)
qed

lemma askedD:
  assumes "asked mc mc'"
  shows "bankCtl mc' = bankCtl mc" "commandQueues mc' = commandQueues mc" "transactionQueues mc' = transactionQueues mc"
    "GetCommandQueueId p a mc' = GetCommandQueueId p a mc" "mc_this mc' = mc_this mc"
  using assms by (auto simp: asked_def GetCommandQueueId_def cong: QueueModel.case_cong)

lemma find_rank_asked: "find_rank r mc = Some (i, mc') \<Longrightarrow> asked mc mc'"
  by (auto simp: find_rank_def bind_eq_Some_conv intro!: asked_update)

lemma find_subarray_asked: "find_subarray r mc = Some (sa, mc') \<Longrightarrow> asked mc mc'"
  by (auto simp: find_subarray_def bind_eq_Some_conv Let_def intro!: asked_update dest: find_rank_asked)

lemma child_issuable_asked: "child_issuable p r (mc, s) = Some (ok, mc') \<Longrightarrow> asked mc mc'"
  by (auto simp: child_issuable_def bind_eq_Some_conv intro!: asked_update)

lemma asked_same_rows: "asked mc mc' \<Longrightarrow> same_rows mc mc'"
  by (intro same_rows_cong) (rule askedD)

lemma request_bank_asked: "asked mc mc' \<Longrightarrow> request_bank r mc' = request_bank r mc"
  by (simp add: request_bank_def bank_ctl_def askedD(1))

section \<open>The rows of a bank\<close>

lemma rows_put_sub [simp]:
  "rows_of (put_sub sa x c) = (rows_of c)[unat sa := (if activeSubArray x then Some (effectiveRow x) else None)]"
  "rows_of (c\<lparr>activateQueued := b\<rparr>) = rows_of c" "length (rows_of c) = length (subs c)"
  by (simp_all add: rows_of_def put_sub_def map_update)

lemma rows_sub: "sub_ctl sa c = Some x \<Longrightarrow> unat sa < length (subs c) \<and> rows_of c ! unat sa = (if activeSubArray x then Some (effectiveRow x) else None)"
  by (auto simp: sub_ctl_def rows_of_def split: if_splits)

lemma row_activate:
  "rtype r = ACTIVATE \<Longrightarrow> unat (subarray (address r)) < length rows \<Longrightarrow> (UsePrecharge p \<Longrightarrow> rows ! unat (subarray (address r)) = None)
    \<Longrightarrow> row_step p r rows = Some (rows[unat (subarray (address r)) := Some (row (address r))])"
  by (auto simp: row_step_def Let_def)

lemma row_column:
  "rtype r = READ \<or> rtype r = WRITE \<Longrightarrow> unat (subarray (address r)) < length rows \<Longrightarrow> rows ! unat (subarray (address r)) = Some (row (address r))
    \<Longrightarrow> row_step p r rows = Some rows"
  by (auto simp: row_step_def Let_def)

lemma row_close:
  "rtype r = READ_PRECHARGE \<or> rtype r = WRITE_PRECHARGE \<Longrightarrow> unat (subarray (address r)) < length rows
    \<Longrightarrow> rows ! unat (subarray (address r)) = Some (row (address r)) \<Longrightarrow> row_step p r rows = Some (rows[unat (subarray (address r)) := None])"
  by (auto simp: row_step_def Let_def)

lemma close_sub_inactive [simp]: "\<not> activeSubArray (close_sub p x)"
  by (simp add: close_sub_def)

lemma ctl_wf_active [simp]: "ctl_wf (c\<lparr>activateQueued := True\<rparr>)"
  by (simp add: ctl_wf_def)

lemma closed_inactive: "ctl_wf c \<Longrightarrow> \<not> activateQueued c \<Longrightarrow> sub_ctl sa c = Some x \<Longrightarrow> \<not> activeSubArray x"
  by (auto simp: ctl_wf_def sub_ctl_def list_all_length split: if_splits)

lemma ctl_wf_close_sub:
  assumes "ctl_wf c" "\<not> activateQueued c"
  shows "ctl_wf ((put_sub sa (close_sub p x) c)\<lparr>activateQueued := False\<rparr>)"
  using assms by (auto simp: ctl_wf_def put_sub_def close_sub_def list_all_iff dest!: set_update_subset_insert [THEN subsetD])

section \<open>Queueing a transaction\<close>

lemma push_requestE:
  assumes "push_request q rp (mc, s) = Some (mc', s')" "requests s rp = Some r"
  obtains r' where "mc' = push_command q rp mc" "requests s' = (requests s)(rp \<mapsto> r')" "nextReq s' = nextReq s"
    "rtype r' = rtype r" "address r' = address r" "eventQueue s' = eventQueue s"
  using assms by (auto simp: push_request_def put_request_def)

lemma push_closingE:
  assumes "push_closing q rp (mc, s) = Some (mc', s')" "requests s rp = Some r" "rtype r = READ \<or> rtype r = WRITE"
  obtains r' where "mc' = push_command q rp mc" "requests s' = (requests s)(rp \<mapsto> r')" "nextReq s' = nextReq s"
    "rtype r' = READ_PRECHARGE \<or> rtype r' = WRITE_PRECHARGE" "address r' = address r"
  using assms by (auto simp: push_closing_def put_request_def implicit_precharge_def)

lemma push_activateE:
  assumes "push_activate q w r (mc, s) = (mc', s')"
  obtains act ra where "act = nextReq s" "mc' = push_command q act mc" "requests s' = (requests s)(act \<mapsto> ra)" "nextReq s' = Suc act"
    "rtype ra = ACTIVATE" "address ra = address r" "eventQueue s' = eventQueue s"
  using assms by (auto simp: push_activate_def MakeActivateRequest_def make_for_def new_request_def put_request_def push_command_def)

text \<open>What is to be shown of each of the three cases: legal commands, the transaction once among them, and
  all others new requests.\<close>

definition serves :: "Params \<Rightarrow> req_ptr \<Rightarrow> mcs \<Rightarrow> mcs \<Rightarrow> bool" where
  "serves p rp st st' \<longleftrightarrow> (\<exists>cmds new. queues p cmds st st' \<and> mset (map (fst \<circ> snd) cmds) = add_mset rp new
     \<and> (\<forall>x \<in># new. nextReq (snd st) \<le> x) \<and> nextReq (snd st) \<le> nextReq (snd st'))"

lemma servesI:
  assumes "queues p cmds st st'" "mset (map (fst \<circ> snd) cmds) = add_mset rp new" "\<forall>x \<in># new. nextReq (snd st) \<le> x"
    "nextReq (snd st) \<le> nextReq (snd st')"
  shows "serves p rp st st'"
  using assms unfolding serves_def by blast

lemma serves_then:
  assumes "serves p rp a b" "lawful p (nextReq (snd a)) b c"
  shows "serves p rp a c"
proof -
  obtain cmds new where 1: "queues p cmds a b" "mset (map (fst \<circ> snd) cmds) = add_mset rp new" "\<forall>x \<in># new. nextReq (snd a) \<le> x"
    "nextReq (snd a) \<le> nextReq (snd b)"
    using assms(1) unfolding serves_def by blast
  obtain cmds' where 2: "queues p cmds' b c" "sim_rel (snd b) (snd c)" "\<forall>(q, rp, r) \<in> set cmds'. nextReq (snd a) \<le> rp"
    using assms(2) unfolding lawful_def by blast
  show ?thesis
    by (rule servesI [OF queues_trans [OF 1(1) 2(1,2)], where new = "new + mset (map (fst \<circ> snd) cmds')"])
      (use 1(2-4) 2(3) sim_rel_nextReq [OF 2(2)] in auto)
qed

lemma closed_bank_serves:
  assumes rp: "rp < nextReq s" "requests s rp = Some r" "rtype r = READ \<or> rtype r = WRITE"
    and c: "bank_ctl (rank (address r)) (bank (address r)) mc = Some c" "\<not> activateQueued c"
    and iss: "issue_closed_bank p q mux w rp r c (mc, s) = Some (mc', s')"
    and q: "unat q < length (commandQueues mc)"
  shows "serves p rp (mc, s) (mc', s')"
proof -
  let ?sa = "subarray (address r)"
  obtain x mc1 s1 where x: "sub_ctl ?sa c = Some x" "push_activate q w r (mc, s) = (mc1, s1)"
    using iss by (cases "push_activate q w r (mc, s)") (auto simp: issue_closed_bank_def bind_eq_Some_conv)
  let ?x = "x\<lparr>activeSubArray := True, effectiveRow := row (address r), effectiveMuxedRow := mux, starvationCounter := 0\<rparr>"
  obtain act ra where a: "act = nextReq s" "mc1 = push_command q act mc" "requests s1 = (requests s)(act \<mapsto> ra)" "nextReq s1 = Suc act"
    "rtype ra = ACTIVATE" "address ra = address r"
    using x(2) by (rule push_activateE)
  have r1: "requests s1 rp = Some r" using rp(1,2) a(1,3) by simp
  have i: "unat ?sa < length (subs c)" using rows_sub [OF x(1)] by simp
  have none: "ctl_wf c \<Longrightarrow> rows_of c ! unat ?sa = None" using rows_sub [OF x(1)] closed_inactive [OF _ c(2) x(1)] by simp
  show ?thesis
  proof (cases "closes p r")
    case True
    with iss x obtain mc2 where m: "push_closing q rp (mc1, s1) = Some (mc2, s')" "mc' = set_sub r False (close_sub p ?x) c mc2"
      by (auto simp: issue_closed_bank_def bind_eq_Some_conv Let_def)
    obtain r' where r': "mc2 = push_command q rp mc1" "requests s' = (requests s1)(rp \<mapsto> r')" "nextReq s' = nextReq s1"
      "rtype r' = READ_PRECHARGE \<or> rtype r' = WRITE_PRECHARGE" "address r' = address r"
      using push_closingE [OF m(1) r1 rp(3)] by blast
    have "legal p [ra, r'] mc mc'"
      unfolding m(2) set_sub_def
      by (rule legal_one_bank [OF c(1)])
        (use i none r'(4) ctl_wf_close_sub [OF _ c(2)] in \<open>auto simp: r'(1-3,5) a row_activate row_close\<close>)
    then have "queues p [(q, act, ra), (q, rp, r')] (mc, s) (mc', s')"
      using rp(1) q by (auto simp: queues_def grown_def recorded_def m(2) set_sub_def r'(1-3) a(1-4))
    then show ?thesis by (rule servesI [where new = "{#act#}"]) (simp_all add: a r')
  next
    case False
    with iss x obtain mc2 where m: "push_request q rp (mc1, s1) = Some (mc2, s')" "mc' = set_sub r True ?x c mc2"
      by (auto simp: issue_closed_bank_def bind_eq_Some_conv Let_def)
    obtain r' where r': "mc2 = push_command q rp mc1" "requests s' = (requests s1)(rp \<mapsto> r')" "nextReq s' = nextReq s1"
      "rtype r' = rtype r" "address r' = address r"
      using push_requestE [OF m(1) r1] by blast
    have "legal p [ra, r'] mc mc'"
      unfolding m(2) set_sub_def
      by (rule legal_one_bank [OF c(1)]) (use i none rp(3) in \<open>auto simp: r' a row_activate row_column\<close>)
    then have "queues p [(q, act, ra), (q, rp, r')] (mc, s) (mc', s')"
      using rp(1) q by (auto simp: queues_def grown_def recorded_def m(2) set_sub_def r'(1-3) a(1-4))
    then show ?thesis by (rule servesI [where new = "{#act#}"]) (simp_all add: a r')
  qed
qed

lemma row_miss_serves:
  assumes rp: "rp < nextReq s" "requests s rp = Some r" "rtype r = READ \<or> rtype r = WRITE"
    and c: "bank_ctl (rank (address r)) (bank (address r)) mc = Some c"
    and iss: "issue_row_miss p q mux w rp r c (mc, s) = Some (mc', s')"
    and q: "unat q < length (commandQueues mc)"
  shows "serves p rp (mc, s) (mc', s')"
proof -
  let ?sa = "subarray (address r)"
  obtain x mc0 s0 mc2 where x: "sub_ctl ?sa c = Some x"
    "(if activeSubArray x \<and> UsePrecharge p then do {
         (pre, mc, s) \<leftarrow> MakePrechargeRequest (effectiveRow x) 0 (bank (address r)) (rank (address r)) ?sa (mc, s);
         Some (push_command q pre mc, s)
       } else Some (mc, s)) = Some (mc0, s0)"
    "push_request q rp (push_activate q w r (mc0, s0)) = Some (mc2, s')"
    "mc' = set_sub r True (x\<lparr>starvationCounter := 0, activeSubArray := True, effectiveRow := row (address r), effectiveMuxedRow := mux\<rparr>) c mc2"
    using iss unfolding issue_row_miss_def Let_def
    by (elim bind_eq_SomeE) (auto elim!: bind_eq_SomeE split: prod.splits)
  obtain mc1 s1 where x3: "push_activate q w r (mc0, s0) = (mc1, s1)" by fastforce
  have i: "unat ?sa < length (subs c)" using rows_sub [OF x(1)] by simp
  have "\<exists>cmds. grown cmds mc mc0 \<and> bankCtl mc0 = bankCtl mc \<and> nextReq s \<le> nextReq s0 \<and> requests s0 rp = Some r
      \<and> (\<forall>(q, pre, rr) \<in> set cmds. pre \<noteq> rp \<and> nextReq s \<le> pre \<and> pre < nextReq s0 \<and> requests s0 pre = Some rr
        \<and> rtype rr \<noteq> REFRESH \<and> bank (address rr) = bank (address r) \<and> rank (address rr) = rank (address r))
      \<and> row_run p (rows_of c) (map (snd \<circ> snd) cmds) = Some (if UsePrecharge p then (rows_of c)[unat ?sa := None] else rows_of c)"
  proof (cases "activeSubArray x \<and> UsePrecharge p")
    case True
    with x(2) obtain pre mc3 where pre: "MakePrechargeRequest (effectiveRow x) 0 (bank (address r)) (rank (address r)) ?sa (mc, s) = Some (pre, mc3, s0)"
      "mc0 = push_command q pre mc3"
      by (auto simp: bind_eq_Some_conv)
    obtain rr dec where r: "pre = nextReq s" "nextReq s0 = Suc pre" "mc3 = mc\<lparr>mc_decoder := dec\<rparr>" "requests s0 = (requests s)(pre \<mapsto> rr)"
      "rtype rr = PRECHARGE" "bank (address rr) = bank (address r)" "rank (address rr) = rank (address r)" "subarray (address rr) = ?sa"
      using pre(1) unfolding make_defs by (rule make_atE)
    then show ?thesis
      using True i rp q by (intro exI [of _ "[(q, pre, rr)]"]) (simp add: grown_def pre(2) row_step_def)
  next
    case False
    then have "row_run p (rows_of c) [] = Some (if UsePrecharge p then (rows_of c)[unat ?sa := None] else rows_of c)"
      using rows_sub [OF x(1)] list_update_id [of "rows_of c" "unat ?sa"] by auto
    then show ?thesis using False x(2) rp by (intro exI [of _ "[]"]) (auto simp: grown_def)
  qed
  then obtain cmds where cmds: "grown cmds mc mc0" "bankCtl mc0 = bankCtl mc" "nextReq s \<le> nextReq s0" "requests s0 rp = Some r"
    "\<forall>(q, pre, rr) \<in> set cmds. pre \<noteq> rp \<and> nextReq s \<le> pre \<and> pre < nextReq s0 \<and> requests s0 pre = Some rr
        \<and> rtype rr \<noteq> REFRESH \<and> bank (address rr) = bank (address r) \<and> rank (address rr) = rank (address r)"
    "row_run p (rows_of c) (map (snd \<circ> snd) cmds) = Some (if UsePrecharge p then (rows_of c)[unat ?sa := None] else rows_of c)"
    by blast
  obtain act ra where a: "act = nextReq s0" "mc1 = push_command q act mc0" "requests s1 = (requests s0)(act \<mapsto> ra)" "nextReq s1 = Suc act"
    "rtype ra = ACTIVATE" "address ra = address r"
    using x3 by (rule push_activateE)
  have r1: "requests s1 rp = Some r" using rp(1) cmds(3,4) a(1,3) by simp
  obtain r' where r': "mc2 = push_command q rp mc1" "requests s' = (requests s1)(rp \<mapsto> r')" "nextReq s' = nextReq s1"
    "rtype r' = rtype r" "address r' = address r"
    using push_requestE [OF x(3) [unfolded x3] r1] by blast
  let ?cmds = "cmds @ [(q, act, ra), (q, rp, r')]"
  have "legal p (map (snd \<circ> snd) ?cmds) mc mc'"
    unfolding x(4) set_sub_def
    by (rule legal_one_bank [OF c])
      (use i rp(3) cmds(2,5) in \<open>auto simp: r' a row_activate row_column row_run_append cmds(6)\<close>)
  then have "queues p ?cmds (mc, s) (mc', s')"
    using rp(1) cmds(1,3,5) q by (auto simp: queues_def grown_def recorded_def x(4) set_sub_def r'(1-3) a(1-4))
  then show ?thesis
    by (rule servesI [where new = "add_mset act (mset (map (fst \<circ> snd) cmds))"]) (use cmds(3,5) in \<open>auto simp: a r'\<close>)
qed

lemma row_hit_serves:
  assumes rp: "rp < nextReq s" "requests s rp = Some r" "rtype r = READ \<or> rtype r = WRITE"
    and c: "bank_ctl (rank (address r)) (bank (address r)) mc = Some c" "row_open r mux c = Some True"
    and iss: "issue_row_hit p q rp r c (mc, s) = Some (mc', s')"
    and q: "unat q < length (commandQueues mc)"
  shows "serves p rp (mc, s) (mc', s')"
proof -
  let ?sa = "subarray (address r)"
  obtain x where x: "sub_ctl ?sa c = Some x" "activeSubArray x" "effectiveRow x = row (address r)"
    using c(2) by (auto simp: row_open_def bind_eq_Some_conv split: if_splits)
  let ?x = "x\<lparr>starvationCounter := starvationCounter x + 1\<rparr>"
  have i: "unat ?sa < length (subs c)" "rows_of c ! unat ?sa = Some (row (address r))" using rows_sub [OF x(1)] x(2,3) by simp_all
  show ?thesis
  proof (cases "closes p r")
    case True
    let ?b = "put_sub ?sa (close_sub p ?x) c"
    from True iss x(1) obtain mc1 idle where m: "push_closing q rp (mc, s) = Some (mc1, s')"
      "idle = (\<forall>y \<in> set (subs ?b). \<not> activeSubArray y)" "mc' = set_sub r (\<not> idle) (close_sub p ?x) c mc1"
      by (auto simp: issue_row_hit_def bind_eq_Some_conv Let_def)
    obtain r' where r': "mc1 = push_command q rp mc" "requests s' = (requests s)(rp \<mapsto> r')" "nextReq s' = nextReq s"
      "rtype r' = READ_PRECHARGE \<or> rtype r' = WRITE_PRECHARGE" "address r' = address r"
      using push_closingE [OF m(1) rp(2,3)] by blast
    have "ctl_wf (?b\<lparr>activateQueued := \<not> idle\<rparr>)" by (auto simp: ctl_wf_def m(2) list_all_iff)
    then have "legal p [r'] mc mc'"
      unfolding m(3) set_sub_def
      by (intro legal_one_bank [OF c(1)]) (use i r'(4) in \<open>auto simp: r'(1-3,5) row_close\<close>)
    then have "queues p [(q, rp, r')] (mc, s) (mc', s')"
      using rp(1) q by (auto simp: queues_def grown_def recorded_def m(3) set_sub_def r'(1-3))
    then show ?thesis by (rule servesI [where new = "{#}"]) (simp_all add: r')
  next
    case False
    with iss x(1) obtain mc1 where m: "push_request q rp (mc, s) = Some (mc1, s')" "mc' = set_sub r True ?x c mc1"
      by (auto simp: issue_row_hit_def bind_eq_Some_conv Let_def)
    obtain r' where r': "mc1 = push_command q rp mc" "requests s' = (requests s)(rp \<mapsto> r')" "nextReq s' = nextReq s"
      "rtype r' = rtype r" "address r' = address r"
      using push_requestE [OF m(1) rp(2)] by blast
    have same: "(rows_of c)[unat ?sa := Some (row (address r))] = rows_of c" using i by (metis list_update_id)
    have "legal p [r'] mc mc'"
      unfolding m(2) set_sub_def
      by (rule legal_one_bank [OF c(1)]) (use i rp(3) x(2,3) same in \<open>auto simp: r' row_column\<close>)
    then have "queues p [(q, rp, r')] (mc, s) (mc', s')"
      using rp(1) q by (auto simp: queues_def grown_def recorded_def m(2) set_sub_def r'(1-3))
    then show ?thesis by (rule servesI [where new = "{#}"]) (simp_all add: r')
  qed
qed

section \<open>Properties\<close>

lemma IssueMemoryCommands_cases:
  assumes "IssueMemoryCommands p rp (mc, s) = Some (ok, st')"
  obtains r mc1 q c mux where "requests s rp = Some r" "rtype r = READ \<or> rtype r = WRITE" "asked mc mc1"
      "GetCommandQueueId p (address r) mc = Some q" "request_bank r mc = Some c"
      "\<not> ok" "st' = (mc1, s)" "commandQueues mc ! unat q \<noteq> []" "row_open r mux c = Some False"
  | r mc1 q c mux w st1 where "requests s rp = Some r" "rtype r = READ \<or> rtype r = WRITE" "asked mc mc1"
      "GetCommandQueueId p (address r) mc = Some q" "request_bank r mc = Some c" "ok" "ScheduleCommandWake p st1 = Some st'"
      "\<not> activateQueued c \<and> issue_closed_bank p q mux w rp r c (mc1, s) = Some st1
        \<or> issue_row_miss p q mux w rp r c (mc1, s) = Some st1
        \<or> row_open r mux c = Some True \<and> issue_row_hit p q rp r c (mc1, s) = Some st1"
proof -
  obtain r arr mc1 mux q cached cc mc2 c opn where m: "requests s rp = Some r" "find_subarray r mc = Some (arr, mc1)" "mux_level p r = Some mux"
    "GetCommandQueueId p (address r) mc1 = Some q" "MakeCachedRequest r (mc_this mc1) = Some cached"
    "child_issuable p cached (mc1, s) = Some (cc, mc2)" "request_bank r mc2 = Some c" "row_open r mux c = Some opn"
    "(if cc \<and> \<not> opn then do { st \<leftarrow> push_request q rp (mc2, s); Some (True, st) }
     else if commandQueues mc2 ! unat q = [] \<and> \<not> activateQueued c then do {
       st \<leftarrow> issue_closed_bank p q mux (isWriting arr) rp r c (mc2, s);
       st \<leftarrow> ScheduleCommandWake p st;
       Some (True, st)
     }
     else if commandQueues mc2 ! unat q = [] \<and> \<not> opn then do {
       st \<leftarrow> issue_row_miss p q mux (isWriting arr) rp r c (mc2, s);
       st \<leftarrow> ScheduleCommandWake p st;
       Some (True, st)
     }
     else if opn then do {
       st \<leftarrow> issue_row_hit p q rp r c (mc2, s);
       st \<leftarrow> ScheduleCommandWake p st;
       Some (True, st)
     }
     else Some (False, mc2, s)) = Some (ok, st')"
    using assms unfolding IssueMemoryCommands_def prod.case
    by (elim bind_eq_SomeE; clarify; elim bind_eq_SomeE; clarify; elim bind_eq_SomeE) blast
  note ty = MakeCachedRequestD [OF m(5)]
  have "\<not> cc" using m(6) postD [OF bus_no_cache] ty by (fastforce simp: child_issuable_def bind_eq_Some_conv)
  have ask: "asked mc mc1" "asked mc mc2"
    using find_subarray_asked [OF m(2)] child_issuable_asked [OF m(6)] asked_trans by blast+
  have q: "GetCommandQueueId p (address r) mc = Some q" using m(4) askedD(4) [OF ask(1)] by simp
  have c: "request_bank r mc = Some c" using m(7) request_bank_asked [OF ask(2)] by simp
  have queues: "commandQueues mc2 = commandQueues mc" using askedD(2) [OF ask(2)] .
  show thesis
  proof (cases "ok")
    case False
    with m(9) \<open>\<not> cc\<close> have "st' = (mc2, s)" "commandQueues mc2 ! unat q \<noteq> []" "\<not> opn"
      by (auto simp: bind_eq_Some_conv split: if_splits)
    then show ?thesis using that(1) [OF m(1) _ ask(2) q c False] ty m(8) queues by simp
  next
    case True
    with m(8,9) \<open>\<not> cc\<close> obtain st1 where "ScheduleCommandWake p st1 = Some st'"
      "\<not> activateQueued c \<and> issue_closed_bank p q mux (isWriting arr) rp r c (mc2, s) = Some st1
        \<or> issue_row_miss p q mux (isWriting arr) rp r c (mc2, s) = Some st1
        \<or> row_open r mux c = Some True \<and> issue_row_hit p q rp r c (mc2, s) = Some st1"
      by (auto simp: bind_eq_Some_conv split: if_splits)
    then show ?thesis using that(2) [OF m(1) _ ask(2) q c True] ty by blast
  qed
qed

lemma asked_queues:
  assumes "asked mc mc1" "queues p cmds (mc1, s) st"
  shows "queues p cmds (mc, s) st"
proof -
  have "queues p [] (mc, s) (mc1, s)"
    using askedD(2,3) [OF assms(1)] same_rows_legal [OF asked_same_rows [OF assms(1)]] by (simp add: queues_def grown_def recorded_def)
  then show ?thesis using assms(2) askedD(1-3) [OF assms(1)] by (simp add: queues_def grown_def legal_def bank_ctl_def)
qed

lemma IssueMemoryCommands_serves:
  assumes "IssueMemoryCommands p rp (mc, s) = Some (ok, st')" "rp < nextReq s"
  shows "if ok then serves p rp (mc, s) st' else queues p [] (mc, s) st' \<and> snd st' = s"
  using assms(1)
proof (cases rule: IssueMemoryCommands_cases)
  case (1 r mc1 q c mux)
  have "queues p [] (mc1, s) (mc1, s)" using same_rows_legal by (simp add: queues_def grown_def recorded_def)
  then show ?thesis using 1 asked_queues by simp
next
  case (2 r mc1 q c mux w st1)
  have c: "bank_ctl (rank (address r)) (bank (address r)) mc1 = Some c"
    using 2(5) request_bank_asked [OF 2(3)] by (simp add: request_bank_def)
  have q: "unat q < length (commandQueues mc1)" using queue_bound [OF 2(4)] askedD(2) [OF 2(3)] by simp
  obtain mc' s' where st1: "st1 = (mc', s')" by fastforce
  have sv: "serves p rp (mc1, s) st1"
    using 2(8) closed_bank_serves [OF assms(2) 2(1,2) c _ _ q] row_miss_serves [OF assms(2) 2(1,2) c _ q]
      row_hit_serves [OF assms(2) 2(1,2) c _ _ q]
    unfolding st1 by blast
  have "nextReq s \<le> nextReq (snd st1)" using sv unfolding serves_def by auto
  then have "lawful p (nextReq s) st1 st'" using ScheduleCommandWake_lawful 2(7) unfolding lawful_wake_def by blast
  then have "serves p rp (mc1, s) st'" using serves_then [OF sv] by simp
  then show ?thesis using asked_queues [OF 2(3)] 2(6) unfolding serves_def by (simp only: if_True snd_conv) blast
qed

text \<open>A transaction is accepted whenever its command queue is empty.\<close>

lemma IssueMemoryCommands_accepts:
  assumes "IssueMemoryCommands p rp (mc, s) = Some (ok, st')" "requests s rp = Some r" "GetCommandQueueId p (address r) mc = Some q"
    "commandQueues mc ! unat q = []"
  shows ok
  using assms(1) by (cases rule: IssueMemoryCommands_cases) (use assms(2-4) in auto)

section \<open>What is in the queues\<close>

lemma mset_push:
  "unat q < length qs \<Longrightarrow> mset (concat (qs[unat q := qs ! unat q @ [rp]])) = add_mset rp (mset (concat qs))"
proof (induction qs arbitrary: q)
  case (Cons x qs)
  have "mset (concat (ys[i := ys ! i @ [rp]])) = add_mset rp (mset (concat ys))" if "i < length ys" for i ys
    using that by (induction ys arbitrary: i) (auto split: nat.split)
  from this [of "unat q" "x # qs"] show ?case using Cons.prems by simp
qed simp

lemma grown_mset:
  assumes "grown cmds mc mc'"
  shows "mset (concat (commandQueues mc')) = mset (concat (commandQueues mc)) + mset (map (fst \<circ> snd) cmds)"
proof -
  have "mset (concat (foldl (\<lambda>qs (q, rp, r). qs[unat (q :: ncounter_t) := qs ! unat q @ [rp :: req_ptr]]) qs (cmds :: command_log)))
      = mset (concat qs) + mset (map (fst \<circ> snd) cmds)"
    if "\<forall>(q, rp, r) \<in> set cmds. unat q < length qs" for qs
    using that by (induction cmds arbitrary: qs) (auto simp: mset_push)
  then show ?thesis using assms by (simp add: grown_def)
qed

end
