(* ===== verification/Frfcfs_Wqf.thy ===== *)
theory Frfcfs_Wqf
  imports Fcfs_Schedulers
begin

text \<open>
  \<^verbatim>\<open>src/NVmain/MemControl/FRFCFS-WQF/FRFCFS-WQF.cpp\<close>: first-ready-first-come-first-serve scheduling with a
  write queue, which is drained between a high and a low watermark. The members that this controller has
  in common with \<^verbatim>\<open>FRFCFS\<close> (the inherited controller, the latencies, the counts of reads, writes and starved
  requests) are the \<open>Scheduler\<close> in \<open>wq_common\<close>, whose other fields are not used.
\<close>

section \<open>State\<close>

abbreviation (input) readQueueId :: nat where "readQueueId \<equiv> 0"
abbreviation (input) writeQueueId :: nat where "writeQueueId \<equiv> 1"

text \<open>A measured quantity: its sum, its least and its greatest value.\<close>

record Extent =
  ex_total :: u64
  ex_min :: u64
  ex_max :: u64

definition Extent_new :: Extent where
  "Extent_new = \<lparr>ex_total = 0, ex_min = 10000000000, ex_max = 0\<rparr>"

text \<open>The extremes are recorded with an \<^verbatim>\<open>else\<close>: a value is never recorded as both.\<close>

definition note_extent :: "u64 \<Rightarrow> Extent \<Rightarrow> Extent" where
  "note_extent v x =
     (let x = x\<lparr>ex_total := ex_total x + v\<rparr>
      in if v < ex_min x then x\<lparr>ex_min := v\<rparr> else if ex_max x < v then x\<lparr>ex_max := v\<rparr> else x)"

text \<open>The same for the duration of a drain, where the maximum comes first.\<close>

definition note_duration :: "u64 \<Rightarrow> Extent \<Rightarrow> Extent" where
  "note_duration v x =
     (let x = x\<lparr>ex_total := ex_total x + v\<rparr>
      in if ex_max x < v then x\<lparr>ex_max := v\<rparr> else if v < ex_min x then x\<lparr>ex_min := v\<rparr> else x)"

record WqfStats =
  rq_rb_hits :: u64
  rq_rb_miss :: u64
  wq_rb_hits :: u64
  wq_rb_miss :: u64
  total_drains :: u64
  drain_writes :: Extent
  drain_cycles :: Extent
  drain_spacing :: Extent
  read_spacing :: Extent
  predrain_readqueue :: Extent
  reads_during_drain :: Extent
  average_writes_per_drain :: real
  average_drain_cycles :: real
  average_drain_spacing :: real
  average_read_spacing :: real
  average_predrain_readqueue_size :: real
  average_reads_during_drain :: real

record FRFCFS_WQF =
  wq_common :: Scheduler
  writeQueueSize :: u64
  readQueueSize :: u64
  wq_HighWaterMark :: u64
  wq_LowWaterMark :: u64
  m_draining :: bool
  force_drain :: bool
  m_request_per_drain :: u64
  m_drain_start_cycle :: ncycle_t
  m_drain_end_cycle :: ncycle_t
  m_drain_start_readqueue_size :: u64
  m_drain_end_readqueue_size :: u64
  m_last_drain_end_cycle :: ncycle_t
  wq_stats :: WqfStats

definition WqfStats_new :: WqfStats where
  "WqfStats_new = \<lparr>rq_rb_hits = 0, rq_rb_miss = 0, wq_rb_hits = 0, wq_rb_miss = 0, total_drains = 0,
     drain_writes = Extent_new, drain_cycles = Extent_new, drain_spacing = Extent_new, read_spacing = Extent_new,
     predrain_readqueue = Extent_new, reads_during_drain = Extent_new,
     average_writes_per_drain = 0, average_drain_cycles = 0, average_drain_spacing = 0, average_read_spacing = 0,
     average_predrain_readqueue_size = 0, average_reads_during_drain = 0\<rparr>"

definition FRFCFS_WQF_new :: "obj_id \<Rightarrow> MemoryController \<Rightarrow> Scheduler \<Rightarrow> FRFCFS_WQF" where
  "FRFCFS_WQF_new oid gmc g = \<lparr>wq_common = g\<lparr>sch_mc := (InitQueues 2 (MemoryController_new oid gmc))\<lparr>starvationThreshold := 4\<rparr>,
       averageLatency := 0, averageQueueLatency := 0, averageTotalLatency := 0, measuredLatencies := 0,
       measuredQueueLatencies := 0, measuredTotalLatencies := 0, starvation_precharges := 0, mem_reads := 0, mem_writes := 0\<rparr>,
     writeQueueSize = 8, readQueueSize = 32, wq_HighWaterMark = 8, wq_LowWaterMark = 0, m_draining = False, force_drain = False,
     m_request_per_drain = 0, m_drain_start_cycle = 0, m_drain_end_cycle = 0, m_drain_start_readqueue_size = 0,
     m_drain_end_readqueue_size = 0, m_last_drain_end_cycle = 0, wq_stats = WqfStats_new\<rparr>"

text \<open>The five keys of the configuration, where present; all pass through \<^verbatim>\<open>unsigned int\<close>.\<close>

definition config_u64 :: "int option \<Rightarrow> u64 \<Rightarrow> u64" where
  "config_u64 key old = (case key of None \<Rightarrow> old | Some v \<Rightarrow> ucast (word_of_int v :: u32))"

definition WQF_SetConfig ::
  "int option \<Rightarrow> int option \<Rightarrow> int option \<Rightarrow> int option \<Rightarrow> int option \<Rightarrow> FRFCFS_WQF \<Rightarrow> FRFCFS_WQF" where
  "WQF_SetConfig starvation rq wq high low w =
     (let mc = sch_mc (wq_common w);
          w = w\<lparr>wq_common := (wq_common w)\<lparr>sch_mc := mc\<lparr>starvationThreshold := config_u64 starvation (starvationThreshold mc)\<rparr>\<rparr>,
                readQueueSize := config_u64 rq (readQueueSize w), writeQueueSize := config_u64 wq (writeQueueSize w),
                wq_HighWaterMark := config_u64 high (wq_HighWaterMark w), wq_LowWaterMark := config_u64 low (wq_LowWaterMark w)\<rparr>
      in if writeQueueSize w < wq_HighWaterMark w then w\<lparr>wq_HighWaterMark := writeQueueSize w\<rparr>
         else if wq_HighWaterMark w < wq_LowWaterMark w then w\<lparr>wq_LowWaterMark := 0\<rparr>
         else w)"

section \<open>Requests\<close>

definition queue_length :: "nat \<Rightarrow> FRFCFS_WQF \<Rightarrow> u64 option" where
  "queue_length q w = do {
     cpp_assert (q < length (transactionQueues (sch_mc (wq_common w))));
     Some (word_of_nat (length (transactionQueues (sch_mc (wq_common w)) ! q)))
   }"

definition WQF_IsIssuable :: "NVMainRequest \<Rightarrow> FRFCFS_WQF \<Rightarrow> bool option" where
  "WQF_IsIssuable r w = do {
     nr \<leftarrow> queue_length readQueueId w;
     nw \<leftarrow> queue_length writeQueueId w;
     Some (\<not> (rtype r = READ \<and> readQueueSize w \<le> nr
       \<or> rtype r = WRITE \<and> (writeQueueSize w \<le> nw \<or> m_draining w \<or> force_drain w)))
   }"

definition WQF_IssueCommand :: "Params \<Rightarrow> req_ptr \<Rightarrow> FRFCFS_WQF \<times> sim \<Rightarrow> (bool \<times> FRFCFS_WQF \<times> sim) option" where
  "WQF_IssueCommand p rp st = (case st of (w, s) \<Rightarrow> do {
     r \<leftarrow> requests s rp;
     ok \<leftarrow> WQF_IsIssuable r w;
     if \<not> ok then Some (False, w, s)
     else do {
       let r = r\<lparr>arrivalCycle := GetCurrentCycle s\<rparr>;
       let s = put_request rp r s;
       let c = wq_common w;
       if rtype r = READ \<or> rtype r = WRITE then do {
         (mc, s) \<leftarrow> Enqueue p (if rtype r = READ then readQueueId else writeQueueId) rp (sch_mc c, s);
         Some (True, w\<lparr>wq_common := count_request r (c\<lparr>sch_mc := mc\<rparr>)\<rparr>, s)
       }
       else Some (False, w, s)
     }
   })"

definition WQF_RequestComplete :: "req_ptr \<Rightarrow> FRFCFS_WQF \<times> sim \<Rightarrow> (bool \<times> FRFCFS_WQF \<times> sim) option" where
  "WQF_RequestComplete rp st = (case st of (w, s) \<Rightarrow> do {
     r \<leftarrow> requests s rp;
     let c = wq_common w;
     if (rtype r = WRITE \<or> rtype r = WRITE_PRECHARGE) \<and> (has_flag r FLAG_CANCELLED \<or> has_flag r FLAG_PAUSED)
     then do { mc \<leftarrow> Prequeue writeQueueId rp (sch_mc c); Some (False, w\<lparr>wq_common := c\<lparr>sch_mc := mc\<rparr>\<rparr>, s) }
     else do {
       (up, c, s) \<leftarrow> FCFS_RequestComplete rp (c, s);
       Some (up, w\<lparr>wq_common := c\<rparr>, s)
     }
   })"

section \<open>Drains\<close>

text \<open>The statistics at the end of a drain; the first drain is dropped.\<close>

definition drain_statistics :: "u64 \<Rightarrow> ncycle_t \<Rightarrow> FRFCFS_WQF \<Rightarrow> FRFCFS_WQF" where
  "drain_statistics nr now w =
     (let entered = nr - m_drain_start_readqueue_size w;
          duration = now - m_drain_start_cycle w;
          interval = now - m_last_drain_end_cycle w;
          x = wq_stats w
      in w\<lparr>m_drain_end_readqueue_size := nr,
           wq_stats := x\<lparr>predrain_readqueue := note_extent (m_drain_start_readqueue_size w) (predrain_readqueue x),
             reads_during_drain := note_extent entered (reads_during_drain x),
             drain_cycles := note_duration duration (drain_cycles x),
             total_drains := total_drains x + 1,
             drain_writes := note_extent (m_request_per_drain w) (drain_writes x),
             drain_spacing := note_extent interval (drain_spacing x),
             read_spacing := note_extent (interval - duration) (read_spacing x)\<rparr>\<rparr>)"

definition switch_drain :: "ncycle_t \<Rightarrow> FRFCFS_WQF \<Rightarrow> FRFCFS_WQF option" where
  "switch_drain now w = do {
     nr \<leftarrow> queue_length readQueueId w;
     nw \<leftarrow> queue_length writeQueueId w;
     Some (if \<not> m_draining w \<and> wq_HighWaterMark w \<le> nw \<and> \<not> force_drain w
       then w\<lparr>m_drain_start_cycle := now, m_drain_start_readqueue_size := nr, m_draining := True\<rparr>
       else if m_draining w \<and> nw \<le> wq_LowWaterMark w \<and> \<not> force_drain w
       then let w = (if m_last_drain_end_cycle w \<noteq> 0 then drain_statistics nr now w else w)
            in w\<lparr>m_drain_end_cycle := now, m_request_per_drain := 0, m_last_drain_end_cycle := now, m_draining := False\<rparr>
       else w)
   }"

section \<open>Scheduling\<close>

text \<open>The order of the searches is the same for both queues.\<close>

definition WQF_choose :: "Params \<Rightarrow> nat \<Rightarrow> mcs \<Rightarrow> (choice \<times> req_ptr option \<times> mcs) option" where
  "WQF_choose p qi st = do {
     (z, st) \<leftarrow> FindStarvedRequest p DummyPredicate qi st;
     if z \<noteq> None then Some (Starved, z, st)
     else do {
       (z, st) \<leftarrow> FindRowBufferHit p DummyPredicate qi st;
       if z \<noteq> None then Some (Row_hit, z, st)
       else do {
         (z, st) \<leftarrow> FindCachedAddress p DummyPredicate qi st;
         if z \<noteq> None then Some (Cached, z, st)
         else do {
           (z, st) \<leftarrow> FindOldestReadyRequest p DummyPredicate qi st;
           if z \<noteq> None then Some (Oldest, z, st)
           else do {
             (z, st) \<leftarrow> FindClosedBankRequest p DummyPredicate qi st;
             Some (if z \<noteq> None then Closed_bank else No_choice, z, st)
           }
         }
       }
     }
   }"

definition count_starved :: "choice \<Rightarrow> Scheduler \<Rightarrow> Scheduler" where
  "count_starved ch c = (if ch = Starved then c\<lparr>starvation_precharges := starvation_precharges c + 1\<rparr> else c)"

definition count_write_choice :: "choice \<Rightarrow> FRFCFS_WQF \<Rightarrow> FRFCFS_WQF" where
  "count_write_choice ch w =
     (let x = wq_stats w
      in if ch = Starved \<or> ch = Oldest \<or> ch = Closed_bank
         then w\<lparr>wq_stats := x\<lparr>wq_rb_miss := wq_rb_miss x + 1\<rparr>, m_request_per_drain := m_request_per_drain w + 1\<rparr>
         else if ch = Row_hit
         then w\<lparr>wq_stats := x\<lparr>wq_rb_hits := wq_rb_hits x + 1\<rparr>, m_request_per_drain := m_request_per_drain w + 1\<rparr>
         else w)"

definition count_read_choice :: "choice \<Rightarrow> FRFCFS_WQF \<Rightarrow> FRFCFS_WQF" where
  "count_read_choice ch w =
     (let x = wq_stats w
      in if ch = Starved \<or> ch = Oldest \<or> ch = Closed_bank then w\<lparr>wq_stats := x\<lparr>rq_rb_miss := rq_rb_miss x + 1\<rparr>\<rparr>
         else if ch = Row_hit then w\<lparr>wq_stats := x\<lparr>rq_rb_hits := rq_rb_hits x + 1\<rparr>\<rparr>
         else w)"

text \<open>During a drain the chosen request must not be cancelled or paused.\<close>

definition force_request :: "bool \<Rightarrow> req_ptr option \<Rightarrow> sim \<Rightarrow> sim option" where
  "force_request drain z s =
     (case z of
        None \<Rightarrow> Some s
      | Some rp \<Rightarrow> if drain then do { r \<leftarrow> requests s rp; Some (put_request rp (set_flag FLAG_FORCED r) s) } else Some s)"

definition WQF_Cycle :: "Params \<Rightarrow> FRFCFS_WQF \<times> sim \<Rightarrow> (FRFCFS_WQF \<times> sim) option" where
  "WQF_Cycle p st = (case st of (w, s) \<Rightarrow> do {
     w \<leftarrow> switch_drain (GetCurrentCycle s) w;
     nr \<leftarrow> queue_length readQueueId w;
     let writes = (m_draining w \<or> force_drain w \<and> nr = 0);
     (ch, z, mc, s) \<leftarrow> WQF_choose p (if writes then writeQueueId else readQueueId) (sch_mc (wq_common w), s);
     let w = (if writes then count_write_choice ch w else count_read_choice ch w);
     s \<leftarrow> force_request (m_draining w \<or> force_drain w) z s;
     (c, s) \<leftarrow> run_choice p z ((count_starved ch (wq_common w))\<lparr>sch_mc := mc\<rparr>, s);
     Some (w\<lparr>wq_common := c\<rparr>, s)
   })"

definition per_drain :: "u64 \<Rightarrow> u64 \<Rightarrow> real" where
  "per_drain amount n = (if 0 < n then real (unat amount) / real (unat n) else 0)"

definition WQF_CalculateStats :: "Params \<Rightarrow> FRFCFS_WQF \<times> sim \<Rightarrow> FRFCFS_WQF option" where
  "WQF_CalculateStats p st = (case st of (w, s) \<Rightarrow> do {
     let x = wq_stats w;
     let n = total_drains x;
     let x = x\<lparr>average_writes_per_drain := per_drain (ex_total (drain_writes x)) n,
           average_drain_cycles := per_drain (ex_total (drain_cycles x)) n,
           average_drain_spacing := per_drain (ex_total (drain_spacing x)) n,
           average_read_spacing := per_drain (ex_total (read_spacing x)) n,
           average_predrain_readqueue_size := per_drain (ex_total (predrain_readqueue x)) n,
           average_reads_during_drain := per_drain (ex_total (reads_during_drain x)) n\<rparr>;
     c \<leftarrow> scheduler_CalculateStats p (wq_common w, s);
     Some (w\<lparr>wq_stats := x, wq_common := c\<rparr>)
   })"

definition WQF_Drain :: "FRFCFS_WQF \<Rightarrow> bool \<times> FRFCFS_WQF" where
  "WQF_Drain w = (True, w\<lparr>force_drain := True\<rparr>)"

section \<open>Hysteresis\<close>

text \<open>What the watermarks make of the drain: it starts at the high mark and lasts until the low mark.\<close>

definition hysteresis :: "u64 \<Rightarrow> u64 \<Rightarrow> bool \<Rightarrow> u64 \<Rightarrow> bool" where
  "hysteresis high low draining n = (if draining then low < n else high \<le> n)"

lemma switch_drain_hysteresis:
  assumes "switch_drain now w = Some w'"
  shows "m_draining w' = (if force_drain w then m_draining w
      else hysteresis (wq_HighWaterMark w) (wq_LowWaterMark w) (m_draining w)
        (word_of_nat (length (transactionQueues (sch_mc (wq_common w)) ! writeQueueId))))"
    and "wq_common w' = wq_common w" "force_drain w' = force_drain w" "1 < length (transactionQueues (sch_mc (wq_common w)))"
  using assms
  by (auto simp: switch_drain_def hysteresis_def queue_length_def drain_statistics_def Let_def bind_eq_Some_conv cpp_assert_def split: if_splits)

lemma count_choice_frame [simp]:
  "m_draining (count_write_choice ch w) = m_draining w" "m_draining (count_read_choice ch w) = m_draining w"
  "force_drain (count_write_choice ch w) = force_drain w" "force_drain (count_read_choice ch w) = force_drain w"
  "wq_common (count_write_choice ch w) = wq_common w" "wq_common (count_read_choice ch w) = wq_common w"
  by (simp_all add: count_write_choice_def count_read_choice_def Let_def)

text \<open>A cycle, with its intermediate results named.\<close>

lemma WQF_Cycle_cases:
  assumes "WQF_Cycle p (w, s) = Some (w', s')"
  obtains w1 nr ch z mc s1 s2 where
    "switch_drain (GetCurrentCycle s) w = Some w1" "queue_length readQueueId w1 = Some nr"
    "WQF_choose p (if m_draining w1 \<or> force_drain w1 \<and> nr = 0 then writeQueueId else readQueueId) (sch_mc (wq_common w1), s) = Some (ch, z, mc, s1)"
    "force_request (m_draining w1 \<or> force_drain w1) z s1 = Some s2"
    "run_choice p z ((count_starved ch (wq_common w1))\<lparr>sch_mc := mc\<rparr>, s2) = Some (wq_common w', s')"
    "m_draining w' = m_draining w1" "force_drain w' = force_drain w1"
  using assms unfolding WQF_Cycle_def prod.case Let_def
  by (elim bind_eq_SomeE) (auto elim!: bind_eq_SomeE simp: if_distrib [where f = m_draining] if_distrib [where f = force_drain]
    if_distrib [where f = wq_common] split: prod.splits cong: if_cong)

end
