(* ===== verification/Scheduler_Conservation.thy ===== *)
theory Scheduler_Conservation
  imports Transaction_Rows Frfcfs_Wqf
begin

text \<open>
  The searches of the schedulers take the first transaction that meets their condition and keep the order of
  the others; a scheduling cycle loses no request and queues none twice.
\<close>

section \<open>Searching a queue\<close>

lemma pick_first:
  "pick m xs = Some z \<Longrightarrow> (case z of
     None \<Rightarrow> \<forall>x \<in> set xs. m x = Some False
   | Some (x, rest) \<Rightarrow> \<exists>pre suf. xs = pre @ x # suf \<and> rest = pre @ suf \<and> m x = Some True \<and> (\<forall>y \<in> set pre. m y = Some False))"
proof (induction xs arbitrary: z)
  case (Cons a xs)
  obtain b where b: "m a = Some b" using Cons.prems by (cases "m a") auto
  show ?case
  proof (cases b)
    case True
    then have "z = Some (a, xs)" using Cons.prems b by simp
    then show ?thesis using b True by (auto intro: exI [of _ "[]"])
  next
    case False
    then obtain z' where z': "pick m xs = Some z'" "z = map_option (\<lambda>(y, ys). (y, a # ys)) z'"
      using Cons.prems b by (auto simp: bind_eq_Some_conv)
    show ?thesis
    proof (cases z')
      case None
      then show ?thesis using Cons.IH [OF z'(1)] z'(2) b False by simp
    next
      case (Some w)
      obtain x rest where w: "w = (x, rest)" by fastforce
      from Cons.IH [OF z'(1)] obtain pre suf where "xs = pre @ x # suf" "rest = pre @ suf" "m x = Some True" "\<forall>y \<in> set pre. m y = Some False"
        by (auto simp: Some w)
      then have "a # xs = (a # pre) @ x # suf \<and> a # rest = (a # pre) @ suf \<and> m x = Some True \<and> (\<forall>y \<in> set (a # pre). m y = Some False)"
        using b False by simp
      then show ?thesis unfolding z'(2) Some w option.map prod.case option.case by blast
    qed
  qed
qed simp

text \<open>What a search does: nothing, or it takes one transaction whose command queue is empty.\<close>

definition takes :: "Params \<Rightarrow> nat \<Rightarrow> req_ptr option \<Rightarrow> mcs \<Rightarrow> mcs \<Rightarrow> bool" where
  "takes p qi z st st' \<longleftrightarrow> commandQueues (fst st') = commandQueues (fst st) \<and> nextReq (snd st') = nextReq (snd st)
     \<and> (case z of
          None \<Rightarrow> transactionQueues (fst st') = transactionQueues (fst st)
        | Some rp \<Rightarrow> \<exists>pre suf r q. transactionQueues (fst st) ! qi = pre @ rp # suf
            \<and> transactionQueues (fst st') = (transactionQueues (fst st))[qi := pre @ suf]
            \<and> requests (snd st') rp = Some r \<and> GetCommandQueueId p (address r) (fst st') = Some q
            \<and> commandQueues (fst st') ! unat q = [])"

lemma takes_none_then:
  assumes "takes p qi None a b" "takes p qi z b c"
  shows "takes p qi z a c"
  using assms unfolding takes_def by (cases z) (simp_all, metis)

lemma takes_asked: "asked mc mc' \<Longrightarrow> takes p qi None (mc, s) (mc', s)"
  using askedD by (simp add: takes_def)

lemma if_queue_emptyD:
  "if_queue_empty p r mc m = Some True \<Longrightarrow> \<exists>q. GetCommandQueueId p (address r) mc = Some q \<and> commandQueues mc ! unat q = []"
  by (auto simp: if_queue_empty_def bind_eq_Some_conv split: if_splits)

definition needs_room :: "Params \<Rightarrow> (mcs \<Rightarrow> NVMainRequest \<Rightarrow> bool option) \<Rightarrow> bool" where
  "needs_room p cond \<longleftrightarrow> (\<forall>mc s r. cond (mc, s) r = Some True
     \<longrightarrow> (\<exists>q. GetCommandQueueId p (address r) mc = Some q \<and> commandQueues mc ! unat q = []))"

lemma conditions_need_room:
  "needs_room p (is_starved p pred)" "needs_room p (is_row_hit p pred)" "needs_room p (is_oldest_ready p pred)" "needs_room p (is_closed_bank p pred)"
  unfolding needs_room_def is_starved_def is_row_hit_def is_oldest_ready_def is_closed_bank_def prod.case
  by (blast dest: if_queue_emptyD)+

lemma take_request_takes:
  assumes "take_request p qi rp rest (mc, s) = Some st'" "transactionQueues mc ! qi = pre @ rp # suf" "rest = pre @ suf"
    and "requests s rp = Some r" "GetCommandQueueId p (address r) mc = Some q" "commandQueues mc ! unat q = []"
  shows "takes p qi (Some rp) (mc, s) st'"
proof -
  obtain b where st': "st' = (mc\<lparr>transactionQueues := (transactionQueues mc)[qi := rest]\<rparr>,
       if b then put_request rp (set_flag FLAG_LAST_REQUEST r) s else s)"
    using assms(1,4) by (auto simp: take_request_def bind_eq_Some_conv)
  have "GetCommandQueueId p a (mc\<lparr>transactionQueues := x\<rparr>) = GetCommandQueueId p a mc" for a x
    by (simp add: GetCommandQueueId_def cong: QueueModel.case_cong)
  then show ?thesis
    using assms(2-6) by (auto simp: takes_def st' put_request_def set_flag_def)
qed

lemma find_request_takes:
  assumes "needs_room p cond" "find_request cond p qi (mc, s) = Some (z, st')"
  shows "takes p qi z (mc, s) st'"
proof -
  obtain y where y: "pick (\<lambda>rp. do { r \<leftarrow> requests s rp; cond (mc, s) r }) (transactionQueues mc ! qi) = Some y"
    "(case y of None \<Rightarrow> Some (None, mc, s)
     | Some (rp, rest) \<Rightarrow> do { st \<leftarrow> take_request p qi rp rest (mc, s); Some (Some rp, st) }) = Some (z, st')"
    using assms(2) by (auto simp: find_request_def bind_eq_Some_conv)
  show ?thesis
  proof (cases y)
    case None
    then show ?thesis using y(2) by (auto simp: takes_def)
  next
    case (Some w)
    obtain rp rest where w: "w = (rp, rest)" by fastforce
    obtain pre suf r where "transactionQueues mc ! qi = pre @ rp # suf" "rest = pre @ suf" "requests s rp = Some r" "cond (mc, s) r = Some True"
      using pick_first [OF y(1)] by (auto simp: Some w bind_eq_Some_conv)
    then show ?thesis using take_request_takes assms(1) y(2) by (fastforce simp: Some w needs_room_def bind_eq_Some_conv)
  qed
qed

lemmas find_takes = conditions_need_room [THEN find_request_takes]

lemma cached_scan_takes:
  assumes "cached_scan p pred rps (mc, s) = Some (z, mc')"
  shows "asked mc mc' \<and> (case z of None \<Rightarrow> True | Some (rp, rest) \<Rightarrow>
    \<exists>pre suf r q. rps = pre @ rp # suf \<and> rest = pre @ suf \<and> requests s rp = Some r
      \<and> GetCommandQueueId p (address r) mc = Some q \<and> commandQueues mc ! unat q = [])"
  using assms
proof (induction rps arbitrary: mc z)
  case (Cons rp rps)
  obtain r q x ok mc1 where m: "requests s rp = Some r" "GetCommandQueueId p (address r) mc = Some q" "MakeCachedRequest r (mc_this mc) = Some x"
    "(if commandQueues mc ! unat q = [] then child_issuable p x (mc, s) else Some (False, mc)) = Some (ok, mc1)"
    "(if ok \<and> arrivalCycle r \<noteq> GetCurrentCycle s \<and> pred r then Some (Some (rp, rps), mc1)
     else do { (z, mc) \<leftarrow> cached_scan p pred rps (mc1, s); Some (map_option (\<lambda>(y, ys). (y, rp # ys)) z, mc) }) = Some (z, mc')"
    using Cons.prems by (auto simp: bind_eq_Some_conv cong: if_cong)
  have a: "asked mc mc1" using m(4) child_issuable_asked by (auto split: if_splits)
  show ?case
  proof (cases "ok \<and> arrivalCycle r \<noteq> GetCurrentCycle s \<and> pred r")
    case True
    then have "z = Some (rp, rps)" "mc' = mc1" "commandQueues mc ! unat q = []" using m(4,5) by (auto split: if_splits)
    then show ?thesis using a m(1,2) by (auto intro: exI [of _ "[]"])
  next
    case False
    then obtain z' where z': "cached_scan p pred rps (mc1, s) = Some (z', mc')" "z = map_option (\<lambda>(y, ys). (y, rp # ys)) z'"
      using m(5) by (auto simp: bind_eq_Some_conv)
    note IH = Cons.IH [OF z'(1)]
    show ?thesis
    proof (cases z')
      case None
      then show ?thesis using IH a asked_trans z'(2) by auto
    next
      case (Some w)
      obtain y rest where w: "w = (y, rest)" by fastforce
      from IH obtain pre suf r' q' where "rps = pre @ y # suf" "rest = pre @ suf" "requests s y = Some r'"
        "GetCommandQueueId p (address r') mc1 = Some q'" "commandQueues mc1 ! unat q' = []" by (auto simp: Some w)
      then have "rp # rps = (rp # pre) @ y # suf \<and> rp # rest = (rp # pre) @ suf \<and> requests s y = Some r'
          \<and> GetCommandQueueId p (address r') mc = Some q' \<and> commandQueues mc ! unat q' = []"
        using askedD(2,4) [OF a] by simp
      then show ?thesis using IH a asked_trans unfolding z'(2) Some w option.map prod.case option.case by blast
    qed
  qed
qed simp

lemma FindCachedAddress_takes:
  assumes "FindCachedAddress p pred qi (mc, s) = Some (z, st')"
  shows "takes p qi z (mc, s) st'"
proof -
  obtain y mc' where y: "cached_scan p pred (transactionQueues mc ! qi) (mc, s) = Some (y, mc')"
    "(z, st') = (case y of None \<Rightarrow> (None, mc', s)
      | Some (rp, rest) \<Rightarrow> (Some rp, mc'\<lparr>transactionQueues := (transactionQueues mc')[qi := rest]\<rparr>, s))"
    using assms by (auto simp: FindCachedAddress_def bind_eq_Some_conv cong: option.case_cong)
  note c = cached_scan_takes [OF y(1)]
  then have a: "asked mc mc'" by simp
  have id: "GetCommandQueueId p a (mc'\<lparr>transactionQueues := x\<rparr>) = GetCommandQueueId p a mc'" for a x
    by (simp add: GetCommandQueueId_def cong: QueueModel.case_cong)
  show ?thesis
  proof (cases y)
    case None
    then show ?thesis using y(2) takes_asked [OF a] by simp
  next
    case (Some w)
    obtain rp rest where w: "w = (rp, rest)" by fastforce
    from c obtain pre suf r q where t: "transactionQueues mc ! qi = pre @ rp # suf" "rest = pre @ suf" "requests s rp = Some r"
      "GetCommandQueueId p (address r) mc = Some q" "commandQueues mc ! unat q = []"
      by (auto simp: Some w)
    have "z = Some rp" "st' = (mc'\<lparr>transactionQueues := (transactionQueues mc')[qi := rest]\<rparr>, s)" using y(2) by (simp_all add: Some w)
    then show ?thesis using t askedD(2-4) [OF a] id by (auto simp: takes_def)
  qed
qed

lemma can_pause_asked: "can_pause p pred r arr (mc, s) = Some (ok, mc') \<Longrightarrow> asked mc mc'"
  unfolding can_pause_def Let_def fst_conv snd_conv
  by (auto simp: bind_eq_Some_conv dest!: child_issuable_asked split: if_splits intro: asked_trans)

lemma stalled_scan_takes:
  assumes "stalled_scan p pred rps (mc, s) = Some (z, mc')"
  shows "asked mc mc' \<and> (case z of Take_read rp rest \<Rightarrow>
    \<exists>pre suf r q. rps = pre @ rp # suf \<and> rest = pre @ suf \<and> requests s rp = Some r
      \<and> GetCommandQueueId p (address r) mc = Some q \<and> commandQueues mc ! unat q = [] | _ \<Rightarrow> True)"
  using assms
proof (induction rps arbitrary: mc z)
  case (Cons rp rps)
  obtain r found arr mc1 where m: "requests s rp = Some r"
    "(if rtype r \<noteq> READ then Some (False, None, mc)
       else do {
         q \<leftarrow> GetCommandQueueId p (address r) mc;
         if commandQueues mc ! unat q \<noteq> [] then Some (False, None, mc)
         else do {
           (arr, mc) \<leftarrow> find_subarray r mc;
           (ok, mc) \<leftarrow> can_pause p pred r arr (mc, s);
           Some (ok, Some arr, mc)
         }
       }) = Some (found, arr, mc1)"
    "(case (found, arr) of
       (True, Some sa) \<Rightarrow>
         Some (if \<not> BetweenWriteIterations sa s \<and> pauseMode p = PauseMode_Normal then Stall else Take_read rp rps, mc1)
     | _ \<Rightarrow> do { (z, mc) \<leftarrow> stalled_scan p pred rps (mc1, s); Some (behind rp z, mc) }) = Some (z, mc')"
    using Cons.prems unfolding stalled_scan.simps fst_conv snd_conv by (elim bind_eq_SomeE; clarify; elim bind_eq_SomeE) blast
  have a: "asked mc mc1" "found \<Longrightarrow> arr \<noteq> None \<and> (\<exists>q. GetCommandQueueId p (address r) mc = Some q \<and> commandQueues mc ! unat q = [])"
    using m(2) by (auto simp: bind_eq_Some_conv split: if_splits dest!: find_subarray_asked can_pause_asked intro: asked_trans)
  show ?case
  proof (cases found)
    case True
    then obtain sa where "arr = Some sa" using a(2) by blast
    then have "mc' = mc1" "z = Stall \<or> z = Take_read rp rps" using m(3) True by (auto split: if_splits)
    moreover have "rp # rps = [] @ rp # rps" "rps = [] @ rps" by simp_all
    ultimately show ?thesis using a True m(1) by (elim disjE) (simp, simp only: stalled.case, blast)
  next
    case False
    then obtain z' where z': "stalled_scan p pred rps (mc1, s) = Some (z', mc')" "z = behind rp z'"
      using m(3) by (auto simp: bind_eq_Some_conv)
    note IH = Cons.IH [OF z'(1)]
    show ?thesis
    proof (cases z')
      case (Take_read y rest)
      from IH obtain pre suf r' q' where "rps = pre @ y # suf" "rest = pre @ suf" "requests s y = Some r'"
        "GetCommandQueueId p (address r') mc1 = Some q'" "commandQueues mc1 ! unat q' = []" by (auto simp: Take_read)
      then have "rp # rps = (rp # pre) @ y # suf \<and> rp # rest = (rp # pre) @ suf \<and> requests s y = Some r'
          \<and> GetCommandQueueId p (address r') mc = Some q' \<and> commandQueues mc ! unat q' = []"
        using askedD(2,4) [OF a(1)] by simp
      then show ?thesis using IH a(1) asked_trans unfolding z'(2) Take_read behind.simps stalled.case by blast
    qed (use IH a(1) asked_trans z'(2) in auto)
  qed
qed simp

lemma FindWriteStalledRead_takes:
  assumes "FindWriteStalledRead p pred qi (mc, s) = Some (rv, z, st')"
  shows "takes p qi z (mc, s) st' \<and> (\<not> rv \<longrightarrow> z = None)"
proof (cases "WritePausing p")
  case True
  then obtain y mc' where y: "stalled_scan p pred (transactionQueues mc ! qi) (mc, s) = Some (y, mc')"
    "(case y of No_read \<Rightarrow> Some (False, None, mc', s) | Stall \<Rightarrow> Some (True, None, mc', s)
      | Take_read rp rest \<Rightarrow> do { st \<leftarrow> take_request p qi rp rest (mc', s); Some (True, Some rp, st) }) = Some (rv, z, st')"
    using assms by (auto simp: FindWriteStalledRead_def bind_eq_Some_conv cong: stalled.case_cong)
  note c = stalled_scan_takes [OF y(1)]
  then have a: "asked mc mc'" by simp
  show ?thesis
  proof (cases y)
    case (Take_read rp rest)
    from c obtain pre suf r q where t: "transactionQueues mc ! qi = pre @ rp # suf" "rest = pre @ suf" "requests s rp = Some r"
      "GetCommandQueueId p (address r) mc = Some q" "commandQueues mc ! unat q = []"
      by (auto simp: Take_read)
    obtain st where "take_request p qi rp rest (mc', s) = Some st" "rv" "z = Some rp" "st' = st"
      using y(2) by (auto simp: Take_read bind_eq_Some_conv)
    then show ?thesis
      using takes_none_then [OF takes_asked [OF a] take_request_takes [of p qi rp rest mc' s st pre suf r q]] t askedD(2-4) [OF a] by simp
  qed (use y(2) takes_asked [OF a] in auto)
qed (use assms in \<open>auto simp: FindWriteStalledRead_def takes_def\<close>)

section \<open>Choosing\<close>

lemma search_posts:
  assumes "\<And>z st'. takes p qi z st st' \<Longrightarrow> Q (z, st')"
  shows "post (FindStarvedRequest p pred qi st) Q" "post (FindRowBufferHit p pred qi st) Q" "post (FindOldestReadyRequest p pred qi st) Q"
    "post (FindClosedBankRequest p pred qi st) Q" "post (FindCachedAddress p pred qi st) Q"
  unfolding FindStarvedRequest_def FindRowBufferHit_def FindOldestReadyRequest_def FindClosedBankRequest_def
  by (cases st; auto simp: post_def intro!: assms dest: find_takes FindCachedAddress_takes)+

lemma stalled_post:
  assumes "\<And>rv z st'. takes p qi z st st' \<Longrightarrow> (\<not> rv \<Longrightarrow> z = None) \<Longrightarrow> Q (rv, z, st')"
  shows "post (FindWriteStalledRead p pred qi st) Q"
  by (cases st) (auto simp: post_def intro!: assms dest: FindWriteStalledRead_takes)

lemma FCFS_choose_takes: "post (FCFS_choose p st) (\<lambda>(z, st'). takes p 0 z st st')"
  unfolding FCFS_choose_def
  by (intro flow_posts search_posts; simp (no_asm_use) only: prod.case not_not; (hypsubst_thin, erule (1) takes_none_then)?)

lemma FRFCFS_choose_takes: "post (FRFCFS_choose p st) (\<lambda>(ch, z, st'). takes p 0 z st st')"
  unfolding FRFCFS_choose_def
  by (intro flow_posts search_posts stalled_post; simp (no_asm_use) only: prod.case not_not not_False_eq_True simp_thms;
      ((drule (1) meta_mp)?, hypsubst_thin?, (drule (1) takes_none_then)+, assumption)?)

lemma WQF_choose_takes: "post (WQF_choose p qi st) (\<lambda>(ch, z, st'). takes p qi z st st')"
  unfolding WQF_choose_def
  by (intro flow_posts search_posts; simp (no_asm_use) only: prod.case not_not;
      (hypsubst_thin?, (drule (1) takes_none_then)+, assumption)?)

lemma force_request_takes:
  assumes "takes p qi z st (mc, s)" "force_request drain z s = Some s'"
  shows "takes p qi z st (mc, s')"
proof (cases z)
  case None
  then show ?thesis using assms by (simp add: force_request_def)
next
  case (Some rp)
  then have "s' = s \<or> (\<exists>r. requests s rp = Some r \<and> s' = put_request rp (set_flag FLAG_FORCED r) s)"
    using assms(2) by (auto simp: force_request_def bind_eq_Some_conv split: if_splits)
  then have "nextReq s' = nextReq s" "\<And>r. requests s rp = Some r \<Longrightarrow> \<exists>r'. requests s' rp = Some r' \<and> address r' = address r"
    by (auto simp: put_request_def set_flag_def)
  then show ?thesis using assms(1) unfolding takes_def Some option.case fst_conv snd_conv by metis
qed

section \<open>Conservation\<close>

text \<open>The requests that wait in the queues, and that a step adds only new ones to them.\<close>

definition waiting :: "MemoryController \<Rightarrow> req_ptr multiset" where
  "waiting mc = mset (concat (transactionQueues mc)) + mset (concat (commandQueues mc))"

definition conserves :: "mcs \<Rightarrow> mcs \<Rightarrow> bool" where
  "conserves st st' \<longleftrightarrow> (\<exists>new. waiting (fst st') = waiting (fst st) + new \<and> (\<forall>x \<in># new. nextReq (snd st) \<le> x))"

lemma conserves_same:
  "transactionQueues (fst st') = transactionQueues (fst st) \<Longrightarrow> commandQueues (fst st') = commandQueues (fst st) \<Longrightarrow> conserves st st'"
  by (simp add: conserves_def waiting_def)

lemma mset_remove:
  assumes "qi < length qs" "qs ! qi = pre @ x # suf"
  shows "add_mset x (mset (concat (qs[qi := pre @ suf]))) = mset (concat qs)"
  using assms by (induction qs arbitrary: qi) (auto split: nat.split simp: less_Suc_eq_0_disj)

lemma choice_conserves:
  assumes t: "takes p qi z (mc, s) (mc1, s1)" and qi: "qi < length (transactionQueues mc)" and old: "\<forall>x \<in># waiting mc. x < nextReq s"
    and i: "(case z of None \<Rightarrow> Some (mc1, s1) | Some rp \<Rightarrow> do { (_, st) \<leftarrow> IssueMemoryCommands p rp (mc1, s1); Some st }) = Some st2"
  shows "conserves (mc, s) st2 \<and> (\<exists>q. transactionQueues (fst st2) = (transactionQueues mc)[qi := q])"
proof (cases z)
  case None
  then show ?thesis using t i by (auto simp: takes_def intro!: conserves_same exI [of _ "transactionQueues mc ! qi"])
next
  case (Some rp)
  obtain pre suf r q where m: "transactionQueues mc ! qi = pre @ rp # suf" "transactionQueues mc1 = (transactionQueues mc)[qi := pre @ suf]"
    "requests s1 rp = Some r" "GetCommandQueueId p (address r) mc1 = Some q" "commandQueues mc1 ! unat q = []"
    "commandQueues mc1 = commandQueues mc" "nextReq s1 = nextReq s"
    using t by (auto simp: takes_def Some)
  have removed: "add_mset rp (mset (concat (transactionQueues mc1))) = mset (concat (transactionQueues mc))"
    using mset_remove [OF qi m(1)] by (simp add: m(2))
  then have rp: "rp < nextReq s1" using old m(7) unfolding waiting_def by (metis union_single_eq_member union_iff add_mset_add_single union_commute)
  obtain ok where iss: "IssueMemoryCommands p rp (mc1, s1) = Some (ok, st2)" using i by (auto simp: Some bind_eq_Some_conv)
  have ok using IssueMemoryCommands_accepts [OF iss m(3-5)] .
  then obtain cmds new where c: "grown cmds mc1 (fst st2)" "mset (map (fst \<circ> snd) cmds) = add_mset rp new" "\<forall>x \<in># new. nextReq s1 \<le> x"
    using IssueMemoryCommands_serves [OF iss rp] unfolding serves_def queues_def by auto
  have same: "transactionQueues (fst st2) = transactionQueues mc1" using c(1) by (simp add: grown_def)
  then have "waiting (fst st2) = waiting mc + new"
    using grown_mset [OF c(1)] c(2) removed m(6) by (simp add: waiting_def flip: removed)
  then show ?thesis using c(3) m(7) by (auto simp: conserves_def same m(2))
qed

section \<open>The command queues\<close>

lemma ResetRefreshQueued_queues:
  assumes "ResetRefreshQueued p bk rk mc = Some mc'"
  shows "commandQueues mc' = commandQueues mc" "transactionQueues mc' = transactionQueues mc" "mc_child mc' = mc_child mc"
proof -
  obtain bs where b: "change_banks (\<lambda>c. do { cpp_assert (refreshQueued c); Some (c\<lparr>refreshQueued := False\<rparr>) }) rk bs mc = Some mc'"
    using assms by (auto simp: ResetRefreshQueued_def bind_eq_Some_conv)
  from change_banks_rows(2,3) [OF _ b] show "commandQueues mc' = commandQueues mc" "transactionQueues mc' = transactionQueues mc"
    by (auto simp: bind_eq_Some_conv)
  have "change_banks f rk bs mc = Some mc' \<Longrightarrow> mc_child mc' = mc_child mc" for f mc
    by (induction bs arbitrary: mc) (auto simp: bind_eq_Some_conv put_bank_def)
  then show "mc_child mc' = mc_child mc" using b by blast
qed

lemma MoveCurrentQueue_frame [simp]:
  "commandQueues (MoveCurrentQueue p mc) = commandQueues mc" "transactionQueues (MoveCurrentQueue p mc) = transactionQueues mc"
  "mc_child (MoveCurrentQueue p mc) = mc_child mc" "lastIssueCycle (MoveCurrentQueue p mc) = lastIssueCycle mc"
  by (simp_all add: MoveCurrentQueue_def Let_def)

text \<open>One command has been sent: the head \<open>rp\<close> of a queue.\<close>

definition sent :: "Params \<Rightarrow> req_ptr \<Rightarrow> mcs \<Rightarrow> mcs \<Rightarrow> bool" where
  "sent p rp st st' \<longleftrightarrow> commandQueues (fst st') = commandQueues (fst st) \<and> transactionQueues (fst st') = transactionQueues (fst st)
     \<and> lastIssueCycle (fst st') = GetCurrentCycle (snd st)
     \<and> (\<exists>mc1 ok s1. asked (fst st) mc1 \<and> Bus_IssueCommand p rp (mc_child mc1, snd st) = Some (ok, mc_child (fst st'), s1))"

lemma issue_head_sent:
  assumes "issue_head p q rp (mc1, s) = Some (mc', s')" "asked mc mc1"
  shows "sent p rp (mc, s) (mc', s')"
proof -
  obtain ok u s1 mc2 and r :: NVMainRequest where m: "Bus_IssueCommand p rp (mc_child mc1, s) = Some (ok, u, s1)"
    "(if rtype r = REFRESH then ResetRefreshQueued p (bank (address r)) (rank (address r)) (mc1\<lparr>mc_child := u\<rparr>) else Some (mc1\<lparr>mc_child := u\<rparr>)) = Some mc2"
    "mc' = MoveCurrentQueue p (mc2\<lparr>lastIssueCycle := GetCurrentCycle s\<rparr>)"
    using assms(1) unfolding issue_head_def Let_def prod.case by (elim bind_eq_SomeE) (auto elim!: bind_eq_SomeE split: prod.splits)
  have "commandQueues mc2 = commandQueues mc1" "transactionQueues mc2 = transactionQueues mc1" "mc_child mc2 = u"
    using m(2) ResetRefreshQueued_queues [of p "bank (address r)" "rank (address r)" "mc1\<lparr>mc_child := u\<rparr>" mc2] by (auto split: if_splits)
  then show ?thesis using m(1,3) askedD(2,3) [OF assms(2)] assms(2) by (auto simp: sent_def)
qed

lemma cycle_queues_sent:
  assumes "cycle_queues p idxs (mc1, s) = Some (mc', s')" "asked mc mc1" "length (commandQueues mc) < 2 ^ 64" "set idxs \<subseteq> {..<length (commandQueues mc)}"
    and same: "lastIssueCycle mc1 = lastIssueCycle mc"
  shows "asked mc mc' \<and> s' = s \<or> lastIssueCycle mc \<noteq> GetCurrentCycle s
    \<and> (\<exists>q rp rest. q < length (commandQueues mc) \<and> commandQueues mc ! q = rp # rest \<and> sent p rp (mc, s) (mc', s'))"
  using assms
proof (induction idxs arbitrary: mc1)
  case (Cons i idxs)
  let ?q = "unat ((curQueue mc1 + word_of_nat i) mod word_of_nat (length (commandQueues mc1)))"
  have len: "length (commandQueues mc1) = length (commandQueues mc)" "commandQueues mc1 = commandQueues mc" using askedD(2) [OF Cons.prems(2)] by simp_all
  have "0 < length (commandQueues mc)" using Cons.prems(4) by auto
  then have q: "?q < length (commandQueues mc)"
    using Cons.prems(3) by (simp add: len unat_mod unat_of_nat take_bit_nat_eq_self)
  show ?case
  proof (cases "commandQueues mc ! ?q")
    case Nil
    then show ?thesis using Cons.prems Cons.IH by (auto simp: len)
  next
    case (Cons rp rest)
    with Cons.prems(1) obtain r ok mc2 where m: "requests s rp = Some r"
      "(if lastIssueCycle mc1 \<noteq> GetCurrentCycle s then child_issuable p r (mc1, s) else Some (False, mc1)) = Some (ok, mc2)"
      "(if ok then issue_head p ?q rp (mc2, s)
         else do {
           cpp_assert (GetCurrentCycle s - issueCycle r \<le> DeadlockTimer p);
           cycle_queues p idxs (mc2, s)
         }) = Some (mc', s')"
      by (auto simp: bind_eq_Some_conv len(2) Let_def cong: if_cong)
    have a: "asked mc1 mc2" using m(2) child_issuable_asked by (auto split: if_splits)
    then have a': "asked mc mc2" using Cons.prems(2) asked_trans by blast
    have l2: "lastIssueCycle mc2 = lastIssueCycle mc" using a Cons.prems(5) by (auto simp: asked_def)
    show ?thesis
    proof (cases ok)
      case True
      then have "lastIssueCycle mc \<noteq> GetCurrentCycle s" using m(2) Cons.prems(5) by (auto split: if_splits)
      then show ?thesis using issue_head_sent [OF _ a'] m(3) True q Cons by auto
    next
      case False
      then have "cycle_queues p idxs (mc2, s) = Some (mc', s')" using m(3) by (auto simp: bind_eq_Some_conv)
      then show ?thesis using Cons.IH [OF _ a' Cons.prems(3) _ l2] Cons.prems(4) by auto
    qed
  qed
qed simp

lemma CycleCommandQueues_queues:
  assumes "CycleCommandQueues p (mc, s) = Some (mc', s')"
  shows "commandQueues mc' = commandQueues mc \<and> transactionQueues mc' = transactionQueues mc"
proof -
  have "commandQueues mc' = commandQueues mc1 \<and> transactionQueues mc' = transactionQueues mc1"
    if "cycle_queues p idxs (mc1, s) = Some (mc', s')" for idxs mc1
    using that
  proof (induction idxs arbitrary: mc1)
    case (Cons i idxs)
    then have "\<exists>mc2. asked mc1 mc2 \<and> (cycle_queues p idxs (mc2, s) = Some (mc', s') \<or> (\<exists>q rp. issue_head p q rp (mc2, s) = Some (mc', s')))"
      by (auto simp: bind_eq_Some_conv Let_def split: list.splits if_splits intro: asked_refl child_issuable_asked)
    then obtain mc2 where a: "asked mc1 mc2"
      and "cycle_queues p idxs (mc2, s) = Some (mc', s') \<or> (\<exists>q rp. issue_head p q rp (mc2, s) = Some (mc', s'))" by blast
    then show ?case
      using issue_head_sent [OF _ a, of p _ _ s mc' s'] Cons.IH [of mc2] askedD(2,3) [OF a] by (auto simp: sent_def)
  qed simp
  then show ?thesis using assms by (auto simp: CycleCommandQueues_def split: if_splits)
qed

lemma MC_Cycle_keeps: "MC_Cycle p (mc, s) = Some (mc', s') \<Longrightarrow> mc' = mc"
proof -
  have "recheck_queues p qs (mc, s) = Some (mc', s') \<Longrightarrow> mc' = mc" for qs
    by (induction qs) (auto simp: bind_eq_Some_conv split: if_splits)
  then show "MC_Cycle p (mc, s) = Some (mc', s') \<Longrightarrow> mc' = mc"
    by (auto simp: MC_Cycle_def bind_eq_Some_conv split: if_splits)
qed

section \<open>A cycle\<close>

lemma run_choice_conserves:
  assumes t: "takes p qi z (mc, s) (sch_mc c1, s1)" "qi < length (transactionQueues mc)" "\<forall>x \<in># waiting mc. x < nextReq s"
    and r: "run_choice p z (c1, s1) = Some (c', s')"
  shows "(\<exists>new. waiting (sch_mc c') = waiting mc + new \<and> (\<forall>x \<in># new. nextReq s \<le> x))
    \<and> (\<exists>q. transactionQueues (sch_mc c') = (transactionQueues mc)[qi := q])"
proof -
  obtain st2 mc3 s3 where m: "(case z of None \<Rightarrow> Some (sch_mc c1, s1) | Some rp \<Rightarrow> do { (_, st) \<leftarrow> IssueMemoryCommands p rp (sch_mc c1, s1); Some st }) = Some st2"
    "CycleCommandQueues p st2 = Some (mc3, s3)" "MC_Cycle p (mc3, s3) = Some (sch_mc c', s')"
    using r unfolding run_choice_def prod.case by (elim bind_eq_SomeE) (auto elim!: bind_eq_SomeE split: prod.splits)
  note c = choice_conserves [OF t m(1)]
  moreover have "commandQueues (sch_mc c') = commandQueues (fst st2) \<and> transactionQueues (sch_mc c') = transactionQueues (fst st2)"
    using CycleCommandQueues_queues [of p "fst st2" "snd st2" mc3 s3] m(2) MC_Cycle_keeps [OF m(3)] by simp
  ultimately show ?thesis by (simp add: conserves_def waiting_def)
qed

lemma WQF_Cycle_run:
  assumes "WQF_Cycle p (w, s) = Some (w', s')"
  obtains qi z c1 s1 where "takes p qi z (sch_mc (wq_common w), s) (sch_mc c1, s1)" "run_choice p z (c1, s1) = Some (wq_common w', s')"
    "qi < length (transactionQueues (sch_mc (wq_common w)))" "1 < length (transactionQueues (sch_mc (wq_common w)))"
    "qi = (if m_draining w' \<or> force_drain w \<and> (word_of_nat (length (transactionQueues (sch_mc (wq_common w)) ! 0)) :: u64) = 0 then 1 else 0)"
proof -
  obtain w1 nr ch z mc s1 s2 where m: "switch_drain (GetCurrentCycle s) w = Some w1" "queue_length readQueueId w1 = Some nr"
    "WQF_choose p (if m_draining w1 \<or> force_drain w1 \<and> nr = 0 then writeQueueId else readQueueId) (sch_mc (wq_common w1), s) = Some (ch, z, mc, s1)"
    "force_request (m_draining w1 \<or> force_drain w1) z s1 = Some s2"
    "run_choice p z ((count_starved ch (wq_common w1))\<lparr>sch_mc := mc\<rparr>, s2) = Some (wq_common w', s')"
    "m_draining w' = m_draining w1" "force_drain w' = force_drain w1"
    by (rule WQF_Cycle_cases [OF assms])
  note d = switch_drain_hysteresis [OF m(1)]
  let ?qi = "if m_draining w1 \<or> force_drain w1 \<and> nr = 0 then writeQueueId else readQueueId"
  have "takes p ?qi z (sch_mc (wq_common w1), s) (mc, s1)" using postD [OF WQF_choose_takes m(3)] by simp
  from force_request_takes [OF this m(4)] have t: "takes p ?qi z (sch_mc (wq_common w), s) (sch_mc ((count_starved ch (wq_common w1))\<lparr>sch_mc := mc\<rparr>), s2)"
    by (simp add: d(2))
  have "nr = word_of_nat (length (transactionQueues (sch_mc (wq_common w)) ! 0))" using m(2) by (simp add: queue_length_def bind_eq_Some_conv d(2))
  then show thesis by (intro that [OF t m(5)]) (use d(3,4) m(6) in auto)
qed

end
