(* ===== verification/Controller_Example.thy ===== *)
theory Controller_Example
  imports Transaction_Rows Frfcfs_Wqf
begin

text \<open>
  A controller of one rank on which the properties of the controllers are evaluated: it accepts a read
  of a closed bank.
\<close>

section \<open>Questions to the tree\<close>

lemma GetChild_bank_eq:
  assumes "translated (address r)" "defaultField dec = BANK_FIELD" "unat (bank (address r)) < length cs"
  shows "GetChild_req r dec cs = Some (unat (bank (address r)), dec)"
  using assms by (simp add: GetChild_req_def TranslateRequest_def)

lemma GetChild_subarray_eq:
  assumes "translated (address r)" "defaultField dec = SUBARRAY_FIELD" "unat (subarray (address r)) < length cs"
  shows "GetChild_req r dec cs = Some (unat (subarray (address r)), dec)"
  using assms by (simp add: GetChild_req_def TranslateRequest_def)

lemma GetChild_only:
  assumes "translated (address r)" "defaultField dec = NO_FIELD"
  shows "GetChild_req r dec [x] = Some (0, dec)"
  using assms by (simp add: GetChild_req_def TranslateRequest_def)

lemmas GetChild_eqs = GetChild_rank_eq GetChild_bank_eq GetChild_subarray_eq GetChild_only

lemma open_bank_fields [simp]:
  "bk_children open_bank = [open_array]" "defaultField (bk_decoder open_bank) = SUBARRAY_FIELD" "bk_nextCommand open_bank = CMD_NOP"
  by (simp_all add: open_bank_def sample_bank_def DDR3Bank_new_def)

lemma default_translator_field [simp]: "defaultField default_translator = NO_FIELD"
  by (simp add: default_translator_def SetTranslationMethod_def AddressTranslator_new_def)

text \<open>Writing back what was read.\<close>

lemma same_updates:
  "rk_children k = bs \<Longrightarrow> (k :: StandardRank)\<lparr>rk_children := bs\<rparr> = k" "rk_decoder k = d \<Longrightarrow> (k :: StandardRank)\<lparr>rk_decoder := d\<rparr> = k"
  "bk_children b = sas \<Longrightarrow> (b :: DDR3Bank)\<lparr>bk_children := sas\<rparr> = b" "bk_decoder b = d \<Longrightarrow> (b :: DDR3Bank)\<lparr>bk_decoder := d\<rparr> = b"
  "bus_children u = ks \<Longrightarrow> (u :: RankBus)\<lparr>bus_children := ks\<rparr> = u" "bus_decoder u = d \<Longrightarrow> (u :: RankBus)\<lparr>bus_decoder := d\<rparr> = u"
  "mc_child mc = u \<Longrightarrow> (mc :: MemoryController)\<lparr>mc_child := u\<rparr> = mc" "mc_decoder mc = d \<Longrightarrow> (mc :: MemoryController)\<lparr>mc_decoder := d\<rparr> = mc"
  by auto

lemma find_subarray_sample:
  assumes "translated (address r)" "rank (address r) = 0" "bank (address r) = 0" "subarray (address r) = 0"
    "mc_decoder mc = default_translator" "mc_child mc = sample_bus"
  shows "find_subarray r mc = Some (open_array, mc)"
proof -
  have 1: "find_rank r mc = Some (0, mc)"
    using assms GetChild_only [OF assms(1), of default_translator "()"] GetChild_rank_eq [OF assms(1), of "bus_decoder sample_bus" "[open_rank, open_rank]"]
    by (simp add: find_rank_def same_updates)
  have 2: "GetChild_req r (rk_decoder open_rank) [open_bank, open_bank] = Some (0, rk_decoder open_rank)"
    using GetChild_bank_eq [OF assms(1), of "rk_decoder open_rank" "[open_bank, open_bank]"] assms(3) by simp
  have 3: "GetChild_req r (bk_decoder open_bank) [open_array] = Some (0, bk_decoder open_bank)"
    using GetChild_subarray_eq [OF assms(1), of "bk_decoder open_bank" "[open_array]"] assms(4) by simp
  have 4: "open_bank\<lparr>bk_decoder := bk_decoder open_bank\<rparr> = open_bank" "sample_bus\<lparr>bus_children := [open_rank, open_rank]\<rparr> = sample_bus"
    "open_rank\<lparr>rk_decoder := rk_decoder open_rank, rk_children := [open_bank, open_bank]\<rparr> = open_rank"
    using same_updates(5) [of sample_bus] same_updates(1,2) [of open_rank] by simp_all
  show ?thesis
    unfolding find_subarray_def 1 by (simp add: assms(6) 2 3 4 same_updates(7) del: StandardRank.update_convs)
qed

lemma cached_refused:
  assumes "rtype r = CACHED_READ" "translated (address r)" "rank (address r) = 0" "bank (address r) = 0" "subarray (address r) = 0"
    "mc_child mc = sample_bus"
  shows "child_issuable p r (mc, s) = Some (False, mc)"
proof -
  have "\<exists>why. SubArray_IsIssuable p r open_array s = Some (False, why, open_array)"
    using assms(1) by (simp add: SubArray_IsIssuable_def Let_def)
  then obtain why where "Bank_IsIssuable p r open_bank s = Some (False, why, open_bank)"
    using assms by (auto simp: Bank_IsIssuable_def bank_ask_def bank_child_issuable_def Let_def GetChild_eqs same_updates)
  then have "Rank_IsIssuable p r open_rank s = Some (False, why, open_rank)"
    using assms by (simp add: Rank_IsIssuable_def rank_ask_def rank_child_issuable_def Let_def GetChild_eqs same_updates)
  then show ?thesis
    using assms by (simp add: child_issuable_def Bus_IsIssuable_def GetChild_eqs same_updates)
qed

lemma activate_time:
  assumes "rtype r = ACTIVATE" "translated (address r)" "rank (address r) = 0" "bank (address r) = 0" "subarray (address r) = 0"
  shows "\<exists>t. Bus_NextIssuable p r sample_bus = Some (t, sample_bus)"
proof -
  have "\<exists>i. raw_next open_rank = Some i" using raw_next_eq(1) [of open_rank] by simp
  then obtain i where "raw_next open_rank = Some i" by blast
  then show ?thesis
    using assms by (simp add: Bus_NextIssuable_def Rank_NextIssuable_def Bank_NextIssuable_def bank_group_def cpp_assert_def GetChild_eqs same_updates)
qed

section \<open>Waking up\<close>

lemma List_product_two: "List.product [0..<unat (RANKS ctl_params)] [0..<unat (BANKS ctl_params)] = [(0, 0), (0, 1)]"
  by (simp add: upt_rec)

lemma bank_queue_sample:
  assumes "queueModel mc = PerBankQueues" "length (commandQueues mc) = 2" "b = 0 \<or> b = 1"
  shows "bank_queue ctl_params 0 b mc = Some b"
  using assms by (auto simp: bank_queue_def GetCommandQueueId_def NVMAddress_of_def SetTranslatedAddress_def cpp_assert_def)

lemma no_refresh_due:
  assumes "delayedRefreshCounter mc = [[0, 0]]" "b = 0 \<or> b = 1"
  shows "NeedRefresh ctl_params b 0 mc = Some False"
  using assms by (auto simp: NeedRefresh_def refresh_slot_def cpp_assert_def)

lemma wake_returns:
  assumes "delayedRefreshCounter mc = [[0, 0]]" "queueModel mc = PerBankQueues" "commandQueues mc = [a # as, []]" "mc_child mc = sample_bus"
    and "requests s a = Some r" "rtype r = ACTIVATE" "translated (address r)" "rank (address r) = 0" "bank (address r) = 0" "subarray (address r) = 0"
    and "eventMap (eventQueue s) = []"
  shows "\<exists>s'. ScheduleCommandWake ctl_params (mc, s) = Some (mc, s') \<and> live (eventQueue s') \<and> GetCurrentCycle s' = GetCurrentCycle s"
proof -
  obtain t where t: "Bus_NextIssuable ctl_params r sample_bus = Some (t, sample_bus)" using activate_time [OF assms(6-10)] by blast
  have h: "head_time ctl_params 0 t0 (mc, s) = Some (min t0 t, mc, s)" "head_time ctl_params 1 t0 (mc, s) = Some (t0, mc, s)" for t0
    using t assms(3-5) by (simp_all add: head_time_def same_updates)
  have due: "refresh_if_due ctl_params w 0 b t0 (mc, s) = Some (t0, mc, s)" if "b = 0 \<or> b = 1" for w b t0
    using no_refresh_due [OF assms(1) that] by (simp add: refresh_if_due_def)
  have loop: "next_loop ctl_params w [(0, 0), (0, 1)] t0 (mc, s) = Some (min t0 t, mc, s)" for w t0
    using h due bank_queue_sample [OF assms(2)] assms(3) by simp
  obtain t' where n: "NextIssuable ctl_params (mc, s) = Some (t', mc, s)"
    unfolding NextIssuable_def NextIssuable_fuel.simps List_product_two loop by auto
  show ?thesis
    unfolding ScheduleCommandWake_def ScheduleCommandWake_with_def n
    using assms(11) by (simp add: FindCallback_def insert_callback_def InsertCallback_def Event_alloc_def Event_new_def InsertEventObj_def Let_def live_def)
qed

section \<open>Issuing a read\<close>

lemma bus_request_cached:
  "\<exists>x. MakeCachedRequest (bus_request 0) me = Some x \<and> rtype x = CACHED_READ \<and> address x = address (bus_request 0)"
proof -
  obtain x where "NVMainRequest_assign (\<lambda>_. 0) (bus_request 0) NVMainRequest_new = Some x"
    using NVMainRequest_assign_new [of "bus_request 0"]
    by (auto simp: bus_request_def NVMainRequest_new_def NVMDataBlock_new_def block_wf_def)
  then show ?thesis using NVMainRequest_assign_frame by (fastforce simp: MakeCachedRequest_def cpp_assert_def)
qed

definition at_start :: "MemoryController \<Rightarrow> bool" where
  "at_start mc \<longleftrightarrow> mc_decoder mc = default_translator \<and> mc_child mc = sample_bus \<and> commandQueues mc = [[], []]
     \<and> queueModel mc = PerBankQueues \<and> delayedRefreshCounter mc = [[0, 0]]
     \<and> bankCtl mc = [[initial_bank ctl_params 1, initial_bank ctl_params 1]]"

lemma sample_issue:
  assumes "at_start mc"
  shows "\<exists>mc' s'. IssueMemoryCommands ctl_params 0 (mc, bus_sim 10) = Some (True, mc', s') \<and> commandQueues mc' = [[2, 0], []]
    \<and> transactionQueues mc' = transactionQueues mc \<and> handledRefresh mc' = handledRefresh mc \<and> live (eventQueue s') \<and> GetCurrentCycle s' = 10"
proof -
  let ?r = "bus_request 0" let ?p = ctl_params let ?s = "bus_sim 10" let ?c = "initial_bank ctl_params 1"
  obtain x where x: "MakeCachedRequest ?r (mc_this mc) = Some x" "rtype x = CACHED_READ" "address x = address ?r"
    using bus_request_cached by blast
  have f: "find_subarray ?r mc = Some (open_array, mc)" using assms by (intro find_subarray_sample) (simp_all add: at_start_def)
  have mux: "mux_level ?p ?r = Some 0"
    by (simp add: mux_level_def cpp_assert_def ctl_params_def rank_params_def bus_request_def NVMainRequest_new_def NVMAddress_new_def zero_address_def)
  have q: "GetCommandQueueId ?p (address ?r) mc = Some 0" using assms by (simp add: GetCommandQueueId_def cpp_assert_def at_start_def)
  have no: "child_issuable ?p x (mc, ?s) = Some (False, mc)" using x assms by (intro cached_refused) (simp_all add: at_start_def)
  have c: "request_bank ?r mc = Some ?c" using assms by (simp add: request_bank_def bank_ctl_def at_start_def)
  have cl: "\<not> activateQueued ?c" "row_open ?r 0 ?c = Some False" by (simp_all add: initial_bank_def row_open_def)
  obtain mc1 s1 where "push_activate 0 False ?r (mc, ?s) = (mc1, s1)" by fastforce
  then obtain ra where a: "push_activate 0 False ?r (mc, ?s) = (mc1, s1)" "mc1 = push_command 0 2 mc" "requests s1 = (requests ?s)(2 \<mapsto> ra)"
    "rtype ra = ACTIVATE" "address ra = address ?r" "eventQueue s1 = eventQueue ?s"
    by (auto elim!: push_activateE)
  then have "requests s1 0 = Some ?r" by simp
  moreover obtain mc2 s2 where r: "push_request 0 0 (mc1, s1) = Some (mc2, s2)" using calculation by (simp add: push_request_def)
  ultimately obtain r2 where r2: "mc2 = push_command 0 0 mc1" "requests s2 = (requests s1)(0 \<mapsto> r2)" "eventQueue s2 = eventQueue s1"
    using push_requestE [of 0 0 mc1 s1 mc2 s2] by metis
  obtain y where y: "sub_ctl (subarray (address ?r)) ?c = Some y" by (simp add: sub_ctl_def initial_bank_def)
  have "\<not> closes ?p ?r" by (simp add: closes_def has_flag_def bus_request_def NVMainRequest_new_def)
  with y a(1) r obtain mc3 where i: "issue_closed_bank ?p 0 0 False 0 ?r ?c (mc, ?s) = Some (mc3, s2)"
    "mc3 = set_sub ?r True (y\<lparr>activeSubArray := True, effectiveRow := row (address ?r), effectiveMuxedRow := 0, starvationCounter := 0\<rparr>) ?c mc2"
    by (simp add: issue_closed_bank_def Let_def)
  have "\<exists>s'. ScheduleCommandWake ?p (mc3, s2) = Some (mc3, s') \<and> live (eventQueue s') \<and> GetCurrentCycle s' = GetCurrentCycle s2"
    by (rule wake_returns [where a = 2 and as = "[0]" and r = ra])
      (use assms in \<open>simp_all add: at_start_def i(2) set_sub_def put_bank_def r2 a(2-6) push_command_def bus_sim_def EventQueue_new_def\<close>)
  moreover have "commandQueues mc ! unat (0 :: ncounter_t) = []" using assms by (simp add: at_start_def)
  moreover have "commandQueues mc3 = [[2, 0], []]" "transactionQueues mc3 = transactionQueues mc" "handledRefresh mc3 = handledRefresh mc"
    "GetCurrentCycle s2 = 10"
    using assms by (simp_all add: at_start_def i(2) set_sub_def put_bank_def r2 a(2,6) push_command_def)
  moreover have "\<not> isWriting open_array" by (simp add: open_array_def sample_array_def SubArray_new_def)
  ultimately show ?thesis
    using i(1) f mux q no c cl x(1) by (auto simp: IssueMemoryCommands_def)
qed

section \<open>A scheduling cycle\<close>

lemma FindEvent_live: "live q \<Longrightarrow> \<exists>ev. FindEvent ty rcp req due q = Some ev"
  by (auto simp: FindEvent_def live_def split: option.split dest: map_of_SomeD)

text \<open>The controller with one read in its transaction queue, in a cycle whose refreshes have been handled.\<close>

definition sample_scheduler :: Scheduler where
  "sample_scheduler = (scheduler_new (MemoryController_new 30 undefined) undefined)
     \<lparr>sch_mc := (sample_controller [0, 0])\<lparr>transactionQueues := [[0]], handledRefresh := 10\<rparr>\<rparr>"

lemma sample_choice:
  "FCFS_choose ctl_params ((sample_controller [0, 0])\<lparr>transactionQueues := [[0]], handledRefresh := 10\<rparr>, bus_sim 10)
    = Some (Some 0, (sample_controller [0, 0])\<lparr>transactionQueues := [[]], handledRefresh := 10\<rparr>, bus_sim 10)"
proof -
  let ?mc = "(sample_controller [0, 0])\<lparr>transactionQueues := [[0]], handledRefresh := 10\<rparr>"
  have q: "GetCommandQueueId ctl_params (address (bus_request 0)) ?mc = Some 0" by (simp add: GetCommandQueueId_def cpp_assert_def)
  have c: "request_bank (bus_request 0) ?mc = Some (initial_bank ctl_params 1)" by (simp add: request_bank_def bank_ctl_def)
  have arr: "arrivalCycle (bus_request 0) = 0" by (simp add: bus_request_def NVMainRequest_new_def)
  have 1: "FindOldestReadyRequest ctl_params DummyPredicate 0 (?mc, bus_sim 10) = Some (None, ?mc, bus_sim 10)"
    using q c by (simp add: FindOldestReadyRequest_def find_request_def is_oldest_ready_def if_queue_empty_def initial_bank_def)
  have 2: "FindClosedBankRequest ctl_params DummyPredicate 0 (?mc, bus_sim 10)
      = Some (Some 0, (sample_controller [0, 0])\<lparr>transactionQueues := [[]], handledRefresh := 10\<rparr>, bus_sim 10)"
    using q c arr
    by (simp add: FindClosedBankRequest_def find_request_def is_closed_bank_def if_queue_empty_def initial_bank_def schedulable_def
        take_request_def IsLastRequest_def)
  show ?thesis by (simp add: FCFS_choose_def 1 2)
qed

lemma sample_cycle: "\<exists>c' s'. FCFS_Cycle ctl_params (sample_scheduler, bus_sim 10) = Some (c', s')"
proof -
  let ?mc = "(sample_controller [0, 0])\<lparr>transactionQueues := [[]], handledRefresh := 10\<rparr>"
  have "at_start ?mc" by (simp add: at_start_def)
  from sample_issue [OF this] obtain mc' s' where i: "IssueMemoryCommands ctl_params 0 (?mc, bus_sim 10) = Some (True, mc', s')"
    "commandQueues mc' = [[2, 0], []]" "transactionQueues mc' = [[]]" "handledRefresh mc' = 10" "live (eventQueue s')" "GetCurrentCycle s' = 10"
    by auto
  obtain ev where ev: "FindEvent EventCycle (mc_this mc') None 11 (eventQueue s') = Some ev" using FindEvent_live [OF i(5)] by blast
  have "recheck_queues ctl_params [0..<length (commandQueues mc')] (mc', s') = Some (mc', s')"
    using i by (simp add: upt_rec EffectivelyEmpty_def TransactionAvailable_def cpp_assert_def)
  then have "MC_Cycle ctl_params (mc', s') = Some (mc', s')" using ev i(6) by (simp add: MC_Cycle_def)
  moreover have "CycleCommandQueues ctl_params (mc', s') = Some (mc', s')" using i by (simp add: CycleCommandQueues_def)
  ultimately show ?thesis
    using i(1) sample_choice by (simp add: FCFS_Cycle_def sample_scheduler_def run_choice_def)
qed

text \<open>A write that was issued and then paused.\<close>

definition paused_write :: NVMainRequest where
  "paused_write = (bus_request 0)\<lparr>rtype := WRITE, flags := FLAG_ISSUED OR FLAG_PAUSED\<rparr>"

text \<open>A controller with a write queue at the end of a drain.\<close>

definition sample_drain :: FRFCFS_WQF where
  "sample_drain = (FRFCFS_WQF_new 30 undefined undefined)
     \<lparr>wq_common := sample_scheduler\<lparr>sch_mc := (sample_controller [0, 0])\<lparr>transactionQueues := [[], []], handledRefresh := 10\<rparr>\<rparr>, m_draining := True\<rparr>"

lemma sample_drain_cycle: "\<exists>w' s'. WQF_Cycle ctl_params (sample_drain, bus_sim 10) = Some (w', s')"
proof -
  let ?mc = "(sample_controller [0, 0])\<lparr>transactionQueues := [[], []], handledRefresh := 10\<rparr>"
  have d: "switch_drain 10 sample_drain = Some (sample_drain\<lparr>m_drain_end_cycle := 10, m_request_per_drain := 0, m_last_drain_end_cycle := 10, m_draining := False\<rparr>)"
    by (simp add: switch_drain_def queue_length_def cpp_assert_def sample_drain_def FRFCFS_WQF_new_def)
  have c: "WQF_choose ctl_params 0 (?mc, bus_sim 10) = Some (No_choice, None, ?mc, bus_sim 10)"
    by (simp add: WQF_choose_def FindStarvedRequest_def FindRowBufferHit_def FindOldestReadyRequest_def FindClosedBankRequest_def
        FindCachedAddress_def find_request_def)
  obtain ev where ev: "FindEvent EventCycle (mc_this ?mc) None 11 (eventQueue (bus_sim 10)) = Some ev"
    using FindEvent_live [OF bus_sim_fields(3)] by blast
  have "recheck_queues ctl_params [0..<length (commandQueues ?mc)] (?mc, bus_sim 10) = Some (?mc, bus_sim 10)"
    by (simp add: upt_rec EffectivelyEmpty_def TransactionAvailable_def cpp_assert_def)
  then have "MC_Cycle ctl_params (?mc, bus_sim 10) = Some (?mc, bus_sim 10)" using ev by (simp add: MC_Cycle_def)
  moreover have "CycleCommandQueues ctl_params (?mc, bus_sim 10) = Some (?mc, bus_sim 10)" by (simp add: CycleCommandQueues_def)
  ultimately have "\<exists>c. run_choice ctl_params None (x\<lparr>sch_mc := ?mc\<rparr>, bus_sim 10) = Some (c, bus_sim 10)" for x
    by (simp add: run_choice_def)
  then obtain c' where "run_choice ctl_params None ((count_starved No_choice (wq_common sample_drain))\<lparr>sch_mc := ?mc\<rparr>, bus_sim 10) = Some (c', bus_sim 10)"
    by blast
  then show ?thesis
    using d c unfolding WQF_Cycle_def
    by (simp add: queue_length_def cpp_assert_def force_request_def sample_drain_def FRFCFS_WQF_new_def count_read_choice_def)
qed

end
