(* ===== verification/Scheduler_Properties.thy ===== *)
theory Scheduler_Properties
  imports Scheduler_Conservation Controller_Example
begin

text \<open>
  The properties of the memory controller and of its schedulers, each with an instance on the example.
\<close>

section \<open>Commands for a transaction\<close>

text \<open>C2 (transaction_commands_legal). The commands that \<^verbatim>\<open>IssueMemoryCommands\<close> puts into the queues, for
  the transaction and for the refreshes that come due on the way, are legal for every bank: an
  activation finds the sub-array closed, a read or write finds its row open, a refresh finds all banks
  it covers closed; and the arrays of the controller hold the rows that result. If the call succeeds
  the transaction is among the commands, once, and all others are new requests; if it fails, nothing
  has been queued.\<close>

theorem transaction_commands_legal:
  assumes "IssueMemoryCommands p rp (mc, s) = Some (ok, mc', s')" "rp < nextReq s"
  shows "\<exists>cmds. queues p cmds (mc, s) (mc', s')
    \<and> (if ok then \<exists>new. mset (map (fst \<circ> snd) cmds) = add_mset rp new \<and> (\<forall>x \<in># new. nextReq s \<le> x) else cmds = [] \<and> s' = s)"
  using IssueMemoryCommands_serves [OF assms] unfolding serves_def by (cases ok) auto

theorem transaction_commands_legal_witness:
  "\<exists>mc' s' cmds. IssueMemoryCommands ctl_params 0 (sample_controller [0, 0], bus_sim 10) = Some (True, mc', s')
    \<and> queues ctl_params cmds (sample_controller [0, 0], bus_sim 10) (mc', s') \<and> 0 \<in> set (map (fst \<circ> snd) cmds)"
proof -
  obtain mc' s' where i: "IssueMemoryCommands ctl_params 0 (sample_controller [0, 0], bus_sim 10) = Some (True, mc', s')"
    using sample_issue [of "sample_controller [0, 0]"] by (auto simp: at_start_def)
  have "(0 :: nat) < nextReq (bus_sim 10)" by simp
  from transaction_commands_legal [OF i this] obtain cmds new where "queues ctl_params cmds (sample_controller [0, 0], bus_sim 10) (mc', s')"
    "mset (map (fst \<circ> snd) cmds) = add_mset 0 new" by auto
  moreover from this(2) have "0 \<in> set (map (fst \<circ> snd) cmds)" by (metis set_mset_mset union_single_eq_member)
  ultimately show ?thesis using i by blast
qed

section \<open>Searching\<close>



section \<open>Sending commands\<close>

text \<open>C6 (one_command_per_cycle). A round over the command queues sends at most one command, and none if one
  has been sent in this cycle already: either only questions have been asked, or the head of one
  queue has been issued to the interconnect and the cycle is recorded. The queues stay as they are
  until the clean-up.\<close>

theorem one_command_per_cycle:
  assumes "CycleCommandQueues p (mc, s) = Some (mc', s')" "length (commandQueues mc) < 2 ^ 64"
  shows "asked mc mc' \<and> s' = s \<or> lastIssueCycle mc \<noteq> GetCurrentCycle s
    \<and> (\<exists>q rp rest. q < length (commandQueues mc) \<and> commandQueues mc ! q = rp # rest \<and> sent p rp (mc, s) (mc', s'))"
proof (cases "handledRefresh mc = GetCurrentCycle s")
  case True
  then show ?thesis using assms(1) by (simp add: CycleCommandQueues_def)
next
  case False
  then have "cycle_queues p [0..<length (commandQueues mc)] (mc, s) = Some (mc', s')" using assms(1) by (simp add: CycleCommandQueues_def)
  from cycle_queues_sent [OF this asked_refl assms(2) _ refl] show ?thesis by (simp add: lessThan_atLeast0)
qed

theorem one_command_per_cycle_witness:
  "\<exists>mc' s'. CycleCommandQueues ctl_params (sample_controller [0, 0], bus_sim 10) = Some (mc', s')
    \<and> asked (sample_controller [0, 0]) mc' \<and> s' = bus_sim 10"
proof -
  let ?mc = "sample_controller [0, 0]"
  have c: "CycleCommandQueues ctl_params (?mc, bus_sim 10) = Some (?mc, bus_sim 10)"
    by (simp add: CycleCommandQueues_def upt_rec sample_controller_def MemoryController_new_def)
  from one_command_per_cycle [OF c] show ?thesis using c by (auto simp: less_Suc_eq)
qed

section \<open>A scheduling cycle\<close>

text \<open>C4 (scheduling_conserves). A cycle of each of the three schedulers loses no request and duplicates
  none: what waits in the transaction queues and in the command queues afterwards is what waited
  before and requests that the controller has made in this cycle.\<close>

theorem scheduling_conserves:
  assumes "FCFS_Cycle p (c, s) = Some (c', s') \<or> FRFCFS_Cycle p (c, s) = Some (c', s')
      \<or> (\<exists>w w'. WQF_Cycle p (w, s) = Some (w', s') \<and> wq_common w = c \<and> wq_common w' = c')"
    and "transactionQueues (sch_mc c) \<noteq> []" "\<forall>x \<in># waiting (sch_mc c). x < nextReq s"
  shows "\<exists>new. waiting (sch_mc c') = waiting (sch_mc c) + new \<and> (\<forall>x \<in># new. nextReq s \<le> x)"
proof -
  obtain qi z s1 c1 where t: "takes p qi z (sch_mc c, s) (sch_mc c1, s1)" "qi < length (transactionQueues (sch_mc c))"
    "run_choice p z (c1, s1) = Some (c', s')"
    using assms(1)
  proof (elim disjE exE conjE)
    assume "FCFS_Cycle p (c, s) = Some (c', s')"
    then obtain z mc1 s1 where "FCFS_choose p (sch_mc c, s) = Some (z, mc1, s1)" "run_choice p z (c\<lparr>sch_mc := mc1\<rparr>, s1) = Some (c', s')"
      by (auto simp: FCFS_Cycle_def bind_eq_Some_conv)
    then show thesis using that [of 0 z "c\<lparr>sch_mc := mc1\<rparr>" s1] postD [OF FCFS_choose_takes] assms(2) by fastforce
  next
    assume "FRFCFS_Cycle p (c, s) = Some (c', s')"
    then obtain ch z mc1 s1 where "FRFCFS_choose p (sch_mc c, s) = Some (ch, z, mc1, s1)"
      "run_choice p z (count_choice ch z (c\<lparr>sch_mc := mc1\<rparr>), s1) = Some (c', s')"
      by (auto simp: FRFCFS_Cycle_def bind_eq_Some_conv)
    moreover have "sch_mc (count_choice ch z (c\<lparr>sch_mc := mc1\<rparr>)) = mc1" by (simp add: count_choice_def split: choice.split)
    ultimately show thesis using that [of 0 z "count_choice ch z (c\<lparr>sch_mc := mc1\<rparr>)" s1] postD [OF FRFCFS_choose_takes] assms(2) by fastforce
  next
    fix w w' assume w: "WQF_Cycle p (w, s) = Some (w', s')" "wq_common w = c" "wq_common w' = c'"
    show thesis by (rule WQF_Cycle_run [OF w(1)]) (rule that; simp add: w(2,3))
  qed
  from run_choice_conserves [OF t(1,2) assms(3) t(3)] show ?thesis by blast
qed

theorem scheduling_conserves_witness:
  "\<exists>c' s' new. FCFS_Cycle ctl_params (sample_scheduler, bus_sim 10) = Some (c', s')
    \<and> waiting (sch_mc c') = {#0#} + new \<and> (\<forall>x \<in># new. 2 \<le> x)"
proof -
  obtain c' s' where c: "FCFS_Cycle ctl_params (sample_scheduler, bus_sim 10) = Some (c', s')" using sample_cycle by blast
  have w: "waiting (sch_mc sample_scheduler) = {#0#}" by (simp add: waiting_def sample_scheduler_def)
  have "\<exists>new. waiting (sch_mc c') = waiting (sch_mc sample_scheduler) + new \<and> (\<forall>x \<in># new. nextReq (bus_sim 10) \<le> x)"
    by (rule scheduling_conserves [OF disjI1 [OF c]]) (simp_all add: w, simp_all add: sample_scheduler_def)
  then show ?thesis using c by (auto simp: w)
qed

section \<open>The write queue\<close>



lemma unat_widen: "unat (ucast (x :: u32) :: u64) = unat x"
proof -
  have "unat x < 2 ^ 64" using unsigned_less [of x, where ?'a = nat] by simp
  then show ?thesis by (simp add: unsigned_ucast_eq take_bit_nat_eq_self)
qed

text \<open>The two watermarks are checked in one \<^verbatim>\<open>if\<close> with an \<^verbatim>\<open>else\<close>: when the high mark
  exceeds the size of the write queue and is reduced, the low mark is not looked at. If it is not below
  the size of the queue, every drain ends in the cycle after its start, however many writes wait.\<close>

lemma low_mark_unchecked:
  assumes "w1 = WQF_SetConfig starvation rq (Some wq) (Some high) (Some low) w0"
    and "(word_of_int wq :: u32) < word_of_int high" "(word_of_int wq :: u32) \<le> word_of_int low"
    and "wq_LowWaterMark w = wq_LowWaterMark w1" "m_draining w" "\<not> force_drain w"
    and "queue_length 0 w = Some nr" "queue_length 1 w = Some nw" "nw \<le> writeQueueSize w1"
  shows "wq_HighWaterMark w1 = writeQueueSize w1 \<and> wq_HighWaterMark w1 \<le> wq_LowWaterMark w1
    \<and> (\<exists>w'. switch_drain now w = Some w' \<and> \<not> m_draining w')"
proof -
  have w1: "wq_HighWaterMark w1 = writeQueueSize w1" "writeQueueSize w1 = ucast (word_of_int wq :: u32)" "wq_LowWaterMark w1 = ucast (word_of_int low :: u32)"
    using assms(1,2) by (simp_all add: WQF_SetConfig_def config_u64_def Let_def word_less_nat_alt unat_widen)
  have le: "writeQueueSize w1 \<le> wq_LowWaterMark w1" unfolding w1(2,3) using assms(3) by (simp add: word_le_nat_alt unat_widen)
  then have "nw \<le> wq_LowWaterMark w" using assms(4,9) by simp
  then show ?thesis using w1 le assms(5-8) by (simp add: switch_drain_def Let_def)
qed

section \<open>Cleaning up\<close>

lemma keep_unissued_filter:
  "keep_unissued s rps = Some rps' \<Longrightarrow> rps' = filter (\<lambda>rp. case requests s rp of Some r \<Rightarrow> \<not> WasIssued r | None \<Rightarrow> True) rps"
  by (induction rps arbitrary: rps') (auto simp: bind_eq_Some_conv)

lemma clean_queues_filter:
  "clean_queues s qs = Some qs' \<Longrightarrow> qs' = map (filter (\<lambda>rp. case requests s rp of Some r \<Rightarrow> \<not> WasIssued r | None \<Rightarrow> True)) qs"
  by (induction qs arbitrary: qs') (auto simp: bind_eq_Some_conv dest: keep_unissued_filter)

text \<open>C38 (requeued_write_lost). A write that has been paused or cancelled goes back to the head of the
  transaction queue with the flag still set that says it was issued. When it is put into a command
  queue again, the next clean-up removes it from there although it has not been sent again.\<close>

theorem requeued_write_lost:
  assumes "requests s rp = Some r" "rtype r = WRITE" "has_flag r FLAG_PAUSED \<or> has_flag r FLAG_CANCELLED" "has_flag r FLAG_ISSUED"
    and "FRFCFS_RequestComplete rp (c, s) = Some (up, c1, s1)"
    and "push_request q rp (sch_mc c1, s1) = Some (mc2, s2)" "CleanupCallback (mc2, s2) = Some (mc3, s3)"
  shows "transactionQueues (sch_mc c1) ! 0 = rp # transactionQueues (sch_mc c) ! 0 \<and> rp \<notin> set (concat (commandQueues mc3))"
proof -
  have r1: "s1 = s" "transactionQueues (sch_mc c1) ! 0 = rp # transactionQueues (sch_mc c) ! 0"
    using assms(1-3,5) by (auto simp: FRFCFS_RequestComplete_def Prequeue_def bind_eq_Some_conv cpp_assert_def split: if_splits)
  then obtain r' where "requests s2 rp = Some r'" "WasIssued r'"
    using assms(1,4,6) by (auto simp: push_request_def put_request_def WasIssued_def has_flag_def)
  moreover obtain qs where "clean_queues s2 (commandQueues mc2) = Some qs" "mc3 = mc2\<lparr>commandQueues := qs\<rparr>"
    using assms(7) by (auto simp: CleanupCallback_def bind_eq_Some_conv)
  ultimately show ?thesis using r1(2) clean_queues_filter by fastforce
qed

theorem requeued_write_lost_witness:
  "\<exists>c1 mc2 s2 mc3. FRFCFS_RequestComplete 0 (sample_scheduler, (bus_sim 10)\<lparr>requests := [0 \<mapsto> paused_write]\<rparr>) = Some (False, c1, (bus_sim 10)\<lparr>requests := [0 \<mapsto> paused_write]\<rparr>)
    \<and> push_request 0 0 (sch_mc c1, (bus_sim 10)\<lparr>requests := [0 \<mapsto> paused_write]\<rparr>) = Some (mc2, s2) \<and> commandQueues mc2 = [[0], []]
    \<and> CleanupCallback (mc2, s2) = Some (mc3, s2) \<and> 0 \<notin> set (concat (commandQueues mc3))"
proof -
  let ?s = "(bus_sim 10)\<lparr>requests := [0 \<mapsto> paused_write]\<rparr>"
  have r: "rtype paused_write = WRITE" "has_flag paused_write FLAG_PAUSED" "has_flag paused_write FLAG_ISSUED"
    by (simp_all add: paused_write_def has_flag_def FLAG_PAUSED_def FLAG_ISSUED_def)
  obtain c1 where c: "FRFCFS_RequestComplete 0 (sample_scheduler, ?s) = Some (False, c1, ?s)" "commandQueues (sch_mc c1) = [[], []]"
    using r by (simp add: FRFCFS_RequestComplete_def Prequeue_def cpp_assert_def sample_scheduler_def)
  obtain mc2 s2 where m: "push_request 0 0 (sch_mc c1, ?s) = Some (mc2, s2)" "commandQueues mc2 = [[0], []]"
    "\<exists>r'. requests s2 0 = Some r'"
    using c(2) by (simp add: push_request_def put_request_def)
  then obtain mc3 where d: "CleanupCallback (mc2, s2) = Some (mc3, s2)" by (auto simp: CleanupCallback_def)
  have "0 \<notin> set (concat (commandQueues mc3))"
    using requeued_write_lost [OF _ r(1) disjI1 [OF r(2)] r(3) c(1) m(1) d] by simp
  then show ?thesis using c(1) m(1,2) d by blast
qed

end
