(* ===== verification/Cache_Bank.thy ===== *)
theory Cache_Bank
  imports NVM_Sim
begin

unbundle bit_operations_syntax

text \<open>
  \<^verbatim>\<open>src/NVmain/Utils/Caches/CacheBank\<close>: the set-associative cache of the DRAM cache controllers. A set is the
  array of its ways, the most recently used first. Entries are copied field by field as the code does;
  copying a data block into a buffer that is too small is \<open>None\<close>, as is the access to a row or a set that
  does not exist.
\<close>

section \<open>State\<close>

datatype CacheState = CACHE_IDLE | CACHE_BUSY

datatype CacheOperation = CACHE_NONE | CACHE_READ | CACHE_WRITE | CACHE_SCRUB | CACHE_EVICT

record CacheRequest =
  cr_optype :: CacheOperation
  cr_address :: NVMAddress
  cr_endAddr :: NVMAddress
  cr_data :: NVMDataBlock
  cr_hit :: bool
  cr_owner :: "obj_id option"
  cr_originalRequest :: "req_ptr option"

definition CACHE_ENTRY_NONE :: u64 where "CACHE_ENTRY_NONE = 0"
definition CACHE_ENTRY_VALID :: u64 where "CACHE_ENTRY_VALID = 1"
definition CACHE_ENTRY_DIRTY :: u64 where "CACHE_ENTRY_DIRTY = 2"

record CacheEntry =
  ce_flags :: u64
  ce_address :: NVMAddress
  ce_data :: NVMDataBlock

text \<open>The function that chooses the set of an address is the default one or one that the owner has set.\<close>

datatype CacheSetDecoder = Default_Decoder | Owner_Decoder "NVMAddress \<Rightarrow> u64"

record CacheBank =
  cb_this :: obj_id
  numRows :: u64
  numSets :: u64
  numAssoc :: u64
  cachelineSize :: u64
  cacheEntry :: "CacheEntry list list list"
  stateTimer :: u64
  readTime :: u64
  writeTime :: u64
  cb_state :: CacheState
  isMissMap :: bool
  decodeFunc :: CacheSetDecoder

text \<open>Of a new entry only the flags and the data block have known contents; \<open>g\<close> is the rest.\<close>

definition CacheEntry_new :: "NVMAddress \<Rightarrow> CacheEntry" where
  "CacheEntry_new g = \<lparr>ce_flags = CACHE_ENTRY_NONE, ce_address = NVMAddress_new g, ce_data = NVMDataBlock_new\<rparr>"

definition CacheBank_new :: "obj_id \<Rightarrow> NVMAddress \<Rightarrow> u64 \<Rightarrow> u64 \<Rightarrow> u64 \<Rightarrow> u64 \<Rightarrow> CacheBank" where
  "CacheBank_new this g rows sets assoc lineSize =
     \<lparr>cb_this = this, numRows = rows, numSets = sets, numAssoc = assoc, cachelineSize = lineSize,
      cacheEntry = replicate (unat rows) (replicate (unat sets) (replicate (unat assoc) (CacheEntry_new g))),
      stateTimer = 0, readTime = 1, writeTime = 1, cb_state = CACHE_IDLE, isMissMap = False, decodeFunc = Default_Decoder\<rparr>"

definition SetDecodeFunction :: "CacheSetDecoder \<Rightarrow> CacheBank \<Rightarrow> CacheBank" where
  "SetDecodeFunction f cb = cb\<lparr>decodeFunc := f\<rparr>"

definition SetReadTime :: "u64 \<Rightarrow> CacheBank \<Rightarrow> CacheBank" where "SetReadTime t cb = cb\<lparr>readTime := t\<rparr>"
definition SetWriteTime :: "u64 \<Rightarrow> CacheBank \<Rightarrow> CacheBank" where "SetWriteTime t cb = cb\<lparr>writeTime := t\<rparr>"

section \<open>Finding a set\<close>

definition SetID :: "NVMAddress \<Rightarrow> CacheBank \<Rightarrow> u64 option" where
  "SetID addr cb = (case decodeFunc cb of
      Default_Decoder \<Rightarrow> do { cpp_assert (numSets cb \<noteq> 0); Some (col addr mod numSets cb) }
    | Owner_Decoder f \<Rightarrow> Some (f addr))"

text \<open>The row and the set of an address, if they exist with all their ways, and the ways.\<close>

definition set_index :: "NVMAddress \<Rightarrow> CacheBank \<Rightarrow> (nat \<times> nat) option" where
  "set_index addr cb = do {
     sid \<leftarrow> SetID addr cb;
     let r = unat (row addr);
     let t = unat sid;
     cpp_assert (r < length (cacheEntry cb) \<and> t < length (cacheEntry cb ! r)
       \<and> length (cacheEntry cb ! r ! t) = unat (numAssoc cb));
     Some (r, t)
   }"

definition FindSet :: "NVMAddress \<Rightarrow> CacheBank \<Rightarrow> CacheEntry list option" where
  "FindSet addr cb = do { (r, t) \<leftarrow> set_index addr cb; Some (cacheEntry cb ! r ! t) }"

definition put_set :: "NVMAddress \<Rightarrow> CacheEntry list \<Rightarrow> CacheBank \<Rightarrow> CacheBank option" where
  "put_set addr es cb = do {
     (r, t) \<leftarrow> set_index addr cb;
     Some (cb\<lparr>cacheEntry := (cacheEntry cb)[r := (cacheEntry cb ! r)[t := es]]\<rparr>)
   }"

section \<open>Ways\<close>

definition entry_valid :: "CacheEntry \<Rightarrow> bool" where
  "entry_valid e \<longleftrightarrow> ce_flags e AND CACHE_ENTRY_VALID \<noteq> 0"

definition entry_dirty :: "CacheEntry \<Rightarrow> bool" where
  "entry_dirty e \<longleftrightarrow> ce_flags e AND CACHE_ENTRY_DIRTY \<noteq> 0"

definition entry_for :: "NVMAddress \<Rightarrow> CacheEntry \<Rightarrow> bool" where
  "entry_for addr e \<longleftrightarrow> physicalAddress (ce_address e) = physicalAddress addr \<and> entry_valid e"

text \<open>The loops that stop at the first way with a property, and those that visit all ways.\<close>

definition first_way :: "(CacheEntry \<Rightarrow> bool) \<Rightarrow> CacheEntry list \<Rightarrow> nat option" where
  "first_way P es = find (\<lambda>i. P (es ! i)) [0..<length es]"

fun each_way :: "(nat \<Rightarrow> 'st \<Rightarrow> 'st option) \<Rightarrow> nat list \<Rightarrow> 'st \<Rightarrow> 'st option" where
  "each_way f [] st = Some st"
| "each_way f (i # is) st = do { st \<leftarrow> f i st; each_way f is st }"

definition copy_entry :: "CacheEntry \<Rightarrow> CacheEntry \<Rightarrow> CacheEntry option" where
  "copy_entry m e = do {
     d \<leftarrow> NVMDataBlock_assign (\<lambda>_. 0) (ce_data m) (ce_data e);
     Some \<lparr>ce_flags = ce_flags m, ce_address = NVMAddress_assign (ce_address m) (ce_address e), ce_data = d\<rparr>
   }"

text \<open>\<^verbatim>\<open>for( j = i; j > k; j-- ) set[j] = set[j-1]\<close>\<close>

fun shift_ways :: "nat \<Rightarrow> nat \<Rightarrow> CacheEntry list \<Rightarrow> CacheEntry list option" where
  "shift_ways k 0 es = Some es"
| "shift_ways k (Suc j) es =
     (if k < Suc j then do { e \<leftarrow> copy_entry (es ! j) (es ! Suc j); shift_ways k j (es[Suc j := e]) } else Some es)"

definition move_to_front :: "nat \<Rightarrow> nat \<Rightarrow> CacheEntry list \<Rightarrow> CacheEntry list option" where
  "move_to_front k i es = do {
     tmp \<leftarrow> copy_entry (es ! i) (CacheEntry_new zero_address);
     es \<leftarrow> shift_ways k i es;
     e \<leftarrow> copy_entry tmp (es ! 0);
     Some (es[0 := e])
   }"

section \<open>Operations\<close>

definition Present :: "NVMAddress \<Rightarrow> CacheBank \<Rightarrow> bool option" where
  "Present addr cb = do { es \<leftarrow> FindSet addr cb; Some (first_way (entry_for addr) es \<noteq> None) }"

definition SetFull :: "NVMAddress \<Rightarrow> CacheBank \<Rightarrow> bool option" where
  "SetFull addr cb = do { es \<leftarrow> FindSet addr cb; Some (first_way (\<lambda>e. \<not> entry_valid e) es = None) }"

definition Install :: "NVMAddress \<Rightarrow> NVMDataBlock \<Rightarrow> CacheBank \<Rightarrow> (bool \<times> CacheBank) option" where
  "Install addr data cb = do {
     es \<leftarrow> FindSet addr cb;
     case first_way (\<lambda>e. \<not> entry_valid e) es of
       None \<Rightarrow> Some (False, cb)
     | Some i \<Rightarrow> do {
         d \<leftarrow> NVMDataBlock_assign (\<lambda>_. 0) data (ce_data (es ! i));
         cb \<leftarrow> put_set addr (es[i := \<lparr>ce_flags = ce_flags (es ! i) OR CACHE_ENTRY_VALID,
           ce_address = NVMAddress_assign addr (ce_address (es ! i)), ce_data = d\<rparr>]) cb;
         Some (True, cb)
       }
   }"

definition read_way :: "NVMAddress \<Rightarrow> nat \<Rightarrow> bool \<times> NVMDataBlock \<times> CacheEntry list \<Rightarrow> (bool \<times> NVMDataBlock \<times> CacheEntry list) option" where
  "read_way addr i st = (case st of (rv, data, es) \<Rightarrow>
     if entry_for addr (es ! i) then do {
       data \<leftarrow> NVMDataBlock_assign (\<lambda>_. 0) (ce_data (es ! i)) data;
       es \<leftarrow> move_to_front 0 i es;
       Some (True, data, es)
     }
     else Some st)"

definition Cache_Read :: "NVMAddress \<Rightarrow> NVMDataBlock \<Rightarrow> CacheBank \<Rightarrow> (bool \<times> NVMDataBlock \<times> CacheBank) option" where
  "Cache_Read addr data cb = do {
     es \<leftarrow> FindSet addr cb;
     here \<leftarrow> Present addr cb;
     cpp_assert here;
     (rv, data, es) \<leftarrow> each_way (read_way addr) [0..<length es] (False, data, es);
     cb \<leftarrow> put_set addr es cb;
     Some (rv, data, cb)
   }"

definition write_way :: "NVMAddress \<Rightarrow> NVMDataBlock \<Rightarrow> nat \<Rightarrow> bool \<times> CacheEntry list \<Rightarrow> (bool \<times> CacheEntry list) option" where
  "write_way addr data i st = (case st of (rv, es) \<Rightarrow>
     if entry_for addr (es ! i) then do {
       d \<leftarrow> NVMDataBlock_assign (\<lambda>_. 0) data (ce_data (es ! i));
       es \<leftarrow> move_to_front 1 i (es[i := (es ! i)\<lparr>ce_data := d, ce_flags := ce_flags (es ! i) OR CACHE_ENTRY_DIRTY\<rparr>]);
       Some (True, es)
     }
     else Some st)"

definition Cache_Write :: "NVMAddress \<Rightarrow> NVMDataBlock \<Rightarrow> CacheBank \<Rightarrow> (bool \<times> CacheBank) option" where
  "Cache_Write addr data cb = do {
     es \<leftarrow> FindSet addr cb;
     here \<leftarrow> Present addr cb;
     cpp_assert here;
     (rv, es) \<leftarrow> each_way (write_way addr data) [0..<length es] (False, es);
     cb \<leftarrow> put_set addr es cb;
     Some (rv, cb)
   }"

definition update_way :: "NVMAddress \<Rightarrow> NVMDataBlock \<Rightarrow> nat \<Rightarrow> bool \<times> CacheEntry list \<Rightarrow> (bool \<times> CacheEntry list) option" where
  "update_way addr data i st = (case st of (rv, es) \<Rightarrow>
     if entry_for addr (es ! i) then do {
       d \<leftarrow> NVMDataBlock_assign (\<lambda>_. 0) data (ce_data (es ! i));
       Some (True, es[i := (es ! i)\<lparr>ce_data := d\<rparr>])
     }
     else Some st)"

definition UpdateData :: "NVMAddress \<Rightarrow> NVMDataBlock \<Rightarrow> CacheBank \<Rightarrow> (bool \<times> CacheBank) option" where
  "UpdateData addr data cb = do {
     es \<leftarrow> FindSet addr cb;
     here \<leftarrow> Present addr cb;
     cpp_assert here;
     (rv, es) \<leftarrow> each_way (update_way addr data) [0..<length es] (False, es);
     cb \<leftarrow> put_set addr es cb;
     Some (rv, cb)
   }"

text \<open>The victim is the last way; the result tells whether it is dirty.\<close>

definition ChooseVictim :: "NVMAddress \<Rightarrow> NVMAddress \<Rightarrow> CacheBank \<Rightarrow> (bool \<times> NVMAddress) option" where
  "ChooseVictim addr victim cb = do {
     es \<leftarrow> FindSet addr cb;
     full \<leftarrow> SetFull addr cb;
     cpp_assert full;
     cpp_assert (es \<noteq> [] \<and> entry_valid (last es));
     Some (entry_dirty (last es), NVMAddress_assign (ce_address (last es)) victim)
   }"

definition Evict :: "NVMAddress \<Rightarrow> NVMDataBlock \<Rightarrow> CacheBank \<Rightarrow> (bool \<times> NVMDataBlock \<times> CacheBank) option" where
  "Evict addr data cb = do {
     es \<leftarrow> FindSet addr cb;
     here \<leftarrow> Present addr cb;
     cpp_assert here;
     case first_way (entry_for addr) es of
       None \<Rightarrow> Some (False, data, cb)
     | Some i \<Rightarrow> do {
         data \<leftarrow> NVMDataBlock_assign (\<lambda>_. 0) (ce_data (es ! i)) data;
         cb \<leftarrow> put_set addr (es[i := (es ! i)\<lparr>ce_flags := CACHE_ENTRY_NONE\<rparr>]) cb;
         Some (entry_dirty (es ! i), data, cb)
       }
   }"

text \<open>The share of valid ways; \<open>None\<close> stands for the quotient of zero by zero.\<close>

definition GetCacheOccupancy :: "CacheBank \<Rightarrow> real option" where
  "GetCacheOccupancy cb =
     (let valid = (\<Sum>rows \<leftarrow> cacheEntry cb. \<Sum>es \<leftarrow> rows. length (filter entry_valid es));
          amount = numRows cb * numSets cb * numAssoc cb
      in if amount = 0 then None else Some (real valid / real (unat amount)))"

section \<open>Commands\<close>

text \<open>The cache requests that \<^verbatim>\<open>reqInfo\<close> points to are in a heap of their own.\<close>

record cache_heap =
  cacheRequests :: "nat \<rightharpoonup> CacheRequest"
  nextCacheReq :: nat

type_synonym cache_sim = "CacheBank \<times> cache_heap \<times> sim"

definition Cache_IsIssuable :: "CacheBank \<Rightarrow> bool" where
  "Cache_IsIssuable cb \<longleftrightarrow> cb_state cb = CACHE_IDLE"

definition put_cache_request :: "nat \<Rightarrow> CacheRequest \<Rightarrow> cache_heap \<Rightarrow> cache_heap" where
  "put_cache_request i q h = h\<lparr>cacheRequests := (cacheRequests h)(i \<mapsto> q)\<rparr>"

text \<open>The eviction from a full set: the victim leaves in a request of its own, a copy of the request that
  is served. \<open>g\<close> is what the members of the new cache request held before.\<close>

definition evict_victim :: "CacheRequest \<Rightarrow> CacheRequest \<Rightarrow> NVMainRequest \<Rightarrow> cache_sim \<Rightarrow> cache_sim option" where
  "evict_victim g q nr st = (case st of (cb, h, s) \<Rightarrow> do {
     (_, victim) \<leftarrow> ChooseVictim (cr_address q) (NVMAddress_new (cr_address g)) cb;
     (_, data, cb) \<leftarrow> Evict victim NVMDataBlock_new cb;
     let ev = nextCacheReq h;
     let h = (put_cache_request ev (g\<lparr>cr_optype := CACHE_EVICT, cr_address := victim, cr_data := data,
       cr_endAddr := NVMAddress_new (cr_endAddr g)\<rparr>) h)\<lparr>nextCacheReq := Suc ev\<rparr>;
     (mm, s) \<leftarrow> copy_request (\<lambda>c. c\<lparr>owner := owner nr, reqInfo := Some ev, tag := tag nr\<rparr>) nr s;
     s \<leftarrow> insert_response (cb_this cb) mm (stateTimer cb) s;
     Some (cb, h, s)
   })"

definition Cache_IssueCommand :: "CacheRequest \<Rightarrow> req_ptr \<Rightarrow> cache_sim \<Rightarrow> (bool \<times> cache_sim) option" where
  "Cache_IssueCommand g rp st = (case st of (cb, h, s) \<Rightarrow> do {
     nr \<leftarrow> requests s rp;
     i \<leftarrow> reqInfo nr;
     cpp_assert (Cache_IsIssuable cb);
     q \<leftarrow> cacheRequests h i;
     case cr_optype q of
       CACHE_READ \<Rightarrow> do {
         let cb = cb\<lparr>cb_state := CACHE_BUSY, stateTimer := GetCurrentCycle s + readTime cb\<rparr>;
         hit \<leftarrow> Present (cr_address q) cb;
         (q, cb) \<leftarrow> (if hit then do {
             (_, data, cb) \<leftarrow> Cache_Read (cr_address q) (cr_data q) cb;
             Some (q\<lparr>cr_hit := hit, cr_data := data\<rparr>, cb)
           }
           else Some (q\<lparr>cr_hit := hit\<rparr>, cb));
         s \<leftarrow> insert_response (cb_this cb) rp (stateTimer cb) s;
         Some (True, cb, put_cache_request i q h, s)
       }
     | CACHE_WRITE \<Rightarrow> do {
         let cb = cb\<lparr>cb_state := CACHE_BUSY, stateTimer := GetCurrentCycle s + writeTime cb\<rparr>;
         full \<leftarrow> SetFull (cr_address q) cb;
         (cb, h, s) \<leftarrow> (if full then evict_victim g q nr (cb, h, s) else Some (cb, h, s));
         hit \<leftarrow> Present (cr_address q) cb;
         (_, cb) \<leftarrow> (if hit then Cache_Write (cr_address q) (cr_data q) cb else Install (cr_address q) (cr_data q) cb);
         s \<leftarrow> insert_response (cb_this cb) rp (stateTimer cb) s;
         Some (True, cb, put_cache_request i (q\<lparr>cr_hit := hit\<rparr>) h, s)
       }
     | _ \<Rightarrow> Some (True, cb, h, s)
   })"

text \<open>The request goes on to the parent, then the cache is idle.\<close>

definition Cache_RequestComplete :: "CacheBank \<Rightarrow> bool \<times> CacheBank" where
  "Cache_RequestComplete cb = (True, cb\<lparr>cb_state := CACHE_IDLE\<rparr>)"

section \<open>Finding\<close>

lemma first_way_Some:
  "first_way P es = Some i \<longleftrightarrow> i < length es \<and> P (es ! i) \<and> (\<forall>j < i. \<not> P (es ! j))"
  by (auto simp: first_way_def find_Some_iff)

lemma first_way_None: "first_way P es = None \<longleftrightarrow> (\<forall>e \<in> set es. \<not> P e)"
  by (fastforce simp: first_way_def find_None_iff in_set_conv_nth)

lemma set_index_put:
  assumes "set_index addr cb = Some (r, t)" "put_set addr es cb = Some cb'" "length es = unat (numAssoc cb)"
  shows "set_index a cb' = set_index a cb" "cacheEntry cb' ! r ! t = es" "numAssoc cb' = numAssoc cb"
proof -
  have cb': "cb' = cb\<lparr>cacheEntry := (cacheEntry cb)[r := (cacheEntry cb ! r)[t := es]]\<rparr>"
    and r: "r < length (cacheEntry cb)" "t < length (cacheEntry cb ! r)" "length (cacheEntry cb ! r ! t) = unat (numAssoc cb)"
    using assms(1,2) by (auto simp: put_set_def set_index_def Let_def bind_eq_Some_conv)
  have "SetID a cb' = SetID a cb" by (simp add: SetID_def cb' split: CacheSetDecoder.split)
  moreover have "length (cacheEntry cb' ! x) = length (cacheEntry cb ! x)" for x by (cases "x = r") (simp_all add: cb' r)
  moreover have "length (cacheEntry cb' ! x ! y) = length (cacheEntry cb ! x ! y)" for x y
    using r assms(3) by (cases "x = r"; cases "y = t") (simp_all add: cb')
  ultimately show "set_index a cb' = set_index a cb" by (simp add: set_index_def cb')
  show "cacheEntry cb' ! r ! t = es" "numAssoc cb' = numAssoc cb" using r by (simp_all add: cb')
qed

lemma FindSet_put:
  assumes "FindSet addr cb = Some es0" "length es = length es0"
  shows "\<exists>cb'. put_set addr es cb = Some cb' \<and> FindSet addr cb' = Some es \<and> (\<forall>a. set_index a cb' = set_index a cb)"
proof -
  obtain r t where i: "set_index addr cb = Some (r, t)" "es0 = cacheEntry cb ! r ! t" using assms(1) by (auto simp: FindSet_def bind_eq_Some_conv)
  then have "length es = unat (numAssoc cb)" using assms(2) by (auto simp: set_index_def Let_def bind_eq_Some_conv)
  moreover obtain cb' where "put_set addr es cb = Some cb'" using i(1) by (simp add: put_set_def)
  ultimately show ?thesis using set_index_put [OF i(1)] i(1) by (auto simp: FindSet_def)
qed

lemma same_set: "set_index a cb = set_index b cb \<Longrightarrow> FindSet a cb = FindSet b cb"
  by (simp add: FindSet_def)

section \<open>Loops over the ways\<close>

lemma each_way_append: "each_way f (xs @ ys) st = do { st \<leftarrow> each_way f xs st; each_way f ys st }"
  by (induction xs arbitrary: st) (auto split: Option.bind_split)

lemma each_way_skip: "(\<And>i. i \<in> set is \<Longrightarrow> f i st = Some st) \<Longrightarrow> each_way f is st = Some st"
  by (induction "is") auto

lemma each_way_one:
  assumes "i < m" "\<And>j. j < i \<Longrightarrow> f j st = Some st" "f i st = Some st'" "\<And>j. i < j \<Longrightarrow> j < m \<Longrightarrow> f j st' = Some st'"
  shows "each_way f [0..<m] st = Some st'"
proof -
  have "[0..<m] = [0..<i] @ i # [Suc i..<m]" using assms(1) by (metis upt_add_eq_append le_add_diff_inverse less_imp_le_nat upt_conv_Cons zero_le)
  moreover have "each_way f [0..<i] st = Some st" using assms(2) by (intro each_way_skip) simp
  moreover have "each_way f [Suc i..<m] st' = Some st'" using assms(4) by (intro each_way_skip) simp
  ultimately show ?thesis by (simp add: each_way_append assms(3))
qed

section \<open>Well-formed sets\<close>

text \<open>A data block of \<open>n\<close> bytes, and one into which such a block can be copied.\<close>

definition line :: "nat \<Rightarrow> NVMDataBlock \<Rightarrow> bool" where
  "line n d \<longleftrightarrow> (\<exists>buf. rawData d = Some buf \<and> length buf = n \<and> unat (dsize d) = n)"

definition takes_line :: "nat \<Rightarrow> NVMDataBlock \<Rightarrow> bool" where
  "takes_line n d \<longleftrightarrow> line n d \<or> rawData d = None"

lemma assign_line: "line n m \<Longrightarrow> takes_line n d \<Longrightarrow> NVMDataBlock_assign g m d = Some m"
  by (auto simp: line_def takes_line_def NVMDataBlock_assign_def Let_def)

lemma copy_entry_line: "line n (ce_data m) \<Longrightarrow> takes_line n (ce_data e) \<Longrightarrow> copy_entry m e = Some m"
  by (simp add: copy_entry_def assign_line)

text \<open>The ways that have been used come first, and all hold blocks of one size; no address is in two ways.\<close>

definition addresses :: "CacheEntry list \<Rightarrow> u64 list" where
  "addresses es = map (physicalAddress \<circ> ce_address) (filter entry_valid es)"

definition ways_ok :: "nat \<Rightarrow> CacheEntry list \<Rightarrow> bool" where
  "ways_ok n es \<longleftrightarrow> distinct (addresses es)
     \<and> (\<forall>i < length es. rawData (ce_data (es ! i)) = None \<and> \<not> entry_valid (es ! i) \<or> (\<forall>j \<le> i. line n (ce_data (es ! j))))"

lemma ways_ok_new: "ways_ok n (replicate m (CacheEntry_new g))"
  by (simp add: ways_ok_def addresses_def CacheEntry_new_def NVMDataBlock_new_def entry_valid_def CACHE_ENTRY_NONE_def filter_replicate)

lemma ways_ok_used: "ways_ok n es \<Longrightarrow> i < length es \<Longrightarrow> entry_valid (es ! i) \<Longrightarrow> j \<le> i \<Longrightarrow> line n (ce_data (es ! j))"
  by (auto simp: ways_ok_def)

lemma ways_ok_takes: "ways_ok n es \<Longrightarrow> i < length es \<Longrightarrow> takes_line n (ce_data (es ! i))"
  unfolding ways_ok_def takes_line_def by (meson order_refl)

lemma distinct_nth_eq:
  assumes "distinct (map f (filter P xs))" "i < length xs" "j < length xs" "P (xs ! i)" "P (xs ! j)" "f (xs ! i) = f (xs ! j)"
  shows "i = j"
  using assms
proof (induction xs arbitrary: i j)
  case (Cons x xs)
  then show ?case by (cases i; cases j) (auto split: if_splits simp: image_iff)
qed simp

lemma ways_ok_unique:
  "ways_ok n es \<Longrightarrow> i < length es \<Longrightarrow> j < length es \<Longrightarrow> entry_for a (es ! i) \<Longrightarrow> entry_for a (es ! j) \<Longrightarrow> i = j"
  unfolding ways_ok_def addresses_def entry_for_def by (rule distinct_nth_eq [where f = "physicalAddress \<circ> ce_address" and P = entry_valid]) auto

section \<open>Moving to the front\<close>

lemma shift_ways_eq:
  assumes "i < length es" "k \<le> i" "\<And>j. j \<le> i \<Longrightarrow> line n (ce_data (es ! j))"
  shows "shift_ways k i es = Some (take (Suc k) es @ drop k (take i es) @ drop (Suc i) es)"
  using assms
proof (induction i arbitrary: es)
  case 0
  then show ?case by simp
next
  case (Suc i)
  show ?case
  proof (cases "k = Suc i")
    case True
    then show ?thesis by simp
  next
    case False
    then have k: "k \<le> i" using Suc.prems(2) by simp
    let ?es = "es[Suc i := es ! i]"
    have "copy_entry (es ! i) (es ! Suc i) = Some (es ! i)"
      using Suc.prems(3) [of i] Suc.prems(3) [of "Suc i"] by (intro copy_entry_line) (auto simp: takes_line_def)
    moreover have "shift_ways k i ?es = Some (take (Suc k) ?es @ drop k (take i ?es) @ drop (Suc i) ?es)"
      using Suc.prems k by (intro Suc.IH) auto
    moreover have "drop (Suc i) ?es = es ! i # drop (Suc (Suc i)) es" using Suc.prems(1) by (simp add: Cons_nth_drop_Suc [symmetric])
    moreover have "drop k (take (Suc i) es) = drop k (take i es) @ [es ! i]" using Suc.prems(1) k by (simp add: take_Suc_conv_app_nth)
    ultimately show ?thesis using k by simp
  qed
qed

lemma move_to_front_eq:
  assumes "i < length es" "k \<le> i" "\<And>j. j \<le> i \<Longrightarrow> line n (ce_data (es ! j))"
  shows "move_to_front k i es = Some (es ! i # drop 1 (take (Suc k) es) @ drop k (take i es) @ drop (Suc i) es)"
proof -
  obtain e es' where es: "es = e # es'" using assms(1) by (cases es) auto
  have "copy_entry (es ! i) (CacheEntry_new zero_address) = Some (es ! i)"
    using assms(3) [of i] by (intro copy_entry_line) (simp_all add: takes_line_def CacheEntry_new_def NVMDataBlock_new_def)
  moreover have "copy_entry (es ! i) e = Some (es ! i)" using assms(3) [of 0] assms(3) [of i] by (intro copy_entry_line) (auto simp: takes_line_def es)
  ultimately show ?thesis using shift_ways_eq [OF assms] by (simp add: move_to_front_def es)
qed

section \<open>The contents of a set\<close>

text \<open>A set as a map from addresses to data.\<close>

definition stored :: "CacheEntry list \<Rightarrow> u64 \<rightharpoonup> NVMDataBlock" where
  "stored es = map_of (map (\<lambda>e. (physicalAddress (ce_address e), ce_data e)) (filter entry_valid es))"

lemma dom_stored: "dom (stored es) = set (addresses es)"
  by (force simp: stored_def addresses_def dom_map_of_conv_image_fst)

lemma stored_split:
  "\<not> entry_valid e \<Longrightarrow> stored (xs @ e # ys) = stored (xs @ ys)"
  "entry_valid e \<Longrightarrow> physicalAddress (ce_address e) \<notin> set (addresses xs)
    \<Longrightarrow> stored (xs @ e # ys) = (stored (xs @ ys))(physicalAddress (ce_address e) \<mapsto> ce_data e)"
  using dom_stored [of xs] by (auto simp: stored_def map_add_upd_left)

lemma addresses_simps:
  "addresses (xs @ ys) = addresses xs @ addresses ys"
  "addresses (e # xs) = (if entry_valid e then physicalAddress (ce_address e) # addresses xs else addresses xs)"
  by (simp_all add: addresses_def)

lemma present_address: "first_way (entry_for a) es \<noteq> None \<longleftrightarrow> physicalAddress a \<in> set (addresses es)"
  by (force simp: first_way_None entry_for_def addresses_def)

lemma ways_ok_update:
  assumes "ways_ok n es" "i < length es" "line n (ce_data e)" "\<And>j. j < i \<Longrightarrow> line n (ce_data (es ! j))" "distinct (addresses (es[i := e]))"
  shows "ways_ok n (es[i := e])"
  unfolding ways_ok_def
proof (intro conjI allI impI)
  fix m assume m: "m < length (es[i := e])"
  have "rawData (ce_data (es ! m)) = None \<and> \<not> entry_valid (es ! m) \<or> (\<forall>j \<le> m. line n (ce_data (es ! j)))"
    using assms(1) m by (simp add: ways_ok_def)
  then show "rawData (ce_data (es[i := e] ! m)) = None \<and> \<not> entry_valid (es[i := e] ! m) \<or> (\<forall>j \<le> m. line n (ce_data (es[i := e] ! j)))"
    using assms(2-4) m by (cases "m = i") (auto simp: nth_list_update)
qed (rule assms(5))

lemma ways_ok_front:
  assumes "ways_ok n es" "i < length es" "entry_valid (es ! i)"
  shows "ways_ok n (es ! i # take i es @ drop (Suc i) es)"
proof -
  let ?es = "es ! i # take i es @ drop (Suc i) es"
  have es: "es = take i es @ es ! i # drop (Suc i) es" using assms(2) by (rule id_take_nth_drop)
  have l: "line n (ce_data (es ! j))" if "j \<le> i" for j using ways_ok_used [OF assms that] .
  have le: "line n (ce_data (?es ! j))" if "j \<le> i" for j using that l assms(2) by (cases j) (simp_all add: nth_append)
  have gt: "?es ! j = es ! j" if "i < j" "j < length es" for j using that assms(2) by (cases j) (simp_all add: nth_append min_def)
  have "distinct (addresses (take i es @ es ! i # drop (Suc i) es))" using assms(1) es by (simp add: ways_ok_def)
  then have "distinct (addresses ?es)" by (auto simp: addresses_simps)
  moreover have "rawData (ce_data (?es ! m)) = None \<and> \<not> entry_valid (?es ! m) \<or> (\<forall>j \<le> m. line n (ce_data (?es ! j)))" if "m < length ?es" for m
  proof (cases "m \<le> i")
    case True
    then show ?thesis using le by auto
  next
    case False
    then have m: "i < m" "m < length es" using that assms(2) by auto
    then have "rawData (ce_data (es ! m)) = None \<and> \<not> entry_valid (es ! m) \<or> (\<forall>j \<le> m. line n (ce_data (es ! j)))"
      using assms(1) by (simp add: ways_ok_def)
    then show ?thesis using gt m le by (metis linorder_not_less order_le_less_trans)
  qed
  ultimately show ?thesis by (simp add: ways_ok_def)
qed

section \<open>Effect of the operations\<close>

text \<open>The set of an address in a cache, well-formed and with blocks of \<open>n\<close> bytes.\<close>

definition good_set :: "nat \<Rightarrow> NVMAddress \<Rightarrow> CacheBank \<Rightarrow> CacheEntry list \<Rightarrow> bool" where
  "good_set n a cb es \<longleftrightarrow> FindSet a cb = Some es \<and> ways_ok n es"

lemma good_set_put:
  assumes "good_set n a cb es" "ways_ok n es'" "length es' = length es"
  shows "\<exists>cb'. put_set a es' cb = Some cb' \<and> good_set n a cb' es'"
  using assms FindSet_put [of a cb es es'] by (auto simp: good_set_def)

lemma present_way:
  assumes "good_set n a cb es" "Present a cb = Some True"
  obtains i where "first_way (entry_for a) es = Some i" "i < length es" "entry_for a (es ! i)" "entry_valid (es ! i)"
    "physicalAddress (ce_address (es ! i)) = physicalAddress a" "line n (ce_data (es ! i))"
    "\<forall>j < length es. j \<noteq> i \<longrightarrow> \<not> entry_for a (es ! j)" "stored es (physicalAddress a) = Some (ce_data (es ! i))"
    "physicalAddress a \<notin> set (addresses (take i es @ drop (Suc i) es))"
proof -
  obtain i where i: "first_way (entry_for a) es = Some i" using assms by (auto simp: Present_def good_set_def)
  then have h: "i < length es" "entry_for a (es ! i)" by (auto simp: first_way_Some)
  have ok: "ways_ok n es" using assms(1) by (simp add: good_set_def)
  have v: "entry_valid (es ! i)" "physicalAddress (ce_address (es ! i)) = physicalAddress a" using h(2) by (simp_all add: entry_for_def)
  have es: "es = take i es @ es ! i # drop (Suc i) es" using h(1) by (rule id_take_nth_drop)
  have "distinct (addresses (take i es @ es ! i # drop (Suc i) es))" using ok es by (simp add: ways_ok_def)
  then have out: "physicalAddress a \<notin> set (addresses (take i es @ drop (Suc i) es))" using v by (auto simp: addresses_simps)
  then have "stored (take i es @ es ! i # drop (Suc i) es) (physicalAddress a) = Some (ce_data (es ! i))"
    using stored_split(2) [of "es ! i" "take i es"] v by (simp add: addresses_simps)
  then have st: "stored es (physicalAddress a) = Some (ce_data (es ! i))" using es by simp
  show thesis
    by (rule that [OF i h v ways_ok_used [OF ok h(1) v(1) order_refl] _ st out]) (use ways_ok_unique [OF ok _ h(1) _ h(2)] in blast)
qed

lemma stored_replace:
  assumes "i < length es" "physicalAddress (ce_address e) \<notin> set (addresses (take i es @ drop (Suc i) es))"
  shows "entry_valid e \<Longrightarrow> stored (es[i := e]) = (stored (take i es @ drop (Suc i) es))(physicalAddress (ce_address e) \<mapsto> ce_data e)"
    "\<not> entry_valid e \<Longrightarrow> stored (es[i := e]) = stored (take i es @ drop (Suc i) es)"
  using assms stored_split [of e "take i es" "drop (Suc i) es"] by (simp_all add: upd_conv_take_nth_drop addresses_simps)

lemma stored_without:
  assumes "i < length es" "distinct (addresses es)"
  shows "stored (take i es @ drop (Suc i) es)
    = (if entry_valid (es ! i) then (stored es)(physicalAddress (ce_address (es ! i)) := None) else stored es)"
proof (cases "entry_valid (es ! i)")
  case True
  let ?a = "physicalAddress (ce_address (es ! i))" let ?rest = "take i es @ drop (Suc i) es"
  have es: "es = take i es @ es ! i # drop (Suc i) es" using assms(1) by (rule id_take_nth_drop)
  then have "distinct (addresses (take i es @ es ! i # drop (Suc i) es))" using assms(2) by simp
  then have out: "?a \<notin> set (addresses ?rest)" using True by (auto simp: addresses_simps)
  then have "stored (take i es @ es ! i # drop (Suc i) es) = (stored ?rest)(?a \<mapsto> ce_data (es ! i))"
    using True by (intro stored_split(2)) (simp_all add: addresses_simps)
  moreover have "stored ?rest ?a = None" using out dom_stored [of ?rest] by (metis domIff)
  moreover from this have "(stored ?rest)(?a := None) = stored ?rest" by (rule fun_upd_idem)
  ultimately show ?thesis using es True by simp
next
  case False
  then show ?thesis using stored_split(1) [of "es ! i" "take i es" "drop (Suc i) es"] id_take_nth_drop [OF assms(1)] by simp
qed

lemma addresses_update:
  assumes "i < length es"
  shows "addresses (es[i := e]) = addresses (take i es) @ (if entry_valid e then [physicalAddress (ce_address e)] else []) @ addresses (drop (Suc i) es)"
  using assms by (simp add: upd_conv_take_nth_drop addresses_simps)

lemma addresses_way:
  assumes "i < length es"
  shows "addresses es = addresses (take i es) @ (if entry_valid (es ! i) then [physicalAddress (ce_address (es ! i))] else []) @ addresses (drop (Suc i) es)"
  using addresses_update [OF assms, of "es ! i"] by simp

lemma Cache_Install_effect:
  assumes "good_set n a cb es" "SetFull a cb = Some False" "Present a cb = Some False" "line n d"
  shows "\<exists>cb' es'. Install a d cb = Some (True, cb') \<and> good_set n a cb' es' \<and> stored es' = (stored es)(physicalAddress a \<mapsto> d)"
proof -
  have f: "FindSet a cb = Some es" and ok: "ways_ok n es" using assms(1) by (simp_all add: good_set_def)
  obtain i where i: "first_way (\<lambda>e. \<not> entry_valid e) es = Some i" using assms(2) f by (auto simp: SetFull_def)
  then have h: "i < length es" "\<not> entry_valid (es ! i)" "\<And>j. j < i \<Longrightarrow> entry_valid (es ! j)" by (auto simp: first_way_Some)
  let ?e = "\<lparr>ce_flags = ce_flags (es ! i) OR CACHE_ENTRY_VALID, ce_address = a, ce_data = d\<rparr>"
  have "bit (ce_flags ?e AND CACHE_ENTRY_VALID) 0" by (simp add: CACHE_ENTRY_VALID_def bit_simps)
  then have v: "entry_valid ?e" unfolding entry_valid_def by (metis bit_0_eq bot_apply bot_bool_def)
  have out: "physicalAddress a \<notin> set (addresses es)" using assms(3) f present_address [of a es] by (auto simp: Present_def)
  have D: "distinct (addresses es)" using ok by (simp add: ways_ok_def)
  have before: "line n (ce_data (es ! j))" if "j < i" for j using ways_ok_used [OF ok _ h(3) [OF that] order_refl] h(1) that by simp
  have ok': "ways_ok n (es[i := ?e])"
    using h before D out v by (intro ways_ok_update [OF ok h(1)]) (auto simp: assms(4) addresses_update addresses_way [OF h(1)])
  obtain cb' where "put_set a (es[i := ?e]) cb = Some cb'" "good_set n a cb' (es[i := ?e])" using good_set_put [OF assms(1) ok'] by auto
  moreover have "stored (es[i := ?e]) = (stored es)(physicalAddress a \<mapsto> d)"
    using stored_replace(1) [OF h(1), of ?e] v out h(2) stored_without [OF h(1) D] by (simp add: addresses_simps addresses_way [OF h(1)])
  ultimately show ?thesis using i f assign_line [OF assms(4) ways_ok_takes [OF ok h(1)]] by (auto simp: Install_def)
qed

lemma Cache_Read_effect:
  assumes "good_set n a cb es" "Present a cb = Some True" "takes_line n out"
  shows "\<exists>d cb' es'. stored es (physicalAddress a) = Some d \<and> Cache_Read a out cb = Some (True, d, cb')
    \<and> good_set n a cb' es' \<and> stored es' = stored es \<and> entry_for a (hd es') \<and> ce_data (hd es') = d"
proof -
  have f: "FindSet a cb = Some es" and ok: "ways_ok n es" using assms(1) by (simp_all add: good_set_def)
  then have D: "distinct (addresses es)" by (simp add: ways_ok_def)
  obtain i where i: "i < length es" "entry_for a (es ! i)" "entry_valid (es ! i)" "physicalAddress (ce_address (es ! i)) = physicalAddress a"
    "line n (ce_data (es ! i))" "\<forall>j < length es. j \<noteq> i \<longrightarrow> \<not> entry_for a (es ! j)"
    "stored es (physicalAddress a) = Some (ce_data (es ! i))" "physicalAddress a \<notin> set (addresses (take i es @ drop (Suc i) es))"
    by (rule present_way [OF assms(1,2)])
  let ?es = "es ! i # take i es @ drop (Suc i) es"
  have "drop 1 (take (Suc 0) es) = []" by (cases es) simp_all
  then have mv: "move_to_front 0 i es = Some ?es" using move_to_front_eq [OF i(1) le0 ways_ok_used [OF ok i(1,3)]] by simp
  have gt: "?es ! j = es ! j" if "i < j" "j < length es" for j using that i(1) by (cases j) (simp_all add: nth_append min_def)
  have len: "length ?es = length es" using i(1) by simp
  have loop: "each_way (read_way a) [0..<length es] (False, out, es) = Some (True, ce_data (es ! i), ?es)"
    by (rule each_way_one [OF i(1)]) (use i gt mv assign_line [OF i(5) assms(3)] in \<open>auto simp: read_way_def\<close>)
  obtain cb' where "put_set a ?es cb = Some cb'" "good_set n a cb' ?es" using good_set_put [OF assms(1) ways_ok_front [OF ok i(1,3)]] len by blast
  moreover have "stored ?es = stored es"
    using stored_split(2) [of "es ! i" "[]" "take i es @ drop (Suc i) es"] i(3,4,7) stored_without [OF i(1) D] by (auto simp: addresses_def)
  ultimately show ?thesis using f assms(2) loop i(2,7) by (auto simp: Cache_Read_def)
qed

lemma Cache_Evict_effect:
  assumes "good_set n a cb es" "Present a cb = Some True" "takes_line n out"
  shows "\<exists>d b cb' es'. stored es (physicalAddress a) = Some d \<and> Evict a out cb = Some (b, d, cb')
    \<and> good_set n a cb' es' \<and> stored es' = (stored es)(physicalAddress a := None)"
proof -
  have f: "FindSet a cb = Some es" and ok: "ways_ok n es" using assms(1) by (simp_all add: good_set_def)
  then have D: "distinct (addresses es)" by (simp add: ways_ok_def)
  obtain i where i: "first_way (entry_for a) es = Some i" "i < length es" "entry_valid (es ! i)" "physicalAddress (ce_address (es ! i)) = physicalAddress a"
    "line n (ce_data (es ! i))" "stored es (physicalAddress a) = Some (ce_data (es ! i))"
    "physicalAddress a \<notin> set (addresses (take i es @ drop (Suc i) es))"
    by (rule present_way [OF assms(1,2)])
  let ?e = "(es ! i)\<lparr>ce_flags := CACHE_ENTRY_NONE\<rparr>"
  have v: "\<not> entry_valid ?e" by (simp add: entry_valid_def CACHE_ENTRY_NONE_def)
  have ok': "ways_ok n (es[i := ?e])"
    using i v D ways_ok_used [OF ok i(2,3)] by (intro ways_ok_update [OF ok i(2)]) (auto simp: addresses_update addresses_way [OF i(2)])
  obtain cb' where "put_set a (es[i := ?e]) cb = Some cb'" "good_set n a cb' (es[i := ?e])" using good_set_put [OF assms(1) ok'] by auto
  moreover have "stored (es[i := ?e]) = (stored es)(physicalAddress a := None)"
    using stored_replace(2) [OF i(2), of ?e] v i(3,4,7) stored_without [OF i(2) D] by simp
  ultimately show ?thesis using f assms(2) i(1,6) assign_line [OF i(5) assms(3)] by (auto simp: Evict_def)
qed

lemma UpdateData_effect:
  assumes "good_set n a cb es" "Present a cb = Some True" "line n d"
  shows "\<exists>cb' es'. UpdateData a d cb = Some (True, cb') \<and> good_set n a cb' es' \<and> stored es' = (stored es)(physicalAddress a \<mapsto> d)"
proof -
  have f: "FindSet a cb = Some es" and ok: "ways_ok n es" using assms(1) by (simp_all add: good_set_def)
  then have D: "distinct (addresses es)" by (simp add: ways_ok_def)
  obtain i where i: "i < length es" "entry_for a (es ! i)" "entry_valid (es ! i)" "physicalAddress (ce_address (es ! i)) = physicalAddress a"
    "line n (ce_data (es ! i))" "\<forall>j < length es. j \<noteq> i \<longrightarrow> \<not> entry_for a (es ! j)"
    "physicalAddress a \<notin> set (addresses (take i es @ drop (Suc i) es))"
    by (rule present_way [OF assms(1,2)])
  let ?e = "(es ! i)\<lparr>ce_data := d\<rparr>"
  have v: "entry_valid ?e" using i(3) by (simp add: entry_valid_def)
  have "addresses (es[i := ?e]) = addresses es" using i(3) v by (simp add: addresses_update addresses_way [OF i(1)] i(1))
  then have ok': "ways_ok n (es[i := ?e])" using i assms(3) D ways_ok_used [OF ok i(1,3)] by (intro ways_ok_update [OF ok i(1)]) auto
  have loop: "each_way (update_way a d) [0..<length es] (False, es) = Some (True, es[i := ?e])"
    by (rule each_way_one [OF i(1)]) (use i assign_line [OF assms(3)] in \<open>auto simp: update_way_def takes_line_def\<close>)
  obtain cb' where "put_set a (es[i := ?e]) cb = Some cb'" "good_set n a cb' (es[i := ?e])" using good_set_put [OF assms(1) ok'] by auto
  moreover have "stored (es[i := ?e]) = (stored es)(physicalAddress a \<mapsto> d)"
    using stored_replace(1) [OF i(1), of ?e] v i(3,4,7) stored_without [OF i(1) D] by simp
  ultimately show ?thesis using f assms(2) loop by (auto simp: UpdateData_def)
qed

lemma later_ways: "1 \<le> i \<Longrightarrow> set (drop 1 (take 2 xs) @ drop 1 (take i xs) @ drop (Suc i) xs) \<subseteq> set (drop 1 xs)"
proof -
  have "drop (Suc i) xs = drop i (drop 1 xs)" by simp
  then show ?thesis unfolding drop_take set_append by (metis Un_least set_drop_subset set_take_subset)
qed

lemma Cache_Write_effect:
  assumes "good_set n a cb es" "Present a cb = Some True" "\<not> entry_for a (es ! 0)" "line n d"
  shows "\<exists>e cb' es'. Cache_Write a d cb = Some (True, cb') \<and> FindSet a cb' = Some es' \<and> (\<forall>x. set_index x cb' = set_index x cb)
    \<and> entry_for a e \<and> ce_data e = d \<and> e \<in> set es' \<and> set es' \<subseteq> insert e (set (drop 1 es))"
proof -
  have f: "FindSet a cb = Some es" and ok: "ways_ok n es" using assms(1) by (simp_all add: good_set_def)
  obtain i where i: "i < length es" "entry_for a (es ! i)" "entry_valid (es ! i)" "line n (ce_data (es ! i))"
    "\<forall>j < length es. j \<noteq> i \<longrightarrow> \<not> entry_for a (es ! j)"
    by (rule present_way [OF assms(1,2)])
  let ?e = "(es ! i)\<lparr>ce_data := d, ce_flags := ce_flags (es ! i) OR CACHE_ENTRY_DIRTY\<rparr>" let ?es1 = "es[i := ?e]"
  let ?es = "?e # drop 1 (take 2 ?es1) @ drop 1 (take i ?es1) @ drop (Suc i) ?es1"
  have pos: "1 \<le> i" using i(2) assms(3) by (cases i) auto
  have l1: "line n (ce_data (?es1 ! j))" if "j \<le> i" for j
    using that assms(4) ways_ok_used [OF ok i(1,3) that] i(1) by (cases "j = i") simp_all
  have mv: "move_to_front 1 i ?es1 = Some ?es" using move_to_front_eq [OF _ pos l1] i(1) by (simp add: numeral_2_eq_2)
  have e: "entry_for a ?e" using i(2) by (auto simp: entry_for_def entry_valid_def bit.conj_disj_distrib2 or_eq_0_iff)
  have len: "length ?es = length es" using i(1) pos by simp
  have gt: "?es ! j = es ! j" if "i < j" "j < length es" for j using that pos i(1) by (cases j) (simp_all add: nth_append min_def)
  have loop: "each_way (write_way a d) [0..<length es] (False, es) = Some (True, ?es)"
    by (rule each_way_one [OF i(1)])
      (use i gt mv assign_line [OF assms(4), of "ce_data (es ! i)"] in \<open>auto simp: write_way_def takes_line_def\<close>)
  obtain cb' where "put_set a ?es cb = Some cb'" "FindSet a cb' = Some ?es" "\<forall>x. set_index x cb' = set_index x cb"
    using FindSet_put [OF f len] by blast
  moreover have "set ?es \<subseteq> insert ?e (set (drop 1 es))"
  proof -
    have "set ?es \<subseteq> insert ?e (set (drop 1 ?es1))" using later_ways [OF pos, of ?es1] by auto
    moreover have "drop 1 ?es1 = (drop 1 es)[i - 1 := ?e]" using pos by (simp add: drop_update_swap)
    ultimately show ?thesis using set_update_subset_insert [of "drop 1 es" "i - 1" ?e] by auto
  qed
  ultimately show ?thesis using f assms(2) loop e by (intro exI [of _ ?e] exI [of _ cb'] exI [of _ ?es]) (simp add: Cache_Write_def)
qed

section \<open>The contract of a cache\<close>

text \<open>What a client of the cache relies on: on well-formed sets the operations insert into, look up in and delete
  from a map.\<close>

locale line_cache =
  fixes ok :: "'a \<Rightarrow> 'c \<Rightarrow> bool" and key :: "'a \<Rightarrow> 'k" and content :: "'a \<Rightarrow> 'c \<Rightarrow> 'k \<rightharpoonup> 'd"
    and full :: "'a \<Rightarrow> 'c \<Rightarrow> bool" and fits :: "'d \<Rightarrow> bool"
    and insert_line :: "'a \<Rightarrow> 'd \<Rightarrow> 'c \<Rightarrow> 'c option" and read_line :: "'a \<Rightarrow> 'c \<Rightarrow> ('d \<times> 'c) option"
    and evict_line :: "'a \<Rightarrow> 'c \<Rightarrow> ('d \<times> 'c) option"
  assumes insert_law: "ok a c \<Longrightarrow> \<not> full a c \<Longrightarrow> content a c (key a) = None \<Longrightarrow> fits d
      \<Longrightarrow> \<exists>c'. insert_line a d c = Some c' \<and> ok a c' \<and> content a c' = (content a c)(key a \<mapsto> d)"
    and read_law: "ok a c \<Longrightarrow> content a c (key a) = Some d \<Longrightarrow> \<exists>c'. read_line a c = Some (d, c') \<and> ok a c' \<and> content a c' = content a c"
    and evict_law: "ok a c \<Longrightarrow> content a c (key a) = Some d
      \<Longrightarrow> \<exists>c'. evict_line a c = Some (d, c') \<and> ok a c' \<and> content a c' = (content a c)(key a := None)"
begin

fun read_times :: "nat \<Rightarrow> 'a \<Rightarrow> 'c \<Rightarrow> 'c option" where
  "read_times 0 a c = Some c"
| "read_times (Suc m) a c = Option.bind (read_line a c) (\<lambda>(_, c'). read_times m a c')"

lemma read_times_keeps:
  "ok a c \<Longrightarrow> content a c (key a) = Some d \<Longrightarrow> \<exists>c'. read_times m a c = Some c' \<and> ok a c' \<and> content a c' = content a c"
proof (induction m arbitrary: c)
  case (Suc m)
  obtain c1 where "read_line a c = Some (d, c1)" "ok a c1" "content a c1 = content a c" using read_law [OF Suc.prems] by blast
  then show ?case using Suc.IH [of c1] Suc.prems(2) by auto
qed simp

lemma insert_read_evict:
  assumes "ok a c" "\<not> full a c" "content a c (key a) = None" "fits d"
  shows "\<exists>c1 c2 c3. insert_line a d c = Some c1 \<and> read_times m a c1 = Some c2 \<and> evict_line a c2 = Some (d, c3) \<and> ok a c3 \<and> content a c3 = content a c"
proof -
  obtain c1 where 1: "insert_line a d c = Some c1" "ok a c1" "content a c1 = (content a c)(key a \<mapsto> d)" using insert_law [OF assms] by blast
  moreover obtain c2 where 2: "read_times m a c1 = Some c2" "ok a c2" "content a c2 = content a c1" using read_times_keeps [OF 1(2), of d m] 1(3) by auto
  moreover obtain c3 where "evict_line a c2 = Some (d, c3)" "ok a c3" "content a c3 = (content a c2)(key a := None)"
    using evict_law [OF 2(2), of d] 1(3) 2(3) by auto
  ultimately show ?thesis using assms(3) by (auto simp: fun_upd_idem)
qed

end

text \<open>The operations of the cache in the form of the contract.\<close>

definition set_content :: "NVMAddress \<Rightarrow> CacheBank \<Rightarrow> u64 \<rightharpoonup> NVMDataBlock" where
  "set_content a cb = (case FindSet a cb of None \<Rightarrow> Map.empty | Some es \<Rightarrow> stored es)"

definition install_line :: "NVMAddress \<Rightarrow> NVMDataBlock \<Rightarrow> CacheBank \<Rightarrow> CacheBank option" where
  "install_line a d cb = do { (rv, cb) \<leftarrow> Install a d cb; if rv then Some cb else None }"

definition read_fresh :: "NVMAddress \<Rightarrow> CacheBank \<Rightarrow> (NVMDataBlock \<times> CacheBank) option" where
  "read_fresh a cb = do { (rv, d, cb) \<leftarrow> Cache_Read a NVMDataBlock_new cb; Some (d, cb) }"

definition evict_fresh :: "NVMAddress \<Rightarrow> CacheBank \<Rightarrow> (NVMDataBlock \<times> CacheBank) option" where
  "evict_fresh a cb = do { (rv, d, cb) \<leftarrow> Evict a NVMDataBlock_new cb; Some (d, cb) }"

lemma takes_line_new [simp]: "takes_line n NVMDataBlock_new"
  by (simp add: takes_line_def NVMDataBlock_new_def)

lemma good_content: "good_set n a cb es \<Longrightarrow> set_content a cb = stored es"
  by (simp add: set_content_def good_set_def)

lemma good_present: "good_set n a cb es \<Longrightarrow> Present a cb = Some (stored es (physicalAddress a) \<noteq> None)"
  using present_address [of a es] dom_stored [of es] by (auto simp: Present_def good_set_def)

interpretation cache: line_cache "\<lambda>a cb. \<exists>es. good_set n a cb es" physicalAddress set_content "\<lambda>a cb. SetFull a cb \<noteq> Some False"
  "line n" install_line read_fresh evict_fresh
  for n
proof (unfold_locales, goal_cases)
  case (1 a c d)
  then obtain es where es: "good_set n a c es" by blast
  then have "SetFull a c = Some False" "Present a c = Some False" using 1 good_present [OF es] by (auto simp: good_content)
  from Cache_Install_effect [OF es this 1(4)] show ?case using good_content [OF es] by (auto simp: install_line_def good_content)
next
  case (2 a c d)
  then obtain es where es: "good_set n a c es" by blast
  then have "Present a c = Some True" using 2 good_present [OF es] by (simp add: good_content)
  from Cache_Read_effect [OF es this takes_line_new] show ?case using good_content [OF es] 2(2) by (auto simp: read_fresh_def good_content)
next
  case (3 a c d)
  then obtain es where es: "good_set n a c es" by blast
  then have "Present a c = Some True" using 3 good_present [OF es] by (simp add: good_content)
  from Cache_Evict_effect [OF es this takes_line_new] show ?case using good_content [OF es] 3(2) by (auto simp: evict_fresh_def good_content)
qed

section \<open>Properties\<close>

text \<open>C11 (cache_refines_map). As long as the data blocks have one size, a set of the cache implements a
  finite map from addresses to data: \<^verbatim>\<open>Present\<close> tells whether an address is in it, \<^verbatim>\<open>Install\<close> adds an
  address to a set that is not full, \<^verbatim>\<open>Read\<close> returns the data, leaves the map as it is and makes the
  address the most recently used, \<^verbatim>\<open>UpdateData\<close> replaces the data and \<^verbatim>\<open>Evict\<close> returns the data and
  removes the address. No assertion fails and no buffer is overrun.\<close>

theorem cache_refines_map:
  assumes "good_set n a cb es" "line n d" "takes_line n out"
  shows "Present a cb = Some (physicalAddress a \<in> dom (stored es))
    \<and> (physicalAddress a \<notin> dom (stored es) \<and> SetFull a cb = Some False \<longrightarrow>
        (\<exists>cb' es'. Install a d cb = Some (True, cb') \<and> good_set n a cb' es' \<and> stored es' = (stored es)(physicalAddress a \<mapsto> d)))
    \<and> (\<forall>x. stored es (physicalAddress a) = Some x \<longrightarrow>
        (\<exists>cb' es'. Cache_Read a out cb = Some (True, x, cb') \<and> good_set n a cb' es' \<and> stored es' = stored es \<and> entry_for a (hd es'))
      \<and> (\<exists>cb' es'. UpdateData a d cb = Some (True, cb') \<and> good_set n a cb' es' \<and> stored es' = (stored es)(physicalAddress a \<mapsto> d))
      \<and> (\<exists>b cb' es'. Evict a out cb = Some (b, x, cb') \<and> good_set n a cb' es' \<and> stored es' = (stored es)(physicalAddress a := None)))"
proof (intro conjI allI impI)
  show p: "Present a cb = Some (physicalAddress a \<in> dom (stored es))"
    using assms(1) present_address [of a es] by (simp add: Present_def good_set_def dom_stored)
  show "\<exists>cb' es'. Install a d cb = Some (True, cb') \<and> good_set n a cb' es' \<and> stored es' = (stored es)(physicalAddress a \<mapsto> d)"
    if "physicalAddress a \<notin> dom (stored es) \<and> SetFull a cb = Some False"
    using that p by (intro Cache_Install_effect [OF assms(1) _ _ assms(2)]) simp_all
  fix x assume x: "stored es (physicalAddress a) = Some x"
  then have here: "Present a cb = Some True" using p by auto
  show "\<exists>cb' es'. Cache_Read a out cb = Some (True, x, cb') \<and> good_set n a cb' es' \<and> stored es' = stored es \<and> entry_for a (hd es')"
    using Cache_Read_effect [OF assms(1) here assms(3)] x by auto
  show "\<exists>cb' es'. UpdateData a d cb = Some (True, cb') \<and> good_set n a cb' es' \<and> stored es' = (stored es)(physicalAddress a \<mapsto> d)"
    by (rule UpdateData_effect [OF assms(1) here assms(2)])
  show "\<exists>b cb' es'. Evict a out cb = Some (b, x, cb') \<and> good_set n a cb' es' \<and> stored es' = (stored es)(physicalAddress a := None)"
    using Cache_Evict_effect [OF assms(1) here assms(3)] x by auto
qed

text \<open>A cache of one set with two ways and lines of one byte.\<close>

definition sample_line :: "u8 \<Rightarrow> NVMDataBlock" where
  "sample_line v = \<lparr>rawData = Some [v], isValid = True, dsize = 1\<rparr>"

definition sample_cache :: CacheBank where
  "sample_cache = CacheBank_new 5 zero_address 1 1 2 1"

lemma sample_line_line: "line 1 (sample_line v)"
  by (simp add: line_def sample_line_def)

lemma sample_index [simp]: "set_index zero_address sample_cache = Some (0, 0)"
  by (simp add: set_index_def SetID_def sample_cache_def CacheBank_new_def zero_address_def cpp_assert_def)

lemma sample_good: "good_set 1 zero_address sample_cache (replicate 2 (CacheEntry_new zero_address))"
  using ways_ok_new [of 1 2] by (simp add: good_set_def FindSet_def sample_cache_def CacheBank_new_def set_index_def SetID_def zero_address_def cpp_assert_def)

theorem cache_refines_map_witness:
  "\<exists>cb' es'. Install zero_address (sample_line 7) sample_cache = Some (True, cb') \<and> good_set 1 zero_address cb' es'
    \<and> stored es' (physicalAddress zero_address) = Some (sample_line 7)"
proof -
  let ?es = "replicate 2 (CacheEntry_new zero_address)"
  have v: "\<not> entry_valid (CacheEntry_new zero_address)" by (simp add: entry_valid_def CacheEntry_new_def CACHE_ENTRY_NONE_def)
  then have e: "stored ?es = (\<lambda>_. None)" by (simp add: stored_def filter_replicate)
  have "SetFull zero_address sample_cache = Some False"
    using v sample_good first_way_None [of "\<lambda>e. \<not> entry_valid e" ?es] by (simp add: SetFull_def good_set_def)
  moreover have "takes_line 1 NVMDataBlock_new" by (simp add: takes_line_def NVMDataBlock_new_def)
  ultimately obtain cb' es' where "Install zero_address (sample_line 7) sample_cache = Some (True, cb')" "good_set 1 zero_address cb' es'"
    "stored es' = (stored ?es)(physicalAddress zero_address \<mapsto> sample_line 7)"
    using cache_refines_map [OF sample_good sample_line_line [of 7], of NVMDataBlock_new] e by (auto simp del: One_nat_def)
  then show ?thesis by (intro exI [of _ cb'] exI [of _ es']) simp
qed

text \<open>C36 (cached_line_returns). A line that is installed in a set with room can be read any number of times, and
  its eviction returns the data that was installed and leaves the set with the other lines it had.\<close>

theorem cached_line_returns:
  assumes "good_set n a cb es" "SetFull a cb = Some False" "Present a cb = Some False" "line n d"
  shows "\<exists>cb1 cb2 cb3 dirty es'. Install a d cb = Some (True, cb1) \<and> cache.read_times m a cb1 = Some cb2
    \<and> Evict a NVMDataBlock_new cb2 = Some (dirty, d, cb3) \<and> good_set n a cb3 es' \<and> stored es' = stored es"
proof -
  have "set_content a cb (physicalAddress a) = None" using assms(3) good_present [OF assms(1)] by (simp add: good_content [OF assms(1)])
  moreover have "\<exists>es. good_set n a cb es" using assms(1) by blast
  ultimately have "\<exists>cb1 cb2 cb3. install_line a d cb = Some cb1 \<and> cache.read_times m a cb1 = Some cb2 \<and> evict_fresh a cb2 = Some (d, cb3)
      \<and> (\<exists>es'. good_set n a cb3 es') \<and> set_content a cb3 = set_content a cb"
    using assms(2,4) by (intro cache.insert_read_evict [where n = n]) simp_all
  then obtain cb1 cb2 cb3 es' where c: "install_line a d cb = Some cb1" "cache.read_times m a cb1 = Some cb2" "evict_fresh a cb2 = Some (d, cb3)"
    "good_set n a cb3 es'" "set_content a cb3 = set_content a cb" by blast
  then show ?thesis
    using good_content [OF c(4)] good_content [OF assms(1)]
    by (auto simp: install_line_def evict_fresh_def bind_eq_Some_conv split: if_splits)
qed

theorem cached_line_returns_witness:
  "\<exists>cb1 cb2 cb3 dirty. Install zero_address (sample_line 7) sample_cache = Some (True, cb1) \<and> cache.read_times 3 zero_address cb1 = Some cb2
    \<and> Evict zero_address NVMDataBlock_new cb2 = Some (dirty, sample_line 7, cb3)"
proof -
  let ?es = "replicate 2 (CacheEntry_new zero_address)"
  have v: "\<not> entry_valid (CacheEntry_new zero_address)" by (simp add: entry_valid_def CacheEntry_new_def CACHE_ENTRY_NONE_def)
  have "SetFull zero_address sample_cache = Some False" "Present zero_address sample_cache = Some False"
    using v sample_good first_way_None [of "\<lambda>e. \<not> entry_valid e" ?es] first_way_None [of "entry_for zero_address" ?es]
    by (simp_all add: SetFull_def Present_def good_set_def entry_for_def)
  from cached_line_returns [OF sample_good this sample_line_line] show ?thesis by blast
qed

text \<open>C37 (write_drops_mru). When \<^verbatim>\<open>Write\<close> hits a way other than the first, it moves the line to the first way
  without moving the line that is there: its loop stops one step early. The most recently used line,
  dirty or not, is lost without having been evicted.\<close>

theorem write_drops_mru:
  assumes "good_set n a cb es" "set_index b cb = set_index a cb" "entry_for b (es ! 0)" "es \<noteq> []" "line n d"
    and "physicalAddress a \<noteq> physicalAddress b" "Present a cb = Some True"
  shows "Present b cb = Some True
    \<and> (\<exists>cb'. Cache_Write a d cb = Some (True, cb') \<and> Present a cb' = Some True \<and> Present b cb' = Some False)"
proof -
  have f: "FindSet a cb = Some es" "FindSet b cb = Some es" and ok: "ways_ok n es"
    using assms(1) same_set [OF assms(2)] by (simp_all add: good_set_def)
  have "\<not> entry_for a (es ! 0)" using assms(3,6) by (simp add: entry_for_def)
  from Cache_Write_effect [OF assms(1,7) this assms(5)] obtain e cb' es' where w: "Cache_Write a d cb = Some (True, cb')" "FindSet a cb' = Some es'"
    "\<forall>x. set_index x cb' = set_index x cb" "entry_for a e" "e \<in> set es'" "set es' \<subseteq> insert e (set (drop 1 es))" by blast
  have fb: "FindSet b cb' = Some es'" using same_set [of b cb' a] w(2,3) assms(2) by simp
  have "\<not> entry_for b x" if x: "x \<in> set (drop 1 es)" for x
  proof
    assume "entry_for b x"
    moreover obtain j where "Suc j < length es" "x = es ! Suc j" using x by (auto simp: in_set_conv_nth less_diff_conv)
    ultimately show False using ways_ok_unique [OF ok, of 0 "Suc j" b] assms(3,4) by auto
  qed
  moreover have "\<not> entry_for b e" using w(4) assms(6) by (simp add: entry_for_def)
  ultimately have "first_way (entry_for b) es' = None" using w(6) by (auto simp: first_way_None)
  moreover have "first_way (entry_for a) es' \<noteq> None" using w(4,5) by (auto simp: first_way_None)
  moreover have "first_way (entry_for b) es \<noteq> None" using assms(3,4) first_way_None [of "entry_for b" es] by (metis hd_conv_nth list.set_sel(1))
  ultimately show ?thesis using w(1,2) f fb by (simp add: Present_def)
qed

definition other_address :: NVMAddress where
  "other_address = zero_address\<lparr>physicalAddress := 64\<rparr>"

definition full_cache :: CacheBank where
  "full_cache = sample_cache\<lparr>cacheEntry :=
     [[[\<lparr>ce_flags = 1, ce_address = zero_address, ce_data = sample_line 1\<rparr>, \<lparr>ce_flags = 1, ce_address = other_address, ce_data = sample_line 2\<rparr>]]]\<rparr>"

theorem write_drops_mru_witness:
  "Present zero_address full_cache = Some True
    \<and> (\<exists>cb'. Cache_Write other_address (sample_line 3) full_cache = Some (True, cb') \<and> Present zero_address cb' = Some False)"
proof -
  let ?es = "[\<lparr>ce_flags = 1, ce_address = zero_address, ce_data = sample_line 1\<rparr>, \<lparr>ce_flags = 1, ce_address = other_address, ce_data = sample_line 2\<rparr>]"
  have i: "set_index other_address full_cache = Some (0, 0)" "set_index zero_address full_cache = set_index other_address full_cache"
    by (simp_all add: set_index_def SetID_def full_cache_def sample_cache_def CacheBank_new_def zero_address_def other_address_def cpp_assert_def)
  have v: "entry_valid (?es ! 0)" "entry_valid (?es ! 1)" by (simp_all add: entry_valid_def CACHE_ENTRY_VALID_def)
  have pa: "physicalAddress zero_address = 0" "physicalAddress other_address = 64" by (simp_all add: zero_address_def other_address_def)
  have "ways_ok 1 ?es" using v sample_line_line by (auto simp: ways_ok_def addresses_def pa less_Suc_eq nth_Cons split: nat.split)
  then have g: "good_set 1 other_address full_cache ?es" using i by (simp add: good_set_def FindSet_def full_cache_def)
  then have "Present other_address full_cache = Some True"
    using v present_address [of other_address ?es] by (simp add: Present_def good_set_def addresses_def)
  then show ?thesis
    using write_drops_mru [OF g i(2), of "sample_line 3"] sample_line_line v pa by (auto simp: entry_for_def)
qed

end
