(* ===== verification/Global_Event_Queue.thy ===== *)
theory Global_Event_Queue
  imports Event_Queue
begin

text \<open>
  \<^verbatim>\<open>src/NVmain/src/EventQueue.cpp\<close>, the class \<^verbatim>\<open>GlobalEventQueue\<close>: the clock that joins the event queues of
  several memory systems. Frequencies are reals; a \<^verbatim>\<open>std::map\<close> from pointers to queues is the list of the queues
  in the order of their addresses. The handlers of queue \<open>i\<close> are \<open>hs i\<close>.
\<close>

section \<open>State\<close>

record GlobalEventQueue =
  g_currentCycle :: ncycle_t
  g_frequency :: real
  eventQueues :: "(EventQueue \<times> real) list"

type_synonym 's gsim = "GlobalEventQueue \<times> 's"

definition GlobalEventQueue_new :: "real \<Rightarrow> GlobalEventQueue" where
  "GlobalEventQueue_new g = \<lparr>g_currentCycle = 0, g_frequency = g, eventQueues = []\<rparr>"

definition Global_SetFrequency :: "real \<Rightarrow> GlobalEventQueue \<Rightarrow> GlobalEventQueue" where
  "Global_SetFrequency f g = g\<lparr>g_frequency := f\<rparr>"

text \<open>The address of the queue decides its position, \<open>pos\<close>.\<close>

definition AddSystem :: "nat \<Rightarrow> EventQueue \<Rightarrow> real \<Rightarrow> GlobalEventQueue \<Rightarrow> GlobalEventQueue option" where
  "AddSystem pos q clk g = do {
     let f = clk * 1000000;
     cpp_assert (f \<le> g_frequency g);
     Some (g\<lparr>eventQueues := take pos (eventQueues g) @ (q\<lparr>frequency := f\<rparr>, f) # drop pos (eventQueues g)\<rparr>)
   }"

section \<open>Operations\<close>

text \<open>\<^verbatim>\<open>static_cast<ncycle_t>\<close> of a number that does not fit is undefined.\<close>

definition to_cycle :: "real \<Rightarrow> ncycle_t option" where
  "to_cycle x = (if - 1 < x \<and> x < 2 ^ 64 then Some (word_of_int (max 0 \<lfloor>x\<rfloor>)) else None)"

text \<open>The earliest event in cycles of the global clock, and the first queue that has it.\<close>

fun next_global :: "real \<Rightarrow> nat \<Rightarrow> (EventQueue \<times> real) list \<Rightarrow> ncycle_t \<times> nat option \<Rightarrow> (ncycle_t \<times> nat option) option" where
  "next_global f i [] best = Some best"
| "next_global f i ((q, fq) # qs) best =
     (if nextEventCycle q = max_cycle then next_global f (Suc i) qs best
      else do {
        cpp_assert (fq \<noteq> 0);
        c \<leftarrow> to_cycle (real (unat (nextEventCycle q)) * (f / fq));
        next_global f (Suc i) qs (if c < fst best then (c, Some i) else best)
      })"

definition Global_GetNextEvent :: "GlobalEventQueue \<Rightarrow> (ncycle_t \<times> nat option) option" where
  "Global_GetNextEvent g = next_global (g_frequency g) 0 (eventQueues g) (max_cycle, None)"

fun sync_queues :: "(nat \<Rightarrow> 's handler) \<Rightarrow> real \<Rightarrow> ncycle_t \<Rightarrow> nat \<Rightarrow> (EventQueue \<times> real) list \<Rightarrow> 's \<Rightarrow> ((EventQueue \<times> real) list \<times> 's) option" where
  "sync_queues hs f now i [] s = Some ([], s)"
| "sync_queues hs f now i ((q, fq) # qs) s = do {
     cpp_assert (f \<noteq> 0);
     setCycle \<leftarrow> to_cycle (real (unat now) / (f / fq));
     (q, s) \<leftarrow> (if currentCycle q < setCycle then LoopSteps (hs i) (setCycle - currentCycle q) (q, s) else Some (q, s));
     (qs, s) \<leftarrow> sync_queues hs f now (Suc i) qs s;
     Some ((q, fq) # qs, s)
   }"

definition Global_Sync :: "(nat \<Rightarrow> 's handler) \<Rightarrow> 's gsim \<Rightarrow> 's gsim option" where
  "Global_Sync hs st = (case st of (g, s) \<Rightarrow> do {
     (qs, s) \<leftarrow> sync_queues hs (g_frequency g) (g_currentCycle g) 0 (eventQueues g) s;
     Some (g\<lparr>eventQueues := qs\<rparr>, s)
   })"

text \<open>One queue runs up to its next event.\<close>

definition run_next :: "(nat \<Rightarrow> 's handler) \<Rightarrow> nat option \<Rightarrow> 's gsim \<Rightarrow> 's gsim option" where
  "run_next hs eq st = (case st of (g, s) \<Rightarrow> do {
     i \<leftarrow> eq;
     let (q, fq) = eventQueues g ! i;
     (q, s) \<leftarrow> LoopSteps (hs i) (nextEventCycle q - currentCycle q) (q, s);
     Some (g\<lparr>eventQueues := (eventQueues g)[i := (q, fq)]\<rparr>, s)
   })"

partial_function (option) global_cycle :: "(nat \<Rightarrow> 's handler) \<Rightarrow> ncycle_t \<Rightarrow> ncycle_t \<Rightarrow> 's gsim \<Rightarrow> 's gsim option" where
  "global_cycle hs steps iterationSteps st =
     (if iterationSteps \<le> steps then do {
        (nextEvent, eq) \<leftarrow> Global_GetNextEvent (fst st);
        let now = g_currentCycle (fst st);
        let globalQueueSteps = (if now < nextEvent then nextEvent - now else 0);
        if steps - iterationSteps < globalQueueSteps
        then Global_Sync hs ((fst st)\<lparr>g_currentCycle := now + (steps - iterationSteps)\<rparr>, snd st)
        else do {
          st \<leftarrow> run_next hs eq st;
          st \<leftarrow> Global_Sync hs ((fst st)\<lparr>g_currentCycle := now + globalQueueSteps\<rparr>, snd st);
          global_cycle hs steps (iterationSteps + globalQueueSteps) st
        }
      }
      else Some st)"

definition Global_Cycle :: "(nat \<Rightarrow> 's handler) \<Rightarrow> ncycle_t \<Rightarrow> 's gsim \<Rightarrow> 's gsim option" where
  "Global_Cycle hs steps st = global_cycle hs steps 0 st"

section \<open>Queues of one frequency\<close>

lemma to_cycle_unat [simp]: "to_cycle (real (unat x)) = Some x"
proof -
  have "real (unat x) < real (2 ^ 64)" using unsigned_less [of x, where ?'a = nat] by (intro of_nat_less_iff [THEN iffD2]) simp
  then have "real (unat x) < 2 ^ 64" by (simp only: of_nat_power of_nat_numeral)
  moreover have "- 1 < real (unat x)" by (rule order_less_le_trans [of _ 0], simp, rule of_nat_0_le_iff)
  moreover have "word_of_int (max 0 (int (unat x))) = x" by simp
  ultimately show ?thesis unfolding to_cycle_def floor_of_nat by (simp only: if_True simp_thms)
qed

lemma to_cycle_unsigned [simp]: "to_cycle (unsigned x) = Some x"
  using to_cycle_unat [of x] by simp

lemma before_max: "c \<noteq> max_cycle \<Longrightarrow> unat c < 2 ^ 64 - 1"
  using word_order.not_eq_extremum [of c] by (simp add: word_less_nat_alt unsigned_minus_1_eq_mask mask_eq_exp_minus_1)

text \<open>A queue that is not ahead of cycle \<open>t\<close> nor of its next event, among queues of frequency \<open>f\<close>.\<close>

definition behind_clock :: "real \<Rightarrow> ncycle_t \<Rightarrow> EventQueue \<times> real \<Rightarrow> bool" where
  "behind_clock f t x \<longleftrightarrow> snd x = f \<and> evq_ok (fst x) \<and> currentCycle (fst x) \<le> nextEventCycle (fst x) \<and> currentCycle (fst x) \<le> t"

lemma LoopSteps_quiet:
  assumes "currentCycle q \<le> c" "c < nextEventCycle q"
  shows "LoopSteps h (c - currentCycle q) (q, s) = Some (q\<lparr>currentCycle := c\<rparr>, s)"
  using assms by (auto simp: LoopSteps_def loop_steps.simps [of h "c - currentCycle q"])

lemma step_to:
  assumes "timely I R h" "behind_clock f t (q, f)" "I s" "currentCycle q \<le> c" "c \<noteq> max_cycle"
  shows "\<exists>q' s'. LoopSteps h (c - currentCycle q) (q, s) = Some (q', s') \<and> I s' \<and> evq_ok q' \<and> currentCycle q' = c
    \<and> c < nextEventCycle q' \<and> nextEventCycle q \<le> nextEventCycle q'"
proof -
  have "unat (currentCycle q) + unat (c - currentCycle q) < 2 ^ 64 - 1"
    using assms(4) before_max [OF assms(5)] by (simp add: unat_sub word_le_nat_alt)
  then obtain q' s' where q': "LoopSteps h (c - currentCycle q) (q, s) = Some (q', s')" "I s'" "evq_ok q'" "currentCycle q' = c" "c < nextEventCycle q'"
    using LoopSteps_returns [OF assms(1) _ assms(3), of q "c - currentCycle q"] assms(2) by (auto simp: behind_clock_def)
  moreover have "nextEventCycle q \<le> nextEventCycle q'"
  proof (cases "c < nextEventCycle q")
    case True
    then show ?thesis using LoopSteps_quiet [OF assms(4) True, of h s] q'(1) by auto
  next
    case False
    then show ?thesis using q'(5) by (meson linorder_not_less order_le_less_trans order_less_imp_le)
  qed
  ultimately show ?thesis by blast
qed

text \<open>A queue that has been brought to cycle \<open>t\<close>.\<close>

definition synced :: "real \<Rightarrow> ncycle_t \<Rightarrow> EventQueue \<times> real \<Rightarrow> EventQueue \<times> real \<Rightarrow> bool" where
  "synced f t x y \<longleftrightarrow> behind_clock f t y \<and> currentCycle (fst y) = t \<and> nextEventCycle (fst x) \<le> nextEventCycle (fst y)"

lemma sync_returns:
  assumes "\<And>i. timely I R (hs i)" "f \<noteq> 0" "t \<noteq> max_cycle"
  shows "\<forall>x \<in> set qs. behind_clock f t x \<Longrightarrow> I s \<Longrightarrow> \<exists>qs' s'. sync_queues hs f t i qs s = Some (qs', s') \<and> I s' \<and> list_all2 (synced f t) qs qs'"
proof (induction qs arbitrary: i s)
  case (Cons x qs)
  obtain q where x: "x = (q, f)" using Cons.prems(1) by (cases x) (simp add: behind_clock_def)
  have b: "behind_clock f t (q, f)" using Cons.prems(1) x by simp
  have "\<exists>q' s'. (if currentCycle q < t then LoopSteps (hs i) (t - currentCycle q) (q, s) else Some (q, s)) = Some (q', s') \<and> I s' \<and> synced f t (q, f) (q', f)"
  proof (cases "currentCycle q < t")
    case True
    then show ?thesis using step_to [OF assms(1) b Cons.prems(2) _ assms(3)] by (fastforce simp: synced_def behind_clock_def)
  next
    case False
    then show ?thesis using b Cons.prems(2) by (auto simp: synced_def behind_clock_def)
  qed
  then obtain q' s' where "(if currentCycle q < t then LoopSteps (hs i) (t - currentCycle q) (q, s) else Some (q, s)) = Some (q', s')" "I s'" "synced f t (q, f) (q', f)"
    by blast
  moreover obtain qs' s'' where "sync_queues hs f t (Suc i) qs s' = Some (qs', s'')" "I s''" "list_all2 (synced f t) qs qs'"
    using Cons.IH [of s' "Suc i"] Cons.prems(1) calculation(2) by auto
  ultimately show ?case using assms(2) by (auto simp: x cpp_assert_def)
qed simp

lemma next_global_min:
  assumes "f \<noteq> 0" "\<forall>x \<in> set qs. snd x = f"
  shows "\<exists>m eq'. next_global f i qs (n, eq) = Some (m, eq') \<and> m \<le> n \<and> (\<forall>x \<in> set qs. m \<le> nextEventCycle (fst x))
    \<and> ((m, eq') = (n, eq) \<or> (\<exists>j < length qs. eq' = Some (i + j) \<and> m = nextEventCycle (fst (qs ! j))))"
  using assms(2)
proof (induction qs arbitrary: i n eq)
  case (Cons x qs)
  obtain q where x: "x = (q, f)" using Cons.prems by (cases x) simp
  let ?k = "nextEventCycle q"
  define n' eq1 where "n' = (if ?k \<noteq> max_cycle \<and> ?k < n then ?k else n)" and "eq1 = (if ?k \<noteq> max_cycle \<and> ?k < n then Some i else eq)"
  have "next_global f i (x # qs) (n, eq) = next_global f (Suc i) qs (n', eq1)"
    using assms(1) by (simp add: x n'_def eq1_def cpp_assert_def)
  moreover obtain m eq' where m: "next_global f (Suc i) qs (n', eq1) = Some (m, eq')" "m \<le> n'" "\<forall>x \<in> set qs. m \<le> nextEventCycle (fst x)"
    "(m, eq') = (n', eq1) \<or> (\<exists>j < length qs. eq' = Some (Suc i + j) \<and> m = nextEventCycle (fst (qs ! j)))"
    using Cons.IH [of "Suc i" n' eq1] Cons.prems by auto
  moreover have "n' \<le> n" "n' \<le> ?k" by (auto simp: n'_def word_order.extremum)
  moreover have "(m, eq') = (n, eq) \<or> (\<exists>j < length (x # qs). eq' = Some (i + j) \<and> m = nextEventCycle (fst ((x # qs) ! j)))"
    using m(4)
  proof
    assume "(m, eq') = (n', eq1)"
    then show ?thesis by (auto simp: n'_def eq1_def x intro!: exI [of _ 0] split: if_splits)
  next
    assume "\<exists>j < length qs. eq' = Some (Suc i + j) \<and> m = nextEventCycle (fst (qs ! j))"
    then obtain j where "j < length qs" "eq' = Some (i + Suc j)" "m = nextEventCycle (fst (qs ! j))" by auto
    then show ?thesis by (intro disjI2 exI [of _ "Suc j"]) simp
  qed
  ultimately show ?case by (auto simp: x)
qed auto

section \<open>Termination\<close>

definition distance :: "(EventQueue \<times> real) list \<Rightarrow> nat" where
  "distance qs = sum_list (map (\<lambda>x. 2 ^ 64 - unat (nextEventCycle (fst x))) qs)"

lemma distance_synced: "list_all2 (synced f t) xs ys \<Longrightarrow> distance ys \<le> distance xs"
  by (induction rule: list_all2_induct) (auto simp: distance_def synced_def word_le_nat_alt intro!: add_mono)

lemma distance_update:
  assumes "j < length qs" "nextEventCycle (fst (qs ! j)) < nextEventCycle (fst y)"
  shows "distance (qs[j := y]) < distance qs"
proof -
  let ?F = "\<lambda>x :: EventQueue \<times> real. 2 ^ 64 - unat (nextEventCycle (fst x))"
  have "?F y < ?F (qs ! j)" using assms(2) unsigned_less [of "nextEventCycle (fst (qs ! j))", where ?'a = nat] by (simp add: word_less_nat_alt)
  moreover have "?F (qs ! j) \<le> sum_list (map ?F qs)" using assms(1) by (intro member_le_sum_list) auto
  ultimately show ?thesis using assms(1) by (simp add: distance_def map_update sum_list_update)
qed

lemma global_cycle_returns:
  assumes "\<And>i. timely I R (hs i)" "f \<noteq> 0"
  shows "\<forall>x \<in> set (eventQueues g). behind_clock f (g_currentCycle g) x \<Longrightarrow> g_frequency g = f \<Longrightarrow> I s \<Longrightarrow> it \<le> steps
    \<Longrightarrow> unat (g_currentCycle g) + unat (steps - it) < 2 ^ 64 - 1
    \<Longrightarrow> \<exists>g' s'. global_cycle hs steps it (g, s) = Some (g', s') \<and> I s' \<and> g_currentCycle g' = g_currentCycle g + (steps - it)
      \<and> (\<forall>x \<in> set (eventQueues g'). evq_ok (fst x) \<and> currentCycle (fst x) = g_currentCycle g' \<and> g_currentCycle g' < nextEventCycle (fst x))"
proof (induction "distance (eventQueues g)" arbitrary: g s it rule: less_induct)
  case less
  let ?now = "g_currentCycle g" let ?left = "steps - it" let ?T = "?now + ?left" let ?qs = "eventQueues g"
  have T: "unat ?T = unat ?now + unat ?left" using less.prems(5) by (simp add: unat_word_ariths)
  have lt_max: "c \<noteq> max_cycle" if "c \<le> ?T" for c using that less.prems(5) T by (auto simp: word_le_nat_alt unsigned_minus_1_eq_mask mask_eq_exp_minus_1)
  obtain m eq where m: "Global_GetNextEvent g = Some (m, eq)" "\<forall>x \<in> set ?qs. m \<le> nextEventCycle (fst x)"
    "(m, eq) = (max_cycle, None) \<or> (\<exists>j < length ?qs. eq = Some j \<and> m = nextEventCycle (fst (?qs ! j)))"
    using next_global_min [OF assms(2), of ?qs 0 max_cycle None] less.prems(1,2) by (auto simp: Global_GetNextEvent_def behind_clock_def)
  define gs where "gs = (if ?now < m then m - ?now else 0)"
  have gs: "?left < gs \<longleftrightarrow> ?T < m"
    using T by (auto simp: gs_def word_less_nat_alt unat_sub word_le_nat_alt)
  show ?case
  proof (cases "?left < gs")
    case True
    have "\<forall>x \<in> set ?qs. behind_clock f ?T x" using less.prems(1) T by (auto simp: behind_clock_def word_le_nat_alt)
    from sync_returns [of I R hs, OF assms lt_max [OF order_refl] this less.prems(3), of 0] obtain qs' s' where
      y: "sync_queues hs f ?T 0 ?qs s = Some (qs', s')" "I s'" "list_all2 (synced f ?T) ?qs qs'" by blast
    have "\<forall>y \<in> set qs'. evq_ok (fst y) \<and> currentCycle (fst y) = ?T \<and> ?T < nextEventCycle (fst y)"
    proof
      fix y assume "y \<in> set qs'"
      then obtain x where "x \<in> set ?qs" "synced f ?T x y" using y(3) by (metis in_set_conv_nth list_all2_conv_all_nth)
      then show "evq_ok (fst y) \<and> currentCycle (fst y) = ?T \<and> ?T < nextEventCycle (fst y)"
        using m(2) True gs by (auto simp: synced_def behind_clock_def)
    qed
    then show ?thesis
      using y(1,2) m(1) True less.prems(2,4) by (subst global_cycle.simps) (simp add: Global_Sync_def gs_def [symmetric])
  next
    case False
    then have mT: "m \<le> ?T" using gs by simp
    then obtain j where j: "j < length ?qs" "eq = Some j" "m = nextEventCycle (fst (?qs ! j))" using m(3) lt_max by auto
    obtain q where q: "?qs ! j = (q, f)" "behind_clock f ?now (q, f)" using less.prems(1) j(1) by (metis behind_clock_def nth_mem prod.collapse)
    have mq: "m = nextEventCycle q" using j(3) q(1) by simp
    obtain q' s1 where q': "LoopSteps (hs j) (m - currentCycle q) (q, s) = Some (q', s1)" "I s1" "evq_ok q'" "currentCycle q' = m" "m < nextEventCycle q'"
      using step_to [of I R "hs j", OF assms(1) q(2) less.prems(3) _ lt_max [OF mT]] q(2) mq by (auto simp: behind_clock_def)
    let ?t = "?now + gs" let ?qs1 = "?qs[j := (q', f)]"
    have t: "?now \<le> ?t" "m \<le> ?t" "?t \<le> ?T" using False mT T by (auto simp: gs_def word_le_nat_alt word_less_nat_alt unat_sub split: if_splits)
    have "\<forall>x \<in> set ?qs1. behind_clock f ?t x"
    proof
      fix x assume "x \<in> set ?qs1"
      then have "x = (q', f) \<or> x \<in> set ?qs" by (meson insertE set_update_subset_insert subsetD)
      then show "behind_clock f ?t x" using q'(3-5) less.prems(1) t by (auto simp: behind_clock_def)
    qed
    from sync_returns [of I R hs, OF assms lt_max [OF t(3)] this q'(2), of 0] obtain qs2 s2 where
      y: "sync_queues hs f ?t 0 ?qs1 s1 = Some (qs2, s2)" "I s2" "list_all2 (synced f ?t) ?qs1 qs2" by blast
    let ?g = "g\<lparr>g_currentCycle := ?t, eventQueues := qs2\<rparr>"
    have dec: "distance (eventQueues ?g) < distance ?qs"
      using distance_synced [OF y(3)] distance_update [OF j(1), of "(q', f)"] q'(5) j(3) by simp
    have "\<forall>x \<in> set qs2. behind_clock f ?t x" using y(3) by (metis in_set_conv_nth list_all2_conv_all_nth synced_def)
    moreover have it: "it + gs \<le> steps" "?t + (steps - (it + gs)) = ?T" "unat ?t + unat (steps - (it + gs)) < 2 ^ 64 - 1"
    proof -
      have "gs \<le> steps - it" using False by simp
      then have u: "unat gs \<le> unat steps - unat it" using less.prems(4) by (simp add: word_le_nat_alt unat_sub)
      have left: "unat ?left = unat steps - unat it" using less.prems(4) by (simp add: unat_sub word_le_nat_alt)
      have i: "unat it \<le> unat steps" using less.prems(4) by (simp add: word_le_nat_alt)
      then have ig: "unat (it + gs) = unat it + unat gs" using u unsigned_less [of steps, where ?'a = nat] by (intro unat_add_lem [THEN iffD1]) simp
      then show le: "it + gs \<le> steps" using u i by (simp add: word_le_nat_alt)
      show "?t + (steps - (it + gs)) = ?T" by simp
      have "unat ?t = unat ?now + unat gs" using u left less.prems(5) by (intro unat_add_lem [THEN iffD1]) simp
      then have "unat ?t + unat (steps - (it + gs)) = unat ?T" using T left u i ig le by (simp add: unat_sub word_le_nat_alt)
      then show "unat ?t + unat (steps - (it + gs)) < 2 ^ 64 - 1" using T less.prems(5) by simp
    qed
    ultimately obtain g' s' where r: "global_cycle hs steps (it + gs) (?g, s2) = Some (g', s')" "I s'" "g_currentCycle g' = ?t + (steps - (it + gs))"
      "\<forall>x \<in> set (eventQueues g'). evq_ok (fst x) \<and> currentCycle (fst x) = g_currentCycle g' \<and> g_currentCycle g' < nextEventCycle (fst x)"
      using less.hyps [OF dec, of s2 "it + gs"] less.prems(2) y(2) by auto
    have "run_next hs eq (g, s) = Some (g\<lparr>eventQueues := ?qs1\<rparr>, s1)" using j(2) q(1) q'(1) mq by (simp add: run_next_def)
    then have "global_cycle hs steps it (g, s) = global_cycle hs steps (it + gs) (?g, s2)"
      using m(1) False less.prems(2,4) y(1) by (subst global_cycle.simps) (simp add: Global_Sync_def gs_def [symmetric])
    then show ?thesis using r it(2) by simp
  qed
qed

section \<open>Properties\<close>



end
