(* ===== verification/Lru_Policy.thy ===== *)
theory Lru_Policy
  imports NVM_Prelude
begin

text \<open>
  \<^verbatim>\<open>src/NVmain/NVM/nvmain.h\<close>, the class \<^verbatim>\<open>NVMain::LRU\<close>: the replacement policy of the tag cache. It keeps a map from
  the lines of the main memory to the lines of the DRAM that hold them, and the keys of the map in the order of
  their last use.
\<close>

section \<open>State and operations\<close>

record LRU =
  lru_size :: int
  lru_m :: "u64 \<rightharpoonup> u64"
  lru_dq :: "u64 list"

text \<open>The capacity is stored in an \<^verbatim>\<open>int\<close>.\<close>

definition LRU_new :: "u64 \<Rightarrow> LRU" where
  "LRU_new capacity = \<lparr>lru_size = sint (ucast capacity :: 32 word), lru_m = Map.empty, lru_dq = []\<rparr>"

definition LRU_has :: "u64 \<Rightarrow> LRU \<Rightarrow> bool" where
  "LRU_has key l \<longleftrightarrow> lru_m l key \<noteq> None"

text \<open>The iterator runs until it finds the key; it runs past the end when the key is missing.\<close>

definition erase_key :: "u64 \<Rightarrow> u64 list \<Rightarrow> u64 list option" where
  "erase_key key dq = (if key \<in> set dq then Some (remove1 key dq) else None)"

definition LRU_get :: "u64 \<Rightarrow> LRU \<Rightarrow> (u64 \<times> bool \<times> LRU) option" where
  "LRU_get key l =
     (case lru_m l key of
        None \<Rightarrow> Some (0, False, l)
      | Some v \<Rightarrow> do { dq \<leftarrow> erase_key key (lru_dq l); Some (v, True, l\<lparr>lru_dq := key # dq\<rparr>) })"

text \<open>The comparison of an \<^verbatim>\<open>int\<close> with a \<^verbatim>\<open>size_t\<close> is one of 64-bit numbers.\<close>

definition LRU_isFull :: "LRU \<Rightarrow> bool" where
  "LRU_isFull l \<longleftrightarrow> (word_of_int (lru_size l) :: u64) = word_of_nat (length (lru_dq l))"

definition drop_last :: "LRU \<Rightarrow> LRU option" where
  "drop_last l = do {
     cpp_assert (lru_dq l \<noteq> []);
     Some (l\<lparr>lru_dq := butlast (lru_dq l), lru_m := (lru_m l)(last (lru_dq l) := None)\<rparr>)
   }"

definition LRU_put :: "u64 \<Rightarrow> u64 \<Rightarrow> LRU \<Rightarrow> LRU option" where
  "LRU_put key v l = do {
     l \<leftarrow> (case lru_m l key of
         None \<Rightarrow> if LRU_isFull l then drop_last l else Some l
       | Some _ \<Rightarrow> do { dq \<leftarrow> erase_key key (lru_dq l); Some (l\<lparr>lru_dq := dq, lru_m := (lru_m l)(key := None)\<rparr>) });
     Some (l\<lparr>lru_dq := key # lru_dq l, lru_m := (lru_m l)(key \<mapsto> v)\<rparr>)
   }"

text \<open>The value freed is zero when the key has none.\<close>

definition LRU_removeLRU :: "LRU \<Rightarrow> (u64 \<times> LRU) option" where
  "LRU_removeLRU l = do {
     cpp_assert (lru_dq l \<noteq> []);
     let freed = (case lru_m l (last (lru_dq l)) of None \<Rightarrow> 0 | Some v \<Rightarrow> v);
     l \<leftarrow> drop_last l;
     Some (freed, l)
   }"

section \<open>Invariant\<close>

definition lru_ok :: "LRU \<Rightarrow> bool" where
  "lru_ok l \<longleftrightarrow> distinct (lru_dq l) \<and> set (lru_dq l) = dom (lru_m l) \<and> int (length (lru_dq l)) \<le> lru_size l \<and> lru_size l < 2 ^ 31"

lemma lru_ok_new: "0 \<le> sint (ucast c :: 32 word) \<Longrightarrow> lru_ok (LRU_new c)"
  using sint_lt [of "ucast c :: 32 word"] by (simp add: lru_ok_def LRU_new_def)

lemma isFull_iff:
  assumes "lru_ok l"
  shows "LRU_isFull l \<longleftrightarrow> int (length (lru_dq l)) = lru_size l"
proof -
  have b: "int (length (lru_dq l)) < 2 ^ 64" "0 \<le> lru_size l" "lru_size l < 2 ^ 64" using assms by (simp_all add: lru_ok_def)
  have e: "(word_of_nat (length (lru_dq l)) :: u64) = word_of_int (int (length (lru_dq l)))" by simp
  have "LRU_isFull l \<longleftrightarrow> take_bit 64 (lru_size l) = take_bit 64 (int (length (lru_dq l)))"
    unfolding LRU_isFull_def e word_of_int_eq_iff by simp
  then show ?thesis using b by (auto simp: take_bit_int_eq_self)
qed

section \<open>Recency lists\<close>

text \<open>The contract of a replacement policy, as a list of pairs, the last used first.\<close>

definition recent_get :: "'k \<Rightarrow> ('k \<times> 'v) list \<Rightarrow> ('k \<times> 'v) list" where
  "recent_get k es = (case map_of es k of None \<Rightarrow> es | Some v \<Rightarrow> (k, v) # filter (\<lambda>e. fst e \<noteq> k) es)"

definition recent_put :: "nat \<Rightarrow> 'k \<Rightarrow> 'v \<Rightarrow> ('k \<times> 'v) list \<Rightarrow> ('k \<times> 'v) list" where
  "recent_put n k v es = (k, v) # (if k \<in> fst ` set es then filter (\<lambda>e. fst e \<noteq> k) es else if length es = n then butlast es else es)"

locale replacement_policy =
  fixes ok :: "'l \<Rightarrow> bool" and entries :: "'l \<Rightarrow> ('k \<times> 'v) list" and capacity :: "'l \<Rightarrow> nat"
    and get :: "'k \<Rightarrow> 'l \<Rightarrow> ('v option \<times> 'l) option" and put :: "'k \<Rightarrow> 'v \<Rightarrow> 'l \<Rightarrow> 'l option" and remove :: "'l \<Rightarrow> ('v \<times> 'l) option"
  assumes ok_entries: "ok l \<Longrightarrow> distinct (map fst (entries l)) \<and> length (entries l) \<le> capacity l"
    and get_law: "ok l \<Longrightarrow> \<exists>l'. get k l = Some (map_of (entries l) k, l') \<and> ok l' \<and> capacity l' = capacity l \<and> entries l' = recent_get k (entries l)"
    and put_law: "ok l \<Longrightarrow> 0 < capacity l \<Longrightarrow> \<exists>l'. put k v l = Some l' \<and> ok l' \<and> capacity l' = capacity l \<and> entries l' = recent_put (capacity l) k v (entries l)"
    and remove_law: "ok l \<Longrightarrow> entries l \<noteq> [] \<Longrightarrow> \<exists>l'. remove l = Some (snd (last (entries l)), l') \<and> ok l' \<and> capacity l' = capacity l \<and> entries l' = butlast (entries l)"
begin

text \<open>A line that has just been used is not the one that is removed next, unless it is the only one.\<close>

lemma used_stays:
  assumes "ok l" "map_of (entries l) k = Some v" "2 \<le> length (entries l)"
  shows "\<exists>l1 x l2. get k l = Some (Some v, l1) \<and> remove l1 = Some (x, l2) \<and> map_of (entries l2) k = Some v"
proof -
  obtain l1 where l1: "get k l = Some (Some v, l1)" "ok l1" "entries l1 = recent_get k (entries l)" using get_law [OF assms(1), of k] assms(2) by auto
  let ?rest = "filter (\<lambda>e. fst e \<noteq> k) (entries l)"
  have e: "entries l1 = (k, v) # ?rest" using l1(3) assms(2) by (simp add: recent_get_def)
  have "?rest \<noteq> []"
  proof
    assume "?rest = []"
    then have "set (map fst (entries l)) \<subseteq> {k}" by (auto simp: filter_empty_conv)
    moreover have "card (set (map fst (entries l))) = length (entries l)" using ok_entries [OF assms(1)] by (metis distinct_card length_map)
    ultimately show False using assms(3) card_mono [of "{k}" "set (map fst (entries l))"] by simp
  qed
  then have "butlast (entries l1) = (k, v) # butlast ?rest" using e by simp
  moreover obtain x l2 where "remove l1 = Some (x, l2)" "entries l2 = butlast (entries l1)" using remove_law [OF l1(2)] e by auto
  ultimately show ?thesis using l1(1) by auto
qed

end

section \<open>The policy meets the contract\<close>

definition lru_entries :: "LRU \<Rightarrow> (u64 \<times> u64) list" where
  "lru_entries l = map (\<lambda>k. (k, the (lru_m l k))) (lru_dq l)"

definition lru_lookup :: "u64 \<Rightarrow> LRU \<Rightarrow> (u64 option \<times> LRU) option" where
  "lru_lookup k l = do { (v, found, l) \<leftarrow> LRU_get k l; Some (if found then Some v else None, l) }"

lemma lru_entries_map: "lru_ok l \<Longrightarrow> map_of (lru_entries l) k = lru_m l k"
proof -
  assume "lru_ok l"
  then have "k \<in> set (lru_dq l) \<longleftrightarrow> lru_m l k \<noteq> None" by (auto simp: lru_ok_def)
  moreover have "map_of (map (\<lambda>k. (k, f k)) ks) k = (if k \<in> set ks then Some (f k) else None)" for f :: "u64 \<Rightarrow> u64" and ks
    by (induction ks) auto
  ultimately show ?thesis by (auto simp: lru_entries_def)
qed

lemma lru_entries_fst [simp]: "map fst (lru_entries l) = lru_dq l" "length (lru_entries l) = length (lru_dq l)" "fst ` set (lru_entries l) = set (lru_dq l)"
  by (simp_all add: lru_entries_def comp_def image_image)

lemma filter_remove1: "distinct xs \<Longrightarrow> filter (\<lambda>x. x \<noteq> k) xs = remove1 k xs"
  by (simp add: distinct_remove1_removeAll removeAll_filter_not_eq eq_commute)

lemma last_notin_butlast: "distinct xs \<Longrightarrow> xs \<noteq> [] \<Longrightarrow> set (butlast xs) = set xs - {last xs}"
  by (metis append_butlast_last_id Diff_insert_absorb distinct.simps(2) distinct1_rotate rotate1.simps(2) list.simps(15) set_rotate1)

lemma get_effect:
  assumes "lru_ok l"
  shows "\<exists>l'. lru_lookup k l = Some (map_of (lru_entries l) k, l') \<and> lru_ok l' \<and> lru_size l' = lru_size l \<and> lru_m l' = lru_m l
    \<and> lru_entries l' = recent_get k (lru_entries l)"
proof (cases "lru_m l k")
  case None
  then show ?thesis using assms by (auto simp: lru_lookup_def LRU_get_def lru_entries_map recent_get_def)
next
  case (Some v)
  then have k: "k \<in> set (lru_dq l)" using assms by (auto simp: lru_ok_def)
  let ?l = "l\<lparr>lru_dq := k # remove1 k (lru_dq l)\<rparr>"
  have len: "0 < length (lru_dq l)" using k by (rule length_pos_if_in_set)
  have "lru_lookup k l = Some (Some v, ?l)" using Some k by (simp add: lru_lookup_def LRU_get_def erase_key_def)
  moreover have "lru_ok ?l" using assms k len by (auto simp: lru_ok_def length_remove1)
  moreover have "lru_entries ?l = recent_get k (lru_entries l)"
    using assms Some by (simp add: recent_get_def lru_entries_map, simp add: lru_entries_def filter_map comp_def filter_remove1 lru_ok_def)
  ultimately show ?thesis using Some assms by (simp add: lru_entries_map)
qed

lemma drop_last_effect:
  assumes "lru_ok l" "lru_dq l \<noteq> []"
  shows "\<exists>l'. drop_last l = Some l' \<and> lru_ok l' \<and> lru_size l' = lru_size l \<and> lru_m l' = (lru_m l)(last (lru_dq l) := None)
    \<and> lru_dq l' = butlast (lru_dq l) \<and> lru_entries l' = butlast (lru_entries l)"
proof -
  let ?k = "last (lru_dq l)" let ?l = "l\<lparr>lru_dq := butlast (lru_dq l), lru_m := (lru_m l)(?k := None)\<rparr>"
  have s: "set (butlast (lru_dq l)) = set (lru_dq l) - {?k}" using last_notin_butlast [OF _ assms(2)] assms(1) unfolding lru_ok_def by blast
  then have "lru_ok ?l" using assms by (auto simp: lru_ok_def distinct_butlast)
  moreover have "lru_entries ?l = butlast (lru_entries l)" using s by (auto simp: lru_entries_def map_butlast [symmetric])
  ultimately show ?thesis using assms(2) by (simp add: drop_last_def cpp_assert_def)
qed

lemma put_effect:
  assumes "lru_ok l" "0 < lru_size l"
  shows "\<exists>l'. LRU_put k v l = Some l' \<and> lru_ok l' \<and> lru_size l' = lru_size l \<and> lru_m l' k = Some v
    \<and> dom (lru_m l') \<subseteq> insert k (dom (lru_m l)) \<and> (\<forall>x. x \<noteq> k \<and> lru_m l' x \<noteq> None \<longrightarrow> lru_m l' x = lru_m l x)
    \<and> lru_entries l' = recent_put (nat (lru_size l)) k v (lru_entries l)"
proof -
  have d: "distinct (lru_dq l)" "set (lru_dq l) = dom (lru_m l)" using assms(1) by (simp_all add: lru_ok_def)
  have same: "map (\<lambda>x. (x, the ((m(k \<mapsto> v)) x))) xs = map (\<lambda>x. (x, the (m x))) xs" if "k \<notin> set xs" for xs and m :: "u64 \<rightharpoonup> u64"
    using that by (induction xs) auto
  show ?thesis
  proof (cases "lru_m l k")
    case (Some w)
    then have k: "k \<in> set (lru_dq l)" using d by auto
    then have len: "0 < length (lru_dq l)" by (rule length_pos_if_in_set)
    let ?l = "l\<lparr>lru_dq := k # remove1 k (lru_dq l), lru_m := (lru_m l)(k \<mapsto> v)\<rparr>"
    have "LRU_put k v l = Some ?l" using Some k by (simp add: LRU_put_def erase_key_def)
    moreover have "lru_ok ?l" using assms k d len by (auto simp: lru_ok_def length_remove1)
    moreover have "lru_entries ?l = recent_put (nat (lru_size l)) k v (lru_entries l)"
      using k d(1) same [of "remove1 k (lru_dq l)"] by (simp add: recent_put_def, simp add: lru_entries_def filter_map comp_def filter_remove1)
    ultimately show ?thesis by (intro exI [of _ ?l]) auto
  next
    case None
    then have k: "k \<notin> set (lru_dq l)" using d by auto
    obtain l1 where l1: "(if LRU_isFull l then drop_last l else Some l) = Some l1" "lru_ok l1" "lru_size l1 = lru_size l" "lru_m l1 \<subseteq>\<^sub>m lru_m l"
      "lru_entries l1 = (if length (lru_entries l) = nat (lru_size l) then butlast (lru_entries l) else lru_entries l)"
      "int (length (lru_dq l1)) < lru_size l"
    proof (cases "LRU_isFull l")
      case True
      then have f: "int (length (lru_dq l)) = lru_size l" "lru_dq l \<noteq> []" using isFull_iff [OF assms(1)] assms(2) by auto
      then have "length (lru_dq l) = nat (lru_size l)" by linarith
      then show thesis using drop_last_effect [OF assms(1) f(2)] that True assms(2) f by (auto simp: map_le_def)
    next
      case False
      then have n: "int (length (lru_dq l)) < lru_size l" using isFull_iff [OF assms(1)] assms(1) by (simp add: lru_ok_def)
      then have "length (lru_dq l) \<noteq> nat (lru_size l)" by linarith
      then show thesis using that [of l] assms(1) False n by simp
    qed
    let ?l = "l1\<lparr>lru_dq := k # lru_dq l1, lru_m := (lru_m l1)(k \<mapsto> v)\<rparr>"
    have k1: "k \<notin> set (lru_dq l1)" using None l1(2,4) by (auto simp: lru_ok_def map_le_def dom_def)
    have "LRU_put k v l = Some ?l" using None l1(1) by (simp add: LRU_put_def)
    moreover have "lru_ok ?l" using l1(2,3,6) k1 by (auto simp: lru_ok_def)
    moreover have "lru_entries ?l = recent_put (nat (lru_size l)) k v (lru_entries l)"
      using k l1(5) same [OF k1, of "lru_m l1"] by (auto simp: recent_put_def lru_entries_def)
    ultimately show ?thesis using l1(3,4) by (intro exI [of _ ?l]) (auto simp: map_le_def dom_def)
  qed
qed

lemma remove_effect:
  assumes "lru_ok l" "lru_dq l \<noteq> []"
  shows "\<exists>l'. LRU_removeLRU l = Some (snd (last (lru_entries l)), l') \<and> lru_ok l' \<and> lru_size l' = lru_size l
    \<and> lru_m l' = (lru_m l)(last (lru_dq l) := None) \<and> lru_m l (last (lru_dq l)) = Some (snd (last (lru_entries l)))
    \<and> lru_entries l' = butlast (lru_entries l) \<and> length (lru_dq l') < length (lru_dq l)"
proof -
  have "last (lru_dq l) \<in> dom (lru_m l)" using assms by (metis last_in_set lru_ok_def)
  then obtain v where "lru_m l (last (lru_dq l)) = Some v" by auto
  then show ?thesis
    using drop_last_effect [OF assms] assms(2) by (auto simp: LRU_removeLRU_def cpp_assert_def lru_entries_def last_map)
qed

interpretation lru: replacement_policy lru_ok lru_entries "\<lambda>l. nat (lru_size l)" lru_lookup LRU_put LRU_removeLRU
proof (unfold_locales, goal_cases)
  case (1 l)
  then show ?case by (auto simp: lru_ok_def)
next
  case (2 l k)
  then show ?case using get_effect [of l k] by auto
next
  case (3 l k v)
  then show ?case using put_effect [of l k v] by auto
next
  case (4 l)
  then show ?case using remove_effect [of l] by (auto simp: lru_entries_def)
qed

section \<open>Properties\<close>

text \<open>C12 (lru_policy_refines). The policy of the tag cache is least-recently-used replacement: on well-formed states
  its operations succeed and act on the list of the pairs in order of last use. A lookup moves its pair to
  the front; an insertion puts its pair in front and, if the key is new and the policy full, drops the last pair; the
  removal takes the last pair and returns its line. There are never more pairs than the capacity.\<close>

theorem lru_policy_refines:
  assumes "lru_ok l" "0 < lru_size l"
  shows "distinct (map fst (lru_entries l)) \<and> length (lru_entries l) \<le> nat (lru_size l)
    \<and> (\<exists>l'. lru_lookup k l = Some (map_of (lru_entries l) k, l') \<and> lru_ok l' \<and> lru_size l' = lru_size l \<and> lru_entries l' = recent_get k (lru_entries l))
    \<and> (\<exists>l'. LRU_put k v l = Some l' \<and> lru_ok l' \<and> lru_size l' = lru_size l \<and> lru_entries l' = recent_put (nat (lru_size l)) k v (lru_entries l))
    \<and> (lru_entries l \<noteq> [] \<longrightarrow> (\<exists>l'. LRU_removeLRU l = Some (snd (last (lru_entries l)), l') \<and> lru_ok l' \<and> lru_entries l' = butlast (lru_entries l)))"
proof (intro conjI impI)
  show "distinct (map fst (lru_entries l))" "length (lru_entries l) \<le> nat (lru_size l)" using lru.ok_entries [OF assms(1)] by simp_all
  show "\<exists>l'. lru_lookup k l = Some (map_of (lru_entries l) k, l') \<and> lru_ok l' \<and> lru_size l' = lru_size l \<and> lru_entries l' = recent_get k (lru_entries l)"
    using get_effect [OF assms(1), of k] by blast
  show "\<exists>l'. LRU_put k v l = Some l' \<and> lru_ok l' \<and> lru_size l' = lru_size l \<and> lru_entries l' = recent_put (nat (lru_size l)) k v (lru_entries l)"
    using put_effect [OF assms, of k v] by blast
  show "\<exists>l'. LRU_removeLRU l = Some (snd (last (lru_entries l)), l') \<and> lru_ok l' \<and> lru_entries l' = butlast (lru_entries l)"
    if "lru_entries l \<noteq> []"
    using lru.remove_law [OF assms(1) that] by blast
qed

theorem lru_policy_refines_witness:
  "\<exists>l1 l2. LRU_put 5 50 (LRU_new 1) = Some l1 \<and> LRU_put 6 60 l1 = Some l2 \<and> lru_entries l2 = [(6, 60)]"
proof -
  have s: "lru_size (LRU_new 1) = 1" by (simp add: LRU_new_def)
  have ok: "lru_ok (LRU_new 1)" by (rule lru_ok_new) simp
  have e: "lru_entries (LRU_new 1) = []" by (simp add: lru_entries_def LRU_new_def)
  from lru_policy_refines [OF ok, of 5 50] s e obtain l1 where
    1: "LRU_put 5 50 (LRU_new 1) = Some l1" "lru_ok l1" "lru_size l1 = 1" "lru_entries l1 = [(5, 50)]" by (auto simp: recent_put_def)
  from lru_policy_refines [OF 1(2), of 6 60] 1(3,4) obtain l2 where
    "LRU_put 6 60 l1 = Some l2" "lru_entries l2 = [(6, 60)]" by (auto simp: recent_put_def)
  then show ?thesis using 1(1) by blast
qed

end
