(* ===== verification/Nvmain_System.thy ===== *)
theory Nvmain_System
  imports Frfcfs_Wqf Lru_Policy
begin

text \<open>
  \<^verbatim>\<open>src/NVmain/NVM/nvmain\<close>: the memory system, which hands the requests of the processor to the controllers of
  its channels. With the tag cache, channel 0 is a DRAM that caches the lines of the non-volatile memory of channel 1.
  The prefetchers are the naive one and the one that never prefetches; the trace output is left out.
\<close>

section \<open>State\<close>

datatype Controller = Ctl_FCFS Scheduler | Ctl_FRFCFS Scheduler | Ctl_FRFCFS_WQF FRFCFS_WQF

datatype Prefetcher = Prefetcher_default | NaivePrefetcher

record TagStats =
  totalReqs :: u64
  reqsHit :: u64
  reqsMiss :: u64
  notIssuableTag :: u64
  tagReplacements :: u64
  RDHit :: u64
  RDMiss :: u64
  WRHit :: u64
  WRMiss :: u64
  RD_Replc :: u64
  RD_Clean :: u64
  RD_Present :: u64
  readsOps :: u64
  readsNotDRAM :: u64

record NVMain =
  nv_this :: obj_id
  nv_configured :: bool
  translator :: AddressTranslator
  memoryControllers :: "Controller list"
  channelParams :: "Params list"
  totalReadRequests :: ncounter_t
  totalWriteRequests :: ncounter_t
  successfulPrefetches :: ncounter_t
  unsuccessfulPrefetches :: ncounter_t
  numChannels :: u32
  prefetcher :: "Prefetcher option"
  prefetchBuffer :: "req_ptr list"
  pendingMemoryRequests :: "req_ptr list"
  inverseMap :: "u64 \<rightharpoonup> u64"
  tagLines :: u64
  DRAMReadSize :: int
  DRAMWriteSize :: int
  NVRAMWriteSize :: int
  waitingDRAMWrite :: "req_ptr list"
  tag_stats :: TagStats
  nv_useTagCache :: bool
  tmpAddr :: u64
  NVWtoDRW :: "u64 \<rightharpoonup> u64"
  replacementPolicy :: "LRU option"

type_synonym nvs = "NVMain \<times> sim"

definition TagStats_new :: TagStats where
  "TagStats_new = \<lparr>totalReqs = 0, reqsHit = 0, reqsMiss = 0, notIssuableTag = 0, tagReplacements = 0, RDHit = 0, RDMiss = 0,
     WRHit = 0, WRMiss = 0, RD_Replc = 0, RD_Clean = 0, RD_Present = 0, readsOps = 0, readsNotDRAM = 0\<rparr>"

text \<open>Of the members that the constructor does not set, \<open>g\<close> is the old content.\<close>

definition NVMain_new :: "obj_id \<Rightarrow> NVMain \<Rightarrow> NVMain" where
  "NVMain_new me g = g\<lparr>nv_this := me, nv_configured := False, memoryControllers := [], channelParams := [], totalReadRequests := 0,
     totalWriteRequests := 0, successfulPrefetches := 0, unsuccessfulPrefetches := 0, prefetcher := None, prefetchBuffer := [],
     pendingMemoryRequests := [], inverseMap := Map.empty, DRAMReadSize := 0, DRAMWriteSize := 0, NVRAMWriteSize := 0,
     waitingDRAMWrite := [], tag_stats := TagStats_new, nv_useTagCache := False, tmpAddr := 0, NVWtoDRW := Map.empty, replacementPolicy := None\<rparr>"

text \<open>The model has no \<^verbatim>\<open>STeMS\<close> prefetcher and is undefined for its name.\<close>

definition CreateNewPrefetcher :: "string \<Rightarrow> Prefetcher option option" where
  "CreateNewPrefetcher name =
     (if name = ''none'' then Some None
      else if name = ''NaivePrefetcher'' then Some (Some NaivePrefetcher)
      else if name = ''STeMS'' then None
      else Some (Some Prefetcher_default))"

definition to_int :: "u64 \<Rightarrow> int" where
  "to_int x = sint (ucast x :: 32 word)"

text \<open>The translator of the channels. \<open>mat\<close> tells whether the key \<^verbatim>\<open>MATHeight\<close> is configured; \<open>m0\<close> is the new
  translation method and \<open>dec\<close> the new decoder after its own configuration.\<close>

definition system_translator :: "Params \<Rightarrow> bool \<Rightarrow> TranslationMethod \<Rightarrow> AddressTranslator \<Rightarrow> AddressTranslator option" where
  "system_translator p mat m0 dec = do {
     cpp_assert (\<not> mat \<or> MATHeight p \<noteq> 0);
     let rows = to_int (if mat then MATHeight p else ROWS p);
     let subarrays = (if mat then to_int (ROWS p div MATHeight p) else 1);
     let bits = (\<lambda>n. word_of_int (mlog2 n) :: u32);
     let m = SetBitWidths (bits rows) (bits (to_int (COLS p))) (bits (to_int (BANKS p))) (bits (to_int (RANKS p)))
       (bits (to_int (CHANNELS p))) (bits subarrays) m0;
     let m = SetCount (word_of_int rows) (word_of_int (to_int (COLS p))) (word_of_int (to_int (BANKS p))) (word_of_int (to_int (RANKS p)))
       (word_of_int (to_int (CHANNELS p))) (word_of_int subarrays) m;
     m \<leftarrow> SetAddressMappingScheme (AddressMappingScheme p) m;
     Some (SetDefaultField CHANNEL_FIELD (SetTranslationMethod m dec))
   }"

text \<open>\<open>mk i\<close> is the controller that the factory makes and configures for channel \<open>i\<close>, \<open>ps i\<close> its parameters.\<close>

definition NVMain_SetConfig ::
  "Params \<Rightarrow> bool \<Rightarrow> bool \<Rightarrow> TranslationMethod \<Rightarrow> AddressTranslator \<Rightarrow> (nat \<Rightarrow> Controller) \<Rightarrow> (nat \<Rightarrow> Params) \<Rightarrow> NVMain \<Rightarrow> NVMain option" where
  "NVMain_SetConfig p createChildren mat m0 dec mk ps n = do {
     let n = n\<lparr>nv_configured := True\<rparr>;
     n \<leftarrow> (if createChildren then do {
         let channels = [0..<nat (to_int (CHANNELS p))];
         let n = n\<lparr>nv_useTagCache := useTagCache p\<rparr>;
         let n = (if useTagCache p then n\<lparr>tagLines := 1048576, replacementPolicy := Some (LRU_new 1048576)\<rparr> else n);
         tr \<leftarrow> system_translator p mat m0 dec;
         Some (n\<lparr>translator := tr, memoryControllers := map mk channels, channelParams := map ps channels\<rparr>)
       }
       else Some n);
     n \<leftarrow> (if MemoryPrefetcher p \<noteq> ''none'' then do { pf \<leftarrow> CreateNewPrefetcher (MemoryPrefetcher p); Some (n\<lparr>prefetcher := pf\<rparr>) } else Some n);
     Some (n\<lparr>numChannels := ucast (CHANNELS p)\<rparr>)
   }"

section \<open>Addresses\<close>

definition nv_decode :: "u64 \<Rightarrow> NVMain \<Rightarrow> ((MemoryPartition \<Rightarrow> u64) \<times> NVMain) option" where
  "nv_decode a n = do { (f, dec) \<leftarrow> TranslateAll a (\<lambda>_. 0) (translator n); Some (f, n\<lparr>translator := dec\<rparr>) }"

definition nv_encode :: "(MemoryPartition \<Rightarrow> u64) \<Rightarrow> NVMain \<Rightarrow> (u64 \<times> NVMain) option" where
  "nv_encode f n = do { (a, dec) \<leftarrow> ReverseTranslate f (translator n); Some (a, n\<lparr>translator := dec\<rparr>) }"

definition set_fields :: "(MemoryPartition \<Rightarrow> u64) \<Rightarrow> NVMAddress \<Rightarrow> NVMAddress" where
  "set_fields f a = SetTranslatedAddress (f MEM_ROW) (f MEM_COL) (f MEM_BANK) (f MEM_RANK) (f MEM_CHANNEL) (f MEM_SUBARRAY) a"

section \<open>Controllers\<close>

definition Controller_IsIssuable :: "NVMainRequest \<Rightarrow> Controller \<Rightarrow> bool option" where
  "Controller_IsIssuable r c = (case c of
      Ctl_FCFS c \<Rightarrow> scheduler_IsIssuable c | Ctl_FRFCFS c \<Rightarrow> scheduler_IsIssuable c | Ctl_FRFCFS_WQF w \<Rightarrow> WQF_IsIssuable r w)"

definition Controller_IssueCommand :: "Params \<Rightarrow> req_ptr \<Rightarrow> Controller \<times> sim \<Rightarrow> (bool \<times> Controller \<times> sim) option" where
  "Controller_IssueCommand p rp st = (case st of
      (Ctl_FCFS c, s) \<Rightarrow> do { (ok, c, s) \<leftarrow> FCFS_IssueCommand p rp (c, s); Some (ok, Ctl_FCFS c, s) }
    | (Ctl_FRFCFS c, s) \<Rightarrow> do { (ok, c, s) \<leftarrow> FRFCFS_IssueCommand p rp (c, s); Some (ok, Ctl_FRFCFS c, s) }
    | (Ctl_FRFCFS_WQF w, s) \<Rightarrow> do { (ok, w, s) \<leftarrow> WQF_IssueCommand p rp (w, s); Some (ok, Ctl_FRFCFS_WQF w, s) })"

text \<open>Note the order of the arguments: rank and bank are exchanged, but only the channel is used.\<close>

definition NVMain_IsIssuable :: "NVMainRequest \<Rightarrow> NVMain \<Rightarrow> (bool \<times> NVMain) option" where
  "NVMain_IsIssuable r n = do {
     (f, n) \<leftarrow> nv_decode (physicalAddress (address r)) n;
     cpp_assert (unat (f MEM_CHANNEL) < length (memoryControllers n));
     ok \<leftarrow> Controller_IsIssuable r (memoryControllers n ! unat (f MEM_CHANNEL));
     Some (ok, n)
   }"

definition issue_child :: "req_ptr \<Rightarrow> nvs \<Rightarrow> (bool \<times> nvs) option" where
  "issue_child rp st = (case st of (n, s) \<Rightarrow> do {
     r \<leftarrow> requests s rp;
     (i, dec) \<leftarrow> GetChild_req r (translator n) (memoryControllers n);
     (ok, c, s) \<leftarrow> Controller_IssueCommand (channelParams n ! i) rp (memoryControllers n ! i, s);
     Some (ok, n\<lparr>translator := dec, memoryControllers := (memoryControllers n)[i := c]\<rparr>, s)
   })"

section \<open>Prefetching\<close>

definition DoPrefetch :: "Prefetcher \<Rightarrow> NVMainRequest \<Rightarrow> NVMAddress list option" where
  "DoPrefetch pf r = (case pf of
      Prefetcher_default \<Rightarrow> None
    | NaivePrefetcher \<Rightarrow> Some (map (\<lambda>i. SetPhysicalAddress (physicalAddress (address r) + 64 * word_of_nat i) (address r)) [1..<4]))"

text \<open>The translation is of the address of the request, not of the prefetched one.\<close>

fun GeneratePrefetches :: "req_ptr \<Rightarrow> NVMAddress list \<Rightarrow> nvs \<Rightarrow> nvs option" where
  "GeneratePrefetches rp [] st = Some st"
| "GeneratePrefetches rp (a # as) st = do {
     let (n, s) = st;
     r \<leftarrow> requests s rp;
     (pf, s) \<leftarrow> copy_request (\<lambda>c. c\<lparr>address := NVMAddress_assign a (address c), isPrefetch := True, owner := Some (nv_this n)\<rparr>) r s;
     (f, n) \<leftarrow> nv_decode (physicalAddress (address r)) n;
     let s = put_request rp (r\<lparr>address := set_fields f (address r), bulkCmd := CMD_NOP\<rparr>) s;
     (_, st) \<leftarrow> issue_child pf (n, s);
     GeneratePrefetches rp as st
   }"

definition IssuePrefetch :: "req_ptr \<Rightarrow> nvs \<Rightarrow> nvs option" where
  "IssuePrefetch rp st = do {
     r \<leftarrow> requests (snd st) rp;
     case prefetcher (fst st) of
       None \<Rightarrow> Some st
     | Some pf \<Rightarrow>
         if rtype r = READ \<and> \<not> isPrefetch r
         then (case DoPrefetch pf r of None \<Rightarrow> Some st | Some as \<Rightarrow> GeneratePrefetches rp as st)
         else Some st
   }"

text \<open>Both prefetchers inherit a \<^verbatim>\<open>NotifyAccess\<close> that asks for nothing.\<close>

fun find_prefetch :: "u64 \<Rightarrow> req_ptr list \<Rightarrow> sim \<Rightarrow> req_ptr option option" where
  "find_prefetch a [] s = Some None"
| "find_prefetch a (x # xs) s = do {
     r \<leftarrow> requests s x;
     if physicalAddress (address r) = a then Some (Some x) else find_prefetch a xs s
   }"

definition CheckPrefetch :: "req_ptr \<Rightarrow> nvs \<Rightarrow> (bool \<times> nvs) option" where
  "CheckPrefetch rp st = (case st of (n, s) \<Rightarrow> do {
     r \<leftarrow> requests s rp;
     hit \<leftarrow> find_prefetch (physicalAddress (address r)) (prefetchBuffer n) s;
     case hit of
       None \<Rightarrow> Some (False, n, s)
     | Some x \<Rightarrow> do {
         cpp_assert (prefetcher n \<noteq> None);
         s \<leftarrow> delete_request x s;
         Some (True, n\<lparr>successfulPrefetches := successfulPrefetches n + 1, prefetchBuffer := removeAll x (prefetchBuffer n)\<rparr>, s)
       }
   })"

section \<open>Issuing\<close>

text \<open>The last part of \<^verbatim>\<open>IssueCommand\<close>: the request goes to the controller of its channel.\<close>

definition issue_to_channel :: "u64 \<Rightarrow> req_ptr \<Rightarrow> nvs \<Rightarrow> (bool \<times> nvs) option" where
  "issue_to_channel ch rp st = do {
     r \<leftarrow> requests (snd st) rp;
     (i, dec) \<leftarrow> GetChild_req r (translator (fst st)) (memoryControllers (fst st));
     cpp_assert (i = unat ch);
     (ok, st) \<leftarrow> issue_child rp ((fst st)\<lparr>translator := dec\<rparr>, snd st);
     if ok then do {
       (n, s) \<leftarrow> IssuePrefetch rp st;
       r \<leftarrow> requests s rp;
       Some (True, if rtype r = READ then n\<lparr>totalReadRequests := totalReadRequests n + 1\<rparr>
         else n\<lparr>totalWriteRequests := totalWriteRequests n + 1\<rparr>, s)
     }
     else Some (False, st)
   }"

text \<open>The first part, which is common to all requests: the fields of the address, and whether the request has
  been answered from the prefetch buffer.\<close>

definition accept_request :: "req_ptr \<Rightarrow> nvs \<Rightarrow> (bool \<times> (MemoryPartition \<Rightarrow> u64) \<times> nvs) option" where
  "accept_request rp st = (case st of (n, s) \<Rightarrow> do {
     r \<leftarrow> requests s rp;
     (f, n) \<leftarrow> nv_decode (physicalAddress (address r)) n;
     let s = put_request rp (r\<lparr>address := set_fields f (address r), bulkCmd := CMD_NOP\<rparr>) s;
     (hit, n, s) \<leftarrow> CheckPrefetch rp (n, s);
     if hit then do { s \<leftarrow> insert_response (nv_this n) rp (GetCurrentCycle s + 1) s; Some (True, f, n, s) }
     else Some (False, f, n, s)
   })"

definition skips_tag :: "NVMainRequest \<Rightarrow> bool" where
  "skips_tag r \<longleftrightarrow> has_flag r FLAG_EVICT \<or> has_flag r FLAG_SKIP_TAG"

text \<open>\<^verbatim>\<open>IssueCommand\<close> for a request that does not look at the tag cache, such as those that the tag cache makes.\<close>

definition issue_past_tag :: "req_ptr \<Rightarrow> nvs \<Rightarrow> (bool \<times> nvs) option" where
  "issue_past_tag rp st =
     (if \<not> nv_configured (fst st) then Some (False, st)
      else do {
        (hit, f, st) \<leftarrow> accept_request rp st;
        if hit then Some (True, st) else issue_to_channel (f MEM_CHANNEL) rp st
      })"

section \<open>The tag cache\<close>

definition count_tag :: "(TagStats \<Rightarrow> TagStats) \<Rightarrow> NVMain \<Rightarrow> NVMain" where
  "count_tag f n = n\<lparr>tag_stats := f (tag_stats n)\<rparr>"

definition bump_size :: "int \<Rightarrow> int" where
  "bump_size k = (if k + 1 = 20 then k else k + 1)"

definition tag_get :: "u64 \<Rightarrow> NVMain \<Rightarrow> (u64 \<times> bool \<times> NVMain) option" where
  "tag_get a n = do { l \<leftarrow> replacementPolicy n; (v, found, l) \<leftarrow> LRU_get a l; Some (v, found, n\<lparr>replacementPolicy := Some l\<rparr>) }"

definition tag_put :: "u64 \<Rightarrow> u64 \<Rightarrow> NVMain \<Rightarrow> NVMain option" where
  "tag_put a v n = do { l \<leftarrow> replacementPolicy n; l \<leftarrow> LRU_put a v l; Some (n\<lparr>replacementPolicy := Some l\<rparr>) }"

text \<open>A request of the memory system itself for the line at \<open>a\<close> with the fields \<open>f\<close>.\<close>

definition line_request :: "OpType \<Rightarrow> u64 \<Rightarrow> (MemoryPartition \<Rightarrow> u64) \<Rightarrow> u64 \<Rightarrow> NVMDataBlock \<Rightarrow> NVMain \<Rightarrow> NVMainRequest \<Rightarrow> NVMainRequest" where
  "line_request ty a f fl d n r = r\<lparr>access := UNKNOWN_ACCESS, address := set_fields f (SetPhysicalAddress a (address r)),
     status := MEM_REQUEST_INCOMPLETE, rtype := ty, owner := Some (nv_this n), rdata := d, flags := flags r OR fl\<rparr>"

definition new_line_write :: "u64 \<Rightarrow> (MemoryPartition \<Rightarrow> u64) \<Rightarrow> NVMDataBlock \<Rightarrow> nvs \<Rightarrow> (req_ptr \<times> sim) option" where
  "new_line_write a f d st = do {
     d \<leftarrow> NVMDataBlock_assign (\<lambda>_. 0) d NVMDataBlock_new;
     Some (new_request (line_request WRITE a f (FLAG_EVICT OR FLAG_SKIP_TAG) d (fst st)) (snd st))
   }"

text \<open>A line is replaced: the DRAM line of the least recently used address is given to the address \<open>a\<close> with
  the data \<open>d\<close>. The write waits until the old contents have been read.\<close>

definition replace_line :: "u64 \<Rightarrow> NVMDataBlock \<Rightarrow> nvs \<Rightarrow> nvs option" where
  "replace_line a d st = (case st of (n, s) \<Rightarrow> do {
     l \<leftarrow> replacementPolicy n;
     (freeAddr, l) \<leftarrow> LRU_removeLRU l;
     n \<leftarrow> tag_put a freeAddr (n\<lparr>replacementPolicy := Some l\<rparr>);
     let n = n\<lparr>inverseMap := (inverseMap n)(freeAddr \<mapsto> a)\<rparr>;
     (f, n) \<leftarrow> nv_decode freeAddr n;
     (wr, s) \<leftarrow> new_line_write freeAddr f d (n, s);
     let n = n\<lparr>waitingDRAMWrite := waitingDRAMWrite n @ [wr], DRAMWriteSize := bump_size (DRAMWriteSize n)\<rparr>;
     buf \<leftarrow> SetSize (\<lambda>_. 0) 64 NVMDataBlock_new;
     let (rd, s) = new_request (line_request READ freeAddr f FLAG_EVICT buf n) s;
     let n = n\<lparr>DRAMReadSize := bump_size (DRAMReadSize n)\<rparr>;
     (_, st) \<leftarrow> issue_past_tag rd (n, s);
     Some st
   })"

text \<open>The search for a line of the DRAM that is not used: the fields and address of the line, and the last candidate.\<close>

partial_function (option) find_line :: "LRU \<Rightarrow> u64 \<Rightarrow> NVMain \<Rightarrow> ((MemoryPartition \<Rightarrow> u64) \<times> u64 \<times> u64 \<times> NVMain) option" where
  "find_line l a n = do {
     (f, n) \<leftarrow> nv_decode a n;
     let f = f(MEM_CHANNEL := 0);
     (randAddr, n) \<leftarrow> nv_encode f n;
     if LRU_has randAddr l then find_line l (a + 64) n else Some (f, randAddr, a, n)
   }"

definition allocate_line :: "u64 \<Rightarrow> NVMain \<Rightarrow> ((MemoryPartition \<Rightarrow> u64) \<times> u64 \<times> NVMain) option" where
  "allocate_line a n = do {
     l \<leftarrow> replacementPolicy n;
     (f, randAddr, last, n) \<leftarrow> find_line l (tmpAddr n) n;
     let n = n\<lparr>tmpAddr := last + 64\<rparr>;
     n \<leftarrow> tag_put a randAddr n;
     let n = n\<lparr>inverseMap := (if inverseMap n randAddr = None then (inverseMap n)(randAddr \<mapsto> a) else inverseMap n)\<rparr>;
     Some (f, randAddr, n)
   }"

text \<open>The request is sent to the fields \<open>f\<close>.\<close>

definition redirect :: "req_ptr \<Rightarrow> (MemoryPartition \<Rightarrow> u64) \<Rightarrow> nvs \<Rightarrow> nvs option" where
  "redirect rp f st = (case st of (n, s) \<Rightarrow> do {
     r \<leftarrow> requests s rp;
     (a, n) \<leftarrow> nv_encode f n;
     Some (n, put_request rp (r\<lparr>address := SetPhysicalAddress a (set_fields f (address r))\<rparr>) s)
   })"

text \<open>A request whose line is in the DRAM, at \<open>cachedAddr\<close>: the fields where it goes.\<close>

definition tag_hit :: "req_ptr \<Rightarrow> u64 \<Rightarrow> nvs \<Rightarrow> ((MemoryPartition \<Rightarrow> u64) \<times> nvs) option" where
  "tag_hit rp cachedAddr st = (case st of (n, s) \<Rightarrow> do {
     r \<leftarrow> requests s rp;
     let n = count_tag (\<lambda>t. t\<lparr>reqsHit := reqsHit t + 1\<rparr>) n;
     (g, n) \<leftarrow> nv_decode cachedAddr n;
     let n = count_tag (\<lambda>t. if rtype r = READ then t\<lparr>RDHit := RDHit t + 1\<rparr> else if rtype r = WRITE then t\<lparr>WRHit := WRHit t + 1\<rparr> else t) n;
     st \<leftarrow> redirect rp g (n, s);
     Some (g, st)
   })"

text \<open>A request whose line is not there, with the fields \<open>f\<close>: where it goes, or \<open>None\<close> if it is dropped because
  its line replaces another.\<close>

definition tag_miss :: "req_ptr \<Rightarrow> (MemoryPartition \<Rightarrow> u64) \<Rightarrow> nvs \<Rightarrow> ((MemoryPartition \<Rightarrow> u64) option \<times> nvs) option" where
  "tag_miss rp f st = (case st of (n, s) \<Rightarrow> do {
     r \<leftarrow> requests s rp;
     let n = count_tag (\<lambda>t. t\<lparr>reqsMiss := reqsMiss t + 1\<rparr>) n;
     if rtype r = WRITE then do {
       let n = count_tag (\<lambda>t. t\<lparr>WRMiss := WRMiss t + 1\<rparr>) n;
       l \<leftarrow> replacementPolicy n;
       if LRU_isFull l then do {
         let n = count_tag (\<lambda>t. t\<lparr>tagReplacements := tagReplacements t + 1\<rparr>) n;
         st \<leftarrow> replace_line (physicalAddress (address r)) (rdata r) (n, s);
         Some (None, st)
       }
       else do {
         (g, _, n) \<leftarrow> allocate_line (physicalAddress (address r)) n;
         st \<leftarrow> redirect rp g (n, s);
         Some (Some g, st)
       }
     }
     else do {
       let n = count_tag (\<lambda>t. t\<lparr>RDMiss := RDMiss t + 1\<rparr>) n;
       st \<leftarrow> redirect rp f (n, s);
       Some (Some f, st)
     }
   })"

text \<open>What \<^verbatim>\<open>IssueCommand\<close> does with a request that looks at the tag cache.\<close>

definition tag_lookup :: "req_ptr \<Rightarrow> (MemoryPartition \<Rightarrow> u64) \<Rightarrow> nvs \<Rightarrow> ((MemoryPartition \<Rightarrow> u64) option \<times> nvs) option" where
  "tag_lookup rp f st = (case st of (n, s) \<Rightarrow> do {
     let f = f(MEM_CHANNEL := 1);
     (n, s) \<leftarrow> redirect rp f (count_tag (\<lambda>t. t\<lparr>totalReqs := totalReqs t + 1\<rparr>) n, s);
     r \<leftarrow> requests s rp;
     (cachedAddr, present, n) \<leftarrow> tag_get (physicalAddress (address r)) n;
     (_, n) \<leftarrow> nv_decode cachedAddr n;
     if present then do { (g, st) \<leftarrow> tag_hit rp cachedAddr (n, s); Some (Some g, st) } else tag_miss rp f (n, s)
   })"

definition NVMain_IssueCommand :: "req_ptr \<Rightarrow> nvs \<Rightarrow> (bool \<times> nvs) option" where
  "NVMain_IssueCommand rp st =
     (if \<not> nv_configured (fst st) then Some (False, st)
      else do {
        (hit, f, st) \<leftarrow> accept_request rp st;
        if hit then Some (True, st)
        else do {
          r \<leftarrow> requests (snd st) rp;
          if \<not> skips_tag r \<and> nv_useTagCache (fst st) then do {
            (target, st) \<leftarrow> tag_lookup rp f st;
            case target of None \<Rightarrow> Some (True, st) | Some g \<Rightarrow> issue_to_channel (g MEM_CHANNEL) rp st
          }
          else issue_to_channel (f MEM_CHANNEL) rp st
        }
      })"

section \<open>Completion\<close>

text \<open>A write of the data of a completed read to the DRAM line at \<open>a\<close> with the fields \<open>f\<close>.\<close>

definition fill_line :: "u64 \<Rightarrow> (MemoryPartition \<Rightarrow> u64) \<Rightarrow> NVMDataBlock \<Rightarrow> nvs \<Rightarrow> nvs option" where
  "fill_line a f d st = (case st of (n, s) \<Rightarrow> do {
     (wr, s) \<leftarrow> new_line_write a f d (n, s);
     (_, st) \<leftarrow> issue_past_tag wr (n\<lparr>DRAMWriteSize := bump_size (DRAMWriteSize n)\<rparr>, s);
     Some st
   })"

text \<open>The line of a read is in the DRAM by now, at \<open>cachedAddr\<close>, or not: then it gets a place there.\<close>

definition fill_present :: "u64 \<Rightarrow> NVMDataBlock \<Rightarrow> nvs \<Rightarrow> nvs option" where
  "fill_present cachedAddr d st = (case st of (n, s) \<Rightarrow> do {
     (g, n) \<leftarrow> nv_decode cachedAddr (count_tag (\<lambda>t. t\<lparr>RD_Present := RD_Present t + 1\<rparr>) n);
     (b, n) \<leftarrow> nv_encode g n;
     fill_line b g d (n, s)
   })"

definition fill_absent :: "u64 \<Rightarrow> NVMDataBlock \<Rightarrow> nvs \<Rightarrow> nvs option" where
  "fill_absent a d st = (case st of (n, s) \<Rightarrow> do {
     l \<leftarrow> replacementPolicy n;
     if LRU_isFull l then replace_line a d (count_tag (\<lambda>t. t\<lparr>RD_Replc := RD_Replc t + 1\<rparr>) n, s)
     else do {
       (g, b, n) \<leftarrow> allocate_line a (count_tag (\<lambda>t. t\<lparr>RD_Clean := RD_Clean t + 1\<rparr>) n);
       fill_line b g d (n, s)
     }
   })"

text \<open>A read that came from the non-volatile memory brings its line into the DRAM.\<close>

definition fill_on_read :: "req_ptr \<Rightarrow> nvs \<Rightarrow> nvs option" where
  "fill_on_read rp st = (case st of (n, s) \<Rightarrow> do {
     r \<leftarrow> requests s rp;
     (f, n) \<leftarrow> nv_decode (physicalAddress (address r)) (count_tag (\<lambda>t. t\<lparr>readsOps := readsOps t + 1\<rparr>) n);
     if f MEM_CHANNEL = 0 then Some (n, s)
     else do {
       (a, n) \<leftarrow> nv_encode f (count_tag (\<lambda>t. t\<lparr>readsNotDRAM := readsNotDRAM t + 1\<rparr>) n);
       let s = put_request rp (r\<lparr>address := SetPhysicalAddress a (address r)\<rparr>) s;
       (cachedAddr, present, n) \<leftarrow> tag_get a n;
       (g, n) \<leftarrow> nv_decode cachedAddr n;
       if present then fill_present cachedAddr (rdata r) (n, s) else fill_absent a (rdata r) (n, s)
     }
   })"

text \<open>The first write that waits for the line at \<open>a\<close>, and the others.\<close>

fun take_waiting :: "u64 \<Rightarrow> req_ptr list \<Rightarrow> sim \<Rightarrow> (req_ptr \<times> req_ptr list) option option" where
  "take_waiting a [] s = Some None"
| "take_waiting a (x # xs) s = do {
     r \<leftarrow> requests s x;
     if physicalAddress (address r) = a then Some (Some (x, xs))
     else do { z \<leftarrow> take_waiting a xs s; Some (map_option (\<lambda>(y, ys). (y, x # ys)) z) }
   }"

text \<open>Where the old contents of the DRAM line at \<open>a\<close> go: an address of the non-volatile memory. An absent entry of
  the map is created with the value zero.\<close>

definition writeback_target :: "u64 \<Rightarrow> NVMain \<Rightarrow> (u64 \<times> (MemoryPartition \<Rightarrow> u64) \<times> NVMain) option" where
  "writeback_target a n = do {
     let target = (case inverseMap n a of None \<Rightarrow> 0 | Some x \<Rightarrow> x);
     let n = n\<lparr>inverseMap := (inverseMap n)(a \<mapsto> target)\<rparr>;
     (f, n) \<leftarrow> nv_decode target n;
     let f = f(MEM_CHANNEL := 1);
     (b, n) \<leftarrow> nv_encode f n;
     Some (b, f, n)
   }"

text \<open>The old contents \<open>d\<close> of the line at \<open>a\<close> have been read.\<close>

definition write_back :: "u64 \<Rightarrow> NVMDataBlock \<Rightarrow> nvs \<Rightarrow> nvs option" where
  "write_back a d st = do {
     z \<leftarrow> take_waiting a (waitingDRAMWrite (fst st)) (snd st);
     case z of
       None \<Rightarrow> Some st
     | Some (wr, rest) \<Rightarrow> do {
         (_, n, s) \<leftarrow> issue_past_tag wr st;
         let n = n\<lparr>waitingDRAMWrite := rest\<rparr>;
         (b, f, n) \<leftarrow> writeback_target a n;
         let n = n\<lparr>NVWtoDRW := (NVWtoDRW n)(b \<mapsto> a)\<rparr>;
         (nw, s) \<leftarrow> new_line_write b f d (n, s);
         (_, st) \<leftarrow> issue_past_tag nw (n\<lparr>NVRAMWriteSize := bump_size (NVRAMWriteSize n)\<rparr>, s);
         Some st
       }
   }"

text \<open>A finished prefetch goes into the buffer, where it may push out the oldest one.\<close>

definition keep_prefetch :: "Params \<Rightarrow> req_ptr \<Rightarrow> nvs \<Rightarrow> nvs option" where
  "keep_prefetch p rp st = (case st of (n, s) \<Rightarrow> do {
     (n, s) \<leftarrow> (if PrefetchBufferSize p \<le> word_of_nat (length (prefetchBuffer n)) then do {
         cpp_assert (prefetchBuffer n \<noteq> []);
         s \<leftarrow> delete_request (hd (prefetchBuffer n)) s;
         Some (n\<lparr>unsuccessfulPrefetches := unsuccessfulPrefetches n + 1, prefetchBuffer := tl (prefetchBuffer n)\<rparr>, s)
       }
       else Some (n, s));
     Some (n\<lparr>prefetchBuffer := prefetchBuffer n @ [rp]\<rparr>, s)
   })"

text \<open>A request that waited for a controller with room.\<close>

definition issue_pending :: "nvs \<Rightarrow> nvs option" where
  "issue_pending st = (case pendingMemoryRequests (fst st) of
      [] \<Rightarrow> Some st
    | x # _ \<Rightarrow> do {
        r \<leftarrow> requests (snd st) x;
        (ok, n) \<leftarrow> NVMain_IsIssuable r (fst st);
        if ok then do {
          (_, n, s) \<leftarrow> NVMain_IssueCommand x (n, snd st);
          Some (n\<lparr>pendingMemoryRequests := tl (pendingMemoryRequests n)\<rparr>, s)
        }
        else Some (n, snd st)
      })"

text \<open>A request that the memory system made itself ends here. The result tells whether the request goes on.\<close>

definition complete_own :: "Params \<Rightarrow> req_ptr \<Rightarrow> nvs \<Rightarrow> (bool \<times> nvs) option" where
  "complete_own p rp st = do {
     r \<leftarrow> requests (snd st) rp;
     if owner r \<noteq> Some (nv_this (fst st)) then Some (True, st)
     else if isPrefetch r then do { st \<leftarrow> keep_prefetch p rp st; Some (False, st) }
     else do {
       st \<leftarrow> (if nv_useTagCache (fst st) \<and> has_flag r FLAG_EVICT \<and> \<not> has_flag r FLAG_SKIP_TAG \<and> rtype r = READ
         then write_back (physicalAddress (address r)) (rdata r) st else Some st);
       s \<leftarrow> delete_request rp (snd st);
       Some (False, fst st, s)
     }
   }"

text \<open>The result tells whether the request goes on to the processor. The source hands it on before it tries the pending
  request, the model afterwards.\<close>

definition NVMain_RequestComplete :: "Params \<Rightarrow> req_ptr \<Rightarrow> nvs \<Rightarrow> (bool \<times> nvs) option" where
  "NVMain_RequestComplete p rp st = do {
     r \<leftarrow> requests (snd st) rp;
     st \<leftarrow> (if rtype r = READ \<and> nv_useTagCache (fst st) \<and> \<not> skips_tag r \<and> \<not> isPrefetch r then fill_on_read rp st else Some st);
     (up, st) \<leftarrow> complete_own p rp st;
     st \<leftarrow> issue_pending st;
     Some (up, st)
   }"

definition EnqueuePendingMemoryRequests :: "req_ptr \<Rightarrow> NVMain \<Rightarrow> NVMain" where
  "EnqueuePendingMemoryRequests rp n = n\<lparr>pendingMemoryRequests := pendingMemoryRequests n @ [rp]\<rparr>"

end
