(* ===== verification/Tag_Cache.thy ===== *)
theory Tag_Cache
  imports Nvmain_System Transaction_Rows
begin

text \<open>
  The tag cache of the memory system: where it sends requests, and what becomes of the lines that it replaces.
\<close>

section \<open>Addresses\<close>

text \<open>Translating changes nothing of a translator that matters.\<close>

definition same_scheme :: "AddressTranslator \<Rightarrow> AddressTranslator \<Rightarrow> bool" where
  "same_scheme tr tr' \<longleftrightarrow> method tr' = method tr \<and> busWidth tr' = busWidth tr \<and> burstLength tr' = burstLength tr \<and> defaultField tr' = defaultField tr"

lemma same_scheme_refl [simp]: "same_scheme tr tr"
  by (simp add: same_scheme_def)

lemma same_scheme_trans: "same_scheme a b \<Longrightarrow> same_scheme b c \<Longrightarrow> same_scheme a c"
  by (simp add: same_scheme_def)

lemma same_scheme_wf:
  assumes "same_scheme tr tr'"
  shows "offset_bits tr' = offset_bits tr" "parts_fit tr' = parts_fit tr" "translator_wf tr' = translator_wf tr"
proof -
  show o: "offset_bits tr' = offset_bits tr" using assms by (simp add: same_scheme_def offset_bits_def)
  show "parts_fit tr' = parts_fit tr" using assms by (simp add: same_scheme_def parts_fit_def fun_eq_iff)
  show "translator_wf tr' = translator_wf tr" using assms o by (auto simp: same_scheme_def translator_wf_def split: option.splits)
qed

lemma TranslateAll_scheme: "TranslateAll a g tr = Some (f, tr') \<Longrightarrow> same_scheme tr tr'"
  by (auto simp: TranslateAll_def Let_def bind_eq_Some_conv same_scheme_def split: option.splits)

lemma ReverseTranslate_scheme: "ReverseTranslate f tr = Some (a, tr') \<Longrightarrow> same_scheme tr tr'"
  by (auto simp: ReverseTranslate_def Let_def bind_eq_Some_conv same_scheme_def split: option.splits)

text \<open>The fields of an address.\<close>

definition parts_at :: "AddressTranslator \<Rightarrow> u64 \<Rightarrow> MemoryPartition \<Rightarrow> u64" where
  "parts_at tr a = (case method tr of None \<Rightarrow> (\<lambda>_. 0) | Some m \<Rightarrow> decode_parts m (layout m) (drop_bit (offset_bits tr) a) (\<lambda>_. 0))"

abbreviation channel_of :: "AddressTranslator \<Rightarrow> u64 \<Rightarrow> u64" where
  "channel_of tr a \<equiv> parts_at tr a MEM_CHANNEL"

lemma same_scheme_parts: "same_scheme tr tr' \<Longrightarrow> parts_at tr' = parts_at tr"
  using same_scheme_wf(1) [of tr tr'] by (auto simp: parts_at_def same_scheme_def split: option.splits)

lemma decode_total:
  assumes "translator_wf tr"
  shows "\<exists>tr'. TranslateAll a (\<lambda>_. 0) tr = Some (parts_at tr a, tr') \<and> same_scheme tr tr'" "parts_fit tr (parts_at tr a)"
proof -
  obtain m where m: "method tr = Some m" using assms by (auto simp: translator_wf_def split: option.splits)
  obtain tr' where t: "TranslateAll a (\<lambda>_. 0) tr = Some (parts_at tr a, tr')"
    using TranslateAll_eq [OF assms m, of a "\<lambda>_. 0"] by (auto simp: parts_at_def m)
  then show "\<exists>tr'. TranslateAll a (\<lambda>_. 0) tr = Some (parts_at tr a, tr') \<and> same_scheme tr tr'" using TranslateAll_scheme by blast
  show "parts_fit tr (parts_at tr a)" by (rule decoded_parts_fit [OF assms t])
qed

text \<open>The address with given fields.\<close>

definition line_of :: "AddressTranslator \<Rightarrow> (MemoryPartition \<Rightarrow> u64) \<Rightarrow> u64" where
  "line_of tr f = (case ReverseTranslate f tr of None \<Rightarrow> 0 | Some (a, _) \<Rightarrow> a)"

lemma encode_total:
  assumes "translator_wf tr" "parts_fit tr f"
  shows "\<exists>tr'. ReverseTranslate f tr = Some (line_of tr f, tr') \<and> same_scheme tr tr'" "p \<noteq> MEM_UNKNOWN \<Longrightarrow> parts_at tr (line_of tr f) p = f p"
proof -
  obtain a tr1 parts' tr2 where a: "ReverseTranslate f tr = Some (a, tr1)" "TranslateAll a (\<lambda>_. 0) tr = Some (parts', tr2)"
    "\<forall>p. p \<noteq> MEM_UNKNOWN \<longrightarrow> parts' p = f p"
    using translate_reverse [OF assms, of "\<lambda>_. 0"] by blast
  have l: "line_of tr f = a" using a(1) by (simp add: line_of_def)
  show "\<exists>tr'. ReverseTranslate f tr = Some (line_of tr f, tr') \<and> same_scheme tr tr'" using a(1) l ReverseTranslate_scheme by blast
  have "parts' = parts_at tr a" using a(2) decode_total(1) [OF assms(1), of a] by auto
  then show "p \<noteq> MEM_UNKNOWN \<Longrightarrow> parts_at tr (line_of tr f) p = f p" using a(3) l by simp
qed

lemma line_of_cong:
  assumes "translator_wf tr" "parts_fit tr f" "same_scheme tr tr'" "\<forall>p. p \<noteq> MEM_UNKNOWN \<longrightarrow> f' p = f p"
  shows "line_of tr' f' = line_of tr f"
proof -
  obtain m where m: "method tr = Some m" "order_wf m" using assms(1) by (auto simp: translator_wf_def method_wf_def split: option.splits)
  have "translator_wf tr'" "method tr' = Some m" "parts_fit tr' f'"
    using assms same_scheme_wf [OF assms(3)] m by (simp_all add: same_scheme_def parts_fit_def)
  note r = ReverseTranslate_eq [OF assms(1) m(1) assms(2)] ReverseTranslate_eq [OF this]
  have "map (\<lambda>p. unat (f' p)) (layout m) = map (\<lambda>p. unat (f p)) (layout m)" using assms(4) layout_wf(2) [OF m(2)] by simp
  then have "unat (line_of tr' f') = unat (line_of tr f)" using r same_scheme_wf(1) [OF assms(3)] by (auto simp: line_of_def simp del: map_eq_conv)
  then show ?thesis by (simp add: word_unat_eq_iff)
qed

lemma parts_fit_channel:
  "parts_fit tr f \<Longrightarrow> unat c < 2 ^ width (the (method tr)) MEM_CHANNEL \<Longrightarrow> parts_fit tr (f(MEM_CHANNEL := c))"
  by (auto simp: parts_fit_def)

lemma nv_decode_total:
  assumes "translator_wf (translator n)"
  shows "\<exists>tr'. nv_decode a n = Some (parts_at (translator n) a, n\<lparr>translator := tr'\<rparr>) \<and> same_scheme (translator n) tr'"
  using decode_total(1) [OF assms, of a] by (auto simp: nv_decode_def)

lemma nv_encode_total:
  assumes "translator_wf (translator n)" "parts_fit (translator n) f"
  shows "\<exists>tr'. nv_encode f n = Some (line_of (translator n) f, n\<lparr>translator := tr'\<rparr>) \<and> same_scheme (translator n) tr'"
  using encode_total(1) [OF assms] by (auto simp: nv_encode_def)

section \<open>The invariant of the tag cache\<close>

text \<open>The tags map lines of other channels to lines of channel 0; there is a channel 1.\<close>

definition tags_ok :: "AddressTranslator \<Rightarrow> LRU \<Rightarrow> bool" where
  "tags_ok tr l \<longleftrightarrow> translator_wf tr \<and> 1 \<le> width (the (method tr)) MEM_CHANNEL \<and> lru_ok l \<and> 0 < lru_size l
     \<and> (\<forall>a v. lru_m l a = Some v \<longrightarrow> channel_of tr a \<noteq> 0 \<and> channel_of tr v = 0)"

definition tag_ok :: "NVMain \<Rightarrow> bool" where
  "tag_ok n \<longleftrightarrow> (\<exists>l. replacementPolicy n = Some l \<and> tags_ok (translator n) l)"

lemma tags_ok_scheme: "same_scheme tr tr' \<Longrightarrow> tags_ok tr' l = tags_ok tr l"
  using same_scheme_wf(3) [of tr tr'] same_scheme_parts [of tr tr'] by (simp add: tags_ok_def same_scheme_def)

lemma channel_parts_fit:
  "tags_ok tr l \<Longrightarrow> parts_fit tr f \<Longrightarrow> parts_fit tr (f(MEM_CHANNEL := 0)) \<and> parts_fit tr (f(MEM_CHANNEL := 1))"
proof -
  assume a: "tags_ok tr l" "parts_fit tr f"
  then have "(2 :: nat) ^ 1 \<le> 2 ^ width (the (method tr)) MEM_CHANNEL" by (intro power_increasing) (simp_all add: tags_ok_def)
  then show ?thesis using a(2) by (auto intro!: parts_fit_channel)
qed

lemma LRU_get_ok:
  assumes "lru_ok l"
  shows "\<exists>l'. LRU_get k l = Some (case lru_m l k of None \<Rightarrow> 0 | Some v \<Rightarrow> v, lru_m l k \<noteq> None, l') \<and> lru_ok l' \<and> lru_size l' = lru_size l \<and> lru_m l' = lru_m l"
proof -
  obtain l' where l': "lru_lookup k l = Some (map_of (lru_entries l) k, l')" "lru_ok l'" "lru_size l' = lru_size l" "lru_m l' = lru_m l"
    using get_effect [OF assms, of k] by blast
  then show ?thesis
    by (cases "lru_m l k") (auto simp: lru_lookup_def LRU_get_def bind_eq_Some_conv lru_entries_map [OF assms] split: if_splits)
qed

lemma tags_ok_put:
  assumes "tags_ok tr l" "channel_of tr a \<noteq> 0" "channel_of tr v = 0"
  shows "\<exists>l'. LRU_put a v l = Some l' \<and> tags_ok tr l' \<and> lru_m l' a = Some v \<and> (\<forall>x. x \<noteq> a \<and> lru_m l' x \<noteq> None \<longrightarrow> lru_m l' x = lru_m l x)"
proof -
  obtain l' where l': "LRU_put a v l = Some l'" "lru_ok l'" "lru_size l' = lru_size l" "lru_m l' a = Some v"
    "\<forall>x. x \<noteq> a \<and> lru_m l' x \<noteq> None \<longrightarrow> lru_m l' x = lru_m l x"
    using put_effect [of l a v] assms(1) by (auto simp: tags_ok_def)
  have "channel_of tr x \<noteq> 0 \<and> channel_of tr y = 0" if "lru_m l' x = Some y" for x y
    using that l'(4,5) assms by (cases "x = a") (auto simp: tags_ok_def)
  then show ?thesis using l' assms(1) by (auto simp: tags_ok_def)
qed

lemma tags_ok_remove:
  assumes "tags_ok tr l" "LRU_isFull l"
  shows "\<exists>v l'. LRU_removeLRU l = Some (v, l') \<and> tags_ok tr l' \<and> lru_m l (last (lru_dq l)) = Some v \<and> lru_m l' = (lru_m l)(last (lru_dq l) := None)"
proof -
  have "lru_dq l \<noteq> []" using assms isFull_iff [of l] by (auto simp: tags_ok_def)
  then obtain v l' where l': "LRU_removeLRU l = Some (v, l')" "lru_ok l'" "lru_size l' = lru_size l"
    "lru_m l' = (lru_m l)(last (lru_dq l) := None)" "lru_m l (last (lru_dq l)) = Some v"
    using remove_effect [of l] assms(1) unfolding tags_ok_def by blast
  have "lru_m l x = Some y" if "lru_m l' x = Some y" for x y using that l'(4) by (simp split: if_splits)
  then have "tags_ok tr l'" using assms(1) l'(2,3) unfolding tags_ok_def by (metis (no_types))
  then show ?thesis using l' by blast
qed

lemma keys_channel: "tags_ok tr l \<Longrightarrow> LRU_has a l \<Longrightarrow> channel_of tr a \<noteq> 0"
  by (auto simp: tags_ok_def LRU_has_def)

section \<open>Allocation\<close>

text \<open>The search for an unused line asks whether the candidate is a key of the tags. No key is an address of
  channel 0 and the candidate is one of channel 0: the first candidate is always taken.\<close>

lemma find_line_at_once:
  assumes "tags_ok (translator n) l"
  shows "\<exists>tr'. find_line l a n = Some ((parts_at (translator n) a)(MEM_CHANNEL := 0), line_of (translator n) ((parts_at (translator n) a)(MEM_CHANNEL := 0)), a, n\<lparr>translator := tr'\<rparr>)
    \<and> same_scheme (translator n) tr'"
proof -
  let ?tr = "translator n" let ?f = "(parts_at ?tr a)(MEM_CHANNEL := 0)" let ?b = "line_of ?tr ?f"
  have wf: "translator_wf ?tr" using assms by (simp add: tags_ok_def)
  obtain tr1 where d: "nv_decode a n = Some (parts_at ?tr a, n\<lparr>translator := tr1\<rparr>)" "same_scheme ?tr tr1" using nv_decode_total [OF wf] by blast
  have fit: "parts_fit ?tr ?f" using channel_parts_fit [OF assms decode_total(2) [OF wf]] by simp
  have "translator_wf tr1" "parts_fit tr1 ?f" "line_of tr1 ?f = ?b"
    using same_scheme_wf(2,3) [OF d(2)] wf fit line_of_cong [OF wf fit d(2)] by simp_all
  then obtain tr2 where e: "nv_encode ?f (n\<lparr>translator := tr1\<rparr>) = Some (?b, n\<lparr>translator := tr2\<rparr>)" "same_scheme tr1 tr2"
    using nv_encode_total [of "n\<lparr>translator := tr1\<rparr>" ?f] by auto
  have "channel_of ?tr ?b = 0" using encode_total(2) [OF wf fit] by simp
  then have h: "\<not> LRU_has ?b l" using keys_channel [OF assms] by force
  have "find_line l a n = Some (?f, ?b, a, n\<lparr>translator := tr2\<rparr>)"
    by (subst find_line.simps) (simp only: d(1) e(1) h Let_def if_False bind.bind_lunit prod.case)
  then show ?thesis using same_scheme_trans [OF d(2) e(2)] by blast
qed

lemma allocate_line_ok:
  assumes "replacementPolicy n = Some l" "tags_ok (translator n) l" "channel_of (translator n) a \<noteq> 0"
  shows "\<exists>f n' l'. allocate_line a n = Some (f, line_of (translator n) f, n') \<and> f MEM_CHANNEL = 0 \<and> parts_fit (translator n) f
    \<and> same_scheme (translator n) (translator n') \<and> replacementPolicy n' = Some l' \<and> tags_ok (translator n) l' \<and> lru_m l' a = Some (line_of (translator n) f)"
proof -
  let ?tr = "translator n" let ?f = "(parts_at ?tr (tmpAddr n))(MEM_CHANNEL := 0)"
  obtain tr' where f: "find_line l (tmpAddr n) n = Some (?f, line_of ?tr ?f, tmpAddr n, n\<lparr>translator := tr'\<rparr>)" "same_scheme ?tr tr'"
    using find_line_at_once [OF assms(2)] by blast
  have wf: "translator_wf ?tr" using assms(2) by (simp add: tags_ok_def)
  then have fit: "parts_fit ?tr ?f" using channel_parts_fit [OF assms(2)] decode_total(2) by blast
  then have "channel_of ?tr (line_of ?tr ?f) = 0" using encode_total(2) [OF wf] by simp
  then obtain l' where "LRU_put a (line_of ?tr ?f) l = Some l'" "tags_ok ?tr l'" "lru_m l' a = Some (line_of ?tr ?f)" using tags_ok_put [OF assms(2,3)] by blast
  then show ?thesis using f fit assms(1) by (auto simp: allocate_line_def tag_put_def Let_def)
qed

section \<open>What issuing leaves alone\<close>

definition tag_frame :: "NVMain \<Rightarrow> NVMain \<Rightarrow> bool" where
  "tag_frame n n' \<longleftrightarrow> same_scheme (translator n) (translator n') \<and> replacementPolicy n' = replacementPolicy n \<and> inverseMap n' = inverseMap n
     \<and> waitingDRAMWrite n' = waitingDRAMWrite n"

lemma tag_frame_refl [simp]: "tag_frame n n"
  by (simp add: tag_frame_def)

lemma tag_frame_trans: "tag_frame a b \<Longrightarrow> tag_frame b c \<Longrightarrow> tag_frame a c"
  by (auto simp: tag_frame_def intro: same_scheme_trans)

lemma nv_decode_frame: "nv_decode a n = Some (f, n') \<Longrightarrow> tag_frame n n'"
  by (auto simp: nv_decode_def tag_frame_def bind_eq_Some_conv dest: TranslateAll_scheme)

lemma nv_encode_frame: "nv_encode f n = Some (a, n') \<Longrightarrow> tag_frame n n'"
  by (auto simp: nv_encode_def tag_frame_def bind_eq_Some_conv dest: ReverseTranslate_scheme)

lemma GetChild_req_scheme: "GetChild_req r tr cs = Some (i, tr') \<Longrightarrow> same_scheme tr tr'"
  by (auto simp: GetChild_req_def TranslateField_def TranslateRequest_def Let_def bind_eq_Some_conv dest: TranslateAll_scheme split: if_splits)

lemma issue_child_frame: "issue_child rp st = Some (ok, st') \<Longrightarrow> tag_frame (fst st) (fst st')"
  by (auto simp: issue_child_def tag_frame_def bind_eq_Some_conv dest: GetChild_req_scheme split: prod.splits)

lemma GeneratePrefetches_frame: "GeneratePrefetches rp as st = Some st' \<Longrightarrow> tag_frame (fst st) (fst st')"
proof (induction as arbitrary: st)
  case (Cons a as)
  then obtain n1 x st1 where "tag_frame (fst st) n1" "tag_frame n1 (fst st1)" "tag_frame (fst st1) (fst st')"
    by (auto simp: Let_def bind_eq_Some_conv split: prod.splits dest!: nv_decode_frame issue_child_frame)
  then show ?case using tag_frame_trans by blast
qed simp

lemma IssuePrefetch_frame: "IssuePrefetch rp st = Some st' \<Longrightarrow> tag_frame (fst st) (fst st')"
  unfolding IssuePrefetch_def by (elim bind_eq_SomeE) (auto split: option.split_asm if_split_asm dest: GeneratePrefetches_frame)

lemma CheckPrefetch_frame: "CheckPrefetch rp st = Some (hit, st') \<Longrightarrow> tag_frame (fst st) (fst st')"
  by (auto simp: CheckPrefetch_def tag_frame_def bind_eq_Some_conv split: option.splits prod.splits)

lemma accept_request_frame: "accept_request rp st = Some (hit, f, st') \<Longrightarrow> tag_frame (fst st) (fst st')"
proof -
  assume a: "accept_request rp st = Some (hit, f, st')"
  obtain n1 where "tag_frame (fst st) n1" "tag_frame n1 (fst st')"
    using a by (auto simp: accept_request_def Let_def bind_eq_Some_conv split: prod.splits if_splits dest!: nv_decode_frame CheckPrefetch_frame)
  then show ?thesis by (rule tag_frame_trans)
qed

lemma issue_to_channel_frame: "issue_to_channel c rp st = Some (ok, st') \<Longrightarrow> tag_frame (fst st) (fst st')"
proof -
  assume a: "issue_to_channel c rp st = Some (ok, st')"
  then obtain r i tr ok1 st1 where r: "requests (snd st) rp = Some r" "GetChild_req r (translator (fst st)) (memoryControllers (fst st)) = Some (i, tr)"
    "issue_child rp ((fst st)\<lparr>translator := tr\<rparr>, snd st) = Some (ok1, st1)"
    and e: "(if ok1 then do {
       (n, s) \<leftarrow> IssuePrefetch rp st1;
       r \<leftarrow> requests s rp;
       Some (True, if rtype r = READ then n\<lparr>totalReadRequests := totalReadRequests n + 1\<rparr>
         else n\<lparr>totalWriteRequests := totalWriteRequests n + 1\<rparr>, s)
     }
     else Some (False, st1)) = Some (ok, st')"
    unfolding issue_to_channel_def by (elim bind_eq_SomeE) (clarsimp elim!: bind_eq_SomeE split del: if_split)
  have "tag_frame (fst st) ((fst st)\<lparr>translator := tr\<rparr>)" using GetChild_req_scheme [OF r(2)] by (simp add: tag_frame_def)
  then have 1: "tag_frame (fst st) (fst st1)" using issue_child_frame [OF r(3)] tag_frame_trans by fastforce
  have "tag_frame (fst st1) (fst st')"
  proof (cases ok1)
    case True
    then obtain n s where "IssuePrefetch rp st1 = Some (n, s)" "tag_frame n (fst st')"
      using e by (auto simp: bind_eq_Some_conv tag_frame_def)
    then show ?thesis using IssuePrefetch_frame tag_frame_trans by fastforce
  next
    case False
    then show ?thesis using e by simp
  qed
  then show ?thesis using 1 tag_frame_trans by blast
qed

lemma issue_past_tag_frame: "issue_past_tag rp st = Some (ok, st') \<Longrightarrow> tag_frame (fst st) (fst st')"
  by (auto simp: issue_past_tag_def bind_eq_Some_conv split: if_splits dest!: accept_request_frame issue_to_channel_frame intro: tag_frame_trans)

end
