(* ===== verification/Tag_Routing.thy ===== *)
theory Tag_Routing
  imports Tag_Cache
begin

text \<open>
  Where the tag cache sends the requests, and the invariant that every operation of the memory system keeps.
\<close>

section \<open>Steps on a well-formed tag cache\<close>

definition tags_at :: "AddressTranslator \<Rightarrow> LRU \<Rightarrow> NVMain \<Rightarrow> bool" where
  "tags_at tr l n \<longleftrightarrow> same_scheme tr (translator n) \<and> replacementPolicy n = Some l \<and> tags_ok tr l"

lemma tags_at_frame: "tags_at tr l n \<Longrightarrow> tag_frame n n' \<Longrightarrow> tags_at tr l n'"
  by (auto simp: tags_at_def tag_frame_def intro: same_scheme_trans)

lemma tags_at_wf: "tags_at tr l n \<Longrightarrow> translator_wf (translator n)"
  using same_scheme_wf(3) [of tr "translator n"] by (simp add: tags_at_def tags_ok_def)

lemma tags_at_parts: "tags_at tr l n \<Longrightarrow> parts_at (translator n) = parts_at tr"
  using same_scheme_parts [of tr "translator n"] by (simp add: tags_at_def)

lemma tags_at_fit: "tags_at tr l n \<Longrightarrow> parts_fit (translator n) = parts_fit tr"
  using same_scheme_wf(2) [of tr "translator n"] by (simp add: tags_at_def fun_eq_iff)

lemma tags_at_ok: "tag_ok n \<longleftrightarrow> (\<exists>l. tags_at (translator n) l n)"
  by (simp add: tag_ok_def tags_at_def)

lemma ok_tags_at: "tags_at tr l n \<Longrightarrow> tag_ok n"
  using tags_ok_scheme [of tr "translator n" l] by (simp add: tag_ok_def tags_at_def)

lemma count_tag_fields [simp]:
  "translator (count_tag f n) = translator n" "replacementPolicy (count_tag f n) = replacementPolicy n" "inverseMap (count_tag f n) = inverseMap n"
  "waitingDRAMWrite (count_tag f n) = waitingDRAMWrite n" "nv_configured (count_tag f n) = nv_configured n"
  by (simp_all add: count_tag_def)

lemma tags_at_count [simp]: "tags_at tr l (count_tag f n) = tags_at tr l n"
  by (simp add: tags_at_def)

lemma tag_frame_count [simp]: "tag_frame (count_tag f n) n' = tag_frame n n'" "tag_frame n (count_tag f n') = tag_frame n n'"
  by (simp_all add: tag_frame_def)

lemma fit_at: "tags_at tr l n \<Longrightarrow> parts_fit tr (parts_at tr a)"
  by (simp add: tags_at_def tags_ok_def decode_total(2))

lemma decode_at: "tags_at tr l n \<Longrightarrow> \<exists>n'. nv_decode a n = Some (parts_at tr a, n') \<and> tags_at tr l n' \<and> tag_frame n n'"
  using nv_decode_total [OF tags_at_wf, of tr l n a] tags_at_parts [of tr l n] nv_decode_frame [of a n] tags_at_frame [of tr l n] by fastforce

lemma line_of_channel: "tags_at tr l n \<Longrightarrow> parts_fit tr f \<Longrightarrow> channel_of tr (line_of tr f) = f MEM_CHANNEL"
  using encode_total(2) [of tr f MEM_CHANNEL] by (simp add: tags_at_def tags_ok_def)

lemma tags_at_line: "tags_at tr l n \<Longrightarrow> parts_fit tr f \<Longrightarrow> line_of (translator n) f = line_of tr f"
  using line_of_cong [of tr f "translator n" f] by (simp add: tags_at_def tags_ok_def)

lemma encode_at:
  assumes "tags_at tr l n" "parts_fit tr f"
  shows "\<exists>n'. nv_encode f n = Some (line_of tr f, n') \<and> tags_at tr l n' \<and> tag_frame n n'"
proof -
  obtain n' where "nv_encode f n = Some (line_of tr f, n')"
    using nv_encode_total [OF tags_at_wf [OF assms(1)], of f] assms(2) tags_at_fit [OF assms(1)] tags_at_line [OF assms] by auto
  then show ?thesis using nv_encode_frame tags_at_frame [OF assms(1)] by blast
qed

lemma redirect_at:
  assumes "tags_at tr l n" "parts_fit tr f" "requests s rp = Some r"
  shows "\<exists>n'. redirect rp f (n, s) = Some (n', put_request rp (r\<lparr>address := SetPhysicalAddress (line_of tr f) (set_fields f (address r))\<rparr>) s)
    \<and> tags_at tr l n' \<and> tag_frame n n'"
  using encode_at [OF assms(1,2)] assms(3) by (auto simp: redirect_def)

lemma get_at:
  assumes "tags_at tr l n"
  shows "\<exists>l' n'. tag_get a n = Some (case lru_m l a of None \<Rightarrow> 0 | Some v \<Rightarrow> v, lru_m l a \<noteq> None, n') \<and> tags_at tr l' n' \<and> lru_m l' = lru_m l
    \<and> inverseMap n' = inverseMap n \<and> (lru_m l a = None \<longrightarrow> l' = l)"
proof -
  have ok: "lru_ok l" "tags_ok tr l" using assms by (simp_all add: tags_at_def tags_ok_def)
  obtain l' where l': "LRU_get a l = Some (case lru_m l a of None \<Rightarrow> 0 | Some v \<Rightarrow> v, lru_m l a \<noteq> None, l')" "lru_ok l'" "lru_size l' = lru_size l" "lru_m l' = lru_m l"
    using LRU_get_ok [OF ok(1)] by blast
  have "lru_m l a = None \<Longrightarrow> l' = l" using l'(1) by (simp add: LRU_get_def)
  moreover have "tags_ok tr l'" using ok(2) l'(2-4) by (simp add: tags_ok_def)
  ultimately show ?thesis using l' assms by (intro exI [of _ l']) (auto simp: tag_get_def tags_at_def)
qed

lemma allocate_at:
  assumes "tags_at tr l n" "channel_of tr a \<noteq> 0"
  shows "\<exists>f n' l'. allocate_line a n = Some (f, line_of tr f, n') \<and> tags_at tr l' n' \<and> lru_m l' a = Some (line_of tr f) \<and> f MEM_CHANNEL = 0 \<and> parts_fit tr f"
proof -
  have "replacementPolicy n = Some l" "tags_ok (translator n) l" "channel_of (translator n) a \<noteq> 0"
    using assms tags_ok_scheme [of tr "translator n" l] tags_at_parts [OF assms(1)] by (simp_all add: tags_at_def)
  from allocate_line_ok [OF this] obtain f n' l' where f: "allocate_line a n = Some (f, line_of (translator n) f, n')" "f MEM_CHANNEL = 0"
    "parts_fit (translator n) f" "same_scheme (translator n) (translator n')" "replacementPolicy n' = Some l'" "tags_ok (translator n) l'"
    "lru_m l' a = Some (line_of (translator n) f)" by blast
  have "parts_fit tr f" using f(3) tags_at_fit [OF assms(1)] by simp
  moreover have "tags_at tr l' n'" using f(4-6) assms(1) tags_ok_scheme [of tr "translator n" l'] by (auto simp: tags_at_def intro: same_scheme_trans)
  ultimately show ?thesis using f(1,2,7) tags_at_line [OF assms(1)] by auto
qed

text \<open>Only the decoder, the tags and the counters change until a request is issued.\<close>

definition tag_only :: "NVMain \<Rightarrow> NVMain \<Rightarrow> bool" where
  "tag_only n n' \<longleftrightarrow> (\<exists>tr l t. n' = n\<lparr>translator := tr, replacementPolicy := l, tag_stats := t\<rparr>)"

lemma tag_onlyI: "tag_only n (n\<lparr>translator := tr, replacementPolicy := l, tag_stats := t\<rparr>)"
  by (auto simp: tag_only_def)

lemma tag_only_trans: "tag_only a b \<Longrightarrow> tag_only b c \<Longrightarrow> tag_only a c"
  unfolding tag_only_def by (elim exE) (simp, blast)

lemma tag_only_count [simp]: "tag_only n (count_tag f n)"
  using tag_onlyI [where n = n and tr = "translator n" and l = "replacementPolicy n" and t = "f (tag_stats n)"] by (simp add: count_tag_def)

lemma nv_decode_only: "nv_decode a n = Some (f, n') \<Longrightarrow> tag_only n n'"
  using tag_onlyI [where n = n and l = "replacementPolicy n" and t = "tag_stats n"] by (auto simp: nv_decode_def bind_eq_Some_conv)

lemma nv_encode_only: "nv_encode f n = Some (a, n') \<Longrightarrow> tag_only n n'"
  using tag_onlyI [where n = n and l = "replacementPolicy n" and t = "tag_stats n"] by (auto simp: nv_encode_def bind_eq_Some_conv)

lemma redirect_only: "redirect rp f (n, s) = Some (n', s') \<Longrightarrow> tag_only n n'"
  by (auto simp: redirect_def bind_eq_Some_conv dest: nv_encode_only)

lemma tag_get_only: "tag_get a n = Some (v, found, n') \<Longrightarrow> tag_only n n'"
  using tag_onlyI [where n = n and tr = "translator n" and t = "tag_stats n"] by (auto simp: tag_get_def bind_eq_Some_conv)

text \<open>The replacement of a line, up to the read of its old contents.\<close>

lemma replace_at:
  assumes "tags_at tr l n" "channel_of tr a \<noteq> 0" "LRU_isFull l" "replace_line a d (n, s) = Some st'"
  shows "\<exists>v l'. lru_m l (last (lru_dq l)) = Some v \<and> tags_at tr l' (fst st') \<and> lru_m l' a = Some v
    \<and> (last (lru_dq l) \<noteq> a \<longrightarrow> lru_m l' (last (lru_dq l)) = None) \<and> inverseMap (fst st') = (inverseMap n)(v \<mapsto> a)"
proof -
  have at: "same_scheme tr (translator n)" "replacementPolicy n = Some l" "tags_ok tr l" using assms(1) by (simp_all add: tags_at_def)
  obtain v l1 where v: "LRU_removeLRU l = Some (v, l1)" "tags_ok tr l1" "lru_m l (last (lru_dq l)) = Some v" "lru_m l1 = (lru_m l)(last (lru_dq l) := None)"
    using tags_ok_remove [OF at(3) assms(3)] by blast
  have "channel_of tr v = 0" using at(3) v(3) unfolding tags_ok_def by blast
  then obtain l2 where l2: "LRU_put a v l1 = Some l2" "tags_ok tr l2" "lru_m l2 a = Some v" "\<forall>x. x \<noteq> a \<and> lru_m l2 x \<noteq> None \<longrightarrow> lru_m l2 x = lru_m l1 x"
    using tags_ok_put [OF v(2) assms(2)] by blast
  let ?n = "n\<lparr>replacementPolicy := Some l2, inverseMap := (inverseMap n)(v \<mapsto> a)\<rparr>"
  obtain f n2 where n2: "nv_decode v ?n = Some (f, n2)" "tag_frame ?n n2"
    using decode_at [of tr l2 ?n v] at(1) l2(2) by (auto simp: tags_at_def)
  obtain rd n3 s3 ok where n3: "issue_past_tag rd (n3, s3) = Some (ok, st')" "translator n3 = translator n2" "replacementPolicy n3 = replacementPolicy n2"
    "inverseMap n3 = inverseMap n2"
    using assms(4) unfolding replace_line_def
    by (simp add: tag_put_def at(2) v(1) l2(1) n2(1) new_request_def Let_def) (elim bind_eq_SomeE; clarsimp elim!: bind_eq_SomeE)
  then have "same_scheme (translator n2) (translator (fst st')) \<and> replacementPolicy (fst st') = replacementPolicy n2 \<and> inverseMap (fst st') = inverseMap n2"
    using issue_past_tag_frame [OF n3(1)] by (simp add: tag_frame_def)
  then have "tags_at tr l2 (fst st')" "inverseMap (fst st') = (inverseMap n)(v \<mapsto> a)"
    using n2(2) at(1) l2(2) same_scheme_trans by (auto simp: tags_at_def tag_frame_def)
  moreover have "last (lru_dq l) \<noteq> a \<longrightarrow> lru_m l2 (last (lru_dq l)) = None" using l2(4) v(4) by fastforce
  ultimately show ?thesis using v(3) l2(3) by blast
qed

section \<open>Routing\<close>

text \<open>The request after it was sent to the fields \<open>g\<close>.\<close>

definition sent_to :: "AddressTranslator \<Rightarrow> (MemoryPartition \<Rightarrow> u64) \<Rightarrow> NVMainRequest \<Rightarrow> NVMainRequest \<Rightarrow> bool" where
  "sent_to tr g r r' \<longleftrightarrow> physicalAddress (address r') = line_of tr g \<and> translated (address r') \<and> channel (address r') = g MEM_CHANNEL
     \<and> rtype r' = rtype r \<and> rdata r' = rdata r \<and> flags r' = flags r"

lemma redirect_sent:
  assumes "tags_at tr l n" "parts_fit tr f" "requests s rp = Some r"
  shows "\<exists>n' s' r'. redirect rp f (n, s) = Some (n', s') \<and> tags_at tr l n' \<and> tag_frame n n' \<and> requests s' rp = Some r' \<and> sent_to tr f r r'"
  using redirect_at [OF assms] by (auto simp: sent_to_def set_fields_def SetTranslatedAddress_def SetPhysicalAddress_def)

lemma tag_hit_routes:
  assumes "tags_at tr l n" "requests s rp = Some r"
  shows "\<exists>n' s' r'. tag_hit rp v (n, s) = Some (parts_at tr v, n', s') \<and> tags_at tr l n' \<and> requests s' rp = Some r' \<and> sent_to tr (parts_at tr v) r r'"
proof -
  obtain n1 where 1: "nv_decode v (count_tag (\<lambda>t. t\<lparr>reqsHit := reqsHit t + 1\<rparr>) n) = Some (parts_at tr v, n1)" "tags_at tr l n1"
    using decode_at [of tr l "count_tag (\<lambda>t. t\<lparr>reqsHit := reqsHit t + 1\<rparr>) n" v] assms(1) by auto
  let ?f = "\<lambda>t. if rtype r = READ then t\<lparr>RDHit := RDHit t + 1\<rparr> else if rtype r = WRITE then t\<lparr>WRHit := WRHit t + 1\<rparr> else t"
  obtain n2 s2 r2 where "redirect rp (parts_at tr v) (count_tag ?f n1, s) = Some (n2, s2)" "tags_at tr l n2" "requests s2 rp = Some r2" "sent_to tr (parts_at tr v) r r2"
    using redirect_sent [of tr l "count_tag ?f n1" "parts_at tr v" s rp r] 1(2) fit_at [OF 1(2)] assms(2) by auto
  then show ?thesis using 1(1) assms(2) by (simp add: tag_hit_def Let_def)
qed

lemma tag_miss_routes:
  assumes "tags_at tr l n" "requests s rp = Some r" "parts_fit tr f" "channel_of tr (physicalAddress (address r)) \<noteq> 0" "rtype r \<noteq> WRITE \<or> \<not> LRU_isFull l"
  shows "\<exists>g n' s' r' l'. tag_miss rp f (n, s) = Some (Some g, n', s') \<and> tags_at tr l' n' \<and> requests s' rp = Some r' \<and> sent_to tr g r r'
    \<and> (if rtype r = WRITE then lru_m l' (physicalAddress (address r)) = Some (line_of tr g) \<and> g MEM_CHANNEL = 0
       else g = f \<and> l' = l)"
proof (cases "rtype r = WRITE")
  case True
  let ?n = "count_tag (\<lambda>t. t\<lparr>WRMiss := WRMiss t + 1\<rparr>) (count_tag (\<lambda>t. t\<lparr>reqsMiss := reqsMiss t + 1\<rparr>) n)"
  obtain g n1 l1 where 1: "allocate_line (physicalAddress (address r)) ?n = Some (g, line_of tr g, n1)" "tags_at tr l1 n1"
    "lru_m l1 (physicalAddress (address r)) = Some (line_of tr g)" "g MEM_CHANNEL = 0" "parts_fit tr g"
    using allocate_at [of tr l ?n "physicalAddress (address r)"] assms(1,4) by auto
  obtain n2 s2 r2 where "redirect rp g (n1, s) = Some (n2, s2)" "tags_at tr l1 n2" "requests s2 rp = Some r2" "sent_to tr g r r2"
    using redirect_sent [OF 1(2,5) assms(2)] by blast
  moreover have "replacementPolicy n = Some l" "\<not> LRU_isFull l" using assms(1,5) True by (simp_all add: tags_at_def)
  ultimately show ?thesis using 1 assms(2) True by (auto simp: tag_miss_def Let_def)
next
  case False
  let ?n = "count_tag (\<lambda>t. t\<lparr>RDMiss := RDMiss t + 1\<rparr>) (count_tag (\<lambda>t. t\<lparr>reqsMiss := reqsMiss t + 1\<rparr>) n)"
  obtain n2 s2 r2 where "redirect rp f (?n, s) = Some (n2, s2)" "tags_at tr l n2" "requests s2 rp = Some r2" "sent_to tr f r r2"
    using redirect_sent [of tr l ?n f s rp r] assms(1-3) by auto
  then show ?thesis using assms(2) False by (auto simp: tag_miss_def Let_def)
qed

end
