(* ===== verification/Tag_Invariant.thy ===== *)
theory Tag_Invariant
  imports Tag_Routing
begin

text \<open>
  The invariant of the tag cache, which every operation of the memory system keeps.
\<close>

section \<open>The first steps of a lookup\<close>

lemma tag_lookup_start:
  assumes "tags_at tr l n" "parts_fit tr f" "requests s rp = Some r"
  shows "\<exists>l' n' s' r'. tags_at tr l' n' \<and> lru_m l' = lru_m l \<and> (lru_m l (line_of tr (f(MEM_CHANNEL := 1))) = None \<longrightarrow> l' = l)
    \<and> tag_only n n' \<and> requests s' rp = Some r' \<and> sent_to tr (f(MEM_CHANNEL := 1)) r r'
    \<and> tag_lookup rp f (n, s) = (case lru_m l (line_of tr (f(MEM_CHANNEL := 1))) of
        Some v \<Rightarrow> do { (g, st) \<leftarrow> tag_hit rp v (n', s'); Some (Some g, st) } | None \<Rightarrow> tag_miss rp (f(MEM_CHANNEL := 1)) (n', s'))"
proof -
  let ?f = "f(MEM_CHANNEL := 1)" let ?n = "count_tag (\<lambda>t. t\<lparr>totalReqs := totalReqs t + 1\<rparr>) n"
  have fit: "parts_fit tr ?f" using channel_parts_fit [of tr l f] assms(1,2) by (simp add: tags_at_def)
  obtain n1 s1 r1 where 1: "redirect rp ?f (?n, s) = Some (n1, s1)" "tags_at tr l n1" "tag_frame n n1" "requests s1 rp = Some r1" "sent_to tr ?f r r1"
    using redirect_sent [of tr l ?n ?f s rp r] assms(1,3) fit by auto
  let ?a = "line_of tr ?f" let ?v = "case lru_m l ?a of None \<Rightarrow> 0 | Some v \<Rightarrow> v"
  have a: "physicalAddress (address r1) = ?a" using 1(5) by (simp add: sent_to_def)
  obtain l2 n2 where 2: "tag_get ?a n1 = Some (?v, lru_m l ?a \<noteq> None, n2)" "tags_at tr l2 n2" "lru_m l2 = lru_m l" "inverseMap n2 = inverseMap n1" "lru_m l ?a = None \<longrightarrow> l2 = l"
    using get_at [OF 1(2)] by blast
  obtain n3 where 3: "nv_decode ?v n2 = Some (parts_at tr ?v, n3)" "tags_at tr l2 n3" "tag_frame n2 n3" using decode_at [OF 2(2)] by blast
  have "tag_lookup rp f (n, s) = (case lru_m l ?a of
        Some v \<Rightarrow> do { (g, st) \<leftarrow> tag_hit rp v (n3, s1); Some (Some g, st) } | None \<Rightarrow> tag_miss rp ?f (n3, s1))"
    using 1(1,4) 2(1) 3(1) by (simp add: tag_lookup_def Let_def a split: option.splits)
  moreover have "tag_only n n3"
    using tag_only_trans [OF tag_only_count] tag_only_trans redirect_only [OF 1(1)] tag_get_only [OF 2(1)] nv_decode_only [OF 3(1)] by blast
  ultimately show ?thesis using 1(4,5) 2(3,5) 3(2)
    by - (rule exI [of _ l2], rule exI [of _ n3], rule exI [of _ s1], rule exI [of _ r1], simp)
qed

section \<open>The invariant\<close>

lemma tag_miss_ok:
  assumes "tags_at tr l n" "requests s rp = Some r" "parts_fit tr f" "channel_of tr (physicalAddress (address r)) \<noteq> 0" "tag_miss rp f (n, s) = Some (g, st')"
  shows "\<exists>l'. tags_at tr l' (fst st')"
proof (cases "rtype r \<noteq> WRITE \<or> \<not> LRU_isFull l")
  case True
  then show ?thesis using tag_miss_routes [OF assms(1-4)] assms(5) by fastforce
next
  case False
  let ?n = "count_tag (\<lambda>t. t\<lparr>tagReplacements := tagReplacements t + 1\<rparr>) (count_tag (\<lambda>t. t\<lparr>WRMiss := WRMiss t + 1\<rparr>) (count_tag (\<lambda>t. t\<lparr>reqsMiss := reqsMiss t + 1\<rparr>) n))"
  have p: "replacementPolicy n = Some l" using assms(1) by (simp add: tags_at_def)
  have at: "tags_at tr l ?n" using assms(1) by simp
  have "replace_line (physicalAddress (address r)) (rdata r) (?n, s) = Some st'"
    using assms(2,5) False p by (auto simp: tag_miss_def Let_def bind_eq_Some_conv)
  then show ?thesis using replace_at [OF at assms(4)] False by blast
qed

lemma tag_lookup_ok:
  assumes "tag_ok n" "parts_fit (translator n) f" "tag_lookup rp f (n, s) = Some (g, st')"
  shows "tag_ok (fst st')"
proof -
  obtain l where l: "tags_at (translator n) l n" using assms(1) tags_at_ok by blast
  obtain r where r: "requests s rp = Some r"
    using assms(3) by (cases "requests s rp") (simp_all add: tag_lookup_def redirect_def Let_def)
  let ?a = "line_of (translator n) (f(MEM_CHANNEL := 1))"
  obtain l1 n1 s1 r1 where 1: "tags_at (translator n) l1 n1" "requests s1 rp = Some r1" "sent_to (translator n) (f(MEM_CHANNEL := 1)) r r1"
    "tag_lookup rp f (n, s) = (case lru_m l ?a of
        Some v \<Rightarrow> do { (g, st) \<leftarrow> tag_hit rp v (n1, s1); Some (Some g, st) } | None \<Rightarrow> tag_miss rp (f(MEM_CHANNEL := 1)) (n1, s1))"
    using tag_lookup_start [OF l assms(2) r] by blast
  have fit: "parts_fit (translator n) (f(MEM_CHANNEL := 1))" using channel_parts_fit assms(2) l by (auto simp: tags_at_def)
  then have a: "channel_of (translator n) (physicalAddress (address r1)) \<noteq> 0" using line_of_channel [OF l] 1(3) by (simp add: sent_to_def)
  show ?thesis
  proof (cases "lru_m l ?a")
    case None
    then have "tag_miss rp (f(MEM_CHANNEL := 1)) (n1, s1) = Some (g, st')" using 1(4) assms(3) by simp
    then show ?thesis using tag_miss_ok [OF 1(1,2) fit a] ok_tags_at by blast
  next
    case (Some v)
    then show ?thesis using tag_hit_routes [OF 1(1,2), of v] 1(4) assms(3) ok_tags_at by fastforce
  qed
qed

lemma tag_ok_frame: "tag_ok n \<Longrightarrow> tag_frame n n' \<Longrightarrow> tag_ok n'"
  using tags_at_frame ok_tags_at unfolding tags_at_ok by blast

lemma accept_request_fit:
  assumes "translator_wf (translator (fst st))" "accept_request rp st = Some (hit, f, st')"
  shows "parts_fit (translator (fst st')) f"
proof -
  have "\<exists>a n1. nv_decode a (fst st) = Some (f, n1)"
    using assms(2) by (auto simp: accept_request_def Let_def bind_eq_Some_conv split: prod.splits if_splits)
  then have "parts_fit (translator (fst st)) f"
    using nv_decode_total [OF assms(1)] decode_total(2) [OF assms(1)] by (metis option.inject prod.inject)
  then show ?thesis using same_scheme_wf(2) accept_request_frame [OF assms(2)] by (metis tag_frame_def)
qed

lemma IssueCommand_ok:
  assumes "tag_ok (fst st)" "NVMain_IssueCommand rp st = Some (ok, st')"
  shows "tag_ok (fst st')"
proof (cases "nv_configured (fst st)")
  case True
  obtain hit f st1 where 1: "accept_request rp st = Some (hit, f, st1)"
    using assms(2) True by (auto simp: NVMain_IssueCommand_def bind_eq_Some_conv)
  have wf: "translator_wf (translator (fst st))" using assms(1) by (auto simp: tag_ok_def tags_ok_def)
  have ok: "tag_ok (fst st1)" using tag_ok_frame [OF assms(1) accept_request_frame [OF 1]] .
  have "(\<exists>c st2. tag_ok (fst st2) \<and> issue_to_channel c rp st2 = Some (ok, st')) \<or> tag_ok (fst st')"
    using assms(2) True ok tag_lookup_ok [of "fst st1" f rp "snd st1"] accept_request_fit [OF wf 1]
    by (auto simp: NVMain_IssueCommand_def 1 bind_eq_Some_conv simp del: split_paired_Ex split_paired_All split: if_split_asm option.split_asm) (metis fst_conv)
  then show ?thesis using tag_ok_frame issue_to_channel_frame by blast
next
  case False
  then show ?thesis using assms by (simp add: NVMain_IssueCommand_def)
qed

lemma fill_line_frame: "fill_line a f d st = Some st' \<Longrightarrow> tag_frame (fst st) (fst st')"
proof -
  assume "fill_line a f d st = Some st'"
  then obtain wr s1 ok where "issue_past_tag wr ((fst st)\<lparr>DRAMWriteSize := bump_size (DRAMWriteSize (fst st))\<rparr>, s1) = Some (ok, st')"
    by (cases st) (auto simp: fill_line_def bind_eq_Some_conv)
  from issue_past_tag_frame [OF this] show ?thesis by (simp add: tag_frame_def)
qed

lemma fill_present_frame: "fill_present v d st = Some st' \<Longrightarrow> tag_frame (fst st) (fst st')"
  unfolding fill_present_def
  by (cases st) (auto elim!: bind_eq_SomeE dest!: nv_decode_frame nv_encode_frame fill_line_frame, meson tag_frame_trans)

lemma fill_absent_ok:
  assumes "tags_at tr l n" "channel_of tr a \<noteq> 0" "fill_absent a d (n, s) = Some st'"
  shows "tag_ok (fst st')"
proof -
  have p: "replacementPolicy n = Some l" using assms(1) by (simp add: tags_at_def)
  show ?thesis
  proof (cases "LRU_isFull l")
    case True
    let ?n = "count_tag (\<lambda>t. t\<lparr>RD_Replc := RD_Replc t + 1\<rparr>) n"
    have "replace_line a d (?n, s) = Some st'" using assms(3) True p by (simp add: fill_absent_def)
    moreover have "tags_at tr l ?n" using assms(1) by simp
    ultimately show ?thesis using replace_at [OF _ assms(2) True] ok_tags_at by blast
  next
    case False
    let ?n = "count_tag (\<lambda>t. t\<lparr>RD_Clean := RD_Clean t + 1\<rparr>) n"
    have at: "tags_at tr l ?n" using assms(1) by simp
    obtain g n1 l1 where 1: "allocate_line a ?n = Some (g, line_of tr g, n1)" "tags_at tr l1 n1" using allocate_at [OF at assms(2)] by blast
    then have "fill_line (line_of tr g) g d (n1, s) = Some st'" using assms(3) False p by (simp add: fill_absent_def)
    then show ?thesis using fill_line_frame tags_at_frame [OF 1(2)] ok_tags_at by fastforce
  qed
qed

lemma fill_on_read_ok:
  assumes "tag_ok (fst st)" "fill_on_read rp st = Some st'"
  shows "tag_ok (fst st')"
proof -
  obtain n s where st: "st = (n, s)" by (cases st)
  obtain r where r: "requests s rp = Some r" using assms(2) st by (cases "requests s rp") (simp_all add: fill_on_read_def)
  obtain l tr where l: "tags_at tr l n" using assms(1) st tags_at_ok by auto
  let ?n = "count_tag (\<lambda>t. t\<lparr>readsOps := readsOps t + 1\<rparr>) n"
  obtain f n1 where 1: "nv_decode (physicalAddress (address r)) ?n = Some (f, n1)" "tags_at tr l n1" "parts_fit tr f"
    using decode_at [of tr l ?n] l fit_at [OF l] by fastforce
  show ?thesis
  proof (cases "f MEM_CHANNEL = 0")
    case True
    then show ?thesis using assms(2) 1(1) r st ok_tags_at [OF 1(2)] by (auto simp: fill_on_read_def)
  next
    case False
    let ?n1 = "count_tag (\<lambda>t. t\<lparr>readsNotDRAM := readsNotDRAM t + 1\<rparr>) n1"
    let ?a = "line_of tr f"
    obtain n2 where 2: "nv_encode f ?n1 = Some (?a, n2)" "tags_at tr l n2" using encode_at [of tr l ?n1 f] 1(2,3) by auto
    have a: "channel_of tr ?a \<noteq> 0" using line_of_channel [OF 2(2) 1(3)] False by simp
    obtain v found n3 l3 where 3: "tag_get ?a n2 = Some (v, found, n3)" "tags_at tr l3 n3" using get_at [OF 2(2)] by blast
    obtain g n4 where 4: "nv_decode v n3 = Some (g, n4)" "tags_at tr l3 n4" using decode_at [OF 3(2)] by blast
    let ?s = "put_request rp (r\<lparr>address := SetPhysicalAddress ?a (address r)\<rparr>) s"
    have e: "(if found then fill_present v (rdata r) (n4, ?s) else fill_absent ?a (rdata r) (n4, ?s)) = Some st'"
      using assms(2) False by (simp add: fill_on_read_def st r 1(1) 2(1) 3(1) 4(1) Let_def)
    show ?thesis
    proof (cases found)
      case True
      then show ?thesis using e fill_present_frame tags_at_frame [OF 4(2)] ok_tags_at by fastforce
    next
      case False
      then show ?thesis using e fill_absent_ok [OF 4(2) a] by simp
    qed
  qed
qed

text \<open>What is not about tags keeps the invariant.\<close>

lemma tag_ok_same: "tag_ok n \<Longrightarrow> translator n' = translator n \<Longrightarrow> replacementPolicy n' = replacementPolicy n \<Longrightarrow> tag_ok n'"
  by (simp add: tag_ok_def)

lemma writeback_target_ok:
  assumes "tag_ok n" "writeback_target a n = Some (b, f, n')"
  shows "tag_ok n'"
proof -
  let ?n = "n\<lparr>inverseMap := (inverseMap n)(a \<mapsto> case inverseMap n a of None \<Rightarrow> 0 | Some x \<Rightarrow> x)\<rparr>"
  obtain g n1 where "nv_decode (case inverseMap n a of None \<Rightarrow> 0 | Some x \<Rightarrow> x) ?n = Some (g, n1)" "nv_encode (g(MEM_CHANNEL := 1)) n1 = Some (b, n')"
    using assms(2) by (auto simp: writeback_target_def Let_def bind_eq_Some_conv)
  then have "tag_frame ?n n'" using nv_decode_frame nv_encode_frame tag_frame_trans by blast
  moreover have "tag_ok ?n" using assms(1) by (rule tag_ok_same) simp_all
  ultimately show ?thesis using tag_ok_frame by blast
qed

lemma write_back_ok:
  assumes "tag_ok (fst st)" "write_back a d st = Some st'"
  shows "tag_ok (fst st')"
proof (cases "take_waiting a (waitingDRAMWrite (fst st)) (snd st) = Some None")
  case True
  then show ?thesis using assms by (simp add: write_back_def)
next
  case False
  then obtain wr rest n1 s1 ok b f n2 nw s3 ok3 where
    1: "issue_past_tag wr st = Some (ok, n1, s1)" "writeback_target a (n1\<lparr>waitingDRAMWrite := rest\<rparr>) = Some (b, f, n2)"
    "issue_past_tag nw (n2\<lparr>NVWtoDRW := (NVWtoDRW n2)(b \<mapsto> a), NVRAMWriteSize := bump_size (NVRAMWriteSize n2)\<rparr>, s3) = Some (ok3, st')"
    using assms(2) unfolding write_back_def Let_def by (elim bind_eq_SomeE) (auto elim!: bind_eq_SomeE split: option.split_asm)
  have "tag_ok n1" using tag_ok_frame [OF assms(1)] issue_past_tag_frame [OF 1(1)] by simp
  then have "tag_ok n2" using writeback_target_ok [OF _ 1(2)] tag_ok_same by fastforce
  then have "tag_ok (n2\<lparr>NVWtoDRW := (NVWtoDRW n2)(b \<mapsto> a), NVRAMWriteSize := bump_size (NVRAMWriteSize n2)\<rparr>)" by (rule tag_ok_same) simp_all
  then show ?thesis using tag_ok_frame issue_past_tag_frame [OF 1(3)] by simp
qed

lemma issue_pending_ok:
  assumes "tag_ok (fst st)" "issue_pending st = Some st'"
  shows "tag_ok (fst st')"
proof -
  have q: "NVMain_IsIssuable r n = Some (ok, n') \<Longrightarrow> tag_frame n n'" for r n ok n'
    by (auto simp: NVMain_IsIssuable_def bind_eq_Some_conv dest: nv_decode_frame)
  show ?thesis
  proof (cases "pendingMemoryRequests (fst st)")
    case (Cons x xs)
    then obtain r ok n1 where 1: "NVMain_IsIssuable r (fst st) = Some (ok, n1)"
      "(if ok then do { (_, n, s) \<leftarrow> NVMain_IssueCommand x (n1, snd st); Some (n\<lparr>pendingMemoryRequests := tl (pendingMemoryRequests n)\<rparr>, s) }
        else Some (n1, snd st)) = Some st'"
      using assms(2) by (simp add: issue_pending_def) (elim bind_eq_SomeE, auto split del: if_split)
    have n1: "tag_ok n1" using tag_ok_frame [OF assms(1) q [OF 1(1)]] .
    show ?thesis
    proof (cases ok)
      case True
      then obtain z n2 s2 where "NVMain_IssueCommand x (n1, snd st) = Some (z, n2, s2)" "fst st' = n2\<lparr>pendingMemoryRequests := tl (pendingMemoryRequests n2)\<rparr>"
        using 1(2) by (auto simp: bind_eq_Some_conv)
      moreover from this(1) have "tag_ok n2" using IssueCommand_ok [of "(n1, snd st)"] n1 by fastforce
      ultimately show ?thesis using tag_ok_same [of n2] by simp
    next
      case False
      then show ?thesis using 1(2) n1 by auto
    qed
  qed (use assms in \<open>simp add: issue_pending_def\<close>)
qed

lemma keep_prefetch_ok: "tag_ok (fst st) \<Longrightarrow> keep_prefetch p rp st = Some st' \<Longrightarrow> tag_ok (fst st')"
  by (cases st) (auto simp: keep_prefetch_def bind_eq_Some_conv split: if_split_asm intro: tag_ok_same)

lemma complete_own_ok:
  assumes "tag_ok (fst st)" "complete_own p rp st = Some (up, st')"
  shows "tag_ok (fst st')"
  using assms(2) unfolding complete_own_def
  by (elim bind_eq_SomeE) (use assms(1) in \<open>auto elim!: bind_eq_SomeE split: if_split_asm dest!: keep_prefetch_ok [OF assms(1)] write_back_ok [OF assms(1)]\<close>)

lemma RequestComplete_ok:
  assumes "tag_ok (fst st)" "NVMain_RequestComplete p rp st = Some (up, st')"
  shows "tag_ok (fst st')"
proof -
  obtain r st1 st2 where 1: "(if rtype r = READ \<and> nv_useTagCache (fst st) \<and> \<not> skips_tag r \<and> \<not> isPrefetch r then fill_on_read rp st else Some st) = Some st1"
    "complete_own p rp st1 = Some (up, st2)" "issue_pending st2 = Some st'"
    using assms(2) unfolding NVMain_RequestComplete_def by (elim bind_eq_SomeE) (auto elim!: bind_eq_SomeE split del: if_split)
  have "tag_ok (fst st1)" using 1(1) assms(1) fill_on_read_ok [OF assms(1)] by (auto split: if_split_asm)
  then show ?thesis using complete_own_ok [OF _ 1(2)] issue_pending_ok [OF _ 1(3)] by blast
qed

end
