(* ===== verification/Tag_Properties.thy ===== *)
theory Tag_Properties
  imports Tag_Invariant
begin

text \<open>
  The properties of the memory system with its tag cache: what the tags hold at any time, where requests go, and
  what happens to a line that is replaced.
\<close>

section \<open>Runs of the memory system\<close>

text \<open>The controllers, and the state that all objects share, may change between the calls.\<close>

inductive system_run :: "NVMain \<Rightarrow> NVMain \<Rightarrow> bool" for n0 where
  configured: "system_run n0 n0"
| issue: "system_run n0 n \<Longrightarrow> NVMain_IssueCommand rp (n, s) = Some (ok, n', s') \<Longrightarrow> system_run n0 n'"
| complete: "system_run n0 n \<Longrightarrow> NVMain_RequestComplete p rp (n, s) = Some (up, n', s') \<Longrightarrow> system_run n0 n'"
| enqueue: "system_run n0 n \<Longrightarrow> system_run n0 (EnqueuePendingMemoryRequests rp n)"
| controllers: "system_run n0 n \<Longrightarrow> system_run n0 (n\<lparr>memoryControllers := cs\<rparr>)"

lemma system_run_ok: "system_run n0 n \<Longrightarrow> tag_ok n0 \<Longrightarrow> tag_ok n"
proof (induction rule: system_run.induct)
  case (issue n rp s ok n' s')
  then show ?case using IssueCommand_ok [of "(n, s)"] by fastforce
next
  case (complete n p rp s up n' s')
  then show ?case using RequestComplete_ok [of "(n, s)"] by fastforce
qed (auto simp: EnqueuePendingMemoryRequests_def intro: tag_ok_same)

lemma SetConfig_ok:
  assumes "NVMain_SetConfig p True mat m0 dec mk ps g = Some n" "useTagCache p" "translator_wf (translator n)"
    "1 \<le> width (the (method (translator n))) MEM_CHANNEL"
  shows "tag_ok n"
proof -
  have "replacementPolicy n = Some (LRU_new 1048576)"
    using assms(1,2) by (auto simp: NVMain_SetConfig_def Let_def bind_eq_Some_conv split: if_split_asm)
  moreover have "lru_ok (LRU_new 1048576)" by (rule lru_ok_new) simp
  ultimately show ?thesis using assms(3,4) by (simp add: tag_ok_def tags_ok_def LRU_new_def)
qed

section \<open>The write-back\<close>

lemma writeback_at:
  assumes "tags_at tr l n" "inverseMap n v = Some (line_of tr f)" "parts_fit tr f" "f MEM_CHANNEL = 1"
  shows "\<exists>g n'. writeback_target v n = Some (line_of tr f, g, n')"
proof -
  let ?a = "line_of tr f" let ?n = "n\<lparr>inverseMap := (inverseMap n)(v \<mapsto> ?a)\<rparr>" let ?g = "(parts_at tr ?a)(MEM_CHANNEL := 1)"
  have wf: "translator_wf tr" "tags_at tr l ?n" using assms(1) by (simp_all add: tags_at_def tags_ok_def)
  obtain n1 where 1: "nv_decode ?a ?n = Some (parts_at tr ?a, n1)" "tags_at tr l n1" using decode_at [OF wf(2)] by blast
  have g: "parts_fit tr ?g" using channel_parts_fit [of tr l "parts_at tr ?a"] fit_at [OF assms(1)] assms(1) by (simp add: tags_at_def)
  have "\<forall>p. p \<noteq> MEM_UNKNOWN \<longrightarrow> ?g p = f p" using encode_total(2) [OF wf(1) assms(3)] assms(4) by simp
  then have "line_of tr ?g = ?a" using line_of_cong [OF wf(1) assms(3) same_scheme_refl] by blast
  then obtain n2 where "nv_encode ?g n1 = Some (?a, n2)" using encode_at [OF 1(2) g] by auto
  then show ?thesis using 1(1) assms(2) by (simp add: writeback_target_def Let_def)
qed

section \<open>A refused read\<close>

lemma GetChild_channel:
  assumes "translated (address r)" "defaultField tr = CHANNEL_FIELD" "unat (channel (address r)) < length cs"
  shows "GetChild_req r tr cs = Some (unat (channel (address r)), tr)"
  using assms by (simp add: GetChild_req_def TranslateRequest_def)

lemma issue_past_tag_refused:
  assumes "tags_at tr l n" "nv_configured n" "prefetchBuffer n = []" "defaultField tr = CHANNEL_FIELD" "requests s rp = Some r"
    and "channel_of tr (physicalAddress (address r)) = 0" "memoryControllers n = Ctl_FCFS c # cs" "scheduler_IsIssuable c = Some False"
  shows "\<exists>n' s'. issue_past_tag rp (n, s) = Some (False, n', s') \<and> memoryControllers n' = memoryControllers n"
proof -
  let ?f = "parts_at tr (physicalAddress (address r))" let ?r = "r\<lparr>address := set_fields ?f (address r), bulkCmd := CMD_NOP\<rparr>"
  obtain tr1 where 1: "nv_decode (physicalAddress (address r)) n = Some (?f, n\<lparr>translator := tr1\<rparr>)" "same_scheme (translator n) tr1"
    using nv_decode_total [OF tags_at_wf [OF assms(1)]] tags_at_parts [OF assms(1)] by metis
  have a: "accept_request rp (n, s) = Some (False, ?f, n\<lparr>translator := tr1\<rparr>, put_request rp ?r s)"
    using assms(3,5) 1(1) by (simp add: accept_request_def CheckPrefetch_def Let_def)
  have "defaultField tr1 = CHANNEL_FIELD" using assms(1,4) 1(2) by (simp add: tags_at_def same_scheme_def)
  then have g: "GetChild_req ?r tr1 (Ctl_FCFS c # cs) = Some (0, tr1)"
    using assms(6) GetChild_channel [of ?r tr1 "Ctl_FCFS c # cs"] by (simp add: set_fields_def SetTranslatedAddress_def)
  show ?thesis
    using assms(2,6,7,8) a g
    by (simp add: issue_past_tag_def issue_to_channel_def issue_child_def Controller_IssueCommand_def FCFS_IssueCommand_def)
qed

lemma replace_refused:
  assumes "tags_at tr l n" "channel_of tr a \<noteq> 0" "LRU_isFull l" "block_wf d"
    and "nv_configured n" "prefetchBuffer n = []" "defaultField tr = CHANNEL_FIELD" "memoryControllers n = Ctl_FCFS c # cs" "scheduler_IsIssuable c = Some False"
  shows "\<exists>n' s'. replace_line a d (n, s) = Some (n', s') \<and> memoryControllers n' = memoryControllers n"
proof -
  have at: "same_scheme tr (translator n)" "replacementPolicy n = Some l" "tags_ok tr l" using assms(1) by (simp_all add: tags_at_def)
  obtain v l1 where v: "LRU_removeLRU l = Some (v, l1)" "tags_ok tr l1" "lru_m l (last (lru_dq l)) = Some v"
    using tags_ok_remove [OF at(3) assms(3)] by blast
  have ch: "channel_of tr v = 0" using at(3) v(3) unfolding tags_ok_def by blast
  then obtain l2 where l2: "LRU_put a v l1 = Some l2" "tags_ok tr l2" using tags_ok_put [OF v(2) assms(2)] by blast
  let ?n = "n\<lparr>replacementPolicy := Some l2, inverseMap := (inverseMap n)(v \<mapsto> a)\<rparr>" let ?f = "parts_at tr v"
  have "tags_at tr l2 ?n" using at(1) l2(2) by (simp add: tags_at_def)
  then obtain n2 where n2: "nv_decode v ?n = Some (?f, n2)" "tags_at tr l2 n2" using decode_at by blast
  have o: "tag_only ?n n2" using nv_decode_only [OF n2(1)] .
  obtain d2 where d2: "NVMDataBlock_assign (\<lambda>_. 0) d NVMDataBlock_new = Some d2" using NVMDataBlock_assign_new [OF assms(4)] by blast
  obtain buf where buf: "SetSize (\<lambda>_. 0) 64 NVMDataBlock_new = Some buf" by (simp add: SetSize_def NVMDataBlock_new_def)
  define wr where "wr = new_request (line_request WRITE v ?f (FLAG_EVICT OR FLAG_SKIP_TAG) d2 n2) s"
  define n3 where "n3 = n2\<lparr>waitingDRAMWrite := waitingDRAMWrite n2 @ [fst wr], DRAMWriteSize := bump_size (DRAMWriteSize n2)\<rparr>"
  define rd where "rd = new_request (line_request READ v ?f FLAG_EVICT buf n3) (snd wr)"
  have w: "new_line_write v ?f d (n2, s) = Some (fst wr, snd wr)" using d2 by (simp add: new_line_write_def wr_def)
  obtain r where r: "requests (snd rd) (fst rd) = Some r" "physicalAddress (address r) = v"
    by (simp add: rd_def new_request_def line_request_def set_fields_def SetTranslatedAddress_def SetPhysicalAddress_def)
  let ?n3 = "n3\<lparr>DRAMReadSize := bump_size (DRAMReadSize n3)\<rparr>"
  have "tags_at tr l2 ?n3" using n2(2) by (simp add: tags_at_def n3_def)
  moreover have "nv_configured ?n3" "prefetchBuffer ?n3 = []" "memoryControllers ?n3 = Ctl_FCFS c # cs"
    using o assms(5,6,8) by (auto simp: tag_only_def n3_def)
  ultimately obtain n' s' where i: "issue_past_tag (fst rd) (?n3, snd rd) = Some (False, n', s')" "memoryControllers n' = Ctl_FCFS c # cs"
    using issue_past_tag_refused [of tr l2 ?n3 "snd rd" "fst rd" r c cs] r ch assms(7,9) by auto
  have "replace_line a d (n, s) = Some (n', s')"
    using i(1) by (simp add: replace_line_def tag_put_def at(2) v(1) l2(1) n2(1) w buf Let_def case_prod_beta rd_def n3_def)
  then show ?thesis using i(2) assms(8) by simp
qed

lemma lookup_refused:
  assumes "tag_ok n" "replacementPolicy n = Some l" "LRU_isFull l" "parts_fit (translator n) f" "requests s rp = Some r" "rtype r = WRITE" "block_wf (rdata r)"
    and "lru_m l (line_of (translator n) (f(MEM_CHANNEL := 1))) = None"
    and "nv_configured n" "prefetchBuffer n = []" "defaultField (translator n) = CHANNEL_FIELD"
    and "memoryControllers n = Ctl_FCFS c # cs" "scheduler_IsIssuable c = Some False"
  shows "\<exists>n' s'. tag_lookup rp f (n, s) = Some (None, n', s') \<and> memoryControllers n' = memoryControllers n"
proof -
  let ?tr = "translator n" let ?f = "f(MEM_CHANNEL := 1)"
  have l: "tags_at ?tr l n" using assms(1,2) by (auto simp: tag_ok_def tags_at_def)
  obtain n1 s1 r1 where 1: "tags_at ?tr l n1" "tag_only n n1" "requests s1 rp = Some r1" "sent_to ?tr ?f r r1" "tag_lookup rp f (n, s) = tag_miss rp ?f (n1, s1)"
    using tag_lookup_start [OF l assms(4,5)] assms(8) by auto
  have fit: "parts_fit ?tr ?f" using channel_parts_fit assms(4) l by (auto simp: tags_at_def)
  have a: "channel_of ?tr (physicalAddress (address r1)) \<noteq> 0" "rtype r1 = WRITE" "block_wf (rdata r1)"
    using line_of_channel [OF l fit] 1(4) assms(6,7) by (simp_all add: sent_to_def)
  have p: "replacementPolicy n1 = Some l" using 1(1) by (simp add: tags_at_def)
  let ?n = "count_tag (\<lambda>t. t\<lparr>tagReplacements := tagReplacements t + 1\<rparr>) (count_tag (\<lambda>t. t\<lparr>WRMiss := WRMiss t + 1\<rparr>) (count_tag (\<lambda>t. t\<lparr>reqsMiss := reqsMiss t + 1\<rparr>) n1))"
  have "nv_configured ?n" "prefetchBuffer ?n = []" "memoryControllers ?n = Ctl_FCFS c # cs"
    using 1(2) assms(9,10,12) by (auto simp: tag_only_def count_tag_def)
  then obtain n' s' where "replace_line (physicalAddress (address r1)) (rdata r1) (?n, s1) = Some (n', s')" "memoryControllers n' = memoryControllers n"
    using replace_refused [of ?tr l ?n "physicalAddress (address r1)" "rdata r1" c cs s1] 1(1) a assms(3,11-13) by auto
  then show ?thesis using 1(3,5) p a(2) assms(3) by (simp add: tag_miss_def Let_def)
qed

section \<open>A system with one tag\<close>

text \<open>The tags have room for one line and hold one; the queue of the DRAM controller is full.\<close>

definition sample_scheme :: AddressTranslator where
  "sample_scheme = SetDefaultField CHANNEL_FIELD default_translator"

definition full_controller :: Controller where
  "full_controller = Ctl_FCFS ((scheduler_new (MemoryController_new 30 undefined) undefined)
     \<lparr>sch_mc := (MemoryController_new 30 undefined)\<lparr>transactionQueues := [[7]]\<rparr>, queueSize := 1\<rparr>)"

definition sample_tags :: LRU where
  "sample_tags = \<lparr>lru_size = 1, lru_m = [line_of sample_scheme ((\<lambda>_. 0)(MEM_CHANNEL := 1)) \<mapsto> line_of sample_scheme (\<lambda>_. 0)],
     lru_dq = [line_of sample_scheme ((\<lambda>_. 0)(MEM_CHANNEL := 1))]\<rparr>"

definition sample_system :: NVMain where
  "sample_system = (NVMain_new 0 undefined)\<lparr>nv_configured := True, nv_useTagCache := True, translator := sample_scheme,
     memoryControllers := [full_controller, full_controller], replacementPolicy := Some sample_tags\<rparr>"

definition sample_write :: sim where
  "sample_write = (bus_sim 10)\<lparr>requests := [0 \<mapsto> NVMainRequest_new\<lparr>rtype := WRITE\<rparr>]\<rparr>"

lemma sample_scheme_facts:
  "translator_wf sample_scheme" "width (the (method sample_scheme)) MEM_CHANNEL = 1" "defaultField sample_scheme = CHANNEL_FIELD"
  "parts_fit sample_scheme (\<lambda>_. 0)" "parts_fit sample_scheme ((\<lambda>_. 0)(MEM_CHANNEL := 1))" "parts_fit sample_scheme ((\<lambda>_. 0)(MEM_ROW := 1))"
  "parts_fit sample_scheme ((\<lambda>_. 0)(MEM_ROW := 1, MEM_CHANNEL := 1))"
proof -
  have m: "method sample_scheme = method default_translator" by (simp add: sample_scheme_def SetDefaultField_def)
  have "translator_wf (tr\<lparr>defaultField := fd\<rparr>) = translator_wf tr" for tr fd by (auto simp: translator_wf_def offset_bits_def split: option.split)
  then show "translator_wf sample_scheme" using default_translator_wf by (simp add: sample_scheme_def SetDefaultField_def)
  have w: "width (the (method sample_scheme)) MEM_CHANNEL = 1" "width (the (method sample_scheme)) MEM_ROW = 10"
    unfolding m by (simp_all add: default_translator_def SetTranslationMethod_def width_def TranslationMethod_new_def SetOrder_def SetBitWidths_def)
  then show "width (the (method sample_scheme)) MEM_CHANNEL = 1" by simp
  show "defaultField sample_scheme = CHANNEL_FIELD" by (simp add: sample_scheme_def SetDefaultField_def)
  show "parts_fit sample_scheme (\<lambda>_. 0)" "parts_fit sample_scheme ((\<lambda>_. 0)(MEM_CHANNEL := 1))" "parts_fit sample_scheme ((\<lambda>_. 0)(MEM_ROW := 1))"
    "parts_fit sample_scheme ((\<lambda>_. 0)(MEM_ROW := 1, MEM_CHANNEL := 1))"
    by (auto simp: parts_fit_def w)
qed

lemmas sample_parts = encode_total(2) [OF sample_scheme_facts(1)] sample_scheme_facts(4-7)

lemma sample_system_ok:
  "tag_ok sample_system" "replacementPolicy sample_system = Some sample_tags" "translator sample_system = sample_scheme"
  "LRU_isFull sample_tags" "lru_m sample_tags (line_of sample_scheme ((\<lambda>_. 0)(MEM_ROW := 1, MEM_CHANNEL := 1))) = None"
  "lru_m sample_tags (line_of sample_scheme ((\<lambda>_. 0)(MEM_CHANNEL := 1))) = Some (line_of sample_scheme (\<lambda>_. 0))"
  "requests sample_write 0 = Some (NVMainRequest_new\<lparr>rtype := WRITE\<rparr>)"
proof -
  show "replacementPolicy sample_system = Some sample_tags" "translator sample_system = sample_scheme" by (simp_all add: sample_system_def)
  moreover have "tags_ok sample_scheme sample_tags"
    using sample_scheme_facts(1,2) sample_parts(1) [OF sample_parts(2), of MEM_CHANNEL] sample_parts(1) [OF sample_parts(3), of MEM_CHANNEL]
    by (auto simp: tags_ok_def lru_ok_def sample_tags_def split: if_split_asm)
  ultimately show "tag_ok sample_system" by (simp add: tag_ok_def)
  show "LRU_isFull sample_tags" by (simp add: LRU_isFull_def sample_tags_def)
  have "line_of sample_scheme ((\<lambda>_. 0)(MEM_ROW := 1, MEM_CHANNEL := 1)) \<noteq> line_of sample_scheme ((\<lambda>_. 0)(MEM_CHANNEL := 1))"
    using sample_parts(1) [OF sample_parts(3), of MEM_ROW] sample_parts(1) [OF sample_parts(5), of MEM_ROW] by auto
  then show "lru_m sample_tags (line_of sample_scheme ((\<lambda>_. 0)(MEM_ROW := 1, MEM_CHANNEL := 1))) = None" by (simp add: sample_tags_def)
  show "lru_m sample_tags (line_of sample_scheme ((\<lambda>_. 0)(MEM_CHANNEL := 1))) = Some (line_of sample_scheme (\<lambda>_. 0))" by (simp add: sample_tags_def)
  show "requests sample_write 0 = Some (NVMainRequest_new\<lparr>rtype := WRITE\<rparr>)" by (simp add: sample_write_def)
qed

lemma sample_refuses:
  "block_wf (rdata (NVMainRequest_new\<lparr>rtype := WRITE\<rparr>))" "nv_configured sample_system" "prefetchBuffer sample_system = []"
  "\<exists>c cs. memoryControllers sample_system = Ctl_FCFS c # cs \<and> scheduler_IsIssuable c = Some False"
proof -
  show "block_wf (rdata (NVMainRequest_new\<lparr>rtype := WRITE\<rparr>))" by (simp add: NVMainRequest_new_def block_wf_def NVMDataBlock_new_def)
  show "nv_configured sample_system" "prefetchBuffer sample_system = []" by (simp_all add: sample_system_def NVMain_new_def)
  show "\<exists>c cs. memoryControllers sample_system = Ctl_FCFS c # cs \<and> scheduler_IsIssuable c = Some False"
    by (simp add: sample_system_def full_controller_def scheduler_IsIssuable_def scheduler_new_def)
qed

lemma sample_lookup: "\<exists>n' s'. tag_lookup 0 ((\<lambda>_. 0)(MEM_ROW := 1)) (sample_system, sample_write) = Some (None, n', s')"
proof -
  obtain c cs where c: "memoryControllers sample_system = Ctl_FCFS c # cs" "scheduler_IsIssuable c = Some False" using sample_refuses(4) by blast
  show ?thesis
    using lookup_refused [OF sample_system_ok(1,2,4) _ sample_system_ok(7) _ sample_refuses(1) _ sample_refuses(2,3) _ c, of "(\<lambda>_. 0)(MEM_ROW := 1)"]
      sample_system_ok(5) sample_parts(4) sample_scheme_facts(3) unfolding sample_system_ok(3) by auto
qed

text \<open>The default configuration, with the tag cache.\<close>

lemma default_scheme: "SetAddressMappingScheme ''R:SA:RK:BK:CH:C'' m = Some (SetOrder 6 1 3 4 2 5 m)"
proof -
  have "strtok ''R:SA:RK:BK:CH:C'' = [''R'', ''SA'', ''RK'', ''BK'', ''CH'', ''C'']" by (simp add: strtok_def)
  then show ?thesis by (simp add: SetAddressMappingScheme_def token_partition_def)
qed

lemma sample_config:
  "\<exists>n. NVMain_SetConfig (default_params\<lparr>useTagCache := True\<rparr>) True False (TranslationMethod_new blank_method) AddressTranslator_new
      (\<lambda>_. full_controller) (\<lambda>_. default_params) (NVMain_new 0 undefined) = Some n
    \<and> translator_wf (translator n) \<and> 1 \<le> width (the (method (translator n))) MEM_CHANNEL"
proof -
  have i: "to_int 65536 = 65536" "to_int 32 = 32" "to_int 8 = 8" "to_int 2 = 2" by (simp_all add: to_int_def)
  have l: "mlog2 65536 = 16" "mlog2 32 = 5" "mlog2 8 = 3" "mlog2 2 = 1" "mlog2 1 = 0" "mlog2 64 = 6" by (simp_all add: mlog2_def mlog2_loop.simps)
  obtain tr where tr: "system_translator (default_params\<lparr>useTagCache := True\<rparr>) False (TranslationMethod_new blank_method) AddressTranslator_new = Some tr"
    "busWidth tr = 64" "burstLength tr = 8" "method tr = Some (SetOrder 6 1 3 4 2 5 (SetCount 65536 32 8 2 2 1 (SetBitWidths 16 5 3 1 1 0 (TranslationMethod_new blank_method))))"
    by (simp add: system_translator_def i l Let_def default_scheme SetDefaultField_def SetTranslationMethod_def AddressTranslator_new_def)
  have m: "method_wf 6 (the (method tr))"
    unfolding tr(4) by (auto simp: method_wf_def order_wf_def partitions_def width_def SetOrder_def SetCount_def SetBitWidths_def)
  have "translator_wf tr" using m tr(2-4) by (simp add: translator_wf_def offset_bits_def l)
  moreover have "1 \<le> width (the (method tr)) MEM_CHANNEL" by (simp add: tr(4) width_def SetOrder_def SetCount_def SetBitWidths_def)
  ultimately show ?thesis using tr(1) by (simp add: NVMain_SetConfig_def Let_def)
qed

section \<open>Properties\<close>

text \<open>C9 (tag_cache_invariant). From its configuration on, with an address scheme that has a channel 1, the memory
  system keeps the tags consistent through all requests and completions: the map and the list of recency have the
  same keys, once each and no more than the capacity, no key is an address of the DRAM channel, and every line that
  the tags name is one of the DRAM channel.\<close>

theorem tag_cache_invariant:
  assumes "NVMain_SetConfig p True mat m0 dec mk ps g = Some n0" "useTagCache p" "translator_wf (translator n0)"
    "1 \<le> width (the (method (translator n0))) MEM_CHANNEL" "system_run n0 n"
  shows "\<exists>l. replacementPolicy n = Some l \<and> distinct (lru_dq l) \<and> set (lru_dq l) = dom (lru_m l) \<and> int (length (lru_dq l)) \<le> lru_size l
    \<and> (\<forall>a v. lru_m l a = Some v \<longrightarrow> channel_of (translator n) a \<noteq> 0 \<and> channel_of (translator n) v = 0)"
proof -
  have "tag_ok n" by (rule system_run_ok [OF assms(5) SetConfig_ok [OF assms(1-4)]])
  then show ?thesis unfolding tag_ok_def tags_ok_def lru_ok_def by blast
qed

theorem tag_cache_invariant_witness:
  "\<exists>n l. NVMain_SetConfig (default_params\<lparr>useTagCache := True\<rparr>) True False (TranslationMethod_new blank_method) AddressTranslator_new
      (\<lambda>_. full_controller) (\<lambda>_. default_params) (NVMain_new 0 undefined) = Some n
    \<and> replacementPolicy (EnqueuePendingMemoryRequests 3 n) = Some l \<and> set (lru_dq l) = dom (lru_m l)"
proof -
  obtain n where n: "NVMain_SetConfig (default_params\<lparr>useTagCache := True\<rparr>) True False (TranslationMethod_new blank_method) AddressTranslator_new
      (\<lambda>_. full_controller) (\<lambda>_. default_params) (NVMain_new 0 undefined) = Some n" "translator_wf (translator n)" "1 \<le> width (the (method (translator n))) MEM_CHANNEL"
    using sample_config by blast
  have "system_run n (EnqueuePendingMemoryRequests 3 n)" by (rule system_run.enqueue [OF system_run.configured])
  from tag_cache_invariant [OF n(1) _ n(2,3) this] n(1) show ?thesis by auto
qed



text \<open>C39 (writeback_misdirected). A write that replaces a line: the tags move the least recently used DRAM line \<open>v\<close> from
  its old address, the last of the list, to the address \<open>a\<close> of the write. But when the old contents of \<open>v\<close> are written back to
  the non-volatile memory, they go to \<open>a\<close> and not to the old address, because the inverse map has been changed already.\<close>

theorem writeback_misdirected:
  assumes "tag_ok n" "replacementPolicy n = Some l" "parts_fit (translator n) f" "a = line_of (translator n) (f(MEM_CHANNEL := 1))"
    "tag_lookup rp f (n, s) = Some (None, n', s')"
  shows "\<exists>v l' g n2. lru_m l (last (lru_dq l)) = Some v \<and> replacementPolicy n' = Some l' \<and> lru_m l' a = Some v \<and> lru_m l' (last (lru_dq l)) = None
    \<and> writeback_target v n' = Some (a, g, n2) \<and> a \<noteq> last (lru_dq l)"
proof -
  let ?tr = "translator n" let ?f = "f(MEM_CHANNEL := 1)"
  have l: "tags_at ?tr l n" using assms(1,2) by (auto simp: tag_ok_def tags_at_def)
  obtain r where r: "requests s rp = Some r" using assms(5) by (cases "requests s rp") (simp_all add: tag_lookup_def redirect_def Let_def)
  obtain l1 n1 s1 r1 where 1: "tags_at ?tr l1 n1" "lru_m l a = None \<longrightarrow> l1 = l" "requests s1 rp = Some r1" "sent_to ?tr ?f r r1"
    "tag_lookup rp f (n, s) = (case lru_m l a of
        Some v \<Rightarrow> do { (g, st) \<leftarrow> tag_hit rp v (n1, s1); Some (Some g, st) } | None \<Rightarrow> tag_miss rp ?f (n1, s1))"
    using tag_lookup_start [OF l assms(3) r] unfolding assms(4) [symmetric] by (elim exE conjE) (rule that, assumption+)
  have fit: "parts_fit ?tr ?f" using channel_parts_fit assms(3) l by (auto simp: tags_at_def)
  have a: "physicalAddress (address r1) = a" "channel_of ?tr a \<noteq> 0" using line_of_channel [OF l fit] 1(4) assms(4) by (simp_all add: sent_to_def)
  have none: "lru_m l a = None"
  proof (rule ccontr)
    assume "lru_m l a \<noteq> None"
    then obtain v where "lru_m l a = Some v" by blast
    then show False using tag_hit_routes [OF 1(1,3), of v] 1(5) assms(5) by auto
  qed
  then have p: "replacementPolicy n1 = Some l" "tags_at ?tr l n1" using 1(1,2) by (simp_all add: tags_at_def)
  have m: "tag_miss rp ?f (n1, s1) = Some (None, n', s')" using 1(5) assms(5) none by simp
  then have full: "LRU_isFull l" using 1(3) p(1) by (auto simp: tag_miss_def Let_def bind_eq_Some_conv split: if_split_asm)
  let ?n = "count_tag (\<lambda>t. t\<lparr>tagReplacements := tagReplacements t + 1\<rparr>) (count_tag (\<lambda>t. t\<lparr>WRMiss := WRMiss t + 1\<rparr>) (count_tag (\<lambda>t. t\<lparr>reqsMiss := reqsMiss t + 1\<rparr>) n1))"
  have "replace_line a (rdata r1) (?n, s1) = Some (n', s')"
    using m 1(3) p(1) full a(1) by (auto simp: tag_miss_def Let_def bind_eq_Some_conv split: if_split_asm)
  then obtain v l' where v: "lru_m l (last (lru_dq l)) = Some v" "tags_at ?tr l' n'" "lru_m l' a = Some v"
    "last (lru_dq l) \<noteq> a \<longrightarrow> lru_m l' (last (lru_dq l)) = None" "inverseMap n' = (inverseMap n1)(v \<mapsto> a)"
    using replace_at [of ?tr l ?n a] p(2) a(2) full by fastforce
  have na: "a \<noteq> last (lru_dq l)" using none v(1) by auto
  moreover obtain g n2 where "writeback_target v n' = Some (a, g, n2)" using writeback_at [OF v(2) _ fit, of v] v(5) assms(4) by auto
  ultimately show ?thesis using v by (auto simp: tags_at_def)
qed

theorem writeback_misdirected_witness:
  "\<exists>n' s' a v g n2. tag_lookup 0 ((\<lambda>_. 0)(MEM_ROW := 1)) (sample_system, sample_write) = Some (None, n', s')
    \<and> a = line_of sample_scheme ((\<lambda>_. 0)(MEM_ROW := 1, MEM_CHANNEL := 1)) \<and> writeback_target v n' = Some (a, g, n2) \<and> a \<noteq> last (lru_dq sample_tags)"
proof -
  obtain n' s' where t: "tag_lookup 0 ((\<lambda>_. 0)(MEM_ROW := 1)) (sample_system, sample_write) = Some (None, n', s')" using sample_lookup by blast
  show ?thesis using writeback_misdirected [OF sample_system_ok(1,2) _ refl t] t sample_parts(4) unfolding sample_system_ok(3) by blast
qed



end
